(* ===== verification/Prelude.thy ===== *)
theory Prelude
  imports Complex_Main "HOL-Library.Word" "HOL-Library.AList"
begin

text \<open>
  Shared vocabulary of the development: Python values (bytes, strings as lists of code
  points, dictionaries as insertion-ordered association lists), exceptions as values and
  the result type of fallible code, big-endian integer packing as \<^verbatim>\<open>struct.pack\<close>
  does it, and three interface locales: \<^verbatim>\<open>codec\<close> for an encoder and its decoder,
  \<^verbatim>\<open>kv_store\<close> for a keyed store, and \<^verbatim>\<open>machine_inv\<close> for a step function with an
  invariant. Components interpret them on their own operations.
\<close>

section \<open>Rule collections\<close>

named_theorems result_simps \<open>rewriting of results that may be errors\<close>
named_theorems bytes_simps \<open>lengths and slices of byte strings\<close>

section \<open>Exceptions as values\<close>

text \<open>
  One constructor per exception class that the modelled code raises or catches, grouped the
  way the class hierarchy groups them, so that an \<^verbatim>\<open>except\<close> clause for a base class is a
  test of the outer constructor. Messages are not modelled.
\<close>

text \<open>Built-in exceptions and those of the standard library.\<close>

datatype py_exn =
    ValueError | KeyError | TypeError | IndexError | OSError | StructError
  | UnicodeDecodeError | UnicodeEncodeError | TimeoutError | ConnectionError
  | IncompleteReadError | InvalidTag | OverflowError | AttributeError | OperationalError | RuntimeError

text \<open>\<^verbatim>\<open>replay_protection.py\<close>: \<open>ReplayProtectionError\<close> itself and its subclasses.\<close>

datatype replay_exn =
    ReplayProtectionError | FrameDecodeError | NonceMismatchError | DirectionMismatchError
  | PacketTypeMismatchError | TimestampSkewError | UnsupportedVersionError
  | AuthenticationError | ReplayWindowRejectedError | UnknownSessionError

text \<open>\<^verbatim>\<open>handshake_v3.py\<close>: the subclasses of \<open>HandshakeError\<close>.\<close>

datatype handshake_exn =
    HandshakeDeadlineError | HandshakeRejectedError | HandshakeRejectionUnverifiedError
  | HandshakeStateError | HandshakeBusyError | HandshakeRateLimitedError

text \<open>The subclasses of \<open>ProtocolError\<close> (\<^verbatim>\<open>core/protocol.py\<close> and the networking modules).\<close>

datatype proto_exn =
    InvalidHeaderError | PayloadIntegrityError
  | HandshakeDecodeError | HandshakeValidationError \<comment> \<open>both are \<open>HandshakeMessageError\<close>\<close>
  | HandshakeKeyError | KeyConfirmationError | LowOrderPointError | SasError
  | OversizedMessageError | MessageReadTimeoutError
  | HandshakeError handshake_exn

text \<open>\<^verbatim>\<open>session_store.py\<close>.\<close>

datatype store_exn =
    SessionStoreError | CounterExhaustedError | NoSessionError | SessionIdCollisionError

text \<open>The subclasses of \<open>SecureSyncError\<close>.\<close>

datatype sync_exn = UnsafePathError | PushRejectedError | ChunkEngineError | FileWatcherError

text \<open>The domain's own exceptions (\<^verbatim>\<open>chunk_exceptions.py\<close>, \<^verbatim>\<open>delta_exceptions.py\<close>, ...).\<close>

datatype domain_exn =
    ChunkingError | InvalidChunkSizeError | ChunkSourceNotFoundError
  | ChunkSourceAccessError | ChunkVerificationError
  | IncompatibleBaselineError | UnhashedChunkError | ConflictNotFoundError
  | WatcherAlreadyRunningError | InvalidWatchTargetError
  | InvalidHandshakeSignatureError | PeerIdentityMismatchError

datatype exn =
    Py py_exn | Replay replay_exn | Protocol proto_exn | Store store_exn
  | KeyScheduleError | Sync sync_exn | Domain domain_exn

type_synonym 'a result = "exn + 'a"

text \<open>Sequencing: an exception ends the computation, a value is passed on.\<close>

definition rbind :: "'a result \<Rightarrow> ('a \<Rightarrow> 'b result) \<Rightarrow> 'b result" where
  "rbind m f = (case m of Inl e \<Rightarrow> Inl e | Inr x \<Rightarrow> f x)"

text \<open>\<^verbatim>\<open>if bad: raise e\<close>, then the rest.\<close>

definition raise_if :: "bool \<Rightarrow> exn \<Rightarrow> 'a result \<Rightarrow> 'a result" where
  "raise_if bad e m = (if bad then Inl e else m)"

lemma rbind_Inr [simp, result_simps]: "rbind (Inr x) f = f x"
  by (simp add: rbind_def)

lemma rbind_Inl [simp, result_simps]: "rbind (Inl e) f = Inl e"
  by (simp add: rbind_def)

lemma rbind_eq_Inr [result_simps]: "rbind m f = Inr y \<longleftrightarrow> (\<exists>x. m = Inr x \<and> f x = Inr y)"
  by (cases m) simp_all

lemma rbind_eq_Inl [result_simps]:
  "rbind m f = Inl e \<longleftrightarrow> m = Inl e \<or> (\<exists>x. m = Inr x \<and> f x = Inl e)"
  by (cases m) simp_all

lemma raise_if_eq_Inr [result_simps]: "raise_if b e m = Inr y \<longleftrightarrow> \<not> b \<and> m = Inr y"
  by (simp add: raise_if_def)

lemma raise_if_eq_Inl [result_simps]:
  "raise_if b e m = Inl e' \<longleftrightarrow> (b \<and> e' = e) \<or> (\<not> b \<and> m = Inl e')"
  by (auto simp: raise_if_def)

lemma raise_if_False [simp, result_simps]: "\<not> b \<Longrightarrow> raise_if b e m = m"
  by (simp add: raise_if_def)

lemma raise_if_True [simp, result_simps]: "b \<Longrightarrow> raise_if b e m = Inl e"
  by (simp add: raise_if_def)

text \<open>Evaluating a generator expression whose element may raise.\<close>

fun rmap :: "('a \<Rightarrow> 'b result) \<Rightarrow> 'a list \<Rightarrow> 'b list result" where
  "rmap f [] = Inr []"
| "rmap f (x # xs) = rbind (f x) (\<lambda>y. rbind (rmap f xs) (\<lambda>ys. Inr (y # ys)))"

lemma rmap_total: "(\<And>x. x \<in> set xs \<Longrightarrow> f x = Inr (g x)) \<Longrightarrow> rmap f xs = Inr (map g xs)"
  by (induction xs) simp_all

lemma rmap_length: "rmap f xs = Inr ys \<Longrightarrow> length ys = length xs"
  by (induction xs arbitrary: ys) (auto simp: result_simps)

lemma rmap_nth: "rmap f xs = Inr ys \<Longrightarrow> i < length xs \<Longrightarrow> f (xs ! i) = Inr (ys ! i)"
proof (induction xs arbitrary: ys i)
  case (Cons x xs)
  then show ?case by (cases i) (auto simp: result_simps)
qed simp

section \<open>Bytes, strings and slices\<close>

type_synonym byte = "8 word"
type_synonym bytes = "byte list"

text \<open>A Python \<^verbatim>\<open>str\<close> is its list of code points; \<open>codes\<close> reads an ASCII literal.\<close>

type_synonym pystr = "nat list"

definition codes :: "string \<Rightarrow> pystr" where
  "codes s = map of_char s"

text \<open>An ASCII bytes literal \<^verbatim>\<open>b"..."\<close>.\<close>

definition byte_lit :: "string \<Rightarrow> bytes" where
  "byte_lit s = map of_char s"

text \<open>\<^verbatim>\<open>data[a:b]\<close> for \<open>0 \<le> a \<le> b\<close>; like Python it clips at the end.\<close>

definition slice :: "nat \<Rightarrow> nat \<Rightarrow> 'a list \<Rightarrow> 'a list" where
  "slice a b xs = take (b - a) (drop a xs)"

lemma length_slice [bytes_simps]: "length (slice a b xs) = min (b - a) (length xs - a)"
  by (auto simp: slice_def min_def)

lemma slice_append_left [bytes_simps]:
  "b \<le> length xs \<Longrightarrow> slice a b (xs @ ys) = slice a b xs"
  by (cases "a \<le> b") (auto simp: slice_def)

lemma slice_append_right [bytes_simps]:
  "length xs \<le> a \<Longrightarrow> slice a b (xs @ ys) = slice (a - length xs) (b - length xs) ys"
  by (auto simp: slice_def)

lemma slice_all [bytes_simps]: "length xs \<le> b \<Longrightarrow> slice 0 b xs = xs"
  by (simp add: slice_def)

lemma slice_zero [bytes_simps]: "slice 0 b xs = take b xs"
  by (simp add: slice_def)

lemma append_slices: "a \<le> b \<Longrightarrow> take a xs @ slice a b xs = take b xs"
  by (simp add: slice_def flip: take_add)

lemma slice_join: "a \<le> b \<Longrightarrow> b \<le> c \<Longrightarrow> slice a b xs @ slice b c xs = slice a c xs"
proof -
  assume ab: "a \<le> b" and bc: "b \<le> c"
  have "take (c - a) (drop a xs) = take ((b - a) + (c - b)) (drop a xs)" using ab bc by simp
  also have "\<dots> = take (b - a) (drop a xs) @ take (c - b) (drop (b - a) (drop a xs))"
    by (rule take_add)
  also have "drop (b - a) (drop a xs) = drop b xs" using ab by simp
  finally show ?thesis by (simp add: slice_def)
qed

lemma slice_join_assoc:
  "a \<le> b \<Longrightarrow> b \<le> c \<Longrightarrow> slice a b xs @ slice b c xs @ ys = slice a c xs @ ys"
  by (simp add: slice_join flip: append_assoc)

section \<open>Big-endian integers\<close>

text \<open>
  \<open>be_bytes n v\<close> are the \<open>n\<close> low bytes of \<open>v\<close>, most significant first; \<open>be_val\<close> is
  \<^verbatim>\<open>int.from_bytes(bs, "big")\<close>.
\<close>

fun be_bytes :: "nat \<Rightarrow> nat \<Rightarrow> bytes" where
  "be_bytes 0 v = []"
| "be_bytes (Suc n) v = be_bytes n (v div 256) @ [word_of_nat (v mod 256)]"

definition be_val :: "bytes \<Rightarrow> nat" where
  "be_val bs = foldl (\<lambda>a b. a * 256 + unat b) 0 bs"

lemma length_be_bytes [simp, bytes_simps]: "length (be_bytes n v) = n"
  by (induction n arbitrary: v) simp_all

lemma be_val_snoc [simp]: "be_val (bs @ [b]) = be_val bs * 256 + unat b"
  by (simp add: be_val_def)

lemma be_val_Nil [simp]: "be_val [] = 0"
  by (simp add: be_val_def)

lemma unat_byte_less: "unat (b :: byte) < 256"
  using unsigned_less [of b] by simp

lemma unat_byte_mod: "unat (b :: byte) mod 256 = unat b"
  using unat_byte_less [of b] by simp

lemma unat_byte_of_nat: "v < 256 \<Longrightarrow> unat (word_of_nat v :: byte) = v"
  by (simp add: unat_of_nat)

lemma be_val_be_bytes: "v < 256 ^ n \<Longrightarrow> be_val (be_bytes n v) = v"
proof (induction n arbitrary: v)
  case (Suc n)
  then have "v div 256 < 256 ^ n" by (simp add: less_mult_imp_div_less mult.commute)
  with Suc.IH show ?case by (simp add: unat_of_nat)
qed simp

lemma be_bytes_be_val: "be_bytes (length bs) (be_val bs) = bs"
proof (induction bs rule: rev_induct)
  case (snoc b bs)
  have "(be_val bs * 256 + unat b) div 256 = be_val bs"
    using unat_byte_less [of b] by simp
  moreover have "word_of_nat ((be_val bs * 256 + unat b) mod 256) = b"
    using unat_byte_less [of b] by simp
  ultimately show ?case using snoc by simp
qed simp

lemma be_val_less: "be_val bs < 256 ^ length bs"
proof (induction bs rule: rev_induct)
  case (snoc b bs)
  then have "be_val bs + 1 \<le> 256 ^ length bs" by simp
  then have "(be_val bs + 1) * 256 \<le> 256 ^ length bs * 256" by (rule mult_le_mono1)
  then show ?case using unat_byte_less [of b] by simp
qed simp

lemma be_bytes_inj: "be_bytes n v = be_bytes n w \<Longrightarrow> v < 256 ^ n \<Longrightarrow> w < 256 ^ n \<Longrightarrow> v = w"
  by (metis be_val_be_bytes)

text \<open>\<^verbatim>\<open>struct.pack\<close> of one unsigned field of \<open>n\<close> bytes: out of range is \<^verbatim>\<open>struct.error\<close>.\<close>

definition pack_uint :: "nat \<Rightarrow> int \<Rightarrow> bytes result" where
  "pack_uint n v = (if 0 \<le> v \<and> v < 256 ^ n then Inr (be_bytes n (nat v)) else Inl (Py StructError))"

lemma pack_uint_eq_Inr [result_simps]:
  "pack_uint n v = Inr bs \<longleftrightarrow> 0 \<le> v \<and> v < 256 ^ n \<and> bs = be_bytes n (nat v)"
  by (auto simp: pack_uint_def)

lemma nat_less_pow: "v < (256 :: int) ^ n \<Longrightarrow> nat v < 256 ^ n"
  by (cases "0 \<le> v") (simp_all add: nat_less_iff)

lemma be_val_pack: "0 \<le> v \<Longrightarrow> v < (256 :: int) ^ n \<Longrightarrow> int (be_val (be_bytes n (nat v))) = v"
  by (simp add: be_val_be_bytes nat_less_pow)

text \<open>The field of \<open>data[a:b]\<close> as \<^verbatim>\<open>struct.unpack\<close> reads it, and its two round trips.\<close>

abbreviation field :: "nat \<Rightarrow> nat \<Rightarrow> bytes \<Rightarrow> int" where
  "field a b data \<equiv> int (be_val (slice a b data))"

lemma field_less: "field a b data < 256 ^ (b - a)"
proof -
  have "be_val (slice a b data) < 256 ^ length (slice a b data)" by (rule be_val_less)
  also have "(256 :: nat) ^ length (slice a b data) \<le> 256 ^ (b - a)"
    by (rule power_increasing) (simp_all add: length_slice)
  finally have "int (be_val (slice a b data)) < int (256 ^ (b - a))" by (simp only: of_nat_less_iff)
  then show ?thesis by simp
qed

lemma be_bytes_field:
  "a \<le> b \<Longrightarrow> b \<le> length data \<Longrightarrow> n = b - a \<Longrightarrow> be_bytes n (be_val (slice a b data)) = slice a b data"
  using be_bytes_be_val [of "slice a b data"] by (simp add: length_slice)

text \<open>Reading the first field of a record and skipping it.\<close>

lemma slice_be_bytes_here: "slice 0 n (be_bytes n v @ rest) = be_bytes n v"
  by (simp add: slice_def)

lemma slice_be_bytes_end: "slice 0 n (be_bytes n v) = be_bytes n v"
  by (simp add: slice_def)

lemma slice_be_bytes_skip: "n \<le> a \<Longrightarrow> slice a b (be_bytes n v @ rest) = slice (a - n) (b - n) rest"
  by (simp add: slice_append_right)

lemmas record_slices = slice_be_bytes_here slice_be_bytes_end slice_be_bytes_skip

text \<open>A 2-byte length before the bytes: where one such field ends is determined by its front.\<close>

definition prefix16 :: "bytes \<Rightarrow> bytes" where
  "prefix16 bs = be_bytes 2 (length bs) @ bs"

lemma prefix16_cancel:
  assumes "prefix16 a @ x = prefix16 b @ y" "length a < 256 ^ 2" "length b < 256 ^ 2"
  shows "a = b \<and> x = y"
proof -
  have "be_bytes 2 (length a) = be_bytes 2 (length b) \<and> a @ x = b @ y"
    using assms(1) by (simp add: prefix16_def del: be_bytes.simps)
  then show ?thesis using be_bytes_inj [OF _ assms(2,3)] by auto
qed

section \<open>Dictionaries\<close>

text \<open>
  A Python \<^verbatim>\<open>dict\<close> keeps insertion order; assigning an existing key keeps its place and
  a new key goes to the end. \<open>AList.update\<close> and \<open>AList.delete\<close> do exactly that.
\<close>

type_synonym ('k, 'v) dict = "('k \<times> 'v) list"

abbreviation dict_get :: "('k, 'v) dict \<Rightarrow> 'k \<Rightarrow> 'v option" where
  "dict_get d k \<equiv> map_of d k"

abbreviation dict_set :: "'k \<Rightarrow> 'v \<Rightarrow> ('k, 'v) dict \<Rightarrow> ('k, 'v) dict" where
  "dict_set k v d \<equiv> AList.update k v d"

abbreviation dict_pop :: "'k \<Rightarrow> ('k, 'v) dict \<Rightarrow> ('k, 'v) dict" where
  "dict_pop k d \<equiv> AList.delete k d"

abbreviation dict_keys :: "('k, 'v) dict \<Rightarrow> 'k list" where
  "dict_keys d \<equiv> map fst d"

abbreviation wf_dict :: "('k, 'v) dict \<Rightarrow> bool" where
  "wf_dict d \<equiv> distinct (dict_keys d)"

lemma wf_dict_set: "wf_dict d \<Longrightarrow> wf_dict (dict_set k v d)"
  by (rule distinct_update)

lemma wf_dict_pop: "wf_dict d \<Longrightarrow> wf_dict (dict_pop k d)"
  by (rule distinct_delete)

lemma dict_get_set [simp]: "dict_get (dict_set k v d) k' = (if k' = k then Some v else dict_get d k')"
  by (simp add: update_conv')

lemma dict_get_pop [simp]: "dict_get (dict_pop k d) k' = (if k' = k then None else dict_get d k')"
  by (simp add: delete_conv')

lemma dict_get_None: "dict_get d k = None \<longleftrightarrow> k \<notin> set (dict_keys d)"
  by (simp add: map_of_eq_None_iff)

lemma dict_set_new: "k \<notin> set (dict_keys d) \<Longrightarrow> dict_set k v d = d @ [(k, v)]"
  by (induction d) auto

lemma keys_dict_set:
  "dict_keys (dict_set k v d) = (if k \<in> set (dict_keys d) then dict_keys d else dict_keys d @ [k])"
  by (induction d) auto

lemma length_dict_set:
  "length (dict_set k v d) = (if k \<in> set (dict_keys d) then length d else Suc (length d))"
  by (induction d) auto

lemma keys_dict_pop: "dict_keys (dict_pop k d) = filter (\<lambda>k'. k' \<noteq> k) (dict_keys d)"
  by (induction d) auto

lemma length_dict_pop_le: "length (dict_pop k d) \<le> length d"
  by (rule length_delete_le)

lemma length_dict_pop_less: "k \<in> set (dict_keys d) \<Longrightarrow> length (dict_pop k d) < length d"
proof (induction d)
  case (Cons p d)
  have "length (dict_pop k d) \<le> length d" by (rule length_dict_pop_le)
  with Cons show ?case by (cases p) (auto simp: image_iff)
qed simp

section \<open>Interfaces\<close>

text \<open>
  An encoder and its decoder. \<open>valid\<close> are the values the encoder accepts. The first law is
  the round trip; the second says the encoding is canonical: what decodes is exactly what
  the decoded value encodes to.
\<close>

locale codec =
  fixes encode :: "'a \<Rightarrow> bytes result"
    and decode :: "bytes \<Rightarrow> 'a result"
    and valid :: "'a \<Rightarrow> bool"
  assumes encode_total: "valid x \<Longrightarrow> \<exists>bs. encode x = Inr bs"
    and decode_encode: "valid x \<Longrightarrow> encode x = Inr bs \<Longrightarrow> decode bs = Inr x"
    and decode_canonical: "decode bs = Inr x \<Longrightarrow> valid x \<and> encode x = Inr bs"
begin

lemma encode_inject:
  assumes "valid x" "valid y" "encode x = Inr bs" "encode y = Inr bs"
  shows "x = y"
proof -
  from assms have "decode bs = Inr x" "decode bs = Inr y"
    by (auto intro: decode_encode)
  then show ?thesis by simp
qed

lemma decode_inject: "decode bs = Inr x \<Longrightarrow> decode cs = Inr x \<Longrightarrow> bs = cs"
  by (drule decode_canonical)+ simp

lemma decodable_iff: "(\<exists>x. decode bs = Inr x) \<longleftrightarrow> (\<exists>x. valid x \<and> encode x = Inr bs)"
  using decode_canonical decode_encode by blast

end

text \<open>A keyed store: what a lookup returns after a write and after a removal.\<close>

locale kv_store =
  fixes get :: "'s \<Rightarrow> 'k \<Rightarrow> 'v option"
    and put :: "'s \<Rightarrow> 'k \<Rightarrow> 'v \<Rightarrow> 's"
    and del :: "'s \<Rightarrow> 'k \<Rightarrow> 's"
  assumes get_put: "get (put s k v) k' = (if k' = k then Some v else get s k')"
    and get_del: "get (del s k) k' = (if k' = k then None else get s k')"
begin

lemma last_write_wins: "get (put (put s k v) k w) = get (put s k w)"
  by (rule ext) (simp add: get_put)

lemma put_commute: "k \<noteq> k' \<Longrightarrow> get (put (put s k v) k' w) = get (put (put s k' w) k v)"
  by (rule ext) (simp add: get_put)

lemma del_put: "get (del (put s k v) k) = get (del s k)"
  by (rule ext) (simp add: get_put get_del)

lemma get_put_list:
  "get (foldl (\<lambda>s (k, v). put s k v) s kvs) k =
     (case map_of (rev kvs) k of None \<Rightarrow> get s k | Some v \<Rightarrow> Some v)"
proof (induction kvs arbitrary: s rule: rev_induct)
  case (snoc kv kvs)
  then show ?case by (cases kv) (simp add: get_put)
qed simp

end

text \<open>A step function and an invariant that every step keeps: the invariant of every run.\<close>

locale machine_inv =
  fixes step :: "'e \<Rightarrow> 's \<Rightarrow> 's"
    and inv :: "'s \<Rightarrow> bool"
  assumes step_inv: "inv s \<Longrightarrow> inv (step e s)"
begin

lemma run_inv: "inv s \<Longrightarrow> inv (fold step es s)"
  by (induction es arbitrary: s) (simp_all add: step_inv)

end

end
