(* ===== verification/Utf8.thy ===== *)
theory Utf8
  imports Prelude
begin

text \<open>
  \<^verbatim>\<open>str.encode("utf-8")\<close> and \<^verbatim>\<open>bytes.decode("utf-8")\<close> as CPython's strict codec defines them:
  one to four bytes per code point, no overlong forms, no surrogates, nothing above U+10FFFF. A
  \<^verbatim>\<open>str\<close> is its list of code points. The development uses it wherever a device id, path or label
  is turned into bytes.
\<close>

section \<open>One code point\<close>

definition scalar :: "nat \<Rightarrow> bool" where
  "scalar c \<longleftrightarrow> c < 0xD800 \<or> (0xE000 \<le> c \<and> c < 0x110000)"

definition utf8_char :: "nat \<Rightarrow> nat list" where
  "utf8_char c =
     (if c < 0x80 then [c]
      else if c < 0x800 then [0xC0 + c div 64, 0x80 + c mod 64]
      else if c < 0x10000 then [0xE0 + c div 64 div 64, 0x80 + c div 64 mod 64, 0x80 + c mod 64]
      else [0xF0 + c div 64 div 64 div 64, 0x80 + c div 64 div 64 mod 64, 0x80 + c div 64 mod 64,
            0x80 + c mod 64])"

abbreviation cont :: "nat \<Rightarrow> bool" where
  "cont b \<equiv> 0x80 \<le> b \<and> b < 0xC0"

text \<open>The value of one more continuation byte.\<close>

definition more :: "nat \<Rightarrow> nat \<Rightarrow> nat" where
  "more q b = q * 64 + (b - 0x80)"

text \<open>The code point at the front of the input and what follows it.\<close>

fun utf8_next :: "nat list \<Rightarrow> (nat \<times> nat list) option" where
  "utf8_next [] = None"
| "utf8_next (b0 # bs) =
     (if b0 < 0x80 then Some (b0, bs)
      else if 0xC2 \<le> b0 \<and> b0 < 0xE0 then
        (case bs of b1 # r \<Rightarrow>
           if cont b1 then Some (more (b0 - 0xC0) b1, r) else None
         | _ \<Rightarrow> None)
      else if 0xE0 \<le> b0 \<and> b0 < 0xF0 then
        (case bs of b1 # b2 # r \<Rightarrow>
           let v = more (more (b0 - 0xE0) b1) b2 in
           if cont b1 \<and> cont b2 \<and> 0x800 \<le> v \<and> scalar v then Some (v, r) else None
         | _ \<Rightarrow> None)
      else if 0xF0 \<le> b0 \<and> b0 < 0xF5 then
        (case bs of b1 # b2 # b3 # r \<Rightarrow>
           let v = more (more (more (b0 - 0xF0) b1) b2) b3 in
           if cont b1 \<and> cont b2 \<and> cont b3 \<and> 0x10000 \<le> v \<and> v < 0x110000 then Some (v, r) else None
         | _ \<Rightarrow> None)
      else None)"

lemma digit64: "c div 64 = q" "c mod 64 = b - 0x80" if "c = more q b" "cont b"
proof -
  have "b - 0x80 < 64" using that(2) by linarith
  then show "c div 64 = q" "c mod 64 = b - 0x80" by (simp_all only: that(1) more_def) simp_all
qed

lemma more_less: "cont b \<Longrightarrow> more q b < 64 * q + 64"
  unfolding more_def by linarith

lemma more_digits: "more (c div 64) (0x80 + c mod 64) = c"
  by (simp add: more_def)

lemma utf8_next_char: "scalar c \<Longrightarrow> utf8_next (utf8_char c @ rest) = Some (c, rest)"
proof -
  assume s: "scalar c"
  let ?q1 = "c div 64" and ?q2 = "c div 64 div 64" and ?q3 = "c div 64 div 64 div 64"
  have d: "?q1 * 64 + c mod 64 = c" "?q2 * 64 + ?q1 mod 64 = ?q1" "?q3 * 64 + ?q2 mod 64 = ?q2"
    by simp_all
  have m: "c mod 64 < 64" "?q1 mod 64 < 64" "?q2 mod 64 < 64" by simp_all
  consider "c < 0x80" | "0x80 \<le> c" "c < 0x800" | "0x800 \<le> c" "c < 0x10000" | "0x10000 \<le> c"
    by linarith
  then show ?thesis
  proof cases
    case 1 then show ?thesis by (simp add: utf8_char_def)
  next
    case 2
    then have "2 \<le> ?q1" "?q1 < 32" using d m by linarith+
    moreover have "utf8_char c = [0xC0 + ?q1, 0x80 + c mod 64]" using 2 by (simp add: utf8_char_def)
    ultimately show ?thesis using m by (simp add: more_digits)
  next
    case 3
    then have "?q2 < 16" using d m by linarith
    moreover have "utf8_char c = [0xE0 + ?q2, 0x80 + ?q1 mod 64, 0x80 + c mod 64]"
      using 3 by (simp add: utf8_char_def)
    ultimately show ?thesis using 3 m s by (simp add: more_digits)
  next
    case 4
    then have "?q3 < 5" using d m s unfolding scalar_def by linarith
    moreover have "utf8_char c = [0xF0 + ?q3, 0x80 + ?q2 mod 64, 0x80 + ?q1 mod 64, 0x80 + c mod 64]"
      using 4 by (simp add: utf8_char_def)
    ultimately show ?thesis using 4 m s by (simp add: more_digits scalar_def)
  qed
qed

lemma utf8_char_next: "utf8_next bs = Some (c, rest) \<Longrightarrow> scalar c \<and> bs = utf8_char c @ rest"
proof (cases bs)
  case (Cons b0 bs')
  assume n: "utf8_next bs = Some (c, rest)"
  consider "b0 < 0x80" | "0xC2 \<le> b0" "b0 < 0xE0" | "0xE0 \<le> b0" "b0 < 0xF0" | "0xF0 \<le> b0" "b0 < 0xF5"
    using n Cons by (auto split: if_splits)
  then show ?thesis
  proof cases
    case 1 then show ?thesis using n Cons by (simp add: utf8_char_def scalar_def)
  next
    case 2
    then obtain b1 where b: "bs' = b1 # rest" "cont b1" "c = more (b0 - 0xC0) b1"
      using n Cons by (auto split: list.splits if_splits)
    have "c div 64 = b0 - 0xC0" "c mod 64 = b1 - 0x80" using digit64 [OF b(3,2)] by blast+
    moreover have "0x80 \<le> c" "c < 0x800" using b 2 unfolding more_def by linarith+
    ultimately show ?thesis using b 2 Cons by (simp add: utf8_char_def scalar_def)
  next
    case 3
    then obtain b1 b2 where b: "bs' = b1 # b2 # rest" "cont b1" "cont b2" "0x800 \<le> c" "scalar c"
        "c = more (more (b0 - 0xE0) b1) b2"
      using n Cons by (auto simp: Let_def split: list.splits if_splits)
    have q: "c div 64 = more (b0 - 0xE0) b1" "c mod 64 = b2 - 0x80"
      using digit64 [OF b(6,3)] by blast+
    have "c div 64 div 64 = b0 - 0xE0" "c div 64 mod 64 = b1 - 0x80" using digit64 [OF q(1) b(2)] by blast+
    moreover have "c < 0x10000"
      using more_less [OF b(3), of "more (b0 - 0xE0) b1"] more_less [OF b(2), of "b0 - 0xE0"] b(6) 3
      by linarith
    ultimately show ?thesis using b 3 Cons q by (simp add: utf8_char_def)
  next
    case 4
    then obtain b1 b2 b3 where b: "bs' = b1 # b2 # b3 # rest" "cont b1" "cont b2" "cont b3"
        "0x10000 \<le> c" "c < 0x110000"
        "c = more (more (more (b0 - 0xF0) b1) b2) b3"
      using n Cons by (auto simp: Let_def split: list.splits if_splits)
    have q: "c div 64 = more (more (b0 - 0xF0) b1) b2" "c mod 64 = b3 - 0x80"
      using digit64 [OF b(7,4)] by blast+
    have r: "c div 64 div 64 = more (b0 - 0xF0) b1" "c div 64 mod 64 = b2 - 0x80"
      using digit64 [OF q(1) b(3)] by blast+
    have "c div 64 div 64 div 64 = b0 - 0xF0" "c div 64 div 64 mod 64 = b1 - 0x80"
      using digit64 [OF r(1) b(2)] by blast+
    then show ?thesis using b 4 Cons q r by (simp add: utf8_char_def scalar_def)
  qed
qed simp

lemma utf8_next_shorter: "utf8_next bs = Some (c, rest) \<Longrightarrow> length rest < length bs"
  by (drule utf8_char_next) (simp add: utf8_char_def)

lemma utf8_char_byte: "scalar c \<Longrightarrow> b \<in> set (utf8_char c) \<Longrightarrow> b < 256"
  unfolding utf8_char_def scalar_def by (auto split: if_splits; linarith)

section \<open>Whole strings\<close>

function utf8_points :: "nat list \<Rightarrow> pystr result" where
  "utf8_points bs =
     (if bs = [] then Inr []
      else case utf8_next bs of
        None \<Rightarrow> Inl (Py UnicodeDecodeError)
      | Some (c, rest) \<Rightarrow> rbind (utf8_points rest) (\<lambda>cs. Inr (c # cs)))"
  by pat_completeness auto
termination
  by (relation "measure length") (auto dest: utf8_next_shorter)

declare utf8_points.simps [simp del]

definition utf8_encode :: "pystr \<Rightarrow> bytes result" where
  "utf8_encode s =
     (if list_all scalar s then Inr (map word_of_nat (concat (map utf8_char s)))
      else Inl (Py UnicodeEncodeError))"

definition utf8_decode :: "bytes \<Rightarrow> pystr result" where
  "utf8_decode bs = utf8_points (map unat bs)"

lemma utf8_points_concat: "list_all scalar s \<Longrightarrow> utf8_points (concat (map utf8_char s)) = Inr s"
proof (induction s)
  case (Cons c s)
  then have "utf8_next (concat (map utf8_char (c # s))) = Some (c, concat (map utf8_char s))"
    by (simp add: utf8_next_char)
  moreover have "utf8_char c \<noteq> []" by (simp add: utf8_char_def)
  ultimately show ?case using Cons by (simp add: utf8_points.simps [of "utf8_char c @ _"])
qed (simp add: utf8_points.simps)

lemma utf8_points_eq_Inr: "utf8_points bs = Inr s \<Longrightarrow> list_all scalar s \<and> bs = concat (map utf8_char s)"
proof (induction bs arbitrary: s rule: utf8_points.induct)
  case (1 bs)
  show ?case
  proof (cases "bs = []")
    case True
    then show ?thesis using 1(2) by (simp add: utf8_points.simps)
  next
    case False
    then obtain c rest cs where n: "utf8_next bs = Some (c, rest)" and r: "utf8_points rest = Inr cs"
        and s: "s = c # cs"
      using 1(2) by (subst (asm) utf8_points.simps) (auto simp: result_simps split: option.splits)
    from 1(1) [OF False n _ r] utf8_char_next [OF n] s show ?thesis by simp
  qed
qed

interpretation utf8: codec utf8_encode utf8_decode "list_all scalar"
proof
  fix s bs
  show "\<exists>bs. utf8_encode s = Inr bs" if "list_all scalar s" using that by (simp add: utf8_encode_def)
  show "utf8_decode bs = Inr s" if s: "list_all scalar s" "utf8_encode s = Inr bs"
  proof -
    have "map unat (map word_of_nat (concat (map utf8_char s)) :: bytes) = concat (map utf8_char s)"
      using s(1) by (auto simp: list_all_iff intro!: map_idI unat_byte_of_nat utf8_char_byte)
    then show ?thesis using s by (auto simp: utf8_encode_def utf8_decode_def utf8_points_concat)
  qed
  show "list_all scalar s \<and> utf8_encode s = Inr bs" if "utf8_decode bs = Inr s"
  proof -
    have s: "list_all scalar s" "map unat bs = concat (map utf8_char s)"
      using that utf8_points_eq_Inr by (auto simp: utf8_decode_def)
    have "map word_of_nat (map unat bs) = bs" by (simp add: map_idI)
    then show ?thesis using s by (simp add: utf8_encode_def)
  qed
qed

lemma utf8_encode_inject: "utf8_encode s = Inr bs \<Longrightarrow> utf8_encode t = Inr bs \<Longrightarrow> s = t"
  by (rule utf8.encode_inject) (auto simp: utf8_encode_def split: if_splits)

end
