(* ===== verification/Frames.thy ===== *)
theory Frames
  imports Utf8
begin

text \<open>
  The wire frame of \<^verbatim>\<open>networking/replay_protection.py\<close>: the plaintext frame header, the whole
  frame, directions and roles, the deterministic nonce, the associated data and the timestamp
  check. The AEAD payload type comes from \<^verbatim>\<open>domain/crypto.py\<close>.
\<close>

section \<open>Constants and records\<close>

definition FRAME_VERSION :: int where "FRAME_VERSION = 2"
definition DIRECTION_INITIATOR_TO_RESPONDER :: int where "DIRECTION_INITIATOR_TO_RESPONDER = 0"
definition DIRECTION_RESPONDER_TO_INITIATOR :: int where "DIRECTION_RESPONDER_TO_INITIATOR = 1"
definition ROLE_INITIATOR :: int where "ROLE_INITIATOR = 0"
definition ROLE_RESPONDER :: int where "ROLE_RESPONDER = 1"
definition SESSION_ID_SIZE :: nat where "SESSION_ID_SIZE = 8"
definition FRAME_HEADER_SIZE :: nat where "FRAME_HEADER_SIZE = 11"
definition DEFAULT_TIMESTAMP_SKEW_MS :: int where "DEFAULT_TIMESTAMP_SKEW_MS = 300000"
definition KEY_SIZE :: nat where "KEY_SIZE = 32"
definition NONCE_SIZE :: nat where "NONCE_SIZE = 12"
definition TAG_SIZE :: nat where "TAG_SIZE = 16"

definition MIN_FRAME_SIZE :: nat where
  "MIN_FRAME_SIZE = FRAME_HEADER_SIZE + NONCE_SIZE + TAG_SIZE"

lemmas frame_sizes = SESSION_ID_SIZE_def FRAME_HEADER_SIZE_def NONCE_SIZE_def TAG_SIZE_def
  MIN_FRAME_SIZE_def
lemmas role_defs = ROLE_INITIATOR_def ROLE_RESPONDER_def
lemmas direction_defs = DIRECTION_INITIATOR_TO_RESPONDER_def DIRECTION_RESPONDER_TO_INITIATOR_def

record encrypted_payload =
  ep_ciphertext :: bytes
  ep_nonce :: bytes
  ep_tag :: bytes

record frame_header =
  fh_version :: int
  fh_direction :: int
  fh_packet_type :: int
  fh_session_id :: bytes

section \<open>Frames\<close>

text \<open>\<^verbatim>\<open>struct.pack(">B", v & 0xFF)\<close>: the low eight bits of \<open>v\<close>.\<close>

definition pack_low_byte :: "int \<Rightarrow> bytes" where
  "pack_low_byte v = [word_of_int v]"

definition pack_frame_header :: "int \<Rightarrow> int \<Rightarrow> int \<Rightarrow> bytes \<Rightarrow> bytes result" where
  "pack_frame_header version direction packet_type session_id =
     raise_if (length session_id \<noteq> SESSION_ID_SIZE) (Replay FrameDecodeError)
       (Inr (pack_low_byte version @ pack_low_byte direction @ pack_low_byte packet_type @ session_id))"

definition unpack_frame_header :: "bytes \<Rightarrow> (int \<times> int \<times> int \<times> bytes) result" where
  "unpack_frame_header data =
     raise_if (length data < FRAME_HEADER_SIZE) (Replay FrameDecodeError)
       (let h = take FRAME_HEADER_SIZE data in
        Inr (uint (h ! 0), uint (h ! 1), uint (h ! 2), drop 3 h))"

definition encode_frame ::
  "int \<Rightarrow> int \<Rightarrow> bytes \<Rightarrow> bytes \<Rightarrow> bytes \<Rightarrow> bytes \<Rightarrow> int \<Rightarrow> bytes result" where
  "encode_frame direction packet_type session_id nonce ciphertext tag version =
     raise_if (length nonce \<noteq> NONCE_SIZE) (Replay FrameDecodeError)
    (raise_if (length tag \<noteq> TAG_SIZE) (Replay FrameDecodeError)
    (rbind (pack_frame_header version direction packet_type session_id) (\<lambda>h.
       Inr (h @ nonce @ ciphertext @ tag))))"

definition split_frame :: "bytes \<Rightarrow> (frame_header \<times> bytes \<times> encrypted_payload) result" where
  "split_frame data =
     raise_if (length data < MIN_FRAME_SIZE) (Replay FrameDecodeError)
    (rbind (unpack_frame_header data) (\<lambda>(version, direction, packet_type, session_id).
     (let offset = FRAME_HEADER_SIZE;
          nonce = slice offset (offset + NONCE_SIZE) data;
          offset = offset + NONCE_SIZE;
          ciphertext = slice offset (length data - TAG_SIZE) data;
          tag = drop (length data - TAG_SIZE) data
      in Inr (\<lparr>fh_version = version, fh_direction = direction, fh_packet_type = packet_type,
               fh_session_id = session_id\<rparr>, nonce,
              \<lparr>ep_ciphertext = ciphertext, ep_nonce = nonce, ep_tag = tag\<rparr>))))"

section \<open>Directions\<close>

definition outgoing_direction :: "int \<Rightarrow> int result" where
  "outgoing_direction role =
     (if role = ROLE_INITIATOR then Inr DIRECTION_INITIATOR_TO_RESPONDER
      else if role = ROLE_RESPONDER then Inr DIRECTION_RESPONDER_TO_INITIATOR
      else Inl (Replay ReplayProtectionError))"

definition incoming_direction :: "int \<Rightarrow> int result" where
  "incoming_direction role =
     outgoing_direction (if role = ROLE_INITIATOR then ROLE_RESPONDER else ROLE_INITIATOR)"

section \<open>Nonce, associated data and timestamp\<close>

definition derive_nonce :: "int \<Rightarrow> int \<Rightarrow> bytes result" where
  "derive_nonce direction counter =
     raise_if (direction \<noteq> DIRECTION_INITIATOR_TO_RESPONDER \<and>
               direction \<noteq> DIRECTION_RESPONDER_TO_INITIATOR) (Replay ReplayProtectionError)
    (raise_if (counter \<le> 0) (Replay ReplayProtectionError)
    (rbind (pack_uint 1 direction) (\<lambda>d. rbind (pack_uint 8 counter) (\<lambda>c. Inr (d @ c @ [0, 0, 0])))))"

definition length_prefixed_h :: "bytes \<Rightarrow> bytes result" where
  "length_prefixed_h value = rbind (pack_uint 2 (int (length value))) (\<lambda>l. Inr (l @ value))"

definition build_aad :: "int \<Rightarrow> int \<Rightarrow> int \<Rightarrow> bytes \<Rightarrow> bytes \<Rightarrow> bytes \<Rightarrow> bytes result" where
  "build_aad version direction packet_type session_id sender_id receiver_id =
     rbind (length_prefixed_h sender_id) (\<lambda>s. rbind (length_prefixed_h receiver_id) (\<lambda>r.
       Inr ((pack_low_byte version @ pack_low_byte direction @ pack_low_byte packet_type) @
            session_id @ s @ r)))"

definition check_timestamp_skew :: "int \<Rightarrow> int \<Rightarrow> int \<Rightarrow> bool" where
  "check_timestamp_skew timestamp_ms now_ms max_skew_ms \<longleftrightarrow> \<bar>now_ms - timestamp_ms\<bar> \<le> max_skew_ms"

section \<open>The frame codec\<close>

definition is_byte :: "int \<Rightarrow> bool" where
  "is_byte v \<longleftrightarrow> 0 \<le> v \<and> v < 256"

lemma uint_pack_low_byte: "is_byte v \<Longrightarrow> uint (word_of_int v :: byte) = v"
  by (simp add: is_byte_def uint_word_of_int_eq take_bit_int_eq_self)

lemma is_byte_uint: "is_byte (uint (b :: byte))"
  using uint_lt2p [of b] by (simp add: is_byte_def)

type_synonym frame = "frame_header \<times> bytes \<times> encrypted_payload"

definition frame_bytes :: "frame \<Rightarrow> bytes result" where
  "frame_bytes = (\<lambda>(h, nonce, p). encode_frame (fh_direction h) (fh_packet_type h) (fh_session_id h)
     nonce (ep_ciphertext p) (ep_tag p) (fh_version h))"

definition valid_frame :: "frame \<Rightarrow> bool" where
  "valid_frame = (\<lambda>(h, nonce, p). is_byte (fh_version h) \<and> is_byte (fh_direction h) \<and>
     is_byte (fh_packet_type h) \<and> length (fh_session_id h) = SESSION_ID_SIZE \<and>
     length nonce = NONCE_SIZE \<and> ep_nonce p = nonce \<and> length (ep_tag p) = TAG_SIZE)"

lemma split_frame_append:
  assumes "length sid = 8" "length nonce = 12" "length tag = 16"
  shows "split_frame ([v, d, t] @ sid @ nonce @ ct @ tag) =
    Inr (\<lparr>fh_version = uint v, fh_direction = uint d, fh_packet_type = uint t, fh_session_id = sid\<rparr>,
         nonce, \<lparr>ep_ciphertext = ct, ep_nonce = nonce, ep_tag = tag\<rparr>)"
proof -
  define data where "data = [v, d, t] @ sid @ nonce @ ct @ tag"
  have len: "length data = 39 + length ct" using assms by (simp add: data_def)
  have h: "take 11 data = [v, d, t] @ sid" using assms by (simp add: data_def)
  have n: "slice 11 23 data = nonce"
    using assms slice_append_right [of "[v, d, t] @ sid" 11 23 "nonce @ ct @ tag"]
    by (simp add: data_def slice_def)
  have c: "slice 23 (23 + length ct) data = ct"
    using assms slice_append_right [of "[v, d, t] @ sid @ nonce" 23 "23 + length ct" "ct @ tag"]
    by (simp add: data_def slice_def)
  have "drop (length ([v, d, t] @ sid @ nonce @ ct)) (([v, d, t] @ sid @ nonce @ ct) @ tag) = tag"
    by simp
  then have g: "drop (23 + length ct) data = tag" using assms by (simp add: data_def)
  show ?thesis
    unfolding data_def [symmetric] split_frame_def unpack_frame_header_def frame_sizes Let_def
    by (simp add: len h n c g)
qed

lemma frame_eq_append:
  assumes "39 \<le> length data"
  shows "\<exists>v d t sid nonce ct tag. data = [v, d, t] @ sid @ nonce @ ct @ tag \<and>
    length sid = 8 \<and> length nonce = 12 \<and> length tag = 16"
proof (intro exI conjI)
  have "[data ! 0, data ! 1, data ! 2] = take 3 data"
    using assms by (auto simp: list_eq_iff_nth_eq less_Suc_eq nth_Cons' numeral_eq_Suc)
  moreover have "drop (length data - 16) data = slice (length data - 16) (length data) data"
    by (simp add: slice_def)
  ultimately show "data = [data ! 0, data ! 1, data ! 2] @ slice 3 11 data @ slice 11 23 data @
      slice 23 (length data - 16) data @ drop (length data - 16) data"
    using assms by (simp add: slice_join slice_join_assoc append_slices flip: slice_zero) (simp add: slice_all)
qed (use assms in \<open>auto simp: length_slice\<close>)

interpretation frame_codec: codec frame_bytes split_frame valid_frame
proof
  fix f :: frame and bs
  obtain h nonce p where f: "f = (h, nonce, p)" by (cases f)
  show "\<exists>bs. frame_bytes f = Inr bs" if "valid_frame f"
    using that by (simp add: f frame_bytes_def valid_frame_def encode_frame_def pack_frame_header_def)
  show "split_frame bs = Inr f" if ok: "valid_frame f" "frame_bytes f = Inr bs"
  proof -
    have "bs = [word_of_int (fh_version h), word_of_int (fh_direction h), word_of_int (fh_packet_type h)] @
        fh_session_id h @ nonce @ ep_ciphertext p @ ep_tag p"
      using ok(2) by (auto simp: f frame_bytes_def encode_frame_def pack_frame_header_def
          pack_low_byte_def result_simps)
    then show ?thesis
      using ok(1) split_frame_append [of "fh_session_id h" nonce "ep_tag p"]
      by (simp add: f valid_frame_def frame_sizes uint_pack_low_byte)
  qed
  show "valid_frame f \<and> frame_bytes f = Inr bs" if ok: "split_frame bs = Inr f"
  proof -
    have "39 \<le> length bs" using ok by (auto simp: split_frame_def frame_sizes result_simps)
    then obtain v d t sid n ct tag where bs: "bs = [v, d, t] @ sid @ n @ ct @ tag"
        and len: "length sid = 8" "length n = 12" "length tag = 16"
      using frame_eq_append by blast
    show ?thesis
      using ok split_frame_append [OF len, of v d t ct] unfolding bs
      by (auto simp: valid_frame_def frame_bytes_def is_byte_uint len frame_sizes encode_frame_def
          pack_frame_header_def pack_low_byte_def)
  qed
qed

section \<open>Nonces and associated data are injective\<close>

lemma derive_nonce_eq_Inr [result_simps]:
  "derive_nonce d c = Inr n \<longleftrightarrow>
     (d = DIRECTION_INITIATOR_TO_RESPONDER \<or> d = DIRECTION_RESPONDER_TO_INITIATOR) \<and>
     0 < c \<and> c < 256 ^ 8 \<and> n = be_bytes 1 (nat d) @ be_bytes 8 (nat c) @ [0, 0, 0]"
  by (auto simp: derive_nonce_def result_simps direction_defs)

lemma derive_nonce_length: "derive_nonce d c = Inr n \<Longrightarrow> length n = NONCE_SIZE"
  by (auto simp: result_simps NONCE_SIZE_def)

text \<open>The receiver reads the counter back from bytes 1 to 8.\<close>

lemma derive_nonce_counter: "derive_nonce d c = Inr n \<Longrightarrow> field 1 9 n = c"
  by (auto simp: result_simps slice_be_bytes_skip slice_be_bytes_here be_val_pack
      simp del: be_bytes.simps)

lemma derive_nonce_inject:
  assumes "derive_nonce d c = Inr n" "derive_nonce d' c' = Inr n"
  shows "d = d' \<and> c = c'"
proof -
  have "be_bytes 1 (nat d) = be_bytes 1 (nat d')" using assms by (auto simp: result_simps)
  then have "nat d = nat d'"
    by (rule be_bytes_inj) (use assms in \<open>auto simp: result_simps direction_defs\<close>)
  then have "d = d'" using assms by (auto simp: result_simps direction_defs)
  moreover have "c = c'" using derive_nonce_counter assms by blast
  ultimately show ?thesis by blast
qed

lemma build_aad_eq_Inr [result_simps]:
  "build_aad v d t sid s r = Inr a \<longleftrightarrow>
     length s < 256 ^ 2 \<and> length r < 256 ^ 2 \<and>
     a = [word_of_int v, word_of_int d, word_of_int t] @ sid @ prefix16 s @ prefix16 r"
  by (auto simp: build_aad_def length_prefixed_h_def result_simps pack_low_byte_def prefix16_def
      simp del: be_bytes.simps)

lemma build_aad_inject:
  assumes "build_aad v d t sid s r = Inr a" "build_aad v' d' t' sid' s' r' = Inr a"
    and "length sid = length sid'" "is_byte v" "is_byte d" "is_byte t" "is_byte v'" "is_byte d'" "is_byte t'"
  shows "v = v' \<and> d = d' \<and> t = t' \<and> sid = sid' \<and> s = s' \<and> r = r'"
proof -
  have *: "(word_of_int v :: byte) = word_of_int v'" "(word_of_int d :: byte) = word_of_int d'"
    "(word_of_int t :: byte) = word_of_int t'" "sid = sid'"
    "prefix16 s @ prefix16 r @ [] = prefix16 s' @ prefix16 r' @ []"
    using assms(1-3) by (auto simp: result_simps)
  have "s = s' \<and> r = r'"
    using *(5) assms(1,2) prefix16_cancel [of s "prefix16 r @ []" s' "prefix16 r' @ []"]
      prefix16_cancel [of r "[]" r' "[]"] by (simp add: result_simps)
  with * show ?thesis using assms(4-9) uint_pack_low_byte by metis
qed

lemma directions_meet:
  assumes "{r, r'} = {ROLE_INITIATOR, ROLE_RESPONDER}"
  shows "outgoing_direction r = incoming_direction r'"
  using assms by (auto simp: incoming_direction_def doubleton_eq_iff role_defs)

section \<open>Properties\<close>

text \<open>
  The frame format is a bijection between well-formed frames and byte strings of at least 39
  bytes: \<^verbatim>\<open>split_frame\<close> returns exactly the fields \<^verbatim>\<open>encode_frame\<close> wrote, every byte string it
  parses is the encoding of what it returns, and the only rejected inputs are the short ones, with
  \<^verbatim>\<open>FrameDecodeError\<close>.
\<close>

theorem frame_round_trip:
  "(\<forall>f bs. valid_frame f \<longrightarrow> frame_bytes f = Inr bs \<longrightarrow> split_frame bs = Inr f) \<and>
   (\<forall>f bs. split_frame bs = Inr f \<longrightarrow> valid_frame f \<and> frame_bytes f = Inr bs) \<and>
   (\<forall>bs. split_frame bs = Inl (Replay FrameDecodeError) \<longleftrightarrow> length bs < MIN_FRAME_SIZE) \<and>
   (\<forall>bs. MIN_FRAME_SIZE \<le> length bs \<longrightarrow> (\<exists>f. split_frame bs = Inr f))"
proof (intro conjI allI)
  show "split_frame bs = Inl (Replay FrameDecodeError) \<longleftrightarrow> length bs < MIN_FRAME_SIZE" for bs
    by (cases "length bs < MIN_FRAME_SIZE")
      (simp_all add: split_frame_def unpack_frame_header_def frame_sizes Let_def)
  show "MIN_FRAME_SIZE \<le> length bs \<longrightarrow> (\<exists>f. split_frame bs = Inr f)" for bs
    by (simp add: split_frame_def unpack_frame_header_def frame_sizes Let_def)
qed (use frame_codec.decode_encode frame_codec.decode_canonical in blast)+

theorem frame_round_trip_witness:
  "\<exists>f. split_frame (replicate 39 7) = Inr f \<and> valid_frame f \<and> frame_bytes f = Inr (replicate 39 7)"
proof -
  have "MIN_FRAME_SIZE \<le> length (replicate 39 (7 :: byte))" by (simp add: frame_sizes)
  then have "\<exists>f. split_frame (replicate 39 7) = Inr f" using frame_round_trip by blast
  then show ?thesis using frame_round_trip by blast
qed

text \<open>
  Two messages never share a nonce or associated data: equal nonces mean the same direction and
  the same counter (which the receiver reads back from bytes 1 to 8), and equal associated data mean
  the same header fields, session, sender and receiver, so bytes cannot be moved between the ids.
\<close>

theorem nonce_and_aad_injective:
  assumes "derive_nonce d c = Inr n" and "derive_nonce d' c' = Inr n'"
    and "build_aad v d t sid s r = Inr a" and "build_aad v' d' t' sid' s' r' = Inr a'"
    and "length sid = SESSION_ID_SIZE" "length sid' = SESSION_ID_SIZE"
    and "is_byte v" "is_byte v'" "is_byte t" "is_byte t'"
  shows "(n = n' \<longleftrightarrow> d = d' \<and> c = c') \<and> int (be_val (slice 1 9 n)) = c \<and>
     (a = a' \<longleftrightarrow> (v, d, t, sid, s, r) = (v', d', t', sid', s', r'))"
proof -
  have "is_byte d" "is_byte d'" using assms(1,2) by (auto simp: result_simps is_byte_def direction_defs)
  then have "a = a' \<Longrightarrow> (v, d, t, sid, s, r) = (v', d', t', sid', s', r')"
    using build_aad_inject [OF assms(3)] assms by simp
  moreover have "n = n' \<Longrightarrow> d = d' \<and> c = c'" using derive_nonce_inject assms(1,2) by blast
  moreover have "int (be_val (slice 1 9 n)) = c" using derive_nonce_counter [OF assms(1)] .
  moreover have "d = d' \<and> c = c' \<Longrightarrow> n = n'" using assms(1,2) by simp
  moreover have "(v, d, t, sid, s, r) = (v', d', t', sid', s', r') \<Longrightarrow> a = a'" using assms(3,4) by simp
  ultimately show ?thesis by blast
qed

theorem nonce_and_aad_injective_witness:
  "\<exists>n n' a a'. derive_nonce 0 5 = Inr n \<and> derive_nonce 1 5 = Inr n' \<and> n \<noteq> n' \<and>
     build_aad 2 0 1 (replicate 8 0) [1, 2] [3] = Inr a \<and>
     build_aad 2 1 1 (replicate 8 0) [1] [2, 3] = Inr a' \<and> a \<noteq> a'"
proof -
  obtain n n' a a' where e: "derive_nonce 0 5 = Inr n" "derive_nonce 1 5 = Inr n'"
    "build_aad 2 0 1 (replicate 8 0) [1, 2] [3] = Inr a" "build_aad 2 1 1 (replicate 8 0) [1] [2, 3] = Inr a'"
    by (simp add: derive_nonce_def direction_defs pack_uint_def build_aad_def length_prefixed_h_def)
  from nonce_and_aad_injective [OF e] have "n \<noteq> n'" "a \<noteq> a'"
    by (simp_all add: SESSION_ID_SIZE_def is_byte_def)
  with e show ?thesis by blast
qed

end
