(* ===== verification/Replay_Window.thy ===== *)
theory Replay_Window
  imports Prelude
begin

unbundle bit_operations_syntax

text \<open>
  The sliding anti-replay window of \<^verbatim>\<open>networking/replay_protection.py\<close>
  (\<^verbatim>\<open>AntiReplayWindow\<close>): a \<^verbatim>\<open>bytearray\<close> bitmask of \<open>2 w + 1\<close> slots that slides forward with
  the highest accepted counter. It is refined against the specification a reader has in mind, the
  set of all counters ever accepted, and offered to its client, the secure channel, through
  the locale \<open>replay_filter\<close>.
\<close>

section \<open>The window as the code keeps it\<close>

record window =
  w_window :: int
  w_slots :: int
  w_bits :: bytes
  w_highest :: int
  w_base :: int

definition DEFAULT_REPLAY_WINDOW_SIZE :: int where
  "DEFAULT_REPLAY_WINDOW_SIZE = 128"

definition mk_AntiReplayWindow :: "int \<Rightarrow> window result" where
  "mk_AntiReplayWindow window_size =
     raise_if (window_size \<le> 0) (Replay ReplayProtectionError)
       (Inr \<lparr>w_window = window_size, w_slots = 2 * window_size + 1,
             w_bits = replicate (nat ((2 * window_size + 1 + 7) div 8)) 0,
             w_highest = 0, w_base = 1 - window_size\<rparr>)"

definition w_slot :: "window \<Rightarrow> int \<Rightarrow> int" where
  "w_slot w counter = counter - w_base w"

text \<open>\<^verbatim>\<open>bits[slot >> 3] & (1 << (slot & 7))\<close>; the callers keep \<open>slot\<close> inside the array.\<close>

definition bits_is_set :: "bytes \<Rightarrow> int \<Rightarrow> bool" where
  "bits_is_set bits slot \<longleftrightarrow>
     (bits ! nat (drop_bit 3 slot)) AND push_bit (nat (slot AND 7)) 1 \<noteq> 0"

definition bits_set :: "bytes \<Rightarrow> int \<Rightarrow> bytes" where
  "bits_set bits slot =
     bits[nat (drop_bit 3 slot) := (bits ! nat (drop_bit 3 slot)) OR push_bit (nat (slot AND 7)) 1]"

definition would_accept :: "window \<Rightarrow> int \<Rightarrow> bool" where
  "would_accept w counter =
     (if counter \<le> 0 then False
      else if counter > w_highest w + w_window w then False
      else if counter < w_highest w - w_window w + 1 then False
      else let slot = w_slot w counter in
        if slot < 0 \<or> slot \<ge> w_slots w then False
        else \<not> bits_is_set (w_bits w) slot)"

text \<open>The loop of \<^verbatim>\<open>_slide\<close>, which rebuilds the bitmask in a fresh \<^verbatim>\<open>bytearray\<close>.\<close>

definition slide_bit :: "bytes \<Rightarrow> int \<Rightarrow> int \<Rightarrow> bytes \<Rightarrow> int \<Rightarrow> bytes" where
  "slide_bit old delta tot new i =
     (if drop_bit (nat (i AND 7)) (old ! nat (drop_bit 3 i)) AND 1 \<noteq> 0 then
        let j = i - delta in
        if 0 \<le> j \<and> j < tot then bits_set new j else new
      else new)"

definition slide :: "window \<Rightarrow> int \<Rightarrow> window" where
  "slide w new_base =
     (let delta = new_base - w_base w in
      if delta \<le> 0 then w\<lparr>w_base := new_base\<rparr>
      else w\<lparr>w_bits := foldl (slide_bit (w_bits w) delta (w_slots w))
                (replicate (length (w_bits w)) 0) (map int [0..<nat (w_slots w)]),
             w_base := new_base\<rparr>)"

definition accept :: "window \<Rightarrow> int \<Rightarrow> bool \<times> window" where
  "accept w counter =
     (if \<not> would_accept w counter then (False, w)
      else let w1 = (if counter > w_highest w
                     then (slide w (counter - w_window w + 1))\<lparr>w_highest := counter\<rparr> else w)
           in (True, w1\<lparr>w_bits := bits_set (w_bits w1) (w_slot w1 counter)\<rparr>))"

section \<open>Bitmask lemmas\<close>

lemma slot_index: "drop_bit 3 s = s div 8" "s AND 7 = s mod 8" for s :: int
proof -
  have "s AND 7 = s AND mask 3" by (simp add: mask_eq_exp_minus_1)
  then show "s AND 7 = s mod 8" by (simp add: take_bit_eq_mod flip: take_bit_eq_mask)
qed (simp add: drop_bit_eq_div)

lemma bits_is_set_bit: "bits_is_set bits s \<longleftrightarrow> bit (bits ! nat (s div 8)) (nat (s mod 8))"
  by (simp add: bits_is_set_def slot_index and_exp_eq_0_iff_not_bit push_bit_of_1)

lemma slide_test_bit:
  "drop_bit (nat (i AND 7)) (old ! nat (drop_bit 3 i)) AND 1 \<noteq> 0 \<longleftrightarrow> bits_is_set old i"
  by (simp add: bits_is_set_bit slot_index and_one_eq bit_iff_odd_drop_bit mod2_eq_if)

lemma length_bits_set [simp]: "length (bits_set bits s) = length bits"
  by (simp add: bits_set_def)

lemma slot_split: "0 \<le> s \<Longrightarrow> 0 \<le> t \<Longrightarrow>
  (s = t) = (nat (s div 8) = nat (t div 8) \<and> nat (s mod 8) = nat (t mod 8))" for s t :: int
proof -
  assume "0 \<le> s" "0 \<le> t"
  then have "(nat (s div 8) = nat (t div 8)) = (s div 8 = t div 8)"
    by (simp add: eq_nat_nat_iff pos_imp_zdiv_nonneg_iff)
  moreover have "(nat (s mod 8) = nat (t mod 8)) = (s mod 8 = t mod 8)" by (simp add: eq_nat_nat_iff)
  ultimately show ?thesis by (metis mult_div_mod_eq)
qed

lemma bits_is_set_set:
  assumes "0 \<le> s" "s < 8 * int (length bits)" "0 \<le> t"
  shows "bits_is_set (bits_set bits s) t \<longleftrightarrow> t = s \<or> bits_is_set bits t"
proof -
  have "nat (s div 8) < length bits" using assms(1,2) by (simp add: nat_less_iff pos_imp_zdiv_nonneg_iff)
  moreover have "nat (s mod 8) < 8" by (simp add: nat_less_iff)
  ultimately show ?thesis
    using slot_split [OF assms(3) assms(1)]
    by (auto simp: bits_is_set_bit bits_set_def slot_index nth_list_update bit_simps)
qed

lemma bits_is_set_replicate: "0 \<le> s \<Longrightarrow> s < 8 * int n \<Longrightarrow> \<not> bits_is_set (replicate n 0) s"
proof -
  assume "0 \<le> s" "s < 8 * int n"
  then have "nat (s div 8) < n" by (simp add: nat_less_iff pos_imp_zdiv_nonneg_iff)
  then show ?thesis by (simp add: bits_is_set_bit)
qed

lemma slide_bit_set:
  assumes "tot \<le> 8 * int (length f)" "0 \<le> j" "j < tot"
  shows "bits_is_set (slide_bit old delta tot f i) j \<longleftrightarrow>
      bits_is_set f j \<or> (j + delta = i \<and> bits_is_set old i)"
  using assms by (auto simp: slide_bit_def slide_test_bit Let_def bits_is_set_set)

lemma length_slide_bit [simp]: "length (slide_bit old delta tot f i) = length f"
  by (simp add: slide_bit_def Let_def)

lemma slide_loop:
  assumes "0 < delta" "tot \<le> 8 * int (length new)" "0 \<le> j" "j < tot"
  shows "length (foldl (slide_bit old delta tot) new (map int [0..<n])) = length new"
    and "bits_is_set (foldl (slide_bit old delta tot) new (map int [0..<n])) j \<longleftrightarrow>
      bits_is_set new j \<or> (j + delta < int n \<and> bits_is_set old (j + delta))"
proof (induction n)
  case (Suc n)
  case 1
  show ?case using Suc(1) by simp
  case 2
  have "j + delta < int (Suc n) \<longleftrightarrow> j + delta = int n \<or> j + delta < int n" by auto
  then show ?case using assms Suc(2) by (auto simp: slide_bit_set Suc(1) simp del: of_nat_Suc)
qed (use assms in simp_all)

section \<open>Refinement: the set of accepted counters\<close>

text \<open>
  The specification remembers every accepted counter forever. A counter is accepted when it is
  positive, at most one window above the highest, within the window below it, and new.
\<close>

record spec_window =
  s_window :: int
  s_highest :: int
  s_seen :: "int set"

definition spec_would_accept :: "spec_window \<Rightarrow> int \<Rightarrow> bool" where
  "spec_would_accept a c \<longleftrightarrow>
     0 < c \<and> s_highest a - s_window a < c \<and> c \<le> s_highest a + s_window a \<and> c \<notin> s_seen a"

definition spec_accept :: "spec_window \<Rightarrow> int \<Rightarrow> bool \<times> spec_window" where
  "spec_accept a c =
     (if spec_would_accept a c
      then (True, a\<lparr>s_highest := max c (s_highest a), s_seen := insert c (s_seen a)\<rparr>) else (False, a))"

definition window_rel :: "window \<Rightarrow> spec_window \<Rightarrow> bool" where
  "window_rel w a \<longleftrightarrow>
     0 < w_window w \<and> w_slots w = 2 * w_window w + 1 \<and> w_base w = w_highest w - w_window w + 1 \<and>
     w_slots w \<le> 8 * int (length (w_bits w)) \<and> 0 \<le> w_highest w \<and>
     s_window a = w_window w \<and> s_highest a = w_highest w \<and> s_seen a \<subseteq> {1..w_highest w} \<and>
     (\<forall>i. 0 \<le> i \<and> i < w_slots w \<longrightarrow> bits_is_set (w_bits w) i = (w_base w + i \<in> s_seen a))"

lemma window_rel_new:
  assumes "mk_AntiReplayWindow n = Inr w"
  shows "window_rel w \<lparr>s_window = n, s_highest = 0, s_seen = {}\<rparr>"
proof -
  have n: "0 < n" and w: "w = \<lparr>w_window = n, w_slots = 2 * n + 1,
      w_bits = replicate (nat ((2 * n + 1 + 7) div 8)) 0, w_highest = 0, w_base = 1 - n\<rparr>"
    using assms by (auto simp: mk_AntiReplayWindow_def result_simps)
  have "2 * n + 1 \<le> 8 * int (nat ((2 * n + 1 + 7) div 8))" using n by simp
  then show ?thesis using n by (auto simp: window_rel_def w bits_is_set_replicate)
qed

lemma window_rel_bit:
  "window_rel w a \<Longrightarrow> 0 \<le> i \<Longrightarrow> i < w_slots w \<Longrightarrow>
     bits_is_set (w_bits w) i = (w_base w + i \<in> s_seen a)"
  by (simp add: window_rel_def)

lemma would_accept_refines:
  assumes rel: "window_rel w a"
  shows "would_accept w c = spec_would_accept a c"
proof -
  have base: "w_base w = w_highest w - w_window w + 1" "w_slots w = 2 * w_window w + 1"
    "s_window a = w_window w" "s_highest a = w_highest w"
    using rel by (simp_all add: window_rel_def)
  have "bits_is_set (w_bits w) (w_slot w c) = (c \<in> s_seen a)"
    if "w_highest w - w_window w < c" "c \<le> w_highest w + w_window w"
    using window_rel_bit [OF rel, of "w_slot w c"] that base by (simp add: w_slot_def)
  then show ?thesis
    by (auto simp: would_accept_def spec_would_accept_def Let_def base) (auto simp: w_slot_def base)
qed

lemma slide_refines:
  assumes rel: "window_rel w a" and c: "w_highest w < c"
  defines "w' \<equiv> (slide w (c - w_window w + 1))\<lparr>w_highest := c\<rparr>"
  shows "window_rel w' (a\<lparr>s_highest := c\<rparr>)"
proof -
  have base: "w_base w = w_highest w - w_window w + 1" "w_slots w = 2 * w_window w + 1"
    and cap: "w_slots w \<le> 8 * int (length (w_bits w))" and pos: "0 \<le> w_highest w" "0 < w_window w"
    and seen: "s_seen a \<subseteq> {1..w_highest w}"
    using rel by (simp_all add: window_rel_def)
  let ?d = "c - w_highest w"
  have w': "w' = w\<lparr>w_bits := foldl (slide_bit (w_bits w) ?d (w_slots w))
      (replicate (length (w_bits w)) 0) (map int [0..<nat (w_slots w)]),
      w_base := c - w_window w + 1, w_highest := c\<rparr>"
    using c by (simp add: w'_def slide_def base Let_def)
  have len: "length (w_bits w') = length (w_bits w)"
    using slide_loop(1) [of ?d "w_slots w" "replicate (length (w_bits w)) 0" 0] c cap pos base
    by (simp add: w')
  have bit: "bits_is_set (w_bits w') i = (w_base w' + i \<in> s_seen a)" if "0 \<le> i" "i < w_slots w" for i
  proof -
    have "bits_is_set (w_bits w') i \<longleftrightarrow> i + ?d < w_slots w \<and> bits_is_set (w_bits w) (i + ?d)"
      using slide_loop(2) [of ?d "w_slots w" "replicate (length (w_bits w)) 0" i] that c cap
        bits_is_set_replicate [of i "length (w_bits w)"] by (simp add: w')
    also have "\<dots> \<longleftrightarrow> w_base w + (i + ?d) \<in> s_seen a"
      using window_rel_bit [OF rel, of "i + ?d"] that c seen base by auto
    also have "w_base w + (i + ?d) = w_base w' + i" by (simp add: w' base)
    finally show ?thesis .
  qed
  show ?thesis
    using rel len bit c seen by (auto simp: window_rel_def w')
qed

lemma mark_refines:
  assumes rel: "window_rel w a" and c: "0 < c" "w_highest w - w_window w < c" "c \<le> w_highest w"
  shows "window_rel (w\<lparr>w_bits := bits_set (w_bits w) (w_slot w c)\<rparr>) (a\<lparr>s_seen := insert c (s_seen a)\<rparr>)"
proof -
  have slot: "0 \<le> w_slot w c" "w_slot w c < 8 * int (length (w_bits w))"
    using rel c by (auto simp: window_rel_def w_slot_def)
  have "bits_is_set (bits_set (w_bits w) (w_slot w c)) i \<longleftrightarrow> i = w_slot w c \<or> bits_is_set (w_bits w) i"
    if "0 \<le> i" for i using bits_is_set_set [OF slot that] .
  then show ?thesis using rel c by (auto simp: window_rel_def w_slot_def)
qed

lemma accept_refines:
  assumes rel: "window_rel w a"
  shows "fst (accept w c) = fst (spec_accept a c) \<and> window_rel (snd (accept w c)) (snd (spec_accept a c))"
proof (cases "would_accept w c")
  case False
  then show ?thesis using rel would_accept_refines [OF rel] by (simp add: accept_def spec_accept_def)
next
  case True
  then have ok: "spec_would_accept a c" using would_accept_refines [OF rel] by simp
  have ab: "s_window a = w_window w" "s_highest a = w_highest w" using rel by (simp_all add: window_rel_def)
  show ?thesis
  proof (cases "w_highest w < c")
    case hi: True
    let ?w = "(slide w (c - w_window w + 1))\<lparr>w_highest := c\<rparr>"
    have "window_rel ?w (a\<lparr>s_highest := c\<rparr>)" using slide_refines [OF rel hi] .
    moreover have "w_window ?w = w_window w" by (simp add: slide_def Let_def)
    moreover have "0 < w_window w" using rel by (simp add: window_rel_def)
    ultimately have "window_rel (?w\<lparr>w_bits := bits_set (w_bits ?w) (w_slot ?w c)\<rparr>)
        (a\<lparr>s_highest := c, s_seen := insert c (s_seen a)\<rparr>)"
      using mark_refines [of ?w "a\<lparr>s_highest := c\<rparr>" c] ok by (simp add: spec_would_accept_def)
    then show ?thesis using True ok hi ab by (simp add: accept_def spec_accept_def Let_def max_def)
  next
    case lo: False
    have eq: "a\<lparr>s_highest := w_highest w, s_seen := S\<rparr> = a\<lparr>s_seen := S\<rparr>" for S
      using ab by (cases a) simp
    show ?thesis using lo True ok ab mark_refines [OF rel, of c]
      by (simp add: eq accept_def spec_accept_def Let_def max_def spec_would_accept_def)
  qed
qed

section \<open>The interface to the secure channel\<close>

text \<open>
  The laws a client relies on: the check is what \<open>acc\<close> decides, a rejected counter changes
  nothing, and a counter once accepted is never accepted again. \<open>remembers s S\<close> says that the
  state \<open>s\<close> has accepted exactly the counters \<open>S\<close> so far.
\<close>

fun accept_run :: "('s \<Rightarrow> 'c \<Rightarrow> bool \<times> 's) \<Rightarrow> 's \<Rightarrow> 'c list \<Rightarrow> 'c list \<times> 's" where
  "accept_run acc s [] = ([], s)"
| "accept_run acc s (c # cs) =
     (let (ok, s1) = acc s c; (oks, s2) = accept_run acc s1 cs in (if ok then c # oks else oks, s2))"

locale replay_filter =
  fixes would :: "'s \<Rightarrow> 'c \<Rightarrow> bool"
    and acc :: "'s \<Rightarrow> 'c \<Rightarrow> bool \<times> 's"
    and remembers :: "'s \<Rightarrow> 'c set \<Rightarrow> bool"
  assumes acc_result: "fst (acc s c) = would s c"
    and acc_reject: "\<not> would s c \<Longrightarrow> snd (acc s c) = s"
    and remembered: "remembers s S \<Longrightarrow> c \<in> S \<Longrightarrow> \<not> would s c"
    and acc_remembers: "remembers s S \<Longrightarrow> would s c \<Longrightarrow> remembers (snd (acc s c)) (insert c S)"
begin

lemma acc_keeps: "remembers s S \<Longrightarrow> remembers (snd (acc s c)) (if would s c then insert c S else S)"
  using acc_remembers acc_reject by auto

lemma accept_run_remembers:
  "remembers s S \<Longrightarrow> remembers (snd (accept_run acc s cs)) (S \<union> set (fst (accept_run acc s cs)))"
proof (induction cs arbitrary: s S)
  case (Cons c cs)
  obtain ok s1 where a: "acc s c = (ok, s1)" by (cases "acc s c")
  then have ok: "ok = would s c" using acc_result [of s c] by simp
  have "remembers s1 (if ok then insert c S else S)" using acc_keeps [OF Cons.prems, of c] a ok by simp
  from Cons.IH [OF this] show ?case by (auto simp: a split: prod.splits)
qed simp

lemma accept_run_fresh:
  "remembers s S \<Longrightarrow> distinct (fst (accept_run acc s cs)) \<and> set (fst (accept_run acc s cs)) \<inter> S = {}"
proof (induction cs arbitrary: s S)
  case (Cons c cs)
  obtain ok s1 where a: "acc s c = (ok, s1)" by (cases "acc s c")
  then have ok: "ok = would s c" using acc_result [of s c] by simp
  have "remembers s1 (if ok then insert c S else S)" using acc_keeps [OF Cons.prems, of c] a ok by simp
  from Cons.IH [OF this] show ?case
    using remembered [OF Cons.prems, of c] by (cases ok) (auto simp: a ok split: prod.splits)
qed simp

end

definition remembers :: "window \<Rightarrow> int set \<Rightarrow> bool" where
  "remembers w S \<longleftrightarrow> (\<exists>a. window_rel w a \<and> s_seen a = S)"

interpretation window: replay_filter would_accept accept remembers
proof
  fix w S c
  show "fst (accept w c) = would_accept w c" by (simp add: accept_def Let_def)
  show "snd (accept w c) = w" if "\<not> would_accept w c" using that by (simp add: accept_def)
  show "\<not> would_accept w c" if "remembers w S" "c \<in> S"
    using that would_accept_refines by (auto simp: remembers_def spec_would_accept_def)
  show "remembers (snd (accept w c)) (insert c S)" if r: "remembers w S" "would_accept w c"
  proof -
    obtain a where a: "window_rel w a" "s_seen a = S" using r(1) unfolding remembers_def by blast
    then have "s_seen (snd (spec_accept a c)) = insert c S"
      using would_accept_refines [OF a(1)] r(2) by (simp add: spec_accept_def)
    then show ?thesis using accept_refines [OF a(1), of c] unfolding remembers_def by blast
  qed
qed

text \<open>The highest counter of the specification is the maximum of what was accepted.\<close>

definition top_counter :: "int list \<Rightarrow> int" where
  "top_counter cs = fold max cs 0"

lemma accept_run_spec:
  "window_rel w a \<Longrightarrow> fst (accept_run accept w cs) = fst (accept_run spec_accept a cs) \<and>
     window_rel (snd (accept_run accept w cs)) (snd (accept_run spec_accept a cs))"
proof (induction cs arbitrary: w a)
  case (Cons c cs)
  from accept_refines [OF Cons.prems, of c] Cons.IH show ?case
    by (auto simp: Let_def split: prod.splits) (metis fst_conv snd_conv)+
qed simp

lemma spec_run_state:
  "snd (accept_run spec_accept a cs) =
     a\<lparr>s_highest := fold max (fst (accept_run spec_accept a cs)) (s_highest a),
       s_seen := s_seen a \<union> set (fst (accept_run spec_accept a cs))\<rparr>"
proof (induction cs arbitrary: a)
  case (Cons c cs)
  show ?case using Cons.IH [of "snd (spec_accept a c)"]
    by (cases "spec_would_accept a c") (simp_all add: spec_accept_def Let_def case_prod_unfold)
qed simp

section \<open>Properties\<close>

text \<open>
  C3: The bitmask window is exact. After any sequence of \<^verbatim>\<open>accept\<close> calls on a fresh window of
  size \<open>n\<close>, a counter \<open>c\<close> is accepted precisely when it is positive, was not accepted before, and
  lies above \<open>top - n\<close> and at most \<open>n\<close> above \<open>top\<close>, where \<open>top\<close> is the highest counter
  accepted so far (0 for none): no replay gets in, and no fresh counter inside the band is lost by
  the sliding of the bitmask.
\<close>

theorem replay_window_exact:
  assumes "mk_AntiReplayWindow n = Inr w" and "accept_run accept w cs = (oks, w')"
  shows "fst (accept w' c) \<longleftrightarrow>
     0 < c \<and> c \<notin> set oks \<and> top_counter oks - n < c \<and> c \<le> top_counter oks + n"
proof -
  let ?a = "\<lparr>s_window = n, s_highest = 0, s_seen = {}\<rparr>"
  have rel: "window_rel w ?a" using window_rel_new [OF assms(1)] .
  let ?a' = "snd (accept_run spec_accept ?a cs)"
  have "fst (accept_run spec_accept ?a cs) = oks" and rel': "window_rel w' ?a'"
    using accept_run_spec [OF rel, of cs] assms(2) by simp_all
  then have "?a' = \<lparr>s_window = n, s_highest = top_counter oks, s_seen = set oks\<rparr>"
    using spec_run_state [of ?a cs] by (simp add: top_counter_def)
  then show ?thesis
    using would_accept_refines [OF rel', of c] window.acc_result [of w' c]
    by (auto simp: spec_would_accept_def)
qed

theorem replay_window_exact_witness:
  "\<exists>w w'. mk_AntiReplayWindow 4 = Inr w \<and> accept_run accept w [1, 3, 3] = ([1, 3], w') \<and>
     \<not> fst (accept w' 3) \<and> fst (accept w' 2) \<and> fst (accept w' 7) \<and> \<not> fst (accept w' 8)"
proof -
  obtain w where w: "mk_AntiReplayWindow 4 = Inr w" by (simp add: mk_AntiReplayWindow_def raise_if_def)
  have "fst (accept_run accept w [1, 3, 3]) = [1, 3]"
    using accept_run_spec [OF window_rel_new [OF w], of "[1, 3, 3]"]
    by (simp add: spec_accept_def spec_would_accept_def)
  then obtain w' where r: "accept_run accept w [1, 3, 3] = ([1, 3], w')" by (metis prod.collapse)
  show ?thesis
    using w r replay_window_exact [OF w r, of 3] replay_window_exact [OF w r, of 2]
      replay_window_exact [OF w r, of 7] replay_window_exact [OF w r, of 8]
    by (auto simp: top_counter_def)
qed

text \<open>
  No counter is ever accepted twice: over any sequence of \<^verbatim>\<open>accept\<close> calls, whatever the order,
  the gaps and the repetitions, the accepted counters are pairwise distinct.
\<close>

theorem no_counter_accepted_twice:
  assumes "mk_AntiReplayWindow n = Inr w"
  shows "distinct (fst (accept_run accept w cs))"
proof -
  have "remembers w {}" using window_rel_new [OF assms] unfolding remembers_def by force
  then show ?thesis using window.accept_run_fresh by blast
qed

theorem no_counter_accepted_twice_witness:
  "\<exists>w. mk_AntiReplayWindow 128 = Inr w \<and> distinct (fst (accept_run accept w [5, 5, 1, 200, 5]))"
proof -
  obtain w where w: "mk_AntiReplayWindow 128 = Inr w" by (simp add: mk_AntiReplayWindow_def raise_if_def)
  from w no_counter_accepted_twice [OF w] show ?thesis by blast
qed

end
