(* ===== verification/Session_Store.thy ===== *)
theory Session_Store
  imports Frames Replay_Window
begin

text \<open>
  \<^verbatim>\<open>networking/session_store.py\<close>: the sessions of all peers, indexed by session id and by peer, with
  caps, eviction and expiry. \<^verbatim>\<open>time.time\<close> and the injected clock are the argument \<open>now\<close>; times are
  reals. A session object that the code mutates in place is written back under its id.
\<close>

section \<open>Sessions\<close>

definition MAX_SESSIONS_PER_PEER :: int where "MAX_SESSIONS_PER_PEER = 8"
definition MAX_UNCONFIRMED_PER_PEER :: int where "MAX_UNCONFIRMED_PER_PEER = 4"
definition GLOBAL_SESSION_CAP :: int where "GLOBAL_SESSION_CAP = 256"
definition MAX_KEY_LIFETIME_S :: real where "MAX_KEY_LIFETIME_S = 24 * 3600"
definition IDLE_TIMEOUT_CONFIRMED_S :: real where "IDLE_TIMEOUT_CONFIRMED_S = 3600"
definition IDLE_TIMEOUT_UNCONFIRMED_S :: real where "IDLE_TIMEOUT_UNCONFIRMED_S = 60"
definition MAX_MESSAGES_PER_KEY :: int where "MAX_MESSAGES_PER_KEY = 2 ^ 32"
definition MAX_COUNTER :: int where "MAX_COUNTER = 2 ^ 63 - 1"

record peer_session =
  ps_peer_id :: pystr
  ps_session_id :: bytes
  ps_role :: int
  ps_send_key :: bytes
  ps_receive_key :: bytes
  ps_transfer_port :: int
  ps_manifest_port :: int
  ps_confirmed :: bool
  ps_created_at :: real
  ps_last_activity :: real
  ps_next_send_counter :: int
  ps_sent_count :: int
  ps_receive_window :: window

definition mark_active :: "real \<Rightarrow> peer_session \<Rightarrow> peer_session" where
  "mark_active now s = s\<lparr>ps_last_activity := now\<rparr>"

definition allocate_counter :: "peer_session \<Rightarrow> int result \<times> peer_session" where
  "allocate_counter s =
     (if ps_sent_count s \<ge> MAX_MESSAGES_PER_KEY \<or> ps_next_send_counter s > MAX_COUNTER
      then (Inl (Store CounterExhaustedError), s)
      else (Inr (ps_next_send_counter s),
            s\<lparr>ps_next_send_counter := ps_next_send_counter s + 1, ps_sent_count := ps_sent_count s + 1\<rparr>))"

definition can_send :: "peer_session \<Rightarrow> real \<Rightarrow> real \<Rightarrow> bool" where
  "can_send s now max_lifetime_s =
     (if \<not> ps_confirmed s then False
      else if now - ps_created_at s > max_lifetime_s then False
      else \<not> (ps_sent_count s \<ge> MAX_MESSAGES_PER_KEY \<or> ps_next_send_counter s > MAX_COUNTER))"

section \<open>The store\<close>

record session_store =
  st_max_sessions_per_peer :: int
  st_max_unconfirmed_per_peer :: int
  st_global_session_cap :: int
  st_max_key_lifetime_s :: real
  st_idle_timeout_confirmed_s :: real
  st_idle_timeout_unconfirmed_s :: real
  st_by_session_id :: "(bytes, peer_session) dict"
  st_by_peer :: "(pystr, bytes list) dict"

definition mk_SessionStore :: session_store where
  "mk_SessionStore =
     \<lparr>st_max_sessions_per_peer = MAX_SESSIONS_PER_PEER,
      st_max_unconfirmed_per_peer = MAX_UNCONFIRMED_PER_PEER,
      st_global_session_cap = GLOBAL_SESSION_CAP,
      st_max_key_lifetime_s = MAX_KEY_LIFETIME_S,
      st_idle_timeout_confirmed_s = IDLE_TIMEOUT_CONFIRMED_S,
      st_idle_timeout_unconfirmed_s = IDLE_TIMEOUT_UNCONFIRMED_S,
      st_by_session_id = [], st_by_peer = []\<rparr>"

text \<open>\<^verbatim>\<open>self._by_peer.get(peer_id, [])\<close>\<close>

definition ids_of :: "session_store \<Rightarrow> pystr \<Rightarrow> bytes list" where
  "ids_of st peer_id = (case dict_get (st_by_peer st) peer_id of None \<Rightarrow> [] | Some ids \<Rightarrow> ids)"

definition get_by_session_id :: "session_store \<Rightarrow> bytes \<Rightarrow> peer_session option" where
  "get_by_session_id st session_id = dict_get (st_by_session_id st) session_id"

definition index_peer :: "pystr \<Rightarrow> bytes \<Rightarrow> session_store \<Rightarrow> session_store" where
  "index_peer peer_id session_id st =
     (let ids = ids_of st peer_id in
      st\<lparr>st_by_peer := dict_set peer_id
            (if session_id \<in> set ids then ids else ids @ [session_id]) (st_by_peer st)\<rparr>)"

definition remove_session :: "bytes \<Rightarrow> session_store \<Rightarrow> session_store" where
  "remove_session session_id st =
     (case get_by_session_id st session_id of
        None \<Rightarrow> st
      | Some sess \<Rightarrow>
          let st1 = st\<lparr>st_by_session_id := dict_pop session_id (st_by_session_id st)\<rparr> in
          (case dict_get (st_by_peer st1) (ps_peer_id sess) of
             None \<Rightarrow> st1
           | Some ids \<Rightarrow>
               let ids' = filter (\<lambda>sid. sid \<noteq> session_id) ids in
               if ids' = [] then st1\<lparr>st_by_peer := dict_pop (ps_peer_id sess) (st_by_peer st1)\<rparr>
               else st1\<lparr>st_by_peer := dict_set (ps_peer_id sess) ids' (st_by_peer st1)\<rparr>))"

text \<open>
  The scan of \<^verbatim>\<open>_evict_oldest_created\<close> and \<^verbatim>\<open>_evict_lru_confirmed\<close>: the first candidate with
  the least key among those wanted; no candidate yet stands for the key \<^verbatim>\<open>float("inf")\<close>.
\<close>

definition evict_scan_step ::
  "session_store \<Rightarrow> (peer_session \<Rightarrow> bool) \<Rightarrow> (peer_session \<Rightarrow> real) \<Rightarrow>
   (bytes \<times> real) option \<Rightarrow> bytes \<Rightarrow> (bytes \<times> real) option" where
  "evict_scan_step st wanted key best sid =
     (case get_by_session_id st sid of
        None \<Rightarrow> best
      | Some sess \<Rightarrow>
          if \<not> wanted sess then best
          else (case best of
                  None \<Rightarrow> Some (sid, key sess)
                | Some (_, t) \<Rightarrow> if key sess < t then Some (sid, key sess) else best))"

definition evict_least ::
  "(peer_session \<Rightarrow> bool) \<Rightarrow> (peer_session \<Rightarrow> real) \<Rightarrow> bytes list \<Rightarrow> session_store \<Rightarrow> bool \<times> session_store" where
  "evict_least wanted key candidate_ids st =
     (case foldl (evict_scan_step st wanted key) None candidate_ids of
        None \<Rightarrow> (False, st)
      | Some (sid, _) \<Rightarrow> (True, remove_session sid st))"

definition evict_oldest_created :: "bytes list \<Rightarrow> session_store \<Rightarrow> bool \<times> session_store" where
  "evict_oldest_created = evict_least (\<lambda>s. \<not> ps_confirmed s) ps_created_at"

definition evict_lru_confirmed :: "bytes list \<Rightarrow> session_store \<Rightarrow> bool \<times> session_store" where
  "evict_lru_confirmed = evict_least ps_confirmed ps_last_activity"

text \<open>The list comprehension over \<^verbatim>\<open>self._by_session_id[sid].confirmed\<close>, a \<open>KeyError\<close> on a stale id.\<close>

definition unconfirmed_ids :: "session_store \<Rightarrow> bytes list \<Rightarrow> bytes list result" where
  "unconfirmed_ids st ids =
     rbind (rmap (\<lambda>sid. case get_by_session_id st sid of
                          None \<Rightarrow> Inl (Py KeyError) | Some s \<Rightarrow> Inr (sid, ps_confirmed s)) ids)
       (\<lambda>ps. Inr (map fst (filter (\<lambda>p. \<not> snd p) ps)))"

section \<open>Eviction makes the store smaller\<close>

lemma remove_session_less:
  "get_by_session_id st sid = Some s \<Longrightarrow>
     length (st_by_session_id (remove_session sid st)) < length (st_by_session_id st)"
proof -
  assume s: "get_by_session_id st sid = Some s"
  then have "dict_get (st_by_session_id st) sid \<noteq> None" by (simp add: get_by_session_id_def)
  then have "sid \<in> set (dict_keys (st_by_session_id st))" using dict_get_None by metis
  from length_dict_pop_less [OF this] s show ?thesis
    by (simp add: remove_session_def Let_def split: option.split)
qed

lemma evict_scan_pick:
  assumes "foldl (evict_scan_step st wanted key) best ids = Some (sid, t)"
  shows "best = Some (sid, t) \<or> (sid \<in> set ids \<and> (\<exists>s. get_by_session_id st sid = Some s \<and> wanted s))"
  using assms
proof (induction ids arbitrary: best)
  case (Cons i ids)
  from Cons.IH [of "evict_scan_step st wanted key best i"] Cons.prems show ?case
    by (auto simp: evict_scan_step_def split: option.splits if_splits prod.splits)
qed simp

lemma evict_scan_None:
  "foldl (evict_scan_step st wanted key) best ids = None \<longleftrightarrow>
     best = None \<and> (\<forall>sid\<in>set ids. \<forall>s. get_by_session_id st sid = Some s \<longrightarrow> \<not> wanted s)"
proof (induction ids arbitrary: best)
  case (Cons i ids)
  have "evict_scan_step st wanted key best i = None \<longleftrightarrow>
      best = None \<and> (\<forall>s. get_by_session_id st i = Some s \<longrightarrow> \<not> wanted s)"
    by (auto simp: evict_scan_step_def split: option.splits prod.splits)
  with Cons.IH [of "evict_scan_step st wanted key best i"] show ?case by auto
qed simp

lemma evict_least_True:
  assumes "evict_least wanted key ids st = (True, st')"
  shows "\<exists>sid s. sid \<in> set ids \<and> get_by_session_id st sid = Some s \<and> wanted s \<and> st' = remove_session sid st"
  using assms evict_scan_pick [of st wanted key None ids]
  by (fastforce simp: evict_least_def split: option.splits prod.splits)

lemma evict_least_False:
  assumes "evict_least wanted key ids st = (False, st')"
  shows "st' = st \<and> (\<forall>sid\<in>set ids. \<forall>s. get_by_session_id st sid = Some s \<longrightarrow> \<not> wanted s)"
  using assms evict_scan_None [of st wanted key None ids]
  by (auto simp: evict_least_def split: option.splits prod.splits)

lemma evict_least_less:
  assumes "evict_least wanted key ids st = (True, st')"
  shows "length (st_by_session_id st') < length (st_by_session_id st)"
proof -
  obtain sid s where "get_by_session_id st sid = Some s" "st' = remove_session sid st"
    using evict_least_True [OF assms] by blast
  then show ?thesis by (simp add: remove_session_less)
qed

lemmas evict_defs = evict_oldest_created_def evict_lru_confirmed_def

section \<open>Recording a session\<close>

function enforce_unconfirmed :: "pystr \<Rightarrow> session_store \<Rightarrow> unit result \<times> session_store" where
  "enforce_unconfirmed peer_id st =
     (case unconfirmed_ids st (ids_of st peer_id) of
        Inl e \<Rightarrow> (Inl e, st)
      | Inr unconfirmed \<Rightarrow>
          if int (length unconfirmed) \<ge> st_max_unconfirmed_per_peer st then
            (case evict_oldest_created unconfirmed st of
               (False, st1) \<Rightarrow> (Inr (), st1)
             | (True, st1) \<Rightarrow> enforce_unconfirmed peer_id st1)
          else (Inr (), st))"
  by pat_completeness auto
termination
  by (relation "measure (\<lambda>(p, st). length (st_by_session_id st))")
    (simp_all add: evict_defs evict_least_less)

function enforce_sessions :: "pystr \<Rightarrow> session_store \<Rightarrow> session_store" where
  "enforce_sessions peer_id st =
     (if int (length (ids_of st peer_id)) \<ge> st_max_sessions_per_peer st then
        (let ids = ids_of st peer_id in
         case evict_oldest_created ids st of
           (True, st1) \<Rightarrow> enforce_sessions peer_id st1
         | (False, st1) \<Rightarrow>
             (case evict_lru_confirmed ids st1 of
                (True, st2) \<Rightarrow> enforce_sessions peer_id st2
              | (False, st2) \<Rightarrow> st2))
      else st)"
  by pat_completeness auto
termination
  by (relation "measure (\<lambda>(p, st). length (st_by_session_id st))")
    (auto simp: evict_defs dest: evict_least_less [OF sym] evict_least_False [OF sym])

definition enforce_peer_caps :: "pystr \<Rightarrow> session_store \<Rightarrow> unit result \<times> session_store" where
  "enforce_peer_caps peer_id st =
     (case enforce_unconfirmed peer_id st of
        (Inl e, st1) \<Rightarrow> (Inl e, st1)
      | (Inr _, st1) \<Rightarrow> (Inr (), enforce_sessions peer_id st1))"

function enforce_global_cap :: "session_store \<Rightarrow> unit result \<times> session_store" where
  "enforce_global_cap st =
     (if int (length (st_by_session_id st)) \<ge> st_global_session_cap st then
        (let all_ids = dict_keys (st_by_session_id st) in
         case evict_oldest_created all_ids st of
           (True, st1) \<Rightarrow> enforce_global_cap st1
         | (False, st1) \<Rightarrow>
             (case evict_lru_confirmed all_ids st1 of
                (True, st2) \<Rightarrow> enforce_global_cap st2
              | (False, st2) \<Rightarrow> (Inl (Store SessionStoreError), st2)))
      else (Inr (), st))"
  by pat_completeness auto
termination
  by (relation "measure (\<lambda>st. length (st_by_session_id st))")
    (auto simp: evict_defs dest: evict_least_less [OF sym] evict_least_False [OF sym])

declare enforce_unconfirmed.simps [simp del] enforce_sessions.simps [simp del]
  enforce_global_cap.simps [simp del]

definition is_expired :: "session_store \<Rightarrow> peer_session \<Rightarrow> real \<Rightarrow> bool" where
  "is_expired st session now =
     (if now - ps_created_at session > st_max_key_lifetime_s st then True
      else let idle_limit = (if ps_confirmed session then st_idle_timeout_confirmed_s st
                             else st_idle_timeout_unconfirmed_s st)
           in now - ps_last_activity session > idle_limit)"

definition prune_expired :: "real \<Rightarrow> session_store \<Rightarrow> nat \<times> session_store" where
  "prune_expired now st =
     (let expired = map fst (filter (\<lambda>(sid, sess). is_expired st sess now) (st_by_session_id st))
      in (length expired, fold remove_session expired st))"

definition put :: "real \<Rightarrow> peer_session \<Rightarrow> session_store \<Rightarrow> unit result \<times> session_store" where
  "put now session st =
     (if length (ps_session_id session) \<noteq> SESSION_ID_SIZE then (Inl (Store SessionStoreError), st)
      else if get_by_session_id st (ps_session_id session) \<noteq> None
      then (Inl (Store SessionIdCollisionError), st)
      else let st1 = snd (prune_expired now st) in
        (case enforce_peer_caps (ps_peer_id session) st1 of
           (Inl e, st2) \<Rightarrow> (Inl e, st2)
         | (Inr _, st2) \<Rightarrow>
             (case enforce_global_cap st2 of
                (Inl e, st3) \<Rightarrow> (Inl e, st3)
              | (Inr _, st3) \<Rightarrow>
                  (Inr (), index_peer (ps_peer_id session) (ps_session_id session)
                     (st3\<lparr>st_by_session_id :=
                        dict_set (ps_session_id session) session (st_by_session_id st3)\<rparr>)))))"

section \<open>Lookup and maintenance\<close>

definition sessions_for_peer :: "session_store \<Rightarrow> pystr \<Rightarrow> peer_session list" where
  "sessions_for_peer st peer_id =
     List.map_filter (get_by_session_id st) (ids_of st peer_id)"

text \<open>\<^verbatim>\<open>max(xs, key=lambda s: s.last_activity)\<close>: the first of the most recently active.\<close>

fun latest :: "peer_session list \<Rightarrow> peer_session option" where
  "latest [] = None"
| "latest (s # ss) =
     Some (foldl (\<lambda>m x. if ps_last_activity x > ps_last_activity m then x else m) s ss)"

definition get_active_session :: "session_store \<Rightarrow> pystr \<Rightarrow> peer_session option" where
  "get_active_session st peer_id = latest (sessions_for_peer st peer_id)"

definition get_send_session :: "real \<Rightarrow> session_store \<Rightarrow> pystr \<Rightarrow> peer_session option" where
  "get_send_session now st peer_id =
     latest (filter (\<lambda>s. can_send s now (st_max_key_lifetime_s st)) (sessions_for_peer st peer_id))"

text \<open>Writing back a session that the code mutated in place.\<close>

definition modify_session :: "bytes \<Rightarrow> (peer_session \<Rightarrow> peer_session) \<Rightarrow> session_store \<Rightarrow> session_store" where
  "modify_session sid f st =
     (case get_by_session_id st sid of
        None \<Rightarrow> st
      | Some s \<Rightarrow> st\<lparr>st_by_session_id := dict_set sid (f s) (st_by_session_id st)\<rparr>)"

definition confirm :: "bytes \<Rightarrow> session_store \<Rightarrow> session_store" where
  "confirm session_id st = modify_session session_id (\<lambda>s. s\<lparr>ps_confirmed := True\<rparr>) st"

definition has_confirmed_session :: "session_store \<Rightarrow> pystr \<Rightarrow> bool" where
  "has_confirmed_session st peer_id \<longleftrightarrow> list_ex ps_confirmed (sessions_for_peer st peer_id)"

definition remove_by_peer :: "pystr \<Rightarrow> session_store \<Rightarrow> nat \<times> session_store" where
  "remove_by_peer peer_id st =
     (let ids = ids_of st peer_id in (length ids, fold remove_session ids st))"

definition store_len :: "session_store \<Rightarrow> nat" where
  "store_len st = length (st_by_session_id st)"

definition all_sessions :: "session_store \<Rightarrow> peer_session list" where
  "all_sessions st = map snd (st_by_session_id st)"

section \<open>The index invariant\<close>

text \<open>
  Both dictionaries have distinct keys, every session is stored under its own id of 8 bytes,
  and the per-peer index lists exactly the stored sessions of the peer, each once and never empty.
\<close>

definition index_inv :: "session_store \<Rightarrow> bool" where
  "index_inv st \<longleftrightarrow>
     wf_dict (st_by_session_id st) \<and> wf_dict (st_by_peer st) \<and>
     (\<forall>sid s. get_by_session_id st sid = Some s \<longrightarrow>
        ps_session_id s = sid \<and> length sid = SESSION_ID_SIZE \<and> sid \<in> set (ids_of st (ps_peer_id s))) \<and>
     (\<forall>p. distinct (ids_of st p) \<and> dict_get (st_by_peer st) p \<noteq> Some []) \<and>
     (\<forall>p. \<forall>sid\<in>set (ids_of st p). \<exists>s. get_by_session_id st sid = Some s \<and> ps_peer_id s = p)"

lemma index_invD:
  assumes "index_inv st"
  shows "wf_dict (st_by_session_id st)" "wf_dict (st_by_peer st)"
    "get_by_session_id st sid = Some s \<Longrightarrow> ps_session_id s = sid"
    "get_by_session_id st sid = Some s \<Longrightarrow> length sid = SESSION_ID_SIZE"
    "get_by_session_id st sid = Some s \<Longrightarrow> sid \<in> set (ids_of st (ps_peer_id s))"
    "distinct (ids_of st p)" "dict_get (st_by_peer st) p \<noteq> Some []"
    "sid \<in> set (ids_of st p) \<Longrightarrow> \<exists>s. get_by_session_id st sid = Some s \<and> ps_peer_id s = p"
  using assms unfolding index_inv_def by blast+

text \<open>Same configuration.\<close>

abbreviation same_config :: "session_store \<Rightarrow> session_store \<Rightarrow> bool" where
  "same_config st st' \<equiv>
     st_max_sessions_per_peer st' = st_max_sessions_per_peer st \<and>
     st_max_unconfirmed_per_peer st' = st_max_unconfirmed_per_peer st \<and>
     st_global_session_cap st' = st_global_session_cap st \<and>
     st_max_key_lifetime_s st' = st_max_key_lifetime_s st \<and>
     st_idle_timeout_confirmed_s st' = st_idle_timeout_confirmed_s st \<and>
     st_idle_timeout_unconfirmed_s st' = st_idle_timeout_unconfirmed_s st"

lemma remove_session_config: "same_config st (remove_session sid st)"
  by (simp add: remove_session_def Let_def split: option.split)

lemma remove_session_by_id:
  "st_by_session_id (remove_session sid st) = dict_pop sid (st_by_session_id st)"
proof (cases "get_by_session_id st sid")
  case None
  then have "sid \<notin> fst ` set (st_by_session_id st)"
    using dict_get_None by (simp add: get_by_session_id_def map_of_eq_None_iff)
  then have "dict_pop sid (st_by_session_id st) = st_by_session_id st" by (simp add: delete_idem)
  then show ?thesis using None by (simp add: remove_session_def)
qed (simp add: remove_session_def Let_def split: option.split)

lemma get_remove_session:
  "get_by_session_id (remove_session sid st) k = (if k = sid then None else get_by_session_id st k)"
  by (simp add: get_by_session_id_def remove_session_by_id)

lemma ids_of_remove_session:
  assumes inv: "index_inv st"
  shows "ids_of (remove_session sid st) p = filter (\<lambda>k. k \<noteq> sid) (ids_of st p)"
proof (cases "get_by_session_id st sid")
  case None
  then have "sid \<notin> set (ids_of st p)" using index_invD(8) [OF inv, of sid p] by auto
  then have "filter (\<lambda>k. k \<noteq> sid) (ids_of st p) = ids_of st p" by (auto simp: filter_id_conv)
  with None show ?thesis by (simp add: remove_session_def)
next
  case (Some s)
  have "sid \<in> set (ids_of st (ps_peer_id s))" using index_invD(5) [OF inv Some] .
  then obtain ids where ids: "dict_get (st_by_peer st) (ps_peer_id s) = Some ids"
    by (cases "dict_get (st_by_peer st) (ps_peer_id s)") (auto simp: ids_of_def)
  have "filter (\<lambda>k. k \<noteq> sid) (ids_of st p) = ids_of st p" if "p \<noteq> ps_peer_id s"
    using index_invD(8) [OF inv, of sid p] Some that by (auto simp: filter_id_conv)
  with Some ids show ?thesis
    by (cases "p = ps_peer_id s") (auto simp: remove_session_def ids_of_def Let_def)
qed

lemma remove_session_no_empty:
  assumes "index_inv st"
  shows "dict_get (st_by_peer (remove_session sid st)) p \<noteq> Some []"
  using index_invD(7) [OF assms, of p]
  by (auto simp: remove_session_def Let_def split: option.split)

lemma remove_session_inv:
  assumes inv: "index_inv st"
  shows "index_inv (remove_session sid st)"
proof -
  have "wf_dict (st_by_session_id (remove_session sid st))"
    using index_invD(1) [OF inv] by (simp add: remove_session_by_id wf_dict_pop)
  moreover have "wf_dict (st_by_peer (remove_session sid st))"
    using index_invD(2) [OF inv]
    by (auto simp: remove_session_def Let_def wf_dict_pop wf_dict_set split: option.split)
  ultimately show ?thesis
    using inv remove_session_no_empty [OF inv]
    unfolding index_inv_def [of "remove_session sid st"] get_remove_session
      ids_of_remove_session [OF inv] index_inv_def [of st]
    by auto
qed

text \<open>Any sequence of removals, which is what pruning, eviction and \<^verbatim>\<open>remove_by_peer\<close> amount to.\<close>

lemma remove_all:
  assumes "index_inv st"
  shows "index_inv (fold remove_session sids st) \<and> same_config st (fold remove_session sids st) \<and>
    (\<forall>k. get_by_session_id (fold remove_session sids st) k =
       (if k \<in> set sids then None else get_by_session_id st k)) \<and>
    (\<forall>p. ids_of (fold remove_session sids st) p = filter (\<lambda>k. k \<notin> set sids) (ids_of st p)) \<and>
    length (st_by_session_id (fold remove_session sids st)) \<le> length (st_by_session_id st)"
  using assms
proof (induction sids arbitrary: st)
  case (Cons sid sids)
  note IH = Cons.IH [OF remove_session_inv [OF Cons.prems, of sid]]
  show ?case
    using IH ids_of_remove_session [OF Cons.prems] remove_session_config [of sid st]
      length_dict_pop_le [of sid "st_by_session_id st"]
    by (auto simp: get_remove_session remove_session_by_id conj_commute)
qed simp

definition removed_from :: "(bytes \<Rightarrow> bool) \<Rightarrow> session_store \<Rightarrow> session_store \<Rightarrow> bool" where
  "removed_from P st st' \<longleftrightarrow> (\<exists>sids. (\<forall>sid\<in>set sids. P sid) \<and> st' = fold remove_session sids st)"

lemma removed_refl: "removed_from P st st"
  unfolding removed_from_def by (intro exI [of _ "[]"]) simp

lemma removed_step: "P sid \<Longrightarrow> removed_from P (remove_session sid st) st' \<Longrightarrow> removed_from P st st'"
  unfolding removed_from_def
  by (metis fold_simps(2) set_ConsD)

lemma removed_trans: "removed_from P st st1 \<Longrightarrow> removed_from P st1 st2 \<Longrightarrow> removed_from P st st2"
proof -
  assume "removed_from P st st1" "removed_from P st1 st2"
  then obtain a b where "\<forall>sid\<in>set a. P sid" "st1 = fold remove_session a st"
      "\<forall>sid\<in>set b. P sid" "st2 = fold remove_session b st1"
    unfolding removed_from_def by blast
  then show ?thesis unfolding removed_from_def by (intro exI [of _ "a @ b"]) auto
qed

lemma removed_mono: "removed_from P st st' \<Longrightarrow> (\<And>x. P x \<Longrightarrow> Q x) \<Longrightarrow> removed_from Q st st'"
  unfolding removed_from_def by blast

lemma removed_after:
  "P sid \<Longrightarrow> removed_from Q (remove_session sid st) st' \<Longrightarrow> (\<And>x. Q x \<Longrightarrow> P x) \<Longrightarrow> removed_from P st st'"
  by (rule removed_step) (auto elim: removed_mono)

lemma removed_facts:
  assumes "index_inv st" "removed_from P st st'"
  shows "index_inv st'" "same_config st st'" "length (st_by_session_id st') \<le> length (st_by_session_id st)"
    "get_by_session_id st' k = Some s \<Longrightarrow> get_by_session_id st k = Some s"
    "\<not> P k \<Longrightarrow> get_by_session_id st' k = get_by_session_id st k"
    "\<exists>Q. \<forall>p. ids_of st' p = filter Q (ids_of st p)"
  using assms remove_all [OF assms(1)] unfolding removed_from_def by (metis option.distinct(1))+

section \<open>What the caps do\<close>

definition unconf :: "session_store \<Rightarrow> bytes \<Rightarrow> bool" where
  "unconf st sid \<longleftrightarrow> (case get_by_session_id st sid of None \<Rightarrow> False | Some s \<Rightarrow> \<not> ps_confirmed s)"

definition conf :: "session_store \<Rightarrow> bytes \<Rightarrow> bool" where
  "conf st sid \<longleftrightarrow> (case get_by_session_id st sid of None \<Rightarrow> False | Some s \<Rightarrow> ps_confirmed s)"

definition conf_count :: "session_store \<Rightarrow> bytes list \<Rightarrow> int" where
  "conf_count st ids = int (length (filter (conf st) ids))"

definition unconf_count :: "session_store \<Rightarrow> pystr \<Rightarrow> int" where
  "unconf_count st p = int (length (filter (unconf st) (ids_of st p)))"

lemma unconf_remove: "unconf (remove_session sid st) x \<Longrightarrow> unconf st x"
  by (auto simp: unconf_def get_remove_session split: if_splits)

lemma conf_remove: "conf (remove_session sid st) x \<Longrightarrow> conf st x"
  by (auto simp: conf_def get_remove_session split: if_splits)

lemma length_filter_le: "(\<And>x. P x \<Longrightarrow> Q x) \<Longrightarrow> length (filter P (filter R xs)) \<le> length (filter Q xs)"
  by (induction xs) auto

lemma conf_count_remove: "conf_count (remove_session sid st) (filter R ids) \<le> conf_count st ids"
  unfolding conf_count_def using length_filter_le conf_remove by (metis of_nat_mono)

lemma unconfirmed_ids_eq:
  assumes "\<And>sid. sid \<in> set ids \<Longrightarrow> get_by_session_id st sid \<noteq> None"
  shows "unconfirmed_ids st ids = Inr (filter (unconf st) ids)"
proof -
  let ?f = "\<lambda>sid. case get_by_session_id st sid of None \<Rightarrow> Inl (Py KeyError) | Some s \<Rightarrow> Inr (sid, ps_confirmed s)"
  have "rmap ?f ids = Inr (map (\<lambda>sid. (sid, \<not> unconf st sid)) ids)"
    by (rule rmap_total) (use assms in \<open>force simp: unconf_def split: option.splits\<close>)
  then show ?thesis by (simp add: unconfirmed_ids_def filter_map o_def)
qed

lemma ids_known: "index_inv st \<Longrightarrow> sid \<in> set (ids_of st p) \<Longrightarrow> get_by_session_id st sid \<noteq> None"
  using index_invD(8) by blast

lemma evict_oldest_cases:
  obtains (evicted) sid where "sid \<in> set ids" "unconf st sid" "evict_oldest_created ids st = (True, remove_session sid st)"
  | (none) "evict_oldest_created ids st = (False, st)" "\<And>sid. sid \<in> set ids \<Longrightarrow> \<not> unconf st sid"
proof (cases "evict_oldest_created ids st")
  case (Pair b st')
  show ?thesis
  proof (cases b)
    case True
    then show ?thesis using Pair that(1) evict_least_True [of "\<lambda>s. \<not> ps_confirmed s" ps_created_at ids st st']
      by (auto simp: evict_oldest_created_def unconf_def)
  next
    case False
    then show ?thesis using Pair that(2) evict_least_False [of "\<lambda>s. \<not> ps_confirmed s" ps_created_at ids st st']
      by (auto simp: evict_oldest_created_def unconf_def split: option.splits)
  qed
qed

lemma evict_lru_cases:
  obtains (evicted) sid where "sid \<in> set ids" "conf st sid" "evict_lru_confirmed ids st = (True, remove_session sid st)"
  | (none) "evict_lru_confirmed ids st = (False, st)" "\<And>sid. sid \<in> set ids \<Longrightarrow> \<not> conf st sid"
proof (cases "evict_lru_confirmed ids st")
  case (Pair b st')
  show ?thesis
  proof (cases b)
    case True
    then show ?thesis using Pair that(1) evict_least_True [of ps_confirmed ps_last_activity ids st st']
      by (auto simp: evict_lru_confirmed_def conf_def)
  next
    case False
    then show ?thesis using Pair that(2) evict_least_False [of ps_confirmed ps_last_activity ids st st']
      by (auto simp: evict_lru_confirmed_def conf_def split: option.splits)
  qed
qed

lemma enforce_unconfirmed_spec:
  assumes "index_inv st" "1 \<le> st_max_unconfirmed_per_peer st"
  shows "\<exists>st'. enforce_unconfirmed p st = (Inr (), st') \<and> removed_from (unconf st) st st' \<and>
    unconf_count st' p < st_max_unconfirmed_per_peer st"
  using assms
proof (induction p st rule: enforce_unconfirmed.induct)
  case (1 p st)
  let ?u = "filter (unconf st) (ids_of st p)"
  have u: "unconfirmed_ids st (ids_of st p) = Inr ?u"
    by (rule unconfirmed_ids_eq) (rule ids_known [OF 1(2)])
  show ?case
  proof (cases "int (length ?u) \<ge> st_max_unconfirmed_per_peer st")
    case False
    then show ?thesis using u removed_refl by (simp add: enforce_unconfirmed.simps [of p st] unconf_count_def)
  next
    case True
    then have "?u \<noteq> []" using 1(3) by auto
    show ?thesis
    proof (cases rule: evict_oldest_cases [where ids = ?u and st = st])
      case (evicted sid)
      let ?st1 = "remove_session sid st"
      obtain st' where st': "enforce_unconfirmed p ?st1 = (Inr (), st')" "removed_from (unconf ?st1) ?st1 st'"
          "unconf_count st' p < st_max_unconfirmed_per_peer ?st1"
        using 1(1) [OF u True evicted(3) [symmetric] refl] 1(2,3) remove_session_inv [OF 1(2), of sid]
          remove_session_config [of sid st]
        by auto
      have "removed_from (unconf st) st st'" using evicted(2) st'(2) unconf_remove by (rule removed_after)
      then show ?thesis
        using u True evicted st' remove_session_config [of sid st] by (simp add: enforce_unconfirmed.simps [of p st])
    next
      case none
      have "?u = []" using none(2) by (auto simp: filter_empty_conv)
      with \<open>?u \<noteq> []\<close> show ?thesis by blast
    qed
  qed
qed

text \<open>
  The two loops with a second choice: an unconfirmed session goes first; a confirmed one goes only
  when nothing but confirmed sessions is left, and then there are at least as many as the cap.
\<close>

lemma all_conf_count:
  assumes "\<And>sid. sid \<in> set ids \<Longrightarrow> get_by_session_id st sid \<noteq> None"
    and "\<And>sid. sid \<in> set ids \<Longrightarrow> \<not> unconf st sid"
  shows "conf_count st ids = int (length ids)"
proof -
  have "\<forall>sid\<in>set ids. conf st sid" using assms by (fastforce simp: conf_def unconf_def split: option.splits)
  then have "filter (conf st) ids = ids" by (simp add: filter_id_conv)
  then show ?thesis by (simp add: conf_count_def)
qed

lemma enforce_sessions_spec:
  assumes "index_inv st" "1 \<le> st_max_sessions_per_peer st"
  shows "removed_from (\<lambda>sid. unconf st sid \<or> st_max_sessions_per_peer st \<le> conf_count st (ids_of st p))
      st (enforce_sessions p st) \<and>
    int (length (ids_of (enforce_sessions p st) p)) < st_max_sessions_per_peer st"
  using assms
proof (induction p st rule: enforce_sessions.induct)
  case (1 p st)
  let ?ids = "ids_of st p" and ?m = "st_max_sessions_per_peer st"
  let ?P = "\<lambda>st sid. unconf st sid \<or> ?m \<le> conf_count st (ids_of st p)"
  have rem: "index_inv (remove_session sid st)" "1 \<le> st_max_sessions_per_peer (remove_session sid st)"
      "st_max_sessions_per_peer (remove_session sid st) = ?m"
      "?P (remove_session sid st) x \<Longrightarrow> ?P st x" for sid x
    using 1(3,4) remove_session_inv remove_session_config [of sid st] unconf_remove
      conf_count_remove [of sid st "\<lambda>k. k \<noteq> sid" ?ids] ids_of_remove_session [OF 1(3), of sid p] by auto
  have step: "removed_from (?P st) st st'"
    if "?P st sid" "removed_from (?P (remove_session sid st)) (remove_session sid st) st'" for sid st'
    using that rem(4) by (rule removed_after)
  show ?case
  proof (cases "int (length ?ids) \<ge> ?m")
    case False
    then show ?thesis using removed_refl by (simp add: enforce_sessions.simps [of p st])
  next
    case True
    show ?thesis
    proof (cases rule: evict_oldest_cases [where ids = ?ids and st = st])
      case (evicted sid)
      have eq: "enforce_sessions p st = enforce_sessions p (remove_session sid st)"
        using True evicted by (simp add: enforce_sessions.simps [of p st])
      show ?thesis
        using 1(1) [OF True refl evicted(3) [symmetric] refl rem(1,2)] step [OF disjI1 [OF evicted(2)]]
        unfolding eq rem(3) by blast
    next
      case none
      have all: "conf_count st ?ids = int (length ?ids)"
        by (rule all_conf_count) (use none ids_known [OF 1(3)] in blast)+
      show ?thesis
      proof (cases rule: evict_lru_cases [where ids = ?ids and st = st])
        case (evicted sid)
        have eq: "enforce_sessions p st = enforce_sessions p (remove_session sid st)"
          using True none evicted by (simp add: enforce_sessions.simps [of p st])
        have P: "?P st sid" using True all by simp
        show ?thesis
          using 1(2) [OF True refl none(1) [symmetric] refl
              evicted(3) [symmetric] refl rem(1,2)] step [OF P]
          unfolding eq rem(3) by blast
      next
        case nolru: none
        have "?ids = []"
          using none(2) nolru(2) ids_known [OF 1(3), of _ p]
          by (cases ?ids) (fastforce simp: conf_def unconf_def split: option.splits)+
        with True 1(4) show ?thesis by simp
      qed
    qed
  qed
qed

lemma key_known: "sid \<in> set (dict_keys (st_by_session_id st)) \<Longrightarrow> get_by_session_id st sid \<noteq> None"
  using dict_get_None by (metis get_by_session_id_def)

lemma enforce_global_spec:
  assumes "index_inv st" "1 \<le> st_global_session_cap st"
  shows "\<exists>st'. enforce_global_cap st = (Inr (), st') \<and>
    removed_from (\<lambda>sid. unconf st sid \<or>
        st_global_session_cap st \<le> conf_count st (dict_keys (st_by_session_id st))) st st' \<and>
    int (length (st_by_session_id st')) < st_global_session_cap st"
  using assms
proof (induction st rule: enforce_global_cap.induct)
  case (1 st)
  let ?ids = "dict_keys (st_by_session_id st)" and ?m = "st_global_session_cap st"
  let ?P = "\<lambda>st sid. unconf st sid \<or> ?m \<le> conf_count st (dict_keys (st_by_session_id st))"
  have rem: "index_inv (remove_session sid st)" "1 \<le> st_global_session_cap (remove_session sid st)"
      "st_global_session_cap (remove_session sid st) = ?m"
      "?P (remove_session sid st) x \<Longrightarrow> ?P st x" for sid x
    using 1(3,4) remove_session_inv remove_session_config [of sid st] unconf_remove
      conf_count_remove [of sid st "\<lambda>k. k \<noteq> sid" ?ids]
    by (auto simp: remove_session_by_id keys_dict_pop)
  have step: "removed_from (?P st) st st'"
    if "?P st sid" "removed_from (?P (remove_session sid st)) (remove_session sid st) st'" for sid st'
    using that rem(4) by (rule removed_after)
  show ?case
  proof (cases "int (length (st_by_session_id st)) \<ge> ?m")
    case False
    then show ?thesis using removed_refl by (simp add: enforce_global_cap.simps [of st])
  next
    case True
    show ?thesis
    proof (cases rule: evict_oldest_cases [where ids = ?ids and st = st])
      case (evicted sid)
      have eq: "enforce_global_cap st = enforce_global_cap (remove_session sid st)"
        using True evicted by (simp add: enforce_global_cap.simps [of st])
      show ?thesis
        using 1(1) [OF True refl evicted(3) [symmetric] refl rem(1,2)] step [OF disjI1 [OF evicted(2)]]
        unfolding eq rem(3) by blast
    next
      case none
      have all: "conf_count st ?ids = int (length ?ids)"
        by (rule all_conf_count) (use none key_known in blast)+
      show ?thesis
      proof (cases rule: evict_lru_cases [where ids = ?ids and st = st])
        case (evicted sid)
        have eq: "enforce_global_cap st = enforce_global_cap (remove_session sid st)"
          using True none evicted by (simp add: enforce_global_cap.simps [of st])
        have P: "?P st sid" using True all by simp
        show ?thesis
          using 1(2) [OF True refl none(1) [symmetric] refl
              evicted(3) [symmetric] refl rem(1,2)] step [OF P]
          unfolding eq rem(3) by blast
      next
        case nolru: none
        have "st_by_session_id st = []"
          using none(2) nolru(2) key_known [of _ st]
          by (cases "st_by_session_id st") (fastforce simp: conf_def unconf_def split: option.splits)+
        with True 1(4) show ?thesis by simp
      qed
    qed
  qed
qed

section \<open>The invariant with caps\<close>

definition caps_inv :: "session_store \<Rightarrow> bool" where
  "caps_inv st \<longleftrightarrow>
     1 \<le> st_max_sessions_per_peer st \<and> 1 \<le> st_max_unconfirmed_per_peer st \<and> 1 \<le> st_global_session_cap st \<and>
     int (length (st_by_session_id st)) \<le> st_global_session_cap st \<and>
     (\<forall>p. int (length (ids_of st p)) \<le> st_max_sessions_per_peer st \<and>
          unconf_count st p \<le> st_max_unconfirmed_per_peer st)"

definition store_inv :: "session_store \<Rightarrow> bool" where
  "store_inv st \<longleftrightarrow> index_inv st \<and> caps_inv st"

lemma mk_SessionStore_inv: "store_inv mk_SessionStore"
  by (simp add: store_inv_def index_inv_def caps_inv_def mk_SessionStore_def get_by_session_id_def
      ids_of_def unconf_count_def MAX_SESSIONS_PER_PEER_def MAX_UNCONFIRMED_PER_PEER_def GLOBAL_SESSION_CAP_def)

lemma removed_counts:
  assumes "index_inv st" "removed_from P st st'"
  shows "int (length (ids_of st' p)) \<le> int (length (ids_of st p))" "unconf_count st' p \<le> unconf_count st p"
    "conf_count st' (ids_of st' p) \<le> conf_count st (ids_of st p)"
proof -
  obtain Q where Q: "\<And>p. ids_of st' p = filter Q (ids_of st p)" using removed_facts(6) [OF assms] by blast
  have "unconf st' x \<Longrightarrow> unconf st x" "conf st' x \<Longrightarrow> conf st x" for x
    using removed_facts(4) [OF assms, of x] by (auto simp: unconf_def conf_def split: option.splits)
  then show "unconf_count st' p \<le> unconf_count st p" "conf_count st' (ids_of st' p) \<le> conf_count st (ids_of st p)"
    unfolding unconf_count_def conf_count_def Q of_nat_le_iff by (blast intro: length_filter_le)+
  show "int (length (ids_of st' p)) \<le> int (length (ids_of st p))" by (simp add: Q)
qed

lemma removed_inv: "store_inv st \<Longrightarrow> removed_from P st st' \<Longrightarrow> store_inv st'"
  unfolding store_inv_def caps_inv_def using removed_facts(1,2,3) removed_counts
  by (smt (verit, best) of_nat_mono)

lemma prune_expired_removed:
  assumes "index_inv st"
  shows "removed_from (\<lambda>sid. \<exists>s. get_by_session_id st sid = Some s \<and> is_expired st s now) st (snd (prune_expired now st))"
  unfolding removed_from_def prune_expired_def Let_def snd_conv
  using index_invD(1) [OF assms]
  by (intro exI [of _ "map fst (filter (\<lambda>(sid, sess). is_expired st sess now) (st_by_session_id st))"])
    (auto simp: get_by_session_id_def)

lemma remove_by_peer_removed: "removed_from (\<lambda>sid. sid \<in> set (ids_of st p)) st (snd (remove_by_peer p st))"
  unfolding removed_from_def remove_by_peer_def Let_def by auto

text \<open>What recording removes: expired sessions, unconfirmed ones, and a confirmed one only at a cap.\<close>

definition evictable :: "real \<Rightarrow> pystr \<Rightarrow> session_store \<Rightarrow> bytes \<Rightarrow> bool" where
  "evictable now p st sid \<longleftrightarrow>
     (\<exists>s. get_by_session_id st sid = Some s \<and> (is_expired st s now \<or> \<not> ps_confirmed s)) \<or>
     st_max_sessions_per_peer st \<le> conf_count st (ids_of st p) \<or>
     st_global_session_cap st \<le> conf_count st (dict_keys (st_by_session_id st))"

lemma conf_count_keys: "conf_count st (dict_keys (st_by_session_id st)) =
    int (card {sid. conf st sid})" if "index_inv st"
proof -
  have "{sid. conf st sid} = set (filter (conf st) (dict_keys (st_by_session_id st)))"
    using dict_get_None [of "st_by_session_id st"]
    by (force simp: conf_def get_by_session_id_def split: option.splits)
  then have "card {sid. conf st sid} = length (filter (conf st) (dict_keys (st_by_session_id st)))"
    using index_invD(1) [OF that] by (simp only: distinct_card distinct_filter)
  then show ?thesis by (simp only: conf_count_def)
qed

lemma removed_conf_keys:
  assumes "index_inv st" "removed_from P st st'"
  shows "conf_count st' (dict_keys (st_by_session_id st')) \<le> conf_count st (dict_keys (st_by_session_id st))"
proof -
  have "{sid. conf st' sid} \<subseteq> {sid. conf st sid}"
    using removed_facts(4) [OF assms] by (auto simp: conf_def split: option.splits)
  moreover have "finite {sid. conf st sid}"
    by (rule finite_subset [of _ "set (dict_keys (st_by_session_id st))"])
      (auto simp: conf_def get_by_session_id_def split: option.splits dest!: map_of_SomeD intro: rev_image_eqI)
  ultimately show ?thesis
    using conf_count_keys removed_facts(1) [OF assms] assms(1) by (simp add: card_mono)
qed

definition add_session :: "peer_session \<Rightarrow> session_store \<Rightarrow> session_store" where
  "add_session s st = index_peer (ps_peer_id s) (ps_session_id s)
     (st\<lparr>st_by_session_id := dict_set (ps_session_id s) s (st_by_session_id st)\<rparr>)"

lemma put_spec:
  assumes inv: "store_inv st" and "length (ps_session_id s) = SESSION_ID_SIZE"
    and "get_by_session_id st (ps_session_id s) = None"
  shows "\<exists>st'. put now s st = (Inr (), add_session s st') \<and> removed_from (evictable now (ps_peer_id s) st) st st' \<and>
    unconf_count st' (ps_peer_id s) < st_max_unconfirmed_per_peer st \<and>
    int (length (ids_of st' (ps_peer_id s))) < st_max_sessions_per_peer st \<and>
    int (length (st_by_session_id st')) < st_global_session_cap st"
proof -
  let ?p = "ps_peer_id s" and ?P = "evictable now (ps_peer_id s) st"
  have ix: "index_inv st" and caps: "1 \<le> st_max_sessions_per_peer st" "1 \<le> st_max_unconfirmed_per_peer st"
      "1 \<le> st_global_session_cap st"
    using inv by (simp_all add: store_inv_def caps_inv_def)
  define st1 where "st1 = snd (prune_expired now st)"
  have r1: "removed_from ?P st st1"
    unfolding st1_def by (rule removed_mono [OF prune_expired_removed [OF ix]]) (auto simp: evictable_def)
  note f1 = removed_facts [OF ix r1]
  obtain st2 where st2: "enforce_unconfirmed ?p st1 = (Inr (), st2)" "removed_from (unconf st1) st1 st2"
      "unconf_count st2 ?p < st_max_unconfirmed_per_peer st"
    using enforce_unconfirmed_spec [OF f1(1), of ?p] f1(2) caps by auto
  have "removed_from ?P st1 st2"
    using st2(2) by (rule removed_mono) (use f1(4) in \<open>auto simp: evictable_def unconf_def split: option.splits\<close>)
  with r1 have r2: "removed_from ?P st st2" by (rule removed_trans)
  note f2 = removed_facts [OF ix r2]
  define st3 where "st3 = enforce_sessions ?p st2"
  have st3: "removed_from (\<lambda>sid. unconf st2 sid \<or> st_max_sessions_per_peer st2 \<le> conf_count st2 (ids_of st2 ?p)) st2 st3"
      "int (length (ids_of st3 ?p)) < st_max_sessions_per_peer st"
    using enforce_sessions_spec [OF f2(1), of ?p] f2(2) caps unfolding st3_def by auto
  have "removed_from ?P st2 st3"
    using st3(1) by (rule removed_mono) (use f2(2,4) removed_counts(3) [OF ix r2, of ?p]
      in \<open>auto simp: evictable_def unconf_def split: option.splits\<close>)
  with r2 have r3: "removed_from ?P st st3" by (rule removed_trans)
  note f3 = removed_facts [OF ix r3]
  obtain st4 where st4: "enforce_global_cap st3 = (Inr (), st4)"
      "removed_from (\<lambda>sid. unconf st3 sid \<or>
         st_global_session_cap st3 \<le> conf_count st3 (dict_keys (st_by_session_id st3))) st3 st4"
      "int (length (st_by_session_id st4)) < st_global_session_cap st"
    using enforce_global_spec [OF f3(1)] f3(2) caps by auto
  have "removed_from ?P st3 st4"
    using st4(2) by (rule removed_mono) (use f3(2,4) removed_conf_keys [OF ix r3]
      in \<open>auto simp: evictable_def unconf_def split: option.splits\<close>)
  with r3 have r4: "removed_from ?P st st4" by (rule removed_trans)
  have "put now s st = (Inr (), add_session s st4)"
    using assms(2,3) st2(1) st4(1)
    by (simp add: put_def enforce_peer_caps_def add_session_def flip: st1_def st3_def)
  moreover have "unconf_count st4 ?p < st_max_unconfirmed_per_peer st"
    using st2(3) removed_counts(2) [OF f2(1) st3(1), of ?p] removed_counts(2) [OF f3(1) st4(2), of ?p] by linarith
  moreover have "int (length (ids_of st4 ?p)) < st_max_sessions_per_peer st"
    using st3(2) removed_counts(1) [OF f3(1) st4(2), of ?p] by linarith
  ultimately show ?thesis using r4 st4(3) by blast
qed

lemma get_add_session:
  "get_by_session_id (add_session s st) k = (if k = ps_session_id s then Some s else get_by_session_id st k)"
  by (simp add: add_session_def index_peer_def get_by_session_id_def Let_def)

lemma ids_of_add_session:
  "ps_session_id s \<notin> set (ids_of st (ps_peer_id s)) \<Longrightarrow>
   ids_of (add_session s st) p = (if p = ps_peer_id s then ids_of st p @ [ps_session_id s] else ids_of st p)"
  by (auto simp: add_session_def index_peer_def ids_of_def Let_def)

lemma add_session_inv:
  assumes inv: "store_inv st" and len: "length (ps_session_id s) = SESSION_ID_SIZE"
    and new: "get_by_session_id st (ps_session_id s) = None"
    and room: "unconf_count st (ps_peer_id s) < st_max_unconfirmed_per_peer st"
      "int (length (ids_of st (ps_peer_id s))) < st_max_sessions_per_peer st"
      "int (length (st_by_session_id st)) < st_global_session_cap st"
  shows "store_inv (add_session s st)"
proof -
  let ?st = "add_session s st" and ?sid = "ps_session_id s"
  have ix: "index_inv st" and caps: "caps_inv st" using inv by (simp_all add: store_inv_def)
  have notin: "?sid \<notin> set (ids_of st p)" for p using index_invD(8) [OF ix, of ?sid p] new by auto
  note ids = ids_of_add_session [OF notin]
  have "wf_dict (st_by_session_id ?st)" "wf_dict (st_by_peer ?st)"
    using index_invD(1,2) [OF ix] by (simp_all add: wf_dict_set add_session_def index_peer_def Let_def)
  moreover have "dict_get (st_by_peer ?st) p \<noteq> Some []" for p
    using index_invD(7) [OF ix, of p] by (auto simp: add_session_def index_peer_def Let_def)
  ultimately have "index_inv ?st"
    using ix new notin len unfolding index_inv_def [of ?st] index_inv_def [of st] get_add_session ids
    by auto metis
  moreover have uc: "unconf ?st k = unconf st k" if "k \<noteq> ?sid" for k
    using that by (simp add: unconf_def get_add_session)
  have "filter (unconf ?st) (ids_of st p) = filter (unconf st) (ids_of st p)" for p
    using notin [of p] by (intro filter_cong refl uc) auto
  then have "unconf_count ?st p \<le> (if p = ps_peer_id s then unconf_count st p + 1 else unconf_count st p)" for p
    by (simp add: unconf_count_def ids)
  moreover have "length (st_by_session_id ?st) = Suc (length (st_by_session_id st))"
    using new dict_get_None [of "st_by_session_id st" ?sid]
    by (simp add: add_session_def index_peer_def Let_def length_dict_set get_by_session_id_def)
  moreover have "same_config st ?st" by (simp add: add_session_def index_peer_def Let_def)
  ultimately show ?thesis
    using caps room unfolding store_inv_def caps_inv_def ids by (smt (verit) length_append_singleton of_nat_Suc)
qed

lemma put_inv: "store_inv st \<Longrightarrow> store_inv (snd (put now s st))"
proof (cases "length (ps_session_id s) = SESSION_ID_SIZE \<and> get_by_session_id st (ps_session_id s) = None")
  case True
  assume inv: "store_inv st"
  from put_spec [OF inv conjunct1 [OF True] conjunct2 [OF True]] obtain st' where
    st': "put now s st = (Inr (), add_session s st')" "removed_from (evictable now (ps_peer_id s) st) st st'"
      "unconf_count st' (ps_peer_id s) < st_max_unconfirmed_per_peer st"
      "int (length (ids_of st' (ps_peer_id s))) < st_max_sessions_per_peer st"
      "int (length (st_by_session_id st')) < st_global_session_cap st" by blast
  have ix: "index_inv st" using inv by (simp add: store_inv_def)
  note f = removed_facts [OF ix st'(2)]
  have "get_by_session_id st' (ps_session_id s) = None" using f(4) [of "ps_session_id s"] True
    by (cases "get_by_session_id st' (ps_session_id s)") auto
  then have "store_inv (add_session s st')"
    using add_session_inv [OF removed_inv [OF inv st'(2)]] True st'(3-5) f(2) by simp
  then show ?thesis by (simp add: st'(1))
qed (auto simp: put_def)

lemma get_modify_session:
  "get_by_session_id (modify_session sid f st) k =
     (if k = sid then map_option f (get_by_session_id st k) else get_by_session_id st k)"
  by (auto simp: modify_session_def get_by_session_id_def split: option.split)

lemma ids_of_modify_session [simp]: "ids_of (modify_session sid f st) p = ids_of st p"
  by (simp add: modify_session_def ids_of_def split: option.split)

lemma modify_session_inv:
  assumes inv: "store_inv st"
    and f: "\<And>s. ps_peer_id (f s) = ps_peer_id s" "\<And>s. ps_session_id (f s) = ps_session_id s"
      "\<And>s. ps_confirmed s \<Longrightarrow> ps_confirmed (f s)"
  shows "store_inv (modify_session sid f st)"
proof -
  let ?st = "modify_session sid f st"
  have ix: "index_inv st" and caps: "caps_inv st" using inv by (simp_all add: store_inv_def)
  have eq: "st_by_peer ?st = st_by_peer st" "same_config st ?st"
    by (simp_all add: modify_session_def split: option.split)
  have keys: "dict_keys (st_by_session_id ?st) = dict_keys (st_by_session_id st)"
  proof (cases "get_by_session_id st sid")
    case (Some s)
    then have "sid \<in> set (dict_keys (st_by_session_id st))"
      using dict_get_None [of "st_by_session_id st" sid] by (metis get_by_session_id_def option.distinct(1))
    then show ?thesis using Some by (simp add: modify_session_def keys_dict_set)
  qed (simp add: modify_session_def)
  have "index_inv ?st"
    using ix f(1,2) unfolding index_inv_def get_modify_session ids_of_modify_session eq(1) keys
    by (auto split: if_splits) metis
  moreover have "unconf ?st k \<Longrightarrow> unconf st k" for k
    using f(3) by (auto simp: unconf_def get_modify_session split: option.splits if_splits)
  then have "unconf_count ?st p \<le> unconf_count st p" for p
    using length_filter_le [of "unconf ?st" "unconf st" "\<lambda>_. True" "ids_of st p"] by (simp add: unconf_count_def)
  moreover have "length (st_by_session_id ?st) = length (st_by_session_id st)"
    using keys by (metis length_map)
  ultimately show ?thesis using caps eq(2) unfolding store_inv_def caps_inv_def by (auto intro: order_trans)
qed

section \<open>Every history keeps the invariant\<close>

text \<open>The operations on the store and on the sessions in it, as the transport and the secure channel use them.\<close>

datatype store_event =
    Put real peer_session
  | Confirm bytes
  | RemoveByPeer pystr
  | PruneExpired real
  | SendOn bytes real \<comment> \<open>\<open>allocate_counter\<close> and \<open>mark_active\<close> of a seal\<close>
  | ReceiveOn bytes int real \<comment> \<open>window, confirmation and \<open>mark_active\<close> of an open\<close>

definition receive_on :: "int \<Rightarrow> real \<Rightarrow> peer_session \<Rightarrow> peer_session" where
  "receive_on counter now s =
     mark_active now (s\<lparr>ps_receive_window := snd (accept (ps_receive_window s) counter),
        ps_confirmed := (if ps_role s = ROLE_RESPONDER then True else ps_confirmed s)\<rparr>)"

fun store_step :: "store_event \<Rightarrow> session_store \<Rightarrow> session_store" where
  "store_step (Put now s) st = snd (put now s st)"
| "store_step (Confirm sid) st = confirm sid st"
| "store_step (RemoveByPeer p) st = snd (remove_by_peer p st)"
| "store_step (PruneExpired now) st = snd (prune_expired now st)"
| "store_step (SendOn sid now) st = modify_session sid (\<lambda>s. mark_active now (snd (allocate_counter s))) st"
| "store_step (ReceiveOn sid counter now) st = modify_session sid (receive_on counter now) st"

interpretation store_machine: machine_inv store_step store_inv
proof
  fix e st assume inv: "store_inv st"
  then have ix: "index_inv st" by (simp add: store_inv_def)
  show "store_inv (store_step e st)"
  proof (cases e)
    case (RemoveByPeer p)
    then show ?thesis using removed_inv [OF inv remove_by_peer_removed] by simp
  next
    case (PruneExpired now)
    then show ?thesis using removed_inv [OF inv prune_expired_removed [OF ix]] by simp
  qed (auto simp: confirm_def receive_on_def mark_active_def allocate_counter_def
      intro!: put_inv modify_session_inv inv)
qed

lemma store_step_config: "index_inv st \<Longrightarrow> store_inv st \<Longrightarrow> same_config st (store_step e st)"
proof (cases e)
  case (Put now s)
  assume "store_inv st" "index_inv st"
  then show ?thesis
  proof (cases "length (ps_session_id s) = SESSION_ID_SIZE \<and> get_by_session_id st (ps_session_id s) = None")
    case True
    with put_spec [OF \<open>store_inv st\<close>] obtain st' where
      "put now s st = (Inr (), add_session s st')" "removed_from (evictable now (ps_peer_id s) st) st st'" by blast
    then show ?thesis
      using removed_facts(2) [OF \<open>index_inv st\<close>] Put
      by (simp add: add_session_def index_peer_def Let_def)
  qed (auto simp: put_def Put)
next
  case (RemoveByPeer p)
  assume "index_inv st"
  then show ?thesis using RemoveByPeer removed_facts(2) [OF _ remove_by_peer_removed] by simp
next
  case (PruneExpired now)
  assume "index_inv st"
  then show ?thesis using PruneExpired removed_facts(2) [OF _ prune_expired_removed] by simp
qed (simp_all add: confirm_def modify_session_def split: option.split)

lemma store_run_config: "same_config mk_SessionStore (fold store_step es mk_SessionStore)"
proof (induction es rule: rev_induct)
  case (snoc e es)
  have "store_inv (fold store_step es mk_SessionStore)"
    by (rule store_machine.run_inv [OF mk_SessionStore_inv])
  then show ?case using snoc store_step_config [of "fold store_step es mk_SessionStore" e]
    by (simp add: store_inv_def)
qed simp

definition store_after :: "store_event list \<Rightarrow> session_store" where
  "store_after es = fold store_step es mk_SessionStore"

lemma sessions_for_peer_map:
  assumes "index_inv st"
  shows "map Some (sessions_for_peer st p) = map (get_by_session_id st) (ids_of st p)"
proof -
  have "\<forall>sid\<in>set ids. get_by_session_id st sid \<noteq> None \<Longrightarrow>
      map Some (List.map_filter (get_by_session_id st) ids) = map (get_by_session_id st) ids" for ids
    by (induction ids) (auto simp: List.map_filter_def)
  then show ?thesis using ids_known [OF assms] by (simp add: sessions_for_peer_def)
qed

lemma set_sessions_for_peer:
  assumes "index_inv st"
  shows "s \<in> set (sessions_for_peer st p) \<longleftrightarrow> get_by_session_id st (ps_session_id s) = Some s \<and> ps_peer_id s = p"
proof -
  have "s \<in> set (sessions_for_peer st p) \<longleftrightarrow> (\<exists>sid\<in>set (ids_of st p). get_by_session_id st sid = Some s)"
    by (force simp: sessions_for_peer_def List.map_filter_def)
  then show ?thesis using index_invD(3,5,8) [OF assms] by fastforce
qed

lemma latest_in: "latest ss = Some s \<Longrightarrow> s \<in> set ss \<and> (\<forall>x\<in>set ss. ps_last_activity x \<le> ps_last_activity s)"
proof (cases ss)
  case (Cons a ss')
  have *: "foldl (\<lambda>m x. if ps_last_activity x > ps_last_activity m then x else m) a xs = m \<Longrightarrow>
      m \<in> set (a # xs) \<and> (\<forall>x\<in>set (a # xs). ps_last_activity x \<le> ps_last_activity m)" for xs m
  proof (induction xs arbitrary: a)
    case (Cons x xs)
    from Cons.IH [of "if ps_last_activity x > ps_last_activity a then x else a"] Cons.prems show ?case
      by (auto split: if_splits)
  qed simp
  show "latest ss = Some s \<Longrightarrow> ?thesis" using * [of ss' s] Cons by simp
qed simp

lemma latest_None: "latest ss = None \<longleftrightarrow> ss = []"
  by (cases ss) simp_all

section \<open>Properties\<close>

text \<open>
  C16: Starting from the empty store, every sequence of recordings, confirmations, removals, prunings
  and uses of sessions leaves the two indexes consistent (each stored session is listed once, under
  its own peer, and nothing else is listed) and within the caps: at most 256 sessions in all, 8 per
  peer and 4 unconfirmed per peer.
\<close>

theorem session_store_invariant:
  "index_inv (store_after es) \<and> store_len (store_after es) \<le> 256 \<and> length (sessions_for_peer (store_after es) p) \<le> 8 \<and>
    length (filter (\<lambda>s. \<not> ps_confirmed s) (sessions_for_peer (store_after es) p)) \<le> 4 \<and>
    (s \<in> set (sessions_for_peer (store_after es) p) \<longleftrightarrow>
       get_by_session_id (store_after es) (ps_session_id s) = Some s \<and> ps_peer_id s = p)"
proof -
  have inv: "store_inv (store_after es)" unfolding store_after_def by (rule store_machine.run_inv [OF mk_SessionStore_inv])
  then have ix: "index_inv (store_after es)" by (simp add: store_inv_def)
  have cfg: "same_config mk_SessionStore (store_after es)"
    unfolding store_after_def by (rule store_run_config)
  have m: "map Some (sessions_for_peer (store_after es) p) = map (get_by_session_id (store_after es)) (ids_of (store_after es) p)"
    by (rule sessions_for_peer_map [OF ix])
  then have len: "length (sessions_for_peer (store_after es) p) = length (ids_of (store_after es) p)" by (metis length_map)
  have "length (filter (\<lambda>s. \<not> ps_confirmed s) (sessions_for_peer (store_after es) p)) =
      length (filter (\<lambda>x. case x of None \<Rightarrow> False | Some s \<Rightarrow> \<not> ps_confirmed s) (map Some (sessions_for_peer (store_after es) p)))"
    by (simp add: filter_map o_def)
  also have "\<dots> = length (filter (unconf (store_after es)) (ids_of (store_after es) p))"
    unfolding m by (simp add: filter_map o_def unconf_def [abs_def])
  finally show ?thesis
    using inv ix len cfg set_sessions_for_peer [OF ix]
    by (simp add: store_inv_def caps_inv_def store_len_def unconf_count_def mk_SessionStore_def
        MAX_SESSIONS_PER_PEER_def MAX_UNCONFIRMED_PER_PEER_def GLOBAL_SESSION_CAP_def)
qed

text \<open>
  C13: Recording a session never costs the peer a live confirmed one: as long as the peer's confirmed
  sessions are below its cap and all confirmed sessions below the global cap, every confirmed,
  unexpired session of any peer survives \<^verbatim>\<open>put\<close> unchanged, whatever it evicts to make room,
  and the new session is stored.
\<close>

theorem put_keeps_confirmed:
  assumes "store_inv st" and "length (ps_session_id new) = SESSION_ID_SIZE"
    and "get_by_session_id st (ps_session_id new) = None"
    and "conf_count st (ids_of st (ps_peer_id new)) < st_max_sessions_per_peer st"
    and "conf_count st (dict_keys (st_by_session_id st)) < st_global_session_cap st"
    and "get_by_session_id st sid = Some s" "ps_confirmed s" "\<not> is_expired st s now"
  shows "fst (put now new st) = Inr () \<and> get_by_session_id (snd (put now new st)) sid = Some s \<and>
    get_by_session_id (snd (put now new st)) (ps_session_id new) = Some new"
proof -
  from put_spec [OF assms(1-3)] obtain st' where st': "put now new st = (Inr (), add_session new st')"
      "removed_from (evictable now (ps_peer_id new) st) st st'" by blast
  have ix: "index_inv st" using assms(1) by (simp add: store_inv_def)
  have "\<not> evictable now (ps_peer_id new) st sid" using assms(4-8) by (simp add: evictable_def)
  then have "get_by_session_id st' sid = Some s" using removed_facts(5) [OF ix st'(2)] assms(6) by simp
  moreover have "sid \<noteq> ps_session_id new" using assms(3,6) by auto
  ultimately show ?thesis by (simp add: st'(1) get_add_session)
qed

definition sample_session :: "byte \<Rightarrow> bool \<Rightarrow> peer_session" where
  "sample_session b confirmed =
     \<lparr>ps_peer_id = [65], ps_session_id = replicate 8 b, ps_role = ROLE_RESPONDER, ps_send_key = replicate 32 0,
      ps_receive_key = replicate 32 0, ps_transfer_port = 1, ps_manifest_port = 2, ps_confirmed = confirmed,
      ps_created_at = 0, ps_last_activity = 0, ps_next_send_counter = 1, ps_sent_count = 0,
      ps_receive_window = \<lparr>w_window = 1, w_slots = 3, w_bits = [0], w_highest = 0, w_base = 0\<rparr>\<rparr>"

definition one_session_store :: "session_store" where
  "one_session_store = add_session (sample_session 1 True) mk_SessionStore"

lemma one_session_store_inv: "store_inv one_session_store"
  unfolding one_session_store_def
  by (rule add_session_inv) (use mk_SessionStore_inv in \<open>simp_all add: sample_session_def SESSION_ID_SIZE_def
      mk_SessionStore_def get_by_session_id_def unconf_count_def ids_of_def MAX_SESSIONS_PER_PEER_def
      MAX_UNCONFIRMED_PER_PEER_def GLOBAL_SESSION_CAP_def\<close>)

lemmas sample_simps = one_session_store_def sample_session_def add_session_def index_peer_def Let_def
  mk_SessionStore_def get_by_session_id_def ids_of_def conf_count_def conf_def SESSION_ID_SIZE_def
  MAX_SESSIONS_PER_PEER_def GLOBAL_SESSION_CAP_def is_expired_def MAX_KEY_LIFETIME_S_def
  IDLE_TIMEOUT_CONFIRMED_S_def

theorem put_keeps_confirmed_witness:
  "get_by_session_id (snd (put 5 (sample_session 2 False) one_session_store)) (replicate 8 1) =
     Some (sample_session 1 True)"
proof -
  have "get_by_session_id one_session_store (replicate 8 1) = Some (sample_session 1 True)"
    "\<not> is_expired one_session_store (sample_session 1 True) 5" "ps_confirmed (sample_session 1 True)"
    "length (ps_session_id (sample_session 2 False)) = SESSION_ID_SIZE"
    "get_by_session_id one_session_store (ps_session_id (sample_session 2 False)) = None"
    "conf_count one_session_store (ids_of one_session_store (ps_peer_id (sample_session 2 False)))
      < st_max_sessions_per_peer one_session_store"
    "conf_count one_session_store (dict_keys (st_by_session_id one_session_store))
      < st_global_session_cap one_session_store"
    by (simp_all add: sample_simps)
  with put_keeps_confirmed [OF one_session_store_inv] show ?thesis by blast
qed

text \<open>
  A replayed or flooding initiator can displace a confirmed session at the cap: when the peer
  holds its maximum of sessions and all are confirmed, recording one more unconfirmed session
  removes one of them (the comment on \<^verbatim>\<open>MAX_UNCONFIRMED_PER_PEER\<close> says this never happens).
\<close>

theorem full_peer_loses_confirmed:
  assumes "store_inv st" and "length (ps_session_id new) = SESSION_ID_SIZE"
    and "get_by_session_id st (ps_session_id new) = None" and "\<not> ps_confirmed new"
    and "int (length (ids_of st (ps_peer_id new))) = st_max_sessions_per_peer st"
    and "list_all (conf st) (ids_of st (ps_peer_id new))"
  shows "\<exists>sid. conf st sid \<and> get_by_session_id (snd (put now new st)) sid = None"
proof -
  from put_spec [OF assms(1-3)] obtain st' where st': "put now new st = (Inr (), add_session new st')"
      "removed_from (evictable now (ps_peer_id new) st) st st'"
      "int (length (ids_of st' (ps_peer_id new))) < st_max_sessions_per_peer st" by blast
  have ix: "index_inv st" using assms(1) by (simp add: store_inv_def)
  obtain Q where Q: "ids_of st' (ps_peer_id new) = filter Q (ids_of st (ps_peer_id new))"
    using removed_facts(6) [OF ix st'(2)] by blast
  have "length (filter Q (ids_of st (ps_peer_id new))) < length (ids_of st (ps_peer_id new))"
    using st'(3) assms(5) unfolding Q by linarith
  then obtain sid where sid: "sid \<in> set (ids_of st (ps_peer_id new))" "\<not> Q sid"
    by (metis filter_True less_irrefl)
  have "sid \<notin> set (ids_of st' (ps_peer_id new))" using sid(2) Q by simp
  then have "get_by_session_id st' sid = None"
    using index_invD(5) [OF removed_facts(1) [OF ix st'(2)], of sid] removed_facts(4) [OF ix st'(2), of sid]
      index_invD(8) [OF ix sid(1)] by (cases "get_by_session_id st' sid") auto
  moreover have "sid \<noteq> ps_session_id new" using index_invD(8) [OF ix sid(1)] assms(3) by auto
  moreover have "conf st sid" using assms(6) sid(1) by (auto simp: list_all_iff)
  ultimately show ?thesis using st'(1) by (auto simp: get_add_session)
qed

theorem full_peer_loses_confirmed_witness:
  "\<exists>sid. conf (one_session_store\<lparr>st_max_sessions_per_peer := 1\<rparr>) sid \<and> get_by_session_id
     (snd (put 5 (sample_session 2 False) (one_session_store\<lparr>st_max_sessions_per_peer := 1\<rparr>))) sid = None"
proof (rule full_peer_loses_confirmed)
  show "store_inv (one_session_store\<lparr>st_max_sessions_per_peer := 1\<rparr>)"
    using one_session_store_inv
    by (auto simp: store_inv_def index_inv_def caps_inv_def unconf_count_def unconf_def sample_simps)
qed (simp_all add: sample_simps)

text \<open>
  \<^verbatim>\<open>get_send_session\<close> picks a session that may carry traffic or none exists: what it returns is
  stored for the peer, confirmed, within its key lifetime and not out of counters, no sendable session of
  the peer is more recent, and \<^verbatim>\<open>None\<close> means that no session of the peer can send.
\<close>

theorem get_send_session_correct:
  assumes "index_inv st"
  shows "case get_send_session now st p of
      None \<Rightarrow> \<forall>sid s. get_by_session_id st sid = Some s \<longrightarrow> ps_peer_id s = p \<longrightarrow>
        \<not> can_send s now (st_max_key_lifetime_s st)
    | Some s \<Rightarrow> get_by_session_id st (ps_session_id s) = Some s \<and> ps_peer_id s = p \<and> ps_confirmed s \<and>
        now - ps_created_at s \<le> st_max_key_lifetime_s st \<and> ps_sent_count s < MAX_MESSAGES_PER_KEY \<and>
        ps_next_send_counter s \<le> MAX_COUNTER \<and>
        (\<forall>sid t. get_by_session_id st sid = Some t \<longrightarrow> ps_peer_id t = p \<longrightarrow>
           can_send t now (st_max_key_lifetime_s st) \<longrightarrow> ps_last_activity t \<le> ps_last_activity s)"
proof (cases "get_send_session now st p")
  case None
  then have "\<forall>s\<in>set (sessions_for_peer st p). \<not> can_send s now (st_max_key_lifetime_s st)"
    by (auto simp: get_send_session_def latest_None filter_empty_conv)
  then show ?thesis using None set_sessions_for_peer [OF assms] index_invD(3) [OF assms] by auto
next
  case (Some s)
  note l = latest_in [OF Some [unfolded get_send_session_def]]
  then show ?thesis
    using Some set_sessions_for_peer [OF assms] index_invD(3) [OF assms]
    by (auto simp: can_send_def split: if_splits)
qed

theorem get_send_session_correct_witness:
  "get_send_session 5 one_session_store [65] = Some (sample_session 1 True) \<and>
   ps_confirmed (sample_session 1 True) \<and> 5 - ps_created_at (sample_session 1 True) \<le> MAX_KEY_LIFETIME_S"
proof -
  have "get_send_session 5 one_session_store [65] = Some (sample_session 1 True)"
    by (simp add: get_send_session_def sessions_for_peer_def List.map_filter_def can_send_def sample_simps
        MAX_MESSAGES_PER_KEY_def MAX_COUNTER_def)
  then show ?thesis
    using get_send_session_correct [of one_session_store "[65]" 5] one_session_store_inv
    by (simp add: store_inv_def) (simp add: one_session_store_def add_session_def index_peer_def Let_def mk_SessionStore_def)
qed

end
