(* ===== verification/Wire_Protocol.thy ===== *)
theory Wire_Protocol
  imports Prelude
begin

unbundle bit_operations_syntax

text \<open>
  \<^verbatim>\<open>core/protocol.py\<close>: the 32-byte packet header and the packet codec. CRC-32 (\<^verbatim>\<open>zlib.crc32\<close>)
  is modelled bit by bit on 32-bit words; MessagePack is a third-party package, so packing and
  unpacking of the payload are arguments.
\<close>

section \<open>CRC-32\<close>

definition crc_poly :: "32 word" where
  "crc_poly = 0xEDB88320"

definition crc_bit :: "32 word \<Rightarrow> 32 word" where
  "crc_bit c = (if bit c 0 then drop_bit 1 c XOR crc_poly else drop_bit 1 c)"

definition crc_byte :: "32 word \<Rightarrow> byte \<Rightarrow> 32 word" where
  "crc_byte c b = (crc_bit ^^ 8) (c XOR ucast b)"

definition crc32 :: "bytes \<Rightarrow> int" where
  "crc32 bs = uint (NOT (foldl crc_byte 0xFFFFFFFF bs))"

section \<open>Packet header\<close>

definition MAGIC :: int where "MAGIC = 0x53594E43"
definition HEADER_SIZE :: nat where "HEADER_SIZE = 32"
definition CURRENT_VERSION :: int where "CURRENT_VERSION = 2"

datatype packet_type =
    HELLO | KEY_EXCHANGE | AUTH | FILE_MANIFEST | CHUNK_REQUEST | CHUNK_DATA
  | HEARTBEAT | PEER_LIST | ERROR | CLOSE

fun packet_type_value :: "packet_type \<Rightarrow> int" where
  "packet_type_value HELLO = 0x01"
| "packet_type_value KEY_EXCHANGE = 0x02"
| "packet_type_value AUTH = 0x03"
| "packet_type_value FILE_MANIFEST = 0x10"
| "packet_type_value CHUNK_REQUEST = 0x11"
| "packet_type_value CHUNK_DATA = 0x12"
| "packet_type_value HEARTBEAT = 0x20"
| "packet_type_value PEER_LIST = 0x21"
| "packet_type_value ERROR = 0xF0"
| "packet_type_value CLOSE = 0xFF"

definition all_packet_types :: "packet_type list" where
  "all_packet_types = [HELLO, KEY_EXCHANGE, AUTH, FILE_MANIFEST, CHUNK_REQUEST, CHUNK_DATA,
     HEARTBEAT, PEER_LIST, ERROR, CLOSE]"

text \<open>\<^verbatim>\<open>PacketType(v)\<close>: an unassigned value is a \<open>ValueError\<close>.\<close>

definition packet_type_of :: "int \<Rightarrow> packet_type result" where
  "packet_type_of v =
     (case find (\<lambda>t. packet_type_value t = v) all_packet_types of
        None \<Rightarrow> Inl (Py ValueError) | Some t \<Rightarrow> Inr t)"

record packet_header =
  ph_version :: int
  ph_packet_type :: packet_type
  ph_flags :: int
  ph_message_id :: int
  ph_payload_length :: int
  ph_timestamp :: int
  ph_crc32 :: int

text \<open>\<^verbatim>\<open>struct.pack(">IBBHQIQI", ...)\<close>.\<close>

definition pack_header :: "packet_header \<Rightarrow> bytes result" where
  "pack_header h =
     rbind (pack_uint 4 MAGIC) (\<lambda>b1.
     rbind (pack_uint 1 (ph_version h)) (\<lambda>b2.
     rbind (pack_uint 1 (packet_type_value (ph_packet_type h))) (\<lambda>b3.
     rbind (pack_uint 2 (ph_flags h)) (\<lambda>b4.
     rbind (pack_uint 8 (ph_message_id h)) (\<lambda>b5.
     rbind (pack_uint 4 (ph_payload_length h)) (\<lambda>b6.
     rbind (pack_uint 8 (ph_timestamp h)) (\<lambda>b7.
     rbind (pack_uint 4 (ph_crc32 h)) (\<lambda>b8.
     Inr (b1 @ b2 @ b3 @ b4 @ b5 @ b6 @ b7 @ b8)))))))))"

definition unpack_header :: "bytes \<Rightarrow> packet_header result" where
  "unpack_header data =
     raise_if (length data \<noteq> HEADER_SIZE) (Protocol InvalidHeaderError)
    (raise_if (field 0 4 data \<noteq> MAGIC) (Protocol InvalidHeaderError)
    (rbind (packet_type_of (field 5 6 data)) (\<lambda>t.
     Inr \<lparr>ph_version = field 4 5 data, ph_packet_type = t, ph_flags = field 6 8 data,
          ph_message_id = field 8 16 data, ph_payload_length = field 16 20 data,
          ph_timestamp = field 20 28 data, ph_crc32 = field 28 32 data\<rparr>)))"

section \<open>Packets\<close>

record 'p packet =
  pk_header :: packet_header
  pk_payload :: 'p

definition encode_packet :: "('p \<Rightarrow> bytes result) \<Rightarrow> 'p packet \<Rightarrow> bytes result" where
  "encode_packet packb pk =
     rbind (packb (pk_payload pk)) (\<lambda>payload_bytes.
     rbind (pack_header ((pk_header pk)\<lparr>ph_payload_length := int (length payload_bytes),
                                        ph_crc32 := crc32 payload_bytes\<rparr>)) (\<lambda>hb.
     Inr (hb @ payload_bytes)))"

definition decode_packet :: "(bytes \<Rightarrow> 'p result) \<Rightarrow> bytes \<Rightarrow> 'p packet result" where
  "decode_packet unpackb data =
     rbind (unpack_header (take HEADER_SIZE data)) (\<lambda>h.
     (let payload_bytes = slice HEADER_SIZE (HEADER_SIZE + nat (ph_payload_length h)) data in
      raise_if (int (length payload_bytes) \<noteq> ph_payload_length h) (Protocol PayloadIntegrityError)
     (raise_if (crc32 payload_bytes \<noteq> ph_crc32 h) (Protocol PayloadIntegrityError)
     (rbind (unpackb payload_bytes) (\<lambda>payload.
      Inr \<lparr>pk_header = h, pk_payload = payload\<rparr>)))))"

text \<open>\<open>now\<close> is \<^verbatim>\<open>int(time.time() * 1000)\<close>.\<close>

definition make_header :: "int \<Rightarrow> packet_type \<Rightarrow> int \<Rightarrow> int \<Rightarrow> packet_header" where
  "make_header now t msg_id flags =
     \<lparr>ph_version = CURRENT_VERSION, ph_packet_type = t, ph_flags = flags, ph_message_id = msg_id,
      ph_payload_length = 0, ph_timestamp = now, ph_crc32 = 0\<rparr>"

section \<open>The header codec\<close>

lemma packet_type_of_value [simp]: "packet_type_of (packet_type_value t) = Inr t"
  by (cases t) (simp_all add: packet_type_of_def all_packet_types_def)

lemma packet_type_of_eq_Inr: "packet_type_of v = Inr t \<longleftrightarrow> v = packet_type_value t"
proof
  assume "packet_type_of v = Inr t"
  then have "find (\<lambda>t. packet_type_value t = v) all_packet_types = Some t"
    by (auto simp: packet_type_of_def split: option.splits)
  then show "v = packet_type_value t" by (auto simp: find_Some_iff)
qed simp

lemma packet_type_value_byte: "0 \<le> packet_type_value t" "packet_type_value t < 256"
  by (cases t; simp)+

definition valid_header :: "packet_header \<Rightarrow> bool" where
  "valid_header h \<longleftrightarrow>
     0 \<le> ph_version h \<and> ph_version h < 256 \<and> 0 \<le> ph_flags h \<and> ph_flags h < 256 ^ 2 \<and>
     0 \<le> ph_message_id h \<and> ph_message_id h < 256 ^ 8 \<and>
     0 \<le> ph_payload_length h \<and> ph_payload_length h < 256 ^ 4 \<and>
     0 \<le> ph_timestamp h \<and> ph_timestamp h < 256 ^ 8 \<and> 0 \<le> ph_crc32 h \<and> ph_crc32 h < 256 ^ 4"

lemma pack_header_eq:
  "pack_header h =
     (if valid_header h then
        Inr (be_bytes 4 (nat MAGIC) @ be_bytes 1 (nat (ph_version h)) @
             be_bytes 1 (nat (packet_type_value (ph_packet_type h))) @ be_bytes 2 (nat (ph_flags h)) @
             be_bytes 8 (nat (ph_message_id h)) @ be_bytes 4 (nat (ph_payload_length h)) @
             be_bytes 8 (nat (ph_timestamp h)) @ be_bytes 4 (nat (ph_crc32 h)))
      else Inl (Py StructError))"
  using packet_type_value_byte [of "ph_packet_type h"]
  by (simp add: pack_header_def pack_uint_def MAGIC_def valid_header_def)

lemma unpack_pack_header:
  assumes "valid_header h" and bs: "pack_header h = Inr bs"
  shows "unpack_header bs = Inr h"
proof -
  have t: "int (be_val (be_bytes (Suc 0) (nat (packet_type_value (ph_packet_type h))))) =
      packet_type_value (ph_packet_type h)"
    using packet_type_value_byte by (simp add: be_val_pack del: be_bytes.simps)
  have m: "int (be_val (be_bytes 4 (nat MAGIC))) = MAGIC"
    by (rule be_val_pack) (simp_all add: MAGIC_def)
  have v: "int (be_val (be_bytes (Suc 0) (nat (ph_version h)))) = ph_version h"
    using assms(1) by (simp add: be_val_pack valid_header_def del: be_bytes.simps)
  note fs = be_val_pack [of "ph_flags h"] be_val_pack [of "ph_message_id h"]
    be_val_pack [of "ph_payload_length h"] be_val_pack [of "ph_timestamp h"] be_val_pack [of "ph_crc32 h"]
  let ?bs = "be_bytes 4 (nat MAGIC) @ be_bytes 1 (nat (ph_version h)) @
             be_bytes 1 (nat (packet_type_value (ph_packet_type h))) @ be_bytes 2 (nat (ph_flags h)) @
             be_bytes 8 (nat (ph_message_id h)) @ be_bytes 4 (nat (ph_payload_length h)) @
             be_bytes 8 (nat (ph_timestamp h)) @ be_bytes 4 (nat (ph_crc32 h))"
  have "bs = ?bs" using bs assms(1) by (simp add: pack_header_eq del: be_bytes.simps)
  moreover have "unpack_header ?bs = Inr h"
    using assms(1) unfolding unpack_header_def HEADER_SIZE_def valid_header_def
    by (simp add: record_slices t m v fs del: be_bytes.simps)
  ultimately show ?thesis by simp
qed

lemma pack_unpack_header:
  assumes "unpack_header data = Inr h"
  shows "valid_header h \<and> pack_header h = Inr data"
proof -
  from assms have len: "length data = 32" and m: "field 0 4 data = MAGIC"
    and t: "field 5 6 data = packet_type_value (ph_packet_type h)"
    and h: "ph_version h = field 4 5 data" "ph_flags h = field 6 8 data"
      "ph_message_id h = field 8 16 data" "ph_payload_length h = field 16 20 data"
      "ph_timestamp h = field 20 28 data" "ph_crc32 h = field 28 32 data"
    by (auto simp: unpack_header_def HEADER_SIZE_def result_simps packet_type_of_eq_Inr)
  have valid: "valid_header h"
    using field_less [of 4 5 data] field_less [of 6 8 data] field_less [of 8 16 data]
      field_less [of 16 20 data] field_less [of 20 28 data] field_less [of 28 32 data]
    by (simp add: valid_header_def h)
  have "slice 0 4 data @ slice 4 5 data @ slice 5 6 data @ slice 6 8 data @ slice 8 16 data @
      slice 16 20 data @ slice 20 28 data @ slice 28 32 data = data"
    using len by (simp add: slice_join slice_all)
  with valid show ?thesis
    by (simp add: pack_header_eq h len be_bytes_field flip: m t del: be_bytes.simps)
qed

interpretation header_codec: codec pack_header unpack_header valid_header
proof
  show "\<exists>bs. pack_header h = Inr bs" if "valid_header h" for h
    using that by (simp add: pack_header_eq)
qed (auto intro: unpack_pack_header simp: pack_unpack_header)

section \<open>CRC-32 detects a changed byte\<close>

lemma crc_bit_top: "bit (crc_bit c) 31 \<longleftrightarrow> bit c 0"
  using bit_imp_le_length [of c 32] by (auto simp: crc_bit_def bit_simps crc_poly_def)

lemma word_eq_shift: "(c :: 32 word) = d" if "drop_bit 1 c = drop_bit 1 d" "bit c 0 = bit d 0"
proof (rule bit_word_eqI)
  fix n
  show "bit c n = bit d n"
  proof (cases n)
    case (Suc m)
    have "bit (drop_bit 1 c) m = bit (drop_bit 1 d) m" by (simp only: that(1))
    with Suc show ?thesis by (simp add: bit_drop_bit_eq)
  qed (simp add: that(2))
qed

lemma xor_cancel: "(c :: 32 word) XOR x = d XOR x \<Longrightarrow> c = d"
  by (metis xor.assoc xor_self_eq xor.right_neutral)

lemma crc_bit_inject: "crc_bit c = crc_bit d \<Longrightarrow> c = d"
proof -
  assume eq: "crc_bit c = crc_bit d"
  then have b: "bit c 0 = bit d 0" by (metis crc_bit_top)
  have "drop_bit 1 c = drop_bit 1 d"
  proof (cases "bit c 0")
    case True
    with eq b have "drop_bit 1 c XOR crc_poly = drop_bit 1 d XOR crc_poly" by (simp add: crc_bit_def)
    then show ?thesis by (rule xor_cancel)
  next
    case False
    with eq b show ?thesis by (simp add: crc_bit_def)
  qed
  with b show "c = d" by (blast intro: word_eq_shift)
qed

lemma crc_bits_inject: "(crc_bit ^^ n) c = (crc_bit ^^ n) d \<Longrightarrow> c = d"
  by (induction n) (auto dest: crc_bit_inject)

lemma crc_byte_inject_state: "crc_byte c b = crc_byte d b \<Longrightarrow> c = d"
  unfolding crc_byte_def by (drule crc_bits_inject) (rule xor_cancel)

lemma crc_byte_inject_byte: "crc_byte c b = crc_byte c b' \<Longrightarrow> b = b'"
proof -
  assume "crc_byte c b = crc_byte c b'"
  then have "c XOR ucast b = c XOR (ucast b' :: 32 word)"
    unfolding crc_byte_def by (rule crc_bits_inject)
  then have "(ucast b :: 32 word) = ucast b'" by (metis xor_cancel xor.commute)
  then have "unat (ucast b :: 32 word) = unat (ucast b' :: 32 word)" by simp
  then have "take_bit 32 (unat b) = take_bit 32 (unat b')" by (simp add: unsigned_ucast_eq)
  moreover have "take_bit 32 (unat x) = unat x" for x :: byte
    using unat_byte_less [of x] by (simp add: take_bit_nat_eq_self)
  ultimately have "unat b = unat b'" by simp
  then have "word_of_nat (unat b) = (word_of_nat (unat b') :: byte)" by (simp only:)
  then show ?thesis by simp
qed

lemma crc_fold_inject: "foldl crc_byte c bs = foldl crc_byte d bs \<Longrightarrow> c = d"
  by (induction bs arbitrary: c d) (auto dest: crc_byte_inject_state)

lemma crc32_bounds: "0 \<le> crc32 bs" "crc32 bs < 256 ^ 4"
  using uint_lt2p [of "NOT (foldl crc_byte 0xFFFFFFFF bs) :: 32 word"] by (simp_all add: crc32_def)

lemma crc32_update:
  assumes "i < length bs" "crc32 (bs[i := b]) = crc32 bs"
  shows "b = bs ! i"
proof -
  have bs: "bs = take i bs @ bs ! i # drop (Suc i) bs" using assms(1) by (rule id_take_nth_drop)
  have up: "bs[i := b] = take i bs @ b # drop (Suc i) bs" using assms(1) by (rule upd_conv_take_nth_drop)
  have "foldl crc_byte 0xFFFFFFFF (bs[i := b]) = foldl crc_byte 0xFFFFFFFF bs"
    using assms(2) unfolding crc32_def by (metis bit.double_compl word_uint_eqI)
  then have "foldl crc_byte 0xFFFFFFFF (take i bs @ b # drop (Suc i) bs)
      = foldl crc_byte 0xFFFFFFFF (take i bs @ bs ! i # drop (Suc i) bs)"
    by (simp only: up flip: bs)
  then show ?thesis by (auto dest: crc_fold_inject crc_byte_inject_byte)
qed

section \<open>The packet codec\<close>

lemma encode_packet_eq_Inr:
  "encode_packet packb pk = Inr data \<longleftrightarrow>
     (\<exists>pb hb. packb (pk_payload pk) = Inr pb \<and> data = hb @ pb \<and>
        pack_header ((pk_header pk)\<lparr>ph_payload_length := int (length pb), ph_crc32 := crc32 pb\<rparr>) = Inr hb)"
  by (auto simp: encode_packet_def result_simps)

lemma pack_header_Inr: "pack_header h = Inr bs \<Longrightarrow> valid_header h \<and> length bs = HEADER_SIZE"
  by (auto simp: pack_header_eq HEADER_SIZE_def split: if_splits)

text \<open>What the decoder sees of any payload that follows a header as the encoder writes it.\<close>

lemma decode_after_header:
  assumes "pack_header h = Inr hb" "ph_payload_length h = int (length pb)"
  shows "decode_packet unpackb (hb @ pb @ rest) =
    (if crc32 pb \<noteq> ph_crc32 h then Inl (Protocol PayloadIntegrityError)
     else rbind (unpackb pb) (\<lambda>p. Inr \<lparr>pk_header = h, pk_payload = p\<rparr>))"
proof -
  have len: "length hb = HEADER_SIZE" using pack_header_Inr [OF assms(1)] by blast
  have "unpack_header hb = Inr h"
    using assms(1) pack_header_Inr by (blast intro: unpack_pack_header)
  then show ?thesis
    by (simp add: decode_packet_def len assms(2) slice_append_right slice_append_left slice_all
        length_slice raise_if_def)
qed

lemma decode_packet_prefix:
  assumes "decode_packet unpackb data = Inr pk"
  shows "\<exists>hb pb rest. data = hb @ pb @ rest \<and> unpack_header hb = Inr (pk_header pk) \<and>
     length hb = HEADER_SIZE \<and> int (length pb) = ph_payload_length (pk_header pk) \<and>
     crc32 pb = ph_crc32 (pk_header pk) \<and> unpackb pb = Inr (pk_payload pk)"
proof -
  let ?n = "nat (ph_payload_length (pk_header pk))"
  let ?pb = "slice HEADER_SIZE (HEADER_SIZE + ?n) data"
  have *: "unpack_header (take HEADER_SIZE data) = Inr (pk_header pk)"
      "int (length ?pb) = ph_payload_length (pk_header pk)"
      "crc32 ?pb = ph_crc32 (pk_header pk)" "unpackb ?pb = Inr (pk_payload pk)"
    using assms by (auto simp: decode_packet_def result_simps Let_def)
  from *(1) have "length (take HEADER_SIZE data) = HEADER_SIZE"
    by (auto simp: unpack_header_def result_simps)
  moreover have "data = take HEADER_SIZE data @ ?pb @ drop (HEADER_SIZE + ?n) data"
    by (metis append_assoc append_slices append_take_drop_id le_add1)
  ultimately show ?thesis using * by blast
qed

section \<open>Properties\<close>

text \<open>
  C22: Encoding then decoding a packet returns it: for any payload that MessagePack round-trips
  and whose encoding is shorter than 4 GiB, \<^verbatim>\<open>Packet.decode\<close> of the encoded bytes, with anything
  after them on the stream, is the packet with \<^verbatim>\<open>payload_length\<close> and \<^verbatim>\<open>crc32\<close> filled in,
  whatever stale values the header had in these two fields.
\<close>

theorem packet_round_trip:
  assumes "unpackb pb = Inr (pk_payload pk)" and "packb (pk_payload pk) = Inr pb"
    and "length pb < 256 ^ 4"
    and "valid_header ((pk_header pk)\<lparr>ph_payload_length := 0, ph_crc32 := 0\<rparr>)"
  shows "\<exists>data. encode_packet packb pk = Inr data \<and>
    decode_packet unpackb (data @ rest) =
      Inr (pk\<lparr>pk_header := (pk_header pk)\<lparr>ph_payload_length := int (length pb), ph_crc32 := crc32 pb\<rparr>\<rparr>)"
proof -
  let ?h = "(pk_header pk)\<lparr>ph_payload_length := int (length pb), ph_crc32 := crc32 pb\<rparr>"
  have "valid_header ?h" using assms(3,4) crc32_bounds [of pb] by (simp add: valid_header_def)
  then obtain hb where hb: "pack_header ?h = Inr hb" using header_codec.encode_total by blast
  then have "encode_packet packb pk = Inr (hb @ pb)" by (simp add: encode_packet_def assms(2))
  moreover have "decode_packet unpackb (hb @ pb @ rest) = Inr (pk\<lparr>pk_header := ?h\<rparr>)"
    using decode_after_header [OF hb, of pb unpackb rest] assms(1) by (cases pk) simp
  ultimately show ?thesis by simp
qed

text \<open>The payload as its own encoding, as a concrete packer: a one-byte packet.\<close>

theorem packet_round_trip_witness:
  "\<exists>data. encode_packet Inr \<lparr>pk_header = make_header 5 HELLO 7 0, pk_payload = [1]\<rparr> = Inr data \<and>
    decode_packet Inr (data @ [9]) =
      Inr \<lparr>pk_header = (make_header 5 HELLO 7 0)\<lparr>ph_payload_length := 1, ph_crc32 := crc32 [1]\<rparr>,
           pk_payload = [1]\<rparr>"
  using packet_round_trip [of Inr "[1]" "\<lparr>pk_header = make_header 5 HELLO 7 0, pk_payload = [1]\<rparr>" Inr "[9]"]
  by (simp add: valid_header_def make_header_def CURRENT_VERSION_def)

text \<open>
  Corruption in transit is reported: changing one byte of the payload of an encoded packet to
  any other value makes \<^verbatim>\<open>Packet.decode\<close> raise \<^verbatim>\<open>PayloadIntegrityError\<close>, and so does losing
  bytes at the end.
\<close>

theorem corruption_detected:
  assumes "encode_packet packb pk = Inr data" and "HEADER_SIZE \<le> i" and "i < length data"
  shows "(b \<noteq> data ! i \<longrightarrow> decode_packet unpackb (data[i := b]) = Inl (Protocol PayloadIntegrityError)) \<and>
     decode_packet unpackb (take i data) = Inl (Protocol PayloadIntegrityError)"
proof -
  from assms(1) obtain pb hb where d: "data = hb @ pb"
    and hb: "pack_header ((pk_header pk)\<lparr>ph_payload_length := int (length pb), ph_crc32 := crc32 pb\<rparr>) = Inr hb"
    unfolding encode_packet_eq_Inr by blast
  have len: "length hb = HEADER_SIZE" using pack_header_Inr [OF hb] by blast
  let ?j = "i - HEADER_SIZE"
  have j: "?j < length pb" using assms(2,3) d len by simp
  have "decode_packet unpackb (data[i := b]) = Inl (Protocol PayloadIntegrityError)"
    if "b \<noteq> data ! i"
  proof -
    have "b \<noteq> pb ! ?j" using that d len assms(2) by (simp add: nth_append)
    then have "crc32 (pb[?j := b]) \<noteq> crc32 pb" using crc32_update [OF j] by blast
    moreover have "data[i := b] = hb @ pb[?j := b]" using d len assms(2) by (simp add: list_update_append)
    ultimately show ?thesis using decode_after_header [OF hb, of "pb[?j := b]" unpackb "[]"] by simp
  qed
  moreover have "take i data = hb @ take ?j pb" using d len assms(2) by simp
  moreover have "unpack_header hb = Inr ((pk_header pk)\<lparr>ph_payload_length := int (length pb), ph_crc32 := crc32 pb\<rparr>)"
    using hb pack_header_Inr by (blast intro: unpack_pack_header)
  ultimately show ?thesis
    using j by (simp add: decode_packet_def len slice_append_right length_slice raise_if_def)
qed

theorem corruption_detected_witness:
  "\<exists>data. encode_packet Inr \<lparr>pk_header = make_header 5 HELLO 7 0, pk_payload = [1]\<rparr> = Inr data \<and>
     data ! 32 = 1 \<and> decode_packet Inr (data[32 := 2]) = Inl (Protocol PayloadIntegrityError) \<and>
     decode_packet Inr (take 32 data) = Inl (Protocol PayloadIntegrityError)"
proof -
  let ?pk = "\<lparr>pk_header = make_header 5 HELLO 7 0, pk_payload = [1 :: byte]\<rparr>"
  have "valid_header ((pk_header ?pk)\<lparr>ph_payload_length := 1, ph_crc32 := crc32 [1]\<rparr>)"
    using crc32_bounds [of "[1]"] by (simp add: valid_header_def make_header_def CURRENT_VERSION_def)
  then obtain hb where hb: "pack_header ((pk_header ?pk)\<lparr>ph_payload_length := 1, ph_crc32 := crc32 [1]\<rparr>) = Inr hb"
    using header_codec.encode_total by blast
  then have e: "encode_packet Inr ?pk = Inr (hb @ [1])" by (simp add: encode_packet_def)
  have len: "length hb = 32" using pack_header_Inr [OF hb] by (simp add: HEADER_SIZE_def)
  show ?thesis
    using e corruption_detected [OF e, of 32 2 Inr] len
    by (intro exI [of _ "hb @ [1]"]) (simp add: HEADER_SIZE_def nth_append)
qed

end
