(* ===== verification/Messages.thy ===== *)
theory Messages
  imports Prelude
begin

text \<open>
  What the network code shares: the values MessagePack carries, as Python sees them after
  \<^verbatim>\<open>msgpack.unpackb(data, raw=False)\<close>, the indexing and conversions applied to them, and
  \<^verbatim>\<open>networking/message_io.py\<close>, which reads length-prefixed messages from a stream within a size limit
  and a deadline.
\<close>

section \<open>MessagePack values\<close>

datatype mval =
    MNil | MBool bool | MInt int | MFloat real | MStr pystr | MBin bytes | MList "mval list" | MMap "(mval \<times> mval) list"

text \<open>\<^verbatim>\<open>v["key"]\<close> and \<^verbatim>\<open>v.get("key")\<close> on a value that is meant to be a dictionary.\<close>

definition getitem :: "mval \<Rightarrow> string \<Rightarrow> mval result" where
  "getitem v key =
     (case v of
        MMap d \<Rightarrow> (case map_of d (MStr (codes key)) of None \<Rightarrow> Inl (Py KeyError) | Some x \<Rightarrow> Inr x)
      | _ \<Rightarrow> Inl (Py TypeError))"

definition dict_get_or_none :: "mval \<Rightarrow> string \<Rightarrow> mval result" where
  "dict_get_or_none v key =
     (case v of
        MMap d \<Rightarrow> Inr (case map_of d (MStr (codes key)) of None \<Rightarrow> MNil | Some x \<Rightarrow> x)
      | _ \<Rightarrow> Inl (Py AttributeError))"

text \<open>A dictionary display \<^verbatim>\<open>{"key": value, ...}\<close>.\<close>

definition record_of :: "(string \<times> mval) list \<Rightarrow> mval" where
  "record_of kvs = MMap (map (\<lambda>(k, v). (MStr (codes k), v)) kvs)"

text \<open>
  The values for which a round trip through MessagePack or JSON is relied on: every key of a dictionary is a text
  and occurs once (\<^verbatim>\<open>unpackb\<close> refuses other keys, \<^verbatim>\<open>json\<close> turns them into texts), and there are no floats, which the
  messages do not use.
\<close>

fun is_text :: "mval \<Rightarrow> bool" where
  "is_text (MStr s) = True"
| "is_text v = False"

fun plain_value :: "mval \<Rightarrow> bool" where
  "plain_value (MList xs) = list_all plain_value xs"
| "plain_value (MMap d) = (distinct (map fst d) \<and> list_all (\<lambda>e. is_text (fst e) \<and> plain_value (snd e)) d)"
| "plain_value (MFloat x) = False"
| "plain_value v = True"

text \<open>
  \<^verbatim>\<open>str(v)\<close> and \<^verbatim>\<open>int(v)\<close>. The text of a value that is not a string and the number a text, a byte
  string or a float denotes are the fields of \<open>conversions\<close>.
\<close>

record conversions =
  cv_repr :: "mval \<Rightarrow> pystr"
  cv_parse :: "mval \<Rightarrow> int result"

definition py_str :: "conversions \<Rightarrow> mval \<Rightarrow> pystr" where
  "py_str cv v = (case v of MStr s \<Rightarrow> s | _ \<Rightarrow> cv_repr cv v)"

definition py_int :: "conversions \<Rightarrow> mval \<Rightarrow> int result" where
  "py_int cv v =
     (case v of
        MInt n \<Rightarrow> Inr n
      | MBool b \<Rightarrow> Inr (if b then 1 else 0)
      | MNil \<Rightarrow> Inl (Py TypeError)
      | MList _ \<Rightarrow> Inl (Py TypeError)
      | MMap _ \<Rightarrow> Inl (Py TypeError)
      | _ \<Rightarrow> cv_parse cv v)"

definition as_bytes :: "mval \<Rightarrow> bytes result" where
  "as_bytes v = (case v of MBin b \<Rightarrow> Inr b | _ \<Rightarrow> Inl (Py TypeError))"

definition truthy :: "mval \<Rightarrow> bool" where
  "truthy v =
     (case v of MNil \<Rightarrow> False | MBool b \<Rightarrow> b | MInt n \<Rightarrow> n \<noteq> 0 | MFloat x \<Rightarrow> x \<noteq> 0 | MStr s \<Rightarrow> s \<noteq> [] | MBin b \<Rightarrow> b \<noteq> []
      | MList xs \<Rightarrow> xs \<noteq> [] | MMap d \<Rightarrow> d \<noteq> [])"

lemma codes_inject [simp]: "codes s = codes t \<longleftrightarrow> s = t"
  by (auto simp: codes_def inj_map_eq_map inj_def)

lemma plain_record [simp]:
  "plain_value (record_of kvs) \<longleftrightarrow> distinct (map fst kvs) \<and> list_all (\<lambda>e. plain_value (snd e)) kvs"
proof -
  have "map fst (map (\<lambda>(k, v). (MStr (codes k), v)) kvs) = map (\<lambda>k. MStr (codes k)) (map fst kvs)"
    by (simp add: case_prod_unfold)
  moreover have "inj (\<lambda>k. MStr (codes k))" by (rule injI) simp
  ultimately have "distinct (map fst (map (\<lambda>(k, v). (MStr (codes k), v)) kvs)) \<longleftrightarrow> distinct (map fst kvs)"
    by (metis distinct_map inj_on_subset subset_UNIV)
  then show ?thesis by (simp add: record_of_def list_all_iff case_prod_unfold)
qed

lemma map_of_record: "map_of (map (\<lambda>(k, v). (MStr (codes k), v)) kvs) (MStr (codes key)) = map_of kvs key"
  by (induction kvs) auto

lemma getitem_record [simp]:
  "getitem (record_of kvs) key = (case map_of kvs key of None \<Rightarrow> Inl (Py KeyError) | Some x \<Rightarrow> Inr x)"
  by (simp add: getitem_def record_of_def map_of_record)

lemma dict_get_record [simp]:
  "dict_get_or_none (record_of kvs) key = Inr (case map_of kvs key of None \<Rightarrow> MNil | Some x \<Rightarrow> x)"
  by (simp add: dict_get_or_none_def record_of_def map_of_record)

lemma py_str_MStr [simp]: "py_str cv (MStr s) = s"
  by (simp add: py_str_def)

lemma py_int_MInt [simp]: "py_int cv (MInt n) = Inr n"
  by (simp add: py_int_def)

lemma as_bytes_eq_Inr [result_simps]: "as_bytes v = Inr b \<longleftrightarrow> v = MBin b"
  by (cases v) (simp_all add: as_bytes_def)

section \<open>Length-prefixed messages\<close>

definition LENGTH_PREFIX_SIZE :: nat where "LENGTH_PREFIX_SIZE = 4"
definition MAX_HANDSHAKE_MESSAGE_SIZE :: int where "MAX_HANDSHAKE_MESSAGE_SIZE = 64 * 1024"
definition MAX_MESSAGE_SIZE :: int where "MAX_MESSAGE_SIZE = 128 * 1024 * 1024"
definition MESSAGE_READ_TIMEOUT :: real where "MESSAGE_READ_TIMEOUT = 30"
definition MAX_CONCURRENT_CONNECTIONS :: int where "MAX_CONCURRENT_CONNECTIONS = 256"
definition INBOX_MAX_SIZE :: nat where "INBOX_MAX_SIZE = 4096"

text \<open>
  A stream is the bytes the peer delivers and what happens then: it closes, it resets the connection,
  or it delivers no more within the deadline. \<open>si_unread\<close> are the bytes not taken yet.
\<close>

datatype stream_end = Closes | Resets | Stalls

record stream_in =
  si_unread :: bytes
  si_end :: stream_end

definition readexactly :: "nat \<Rightarrow> stream_in \<Rightarrow> bytes result \<times> stream_in" where
  "readexactly n r =
     (if n \<le> length (si_unread r) then (Inr (take n (si_unread r)), r\<lparr>si_unread := drop n (si_unread r)\<rparr>)
      else (Inl (case si_end r of Closes \<Rightarrow> Py IncompleteReadError | Resets \<Rightarrow> Py ConnectionError | Stalls \<Rightarrow> Py TimeoutError), r))"

definition read_timed :: "nat \<Rightarrow> stream_in \<Rightarrow> bytes result \<times> stream_in" where
  "read_timed n r =
     (case readexactly n r of
        (Inl e, r1) \<Rightarrow> (Inl (if e = Py TimeoutError then Protocol MessageReadTimeoutError else e), r1)
      | (Inr b, r1) \<Rightarrow> (Inr b, r1))"

definition read_length_prefixed :: "int \<Rightarrow> stream_in \<Rightarrow> bytes result \<times> stream_in" where
  "read_length_prefixed max_size r =
     (case read_timed LENGTH_PREFIX_SIZE r of
        (Inl e, r1) \<Rightarrow> (Inl e, r1)
      | (Inr prefix, r1) \<Rightarrow>
          let n = be_val prefix in
          if int n > max_size then (Inl (Protocol OversizedMessageError), r1) else read_timed n r1)"

text \<open>What the writers put on the wire: \<^verbatim>\<open>struct.pack(">I", len(data)) + data\<close>.\<close>

definition write_length_prefixed :: "bytes \<Rightarrow> bytes result" where
  "write_length_prefixed data = rbind (pack_uint 4 (int (length data))) (\<lambda>l. Inr (l @ data))"

lemma read_written:
  assumes "write_length_prefixed data = Inr msg" "int (length data) \<le> max_size" "si_unread r = msg @ rest"
  shows "read_length_prefixed max_size r = (Inr data, r\<lparr>si_unread := rest\<rparr>)"
proof -
  have "length data < 256 ^ 4" "msg = be_bytes 4 (length data) @ data"
    using assms(1) by (auto simp: write_length_prefixed_def result_simps)
  then show ?thesis
    using assms(2,3) be_val_be_bytes [of "length data" 4]
    by (simp add: read_length_prefixed_def read_timed_def readexactly_def LENGTH_PREFIX_SIZE_def Let_def del: be_bytes.simps)
qed

section \<open>Properties\<close>

text \<open>
  Framing is lossless and bounded. A written message that respects the limit is read back as it
  was, leaving what follows it on the stream; and whatever a peer sends, reading takes at most the prefix and
  \<^verbatim>\<open>max_size\<close> bytes of it, so a declared length above the limit is refused before any of the body is read.
\<close>

theorem framing_lossless_and_bounded:
  "(\<forall>data msg. write_length_prefixed data = Inr msg \<and> int (length data) \<le> max_size \<and> si_unread r = msg @ rest \<longrightarrow>
      read_length_prefixed max_size r = (Inr data, r\<lparr>si_unread := rest\<rparr>)) \<and>
   (\<forall>res r'. read_length_prefixed max_size r = (res, r') \<longrightarrow>
      (\<exists>taken. si_unread r = taken @ si_unread r' \<and> si_end r' = si_end r \<and> int (length taken) \<le> 4 + max 0 max_size \<and>
         (res = Inl (Protocol OversizedMessageError) \<longrightarrow> length taken = 4) \<and>
         (case res of Inl e \<Rightarrow> e \<in> {Protocol OversizedMessageError, Protocol MessageReadTimeoutError, Py IncompleteReadError, Py ConnectionError}
          | Inr data \<Rightarrow> taken = be_bytes 4 (length data) @ data)))"
proof (intro conjI allI impI; (elim conjE)?)
  fix data msg assume a: "write_length_prefixed data = Inr msg" "int (length data) \<le> max_size" "si_unread r = msg @ rest"
  then show "read_length_prefixed max_size r = (Inr data, r\<lparr>si_unread := rest\<rparr>)" by (rule read_written)
next
  fix res r' assume a: "read_length_prefixed max_size r = (res, r')"
  let ?p = "take 4 (si_unread r)"
  show "\<exists>taken. si_unread r = taken @ si_unread r' \<and> si_end r' = si_end r \<and> int (length taken) \<le> 4 + max 0 max_size \<and>
      (res = Inl (Protocol OversizedMessageError) \<longrightarrow> length taken = 4) \<and>
      (case res of Inl e \<Rightarrow> e \<in> {Protocol OversizedMessageError, Protocol MessageReadTimeoutError, Py IncompleteReadError, Py ConnectionError}
       | Inr data \<Rightarrow> taken = be_bytes 4 (length data) @ data)"
  proof (cases "4 \<le> length (si_unread r)")
    case False
    then show ?thesis using a
      by (auto simp: read_length_prefixed_def read_timed_def readexactly_def LENGTH_PREFIX_SIZE_def split: stream_end.splits)
  next
    case True
    let ?n = "be_val ?p" and ?r1 = "r\<lparr>si_unread := drop 4 (si_unread r)\<rparr>"
    have len: "length ?p = 4" using True by simp
    have p: "be_bytes 4 ?n = ?p" using be_bytes_be_val [of ?p] len by simp
    have eq: "(res, r') = (if int ?n > max_size then (Inl (Protocol OversizedMessageError), ?r1) else read_timed ?n ?r1)"
      using a True by (simp add: read_length_prefixed_def read_timed_def readexactly_def LENGTH_PREFIX_SIZE_def Let_def)
    show ?thesis
    proof (cases "int ?n \<le> max_size \<and> ?n \<le> length (drop 4 (si_unread r))")
      case True
      define body where "body = take ?n (drop 4 (si_unread r))"
      have body: "length body = ?n" "si_unread r = ?p @ body @ drop ?n (drop 4 (si_unread r))"
        using True unfolding body_def by (simp_all only: length_take append_take_drop_id) simp
      have "res = Inr body" "r' = r\<lparr>si_unread := drop ?n (drop 4 (si_unread r))\<rparr>"
        using eq True by (simp_all add: read_timed_def readexactly_def body_def)
      moreover have "int (length (?p @ body)) \<le> 4 + max 0 max_size" using True len body(1) by simp
      ultimately show ?thesis using p body by (intro exI [of _ "?p @ body"]) simp
    next
      case False
      then show ?thesis using eq len
        by (intro exI [of _ ?p]) (auto simp: read_timed_def readexactly_def split: if_splits stream_end.splits)
    qed
  qed
qed

theorem framing_lossless_and_bounded_witness:
  "read_length_prefixed 10 \<lparr>si_unread = [0, 0, 0, 2, 7, 8, 9], si_end = Closes\<rparr> = (Inr [7, 8], \<lparr>si_unread = [9], si_end = Closes\<rparr>)"
proof -
  have "write_length_prefixed [7, 8] = Inr [0, 0, 0, 2, 7, 8]"
    by code_simp
  with framing_lossless_and_bounded [of 10 "\<lparr>si_unread = [0, 0, 0, 2, 7, 8, 9], si_end = Closes\<rparr>" "[9]", THEN conjunct1,
      rule_format, of "[7, 8]" "[0, 0, 0, 2, 7, 8]"]
  show ?thesis by simp
qed

end
