(* ===== verification/Secure_Channel.thy ===== *)
theory Secure_Channel
  imports Session_Store Wire_Protocol Messages
begin

text \<open>
  \<^verbatim>\<open>networking/secure_channel.py\<close>: sealing a packet into a frame and opening a frame. The AEAD
  cipher and MessagePack are third-party code and are fields of the channel; the clocks are arguments.
  \<open>open_frame\<close> returns its result and the store after the call, so that it can be stated that a
  rejected frame changes nothing.
\<close>

section \<open>The channel\<close>

record 'p secure_channel =
  sc_own_device_id :: pystr
  sc_timestamp_skew_ms :: int
  sc_encrypt :: "bytes \<Rightarrow> bytes \<Rightarrow> bytes \<Rightarrow> bytes \<Rightarrow> encrypted_payload result"
    \<comment> \<open>plaintext, key, nonce, associated data\<close>
  sc_decrypt :: "encrypted_payload \<Rightarrow> bytes \<Rightarrow> bytes \<Rightarrow> bytes result"
    \<comment> \<open>payload, key, associated data\<close>
  sc_packb :: "'p \<Rightarrow> bytes result"
  sc_unpackb :: "bytes \<Rightarrow> 'p result"

text \<open>
  Everything of \<^verbatim>\<open>seal\<close> between the counter and \<^verbatim>\<open>mark_active\<close>: the encoded packet, the nonce, the
  associated data and the encryption. \<open>now_ms\<close> is the wall clock that \<^verbatim>\<open>make_header\<close> reads.
\<close>

definition seal_payload ::
  "'p secure_channel \<Rightarrow> int \<Rightarrow> peer_session \<Rightarrow> packet_type \<Rightarrow> 'p \<Rightarrow> int \<Rightarrow>
   (int \<times> bytes \<times> encrypted_payload) result" where
  "seal_payload ch now_ms session pt payload counter =
     rbind (encode_packet (sc_packb ch) \<lparr>pk_header = make_header now_ms pt counter 0, pk_payload = payload\<rparr>) (\<lambda>framed.
     rbind (outgoing_direction (ps_role session)) (\<lambda>direction.
     rbind (derive_nonce direction counter) (\<lambda>nonce.
     rbind (utf8_encode (sc_own_device_id ch)) (\<lambda>own.
     rbind (utf8_encode (ps_peer_id session)) (\<lambda>peer.
     rbind (build_aad FRAME_VERSION direction (packet_type_value pt) (ps_session_id session) own peer) (\<lambda>aad.
     rbind (sc_encrypt ch framed (ps_send_key session) nonce aad) (\<lambda>encrypted.
     Inr (direction, nonce, encrypted))))))))"

definition seal ::
  "'p secure_channel \<Rightarrow> int \<Rightarrow> real \<Rightarrow> peer_session \<Rightarrow> packet_type \<Rightarrow> 'p \<Rightarrow> bytes result \<times> peer_session" where
  "seal ch now_ms now session pt payload =
     (case allocate_counter session of
        (Inl e, s1) \<Rightarrow> (Inl e, s1)
      | (Inr counter, s1) \<Rightarrow>
          (case seal_payload ch now_ms s1 pt payload counter of
             Inl e \<Rightarrow> (Inl e, s1)
           | Inr (direction, nonce, encrypted) \<Rightarrow>
               (encode_frame direction (packet_type_value pt) (ps_session_id s1) nonce
                  (ep_ciphertext encrypted) (ep_tag encrypted) FRAME_VERSION,
                mark_active now s1)))"

text \<open>\<^verbatim>\<open>try: decrypt ... except Exception: raise AuthenticationError\<close>\<close>

definition authenticated :: "'a result \<Rightarrow> 'a result" where
  "authenticated r = (case r of Inl _ \<Rightarrow> Inl (Replay AuthenticationError) | Inr x \<Rightarrow> Inr x)"

text \<open>The checks (a) to (e), which read the store but do not write it.\<close>

definition open_checks ::
  "'p secure_channel \<Rightarrow> int \<Rightarrow> bytes \<Rightarrow> session_store \<Rightarrow> ('p packet \<times> peer_session \<times> int) result" where
  "open_checks ch clock_ms frame st =
     rbind (split_frame frame) (\<lambda>(header, nonce, encrypted).
     raise_if (fh_version header \<noteq> FRAME_VERSION) (Replay UnsupportedVersionError)
    (case get_by_session_id st (fh_session_id header) of
       None \<Rightarrow> Inl (Replay UnknownSessionError)
     | Some session \<Rightarrow>
     rbind (incoming_direction (ps_role session)) (\<lambda>expected.
     raise_if (fh_direction header \<noteq> expected) (Replay DirectionMismatchError)
    (let counter = field 1 9 nonce in
     raise_if (\<not> would_accept (ps_receive_window session) counter) (Replay ReplayWindowRejectedError)
    (rbind (utf8_encode (ps_peer_id session)) (\<lambda>peer.
     rbind (utf8_encode (sc_own_device_id ch)) (\<lambda>own.
     rbind (build_aad (fh_version header) (fh_direction header) (fh_packet_type header)
              (fh_session_id header) peer own) (\<lambda>aad.
     rbind (authenticated (sc_decrypt ch encrypted (ps_receive_key session) aad)) (\<lambda>framed.
     rbind (decode_packet (sc_unpackb ch) framed) (\<lambda>packet.
     rbind (derive_nonce (fh_direction header) (ph_message_id (pk_header packet))) (\<lambda>expected_nonce.
     raise_if (nonce \<noteq> expected_nonce) (Replay NonceMismatchError)
    (raise_if (packet_type_value (ph_packet_type (pk_header packet)) \<noteq> fh_packet_type header)
       (Replay PacketTypeMismatchError)
    (raise_if (\<not> check_timestamp_skew (ph_timestamp (pk_header packet)) clock_ms (sc_timestamp_skew_ms ch))
       (Replay TimestampSkewError)
    (Inr (packet, session, counter)))))))))))))))"

definition open_frame ::
  "'p secure_channel \<Rightarrow> int \<Rightarrow> real \<Rightarrow> bytes \<Rightarrow> session_store \<Rightarrow>
   ('p packet \<times> peer_session) result \<times> session_store" where
  "open_frame ch clock_ms now frame st =
     (case open_checks ch clock_ms frame st of
        Inl e \<Rightarrow> (Inl e, st)
      | Inr (packet, session, counter) \<Rightarrow>
          (case accept (ps_receive_window session) counter of
             (False, w) \<Rightarrow> (Inl (Replay ReplayWindowRejectedError),
                modify_session (ps_session_id session) (\<lambda>s. s\<lparr>ps_receive_window := w\<rparr>) st)
           | (True, w) \<Rightarrow>
               let session' = mark_active now (session\<lparr>ps_receive_window := w,
                     ps_confirmed := (if ps_role session = ROLE_RESPONDER then True else ps_confirmed session)\<rparr>)
               in (Inr (packet, session'),
                   modify_session (ps_session_id session) (\<lambda>_. session') st)))"

section \<open>What an opened frame has passed\<close>

lemma authenticated_eq_Inr [result_simps]: "authenticated r = Inr x \<longleftrightarrow> r = Inr x"
  by (auto simp: authenticated_def split: sum.splits)

definition open_passed ::
  "'p secure_channel \<Rightarrow> int \<Rightarrow> bytes \<Rightarrow> session_store \<Rightarrow> 'p packet \<Rightarrow> peer_session \<Rightarrow> int \<Rightarrow> bool" where
  "open_passed ch clock_ms frame st packet session counter \<longleftrightarrow>
     (\<exists>h nonce enc own peer aad framed.
        split_frame frame = Inr (h, nonce, enc) \<and> fh_version h = FRAME_VERSION \<and>
        get_by_session_id st (fh_session_id h) = Some session \<and>
        incoming_direction (ps_role session) = Inr (fh_direction h) \<and>
        counter = field 1 9 nonce \<and> would_accept (ps_receive_window session) counter \<and>
        utf8_encode (ps_peer_id session) = Inr peer \<and> utf8_encode (sc_own_device_id ch) = Inr own \<and>
        build_aad FRAME_VERSION (fh_direction h) (fh_packet_type h) (fh_session_id h) peer own = Inr aad \<and>
        sc_decrypt ch enc (ps_receive_key session) aad = Inr framed \<and>
        decode_packet (sc_unpackb ch) framed = Inr packet \<and>
        derive_nonce (fh_direction h) (ph_message_id (pk_header packet)) = Inr nonce \<and>
        packet_type_value (ph_packet_type (pk_header packet)) = fh_packet_type h \<and>
        check_timestamp_skew (ph_timestamp (pk_header packet)) clock_ms (sc_timestamp_skew_ms ch))"

lemma open_checks_eq_Inr:
  "open_checks ch clock_ms frame st = Inr (packet, session, counter) \<longleftrightarrow>
     open_passed ch clock_ms frame st packet session counter"
proof
  assume "open_checks ch clock_ms frame st = Inr (packet, session, counter)"
  then show "open_passed ch clock_ms frame st packet session counter"
    unfolding open_checks_def rbind_eq_Inr open_passed_def
    by (clarsimp simp: rbind_eq_Inr raise_if_eq_Inr authenticated_eq_Inr Let_def split: option.splits)
next
  assume "open_passed ch clock_ms frame st packet session counter"
  then show "open_checks ch clock_ms frame st = Inr (packet, session, counter)"
    unfolding open_checks_def open_passed_def by (auto simp: Let_def authenticated_def)
qed

lemma open_passed_counter:
  assumes "open_passed ch clock_ms frame st packet session counter" "index_inv st"
  shows "counter = ph_message_id (pk_header packet)" "would_accept (ps_receive_window session) counter"
    "get_by_session_id st (ps_session_id session) = Some session"
  using assms(1) index_invD(3) [OF assms(2)] derive_nonce_counter unfolding open_passed_def by metis+

lemma would_accept_accept: "would_accept w c \<Longrightarrow> accept w c = (True, snd (accept w c))"
  using window.acc_result [of w c] by (metis prod.collapse)

lemma open_frame_eq:
  assumes "index_inv st"
  shows "open_frame ch clock_ms now frame st =
    (case open_checks ch clock_ms frame st of
       Inl e \<Rightarrow> (Inl e, st)
     | Inr (packet, session, counter) \<Rightarrow>
         (Inr (packet, receive_on counter now session),
          modify_session (ps_session_id session) (receive_on counter now) st))"
proof (cases "open_checks ch clock_ms frame st")
  case (Inr r)
  obtain packet session counter where r: "r = (packet, session, counter)" by (cases r)
  with Inr have p: "open_passed ch clock_ms frame st packet session counter" by (simp add: open_checks_eq_Inr)
  note facts = open_passed_counter [OF p assms]
  have m: "modify_session (ps_session_id session) (\<lambda>_. receive_on counter now session) st =
      modify_session (ps_session_id session) (receive_on counter now) st"
    by (simp add: modify_session_def facts(3))
  obtain w where w: "accept (ps_receive_window session) counter = (True, w)"
    using would_accept_accept [OF facts(2)] by blast
  have ro: "mark_active now (session\<lparr>ps_receive_window := w,
      ps_confirmed := (if ps_role session = ROLE_RESPONDER then True else ps_confirmed session)\<rparr>) =
      receive_on counter now session"
    by (simp only: receive_on_def w snd_conv)
  show ?thesis
    unfolding open_frame_def Inr r sum.case prod.case w bool.case Let_def ro m ..
qed (simp add: open_frame_def)

section \<open>Histories\<close>

text \<open>
  A receiver's history: frames arriving in any order, interleaved with everything else the
  store does to sessions it already has.
\<close>

datatype channel_event = Arrive int real bytes | Local store_event

fun local_event :: "channel_event \<Rightarrow> bool" where
  "local_event (Arrive _ _ _) = True"
| "local_event (Local (Put _ _)) = False"
| "local_event (Local (ReceiveOn _ _ _)) = False"
| "local_event (Local _) = True"

fun receive_run :: "'p secure_channel \<Rightarrow> channel_event list \<Rightarrow> session_store \<Rightarrow> (bytes \<times> int) list \<times> session_store" where
  "receive_run ch [] st = ([], st)"
| "receive_run ch (Arrive clock_ms now frame # es) st =
     (case open_frame ch clock_ms now frame st of
        (Inl e, st1) \<Rightarrow> receive_run ch es st1
      | (Inr (packet, session), st1) \<Rightarrow>
          (let (acc, st2) = receive_run ch es st1
           in ((ps_session_id session, ph_message_id (pk_header packet)) # acc, st2)))"
| "receive_run ch (Local e # es) st = receive_run ch es (store_step e st)"

definition windows_remember :: "(bytes \<times> int) set \<Rightarrow> session_store \<Rightarrow> bool" where
  "windows_remember A st \<longleftrightarrow>
     (\<forall>sid s. get_by_session_id st sid = Some s \<longrightarrow> remembers (ps_receive_window s) {c. (sid, c) \<in> A})"

lemma windows_remember_local:
  assumes "store_inv st" "windows_remember A st" "local_event (Local e)"
  shows "windows_remember A (store_step e st)"
proof -
  have ix: "index_inv st" using assms(1) by (simp add: store_inv_def)
  have sub: "windows_remember A st'" if "removed_from P st st'" for P st'
    using removed_facts(4) [OF ix that] assms(2) unfolding windows_remember_def by blast
  have same: "windows_remember A (modify_session sid f st)"
    if "\<And>s. ps_receive_window (f s) = ps_receive_window s" for sid f
    using assms(2) that unfolding windows_remember_def get_modify_session by (auto split: if_splits)
  show ?thesis
  proof (cases e)
    case (RemoveByPeer p) then show ?thesis using sub [OF remove_by_peer_removed] by simp
  next
    case (PruneExpired now) then show ?thesis using sub [OF prune_expired_removed [OF ix]] by simp
  next
    case (Confirm sid) then show ?thesis by (simp add: confirm_def same)
  next
    case (SendOn sid now) then show ?thesis by (simp add: same allocate_counter_def mark_active_def)
  qed (use assms(3) in auto)
qed

lemma open_remembers:
  assumes inv: "store_inv st" and A: "windows_remember A st"
    and o: "open_frame ch clock_ms now frame st = (Inr (packet, session), st')"
  defines "key \<equiv> (ps_session_id session, ph_message_id (pk_header packet))"
  shows "key \<notin> A \<and> store_inv st' \<and> windows_remember (insert key A) st'"
proof -
  have ix: "index_inv st" using inv by (simp add: store_inv_def)
  obtain s0 c where ch: "open_checks ch clock_ms frame st = Inr (packet, s0, c)"
      "session = receive_on c now s0" "st' = modify_session (ps_session_id s0) (receive_on c now) st"
    using o unfolding open_frame_eq [OF ix] by (auto split: sum.splits)
  note f = open_passed_counter [OF ch(1) [unfolded open_checks_eq_Inr] ix]
  have key: "key = (ps_session_id s0, c)" by (simp add: key_def ch(2) receive_on_def mark_active_def f(1))
  have r: "remembers (ps_receive_window s0) {c. (ps_session_id s0, c) \<in> A}"
    using A f(3) unfolding windows_remember_def by blast
  have "key \<notin> A" using window.remembered [OF r, of c] f(2) by (auto simp: key)
  moreover have "store_inv st'"
    unfolding ch(3) by (rule modify_session_inv [OF inv]) (simp_all add: receive_on_def mark_active_def)
  moreover have "{c'. (ps_session_id s0, c') \<in> insert key A} = insert c {c. (ps_session_id s0, c) \<in> A}"
    by (auto simp: key)
  then have "remembers (ps_receive_window (receive_on c now s0)) {c'. (ps_session_id s0, c') \<in> insert key A}"
    using window.acc_remembers [OF r f(2)] by (simp only: receive_on_def mark_active_def) simp
  then have "windows_remember (insert key A) st'"
    using A f(3) unfolding windows_remember_def ch(3) get_modify_session by (auto simp: key)
  ultimately show ?thesis by blast
qed

lemma receive_run_distinct:
  assumes "store_inv st" "windows_remember A st" "list_all local_event es"
  shows "distinct (fst (receive_run ch es st)) \<and> set (fst (receive_run ch es st)) \<inter> A = {}"
  using assms
proof (induction ch es st arbitrary: A rule: receive_run.induct)
  case (2 ch clock_ms now frame es st)
  show ?case
  proof (cases "open_frame ch clock_ms now frame st")
    case (Pair r st1)
    show ?thesis
    proof (cases r)
      case (Inl e)
      then have "st1 = st" using Pair 2(3) open_frame_eq [of st ch clock_ms now frame]
        by (auto simp: store_inv_def split: sum.splits)
      then show ?thesis using 2 Pair Inl by simp
    next
      case (Inr ps)
      obtain packet session where ps: "ps = (packet, session)" by (cases ps)
      note o = open_remembers [OF 2(3,4) Pair [unfolded Inr ps]]
      from 2(2) [OF Pair [symmetric] Inr ps [symmetric]] o 2(5)
      show ?thesis using Pair Inr ps by (auto simp: case_prod_unfold Let_def)
    qed
  qed
next
  case (3 ch e es st)
  have "store_inv (store_step e st)" using 3(2) by (rule store_machine.step_inv)
  moreover have "windows_remember A (store_step e st)"
    using 3(2,3) by (rule windows_remember_local) (use 3(4) in simp)
  ultimately show ?case using 3(1) [of A] 3(4) by simp
qed simp

section \<open>Sealing\<close>

text \<open>The counter bytes of a frame: bytes 1 to 8 of the nonce that follows the header.\<close>

definition frame_nonce :: "bytes \<Rightarrow> bytes" where
  "frame_nonce f = slice FRAME_HEADER_SIZE (FRAME_HEADER_SIZE + NONCE_SIZE) f"

definition frame_counter :: "bytes \<Rightarrow> int" where
  "frame_counter f = field 1 9 (frame_nonce f)"

lemma seal_Inr:
  assumes "seal ch now_ms now s pt payload = (Inr f, s')"
  shows "frame_counter f = ps_next_send_counter s \<and> ps_next_send_counter s' = ps_next_send_counter s + 1 \<and>
    ps_role s' = ps_role s \<and>
    (\<exists>d. outgoing_direction (ps_role s) = Inr d \<and> derive_nonce d (ps_next_send_counter s) = Inr (frame_nonce f))"
proof -
  from assms obtain d nonce e where
    p: "seal_payload ch now_ms (snd (allocate_counter s)) pt payload (ps_next_send_counter s) = Inr (d, nonce, e)"
    and fr: "encode_frame d (packet_type_value pt) (ps_session_id s) nonce (ep_ciphertext e) (ep_tag e) FRAME_VERSION = Inr f"
    and s': "ps_next_send_counter s' = ps_next_send_counter s + 1" "ps_role s' = ps_role s"
    by (auto simp: seal_def allocate_counter_def mark_active_def split: if_splits sum.splits prod.splits)
  have d: "outgoing_direction (ps_role s) = Inr d" "derive_nonce d (ps_next_send_counter s) = Inr nonce"
    using p by (auto simp: seal_payload_def rbind_eq_Inr allocate_counter_def split: if_splits)
  have "frame_nonce f = nonce"
    using fr derive_nonce_length [OF d(2)]
    by (auto simp: encode_frame_def pack_frame_header_def result_simps frame_nonce_def frame_sizes
        pack_low_byte_def slice_def)
  with d s' derive_nonce_counter [OF d(2)] show ?thesis by (simp add: frame_counter_def)
qed

lemma seal_counter_le: "seal ch now_ms now s pt payload = (r, s') \<Longrightarrow>
    ps_next_send_counter s \<le> ps_next_send_counter s' \<and> ps_role s' = ps_role s"
  by (auto simp: seal_def allocate_counter_def mark_active_def split: if_splits sum.splits prod.splits)

fun seal_run :: "'p secure_channel \<Rightarrow> (int \<times> real \<times> packet_type \<times> 'p) list \<Rightarrow> peer_session \<Rightarrow> bytes list \<times> peer_session" where
  "seal_run ch [] s = ([], s)"
| "seal_run ch ((now_ms, now, pt, payload) # ms) s =
     (case seal ch now_ms now s pt payload of
        (Inl e, s1) \<Rightarrow> seal_run ch ms s1
      | (Inr f, s1) \<Rightarrow> (let (fs, s2) = seal_run ch ms s1 in (f # fs, s2)))"

lemma seal_run_increasing:
  "sorted_wrt (<) (map frame_counter (fst (seal_run ch ms s))) \<and>
   (\<forall>f\<in>set (fst (seal_run ch ms s)). ps_next_send_counter s \<le> frame_counter f)"
proof (induction ch ms s rule: seal_run.induct)
  case (2 ch now_ms now pt payload ms s)
  show ?case
  proof (cases "seal ch now_ms now s pt payload")
    case (Pair r s1)
    show ?thesis
    proof (cases r)
      case (Inl e)
      then show ?thesis using Pair 2(1) [OF Pair [symmetric] Inl] seal_counter_le [OF Pair] by fastforce
    next
      case (Inr f)
      note seal_Inr [OF Pair [unfolded Inr]]
      then show ?thesis using 2(2) [OF Pair [symmetric] Inr] Pair Inr
        by (fastforce simp: case_prod_unfold Let_def)
    qed
  qed
qed simp

section \<open>Two ends of one session\<close>

definition matching_sessions ::
  "'p secure_channel \<Rightarrow> peer_session \<Rightarrow> 'p secure_channel \<Rightarrow> peer_session \<Rightarrow> bool" where
  "matching_sessions ch s ch' r \<longleftrightarrow>
     ps_session_id s = ps_session_id r \<and> length (ps_session_id s) = SESSION_ID_SIZE \<and>
     {ps_role s, ps_role r} = {ROLE_INITIATOR, ROLE_RESPONDER} \<and> ps_send_key s = ps_receive_key r \<and>
     length (ps_send_key s) = KEY_SIZE \<and>
     ps_peer_id s = sc_own_device_id ch' \<and> ps_peer_id r = sc_own_device_id ch"

text \<open>
  The laws of the third-party code. Encryption succeeds for a key of 32 bytes, a nonce of 12 and data below 2 GiB; when it
  succeeds the tag has 16 bytes, and decryption under the same key, nonce and associated data returns the plaintext.
  Unpacking returns the payload that was packed.
\<close>

definition aead_input :: "bytes \<Rightarrow> bytes \<Rightarrow> bytes \<Rightarrow> bytes \<Rightarrow> bool" where
  "aead_input m k n a \<longleftrightarrow> length k = KEY_SIZE \<and> length n = NONCE_SIZE \<and> length m < 2 ^ 31 \<and> length a < 2 ^ 31"

definition aead_laws :: "'p secure_channel \<Rightarrow> 'p secure_channel \<Rightarrow> bool" where
  "aead_laws ch ch' \<longleftrightarrow>
     (\<forall>m k n a. aead_input m k n a \<longrightarrow> (\<exists>e. sc_encrypt ch m k n a = Inr e)) \<and>
     (\<forall>m k n a e. sc_encrypt ch m k n a = Inr e \<longrightarrow>
        length (ep_tag e) = TAG_SIZE \<and> sc_decrypt ch' (e\<lparr>ep_nonce := n\<rparr>) k a = Inr m)"

definition pack_law :: "'p secure_channel \<Rightarrow> 'p secure_channel \<Rightarrow> 'p \<Rightarrow> bool" where
  "pack_law ch ch' payload \<longleftrightarrow> (\<forall>b. sc_packb ch payload = Inr b \<longrightarrow> sc_unpackb ch' b = Inr payload)"

text \<open>For the payloads of the transports the law is that of MessagePack, which it keeps for plain values only.\<close>

definition pack_laws :: "mval secure_channel \<Rightarrow> mval secure_channel \<Rightarrow> bool" where
  "pack_laws ch ch' \<longleftrightarrow> (\<forall>payload. plain_value payload \<longrightarrow> pack_law ch ch' payload)"

lemma pack_lawsD: "pack_laws ch ch' \<Longrightarrow> plain_value payload \<Longrightarrow> pack_law ch ch' payload"
  by (simp add: pack_laws_def)

lemma open_sealed:
  assumes f: "encode_frame d (packet_type_value pt) sid nonce (ep_ciphertext e) (ep_tag e) FRAME_VERSION = Inr f"
    and d: "incoming_direction (ps_role r) = Inr d" "is_byte d" "derive_nonce d c = Inr nonce"
    and r: "get_by_session_id st sid = Some r" "would_accept (ps_receive_window r) c"
    and u: "utf8_encode (ps_peer_id r) = Inr peer" "utf8_encode (sc_own_device_id ch) = Inr own"
    and a: "build_aad FRAME_VERSION d (packet_type_value pt) sid peer own = Inr aad"
    and dec: "sc_decrypt ch (e\<lparr>ep_nonce := nonce\<rparr>) (ps_receive_key r) aad = Inr framed"
      "decode_packet (sc_unpackb ch) framed = Inr packet"
    and h: "ph_message_id (pk_header packet) = c" "ph_packet_type (pk_header packet) = pt"
      "check_timestamp_skew (ph_timestamp (pk_header packet)) clock_ms (sc_timestamp_skew_ms ch)"
  shows "open_passed ch clock_ms f st packet r c"
proof -
  let ?h = "\<lparr>fh_version = FRAME_VERSION, fh_direction = d, fh_packet_type = packet_type_value pt, fh_session_id = sid\<rparr>"
  have "frame_bytes (?h, nonce, e\<lparr>ep_nonce := nonce\<rparr>) = Inr f" using f by (simp add: frame_bytes_def)
  moreover have "valid_frame (?h, nonce, e\<lparr>ep_nonce := nonce\<rparr>)"
    using f d packet_type_value_byte [of pt]
    by (auto simp: valid_frame_def is_byte_def FRAME_VERSION_def encode_frame_def pack_frame_header_def result_simps)
  ultimately have "split_frame f = Inr (?h, nonce, e\<lparr>ep_nonce := nonce\<rparr>)"
    by (rule frame_codec.decode_encode [rotated])
  then show ?thesis
    unfolding open_passed_def using assms derive_nonce_counter [OF d(3)]
    by (intro exI [of _ ?h] exI [of _ nonce] exI [of _ "e\<lparr>ep_nonce := nonce\<rparr>"] exI [of _ own]
        exI [of _ peer] exI [of _ aad] exI [of _ framed]) simp
qed

lemma packet_encodes:
  assumes "sc_packb ch payload = Inr pb" "length pb < 256 ^ 4" "0 \<le> now_ms" "now_ms < 256 ^ 8"
    "0 \<le> c" "c < 256 ^ 8" "pack_law ch ch' payload"
  shows "\<exists>framed packet. encode_packet (sc_packb ch) \<lparr>pk_header = make_header now_ms pt c 0, pk_payload = payload\<rparr> = Inr framed \<and>
    decode_packet (sc_unpackb ch') framed = Inr packet \<and> pk_payload packet = payload \<and>
    ph_message_id (pk_header packet) = c \<and> ph_packet_type (pk_header packet) = pt \<and>
    ph_timestamp (pk_header packet) = now_ms"
proof -
  let ?h = "(make_header now_ms pt c 0)\<lparr>ph_payload_length := int (length pb), ph_crc32 := crc32 pb\<rparr>"
  have "valid_header ?h"
    using assms crc32_bounds [of pb] by (simp add: valid_header_def make_header_def CURRENT_VERSION_def)
  then obtain hb where hb: "pack_header ?h = Inr hb" using header_codec.encode_total by blast
  have "decode_packet (sc_unpackb ch') (hb @ pb) = Inr \<lparr>pk_header = ?h, pk_payload = payload\<rparr>"
    using decode_after_header [OF hb, of pb "sc_unpackb ch'" "[]"] assms(1,7) by (simp add: pack_law_def)
  then show ?thesis using hb assms(1)
    by (intro exI [of _ "hb @ pb"] exI [of _ "\<lparr>pk_header = ?h, pk_payload = payload\<rparr>"])
      (simp add: encode_packet_def make_header_def)
qed

section \<open>A concrete channel\<close>

text \<open>The laws of the cipher and of the packer can hold: a cipher that does not hide anything.\<close>

definition plain_channel :: "pystr \<Rightarrow> bytes secure_channel" where
  "plain_channel own =
     \<lparr>sc_own_device_id = own, sc_timestamp_skew_ms = DEFAULT_TIMESTAMP_SKEW_MS,
      sc_encrypt = (\<lambda>m k n a. Inr \<lparr>ep_ciphertext = m, ep_nonce = n, ep_tag = replicate 16 0\<rparr>),
      sc_decrypt = (\<lambda>e k a. Inr (ep_ciphertext e)), sc_packb = Inr, sc_unpackb = Inr\<rparr>"

definition sample_receiver :: peer_session where
  "sample_receiver = (sample_session 1 True)\<lparr>ps_role := ROLE_INITIATOR, ps_peer_id := [66]\<rparr>"

definition receiver_store :: session_store where
  "receiver_store = add_session sample_receiver mk_SessionStore"

lemma receiver_store_ok: "store_inv receiver_store"
  unfolding receiver_store_def
  by (rule add_session_inv) (use mk_SessionStore_inv in \<open>simp_all add: sample_receiver_def sample_session_def
      SESSION_ID_SIZE_def mk_SessionStore_def get_by_session_id_def unconf_count_def ids_of_def
      MAX_SESSIONS_PER_PEER_def MAX_UNCONFIRMED_PER_PEER_def GLOBAL_SESSION_CAP_def\<close>)

lemma receiver_store_inv: "index_inv receiver_store"
  using receiver_store_ok by (simp add: store_inv_def)

text \<open>What one end seals the other opens.\<close>

lemma seal_packs:
  assumes "seal ch now_ms now s pt payload = (Inr f, s')"
  shows "\<exists>pb. sc_packb ch payload = Inr pb \<and> length pb < 256 ^ 4"
proof -
  obtain c s1 framed where "encode_packet (sc_packb ch) \<lparr>pk_header = make_header now_ms pt c 0, pk_payload = payload\<rparr> = Inr framed"
    using assms by (auto simp: seal_def seal_payload_def rbind_eq_Inr split: prod.splits sum.splits)
  then obtain pb where "sc_packb ch payload = Inr pb" "int (length pb) < 256 ^ 4"
    by (auto simp: encode_packet_eq_Inr valid_header_def dest!: pack_header_Inr)
  moreover from this(2) have "int (length pb) < int (256 ^ 4)" by simp
  ultimately show ?thesis using of_nat_less_iff by blast
qed

lemma matching_direction:
  assumes "matching_sessions ch s ch' r"
  shows "\<exists>d. outgoing_direction (ps_role s) = Inr d \<and> incoming_direction (ps_role r) = Inr d \<and> is_byte d \<and>
    (d = DIRECTION_INITIATOR_TO_RESPONDER \<or> d = DIRECTION_RESPONDER_TO_INITIATOR)"
proof -
  have roles: "{ps_role s, ps_role r} = {ROLE_INITIATOR, ROLE_RESPONDER}" using assms unfolding matching_sessions_def by blast
  then have "outgoing_direction (ps_role s) = incoming_direction (ps_role r)" using directions_meet by blast
  moreover have "\<exists>d. outgoing_direction (ps_role s) = Inr d \<and> is_byte d \<and>
      (d = DIRECTION_INITIATOR_TO_RESPONDER \<or> d = DIRECTION_RESPONDER_TO_INITIATOR)"
    using roles by (auto simp: outgoing_direction_def doubleton_eq_iff is_byte_def direction_defs role_defs)
  ultimately show ?thesis by auto
qed

lemma frame_opens:
  assumes inv: "index_inv st" and match: "matching_sessions ch s ch' r"
    and laws: "aead_laws ch ch'" "pack_law ch ch' payload"
    and sealed: "seal ch now_ms now s pt payload = (Inr f, s')"
    and clock: "0 \<le> now_ms" "now_ms < 256 ^ 8" "\<bar>clock_ms - now_ms\<bar> \<le> sc_timestamp_skew_ms ch'"
    and counter: "0 < ps_next_send_counter s" "ps_next_send_counter s \<le> MAX_COUNTER"
      "ps_sent_count s < MAX_MESSAGES_PER_KEY"
    and r: "get_by_session_id st (ps_session_id r) = Some r"
      "would_accept (ps_receive_window r) (ps_next_send_counter s)"
  shows "\<exists>packet. open_frame ch' clock_ms now' f st =
      (Inr (packet, receive_on (ps_next_send_counter s) now' r),
       modify_session (ps_session_id r) (receive_on (ps_next_send_counter s) now') st) \<and>
    pk_payload packet = payload \<and> ph_packet_type (pk_header packet) = pt \<and>
    ph_message_id (pk_header packet) = ps_next_send_counter s"
proof -
  let ?c = "ps_next_send_counter s" and ?sid = "ps_session_id r"
  have c: "0 \<le> ?c" "?c < 256 ^ 8" using counter by (simp_all add: MAX_COUNTER_def)
  note m = match [unfolded matching_sessions_def]
  obtain d where d: "outgoing_direction (ps_role s) = Inr d" "incoming_direction (ps_role r) = Inr d" "is_byte d"
    using matching_direction [OF match] by blast
  obtain s1 where al: "allocate_counter s = (Inr ?c, s1)" "ps_role s1 = ps_role s" "ps_session_id s1 = ?sid"
      "ps_send_key s1 = ps_receive_key r" "ps_peer_id s1 = sc_own_device_id ch'"
    using counter m by (simp add: allocate_counter_def)
  obtain pb where pb: "sc_packb ch payload = Inr pb" "length pb < 256 ^ 4" using seal_packs [OF sealed] by blast
  obtain framed packet where p:
    "encode_packet (sc_packb ch) \<lparr>pk_header = make_header now_ms pt ?c 0, pk_payload = payload\<rparr> = Inr framed"
    "decode_packet (sc_unpackb ch') framed = Inr packet" "pk_payload packet = payload"
    "ph_message_id (pk_header packet) = ?c" "ph_packet_type (pk_header packet) = pt"
    "ph_timestamp (pk_header packet) = now_ms"
    using packet_encodes [OF pb clock(1,2) c laws(2)] by blast
  obtain nonce own peer aad e where n: "derive_nonce d ?c = Inr nonce"
      and ids: "utf8_encode (sc_own_device_id ch) = Inr own" "utf8_encode (sc_own_device_id ch') = Inr peer"
      and a: "build_aad FRAME_VERSION d (packet_type_value pt) ?sid own peer = Inr aad"
      and e: "sc_encrypt ch framed (ps_receive_key r) nonce aad = Inr e"
      and f: "encode_frame d (packet_type_value pt) ?sid nonce (ep_ciphertext e) (ep_tag e) FRAME_VERSION = Inr f"
    using sealed by (auto simp: seal_def seal_payload_def al d(1) p(1) rbind_eq_Inr split: sum.splits prod.splits)
  have dec: "sc_decrypt ch' (e\<lparr>ep_nonce := nonce\<rparr>) (ps_receive_key r) aad = Inr framed"
    using laws(1) e unfolding aead_laws_def by blast
  have "open_passed ch' clock_ms f st packet r ?c"
    using f d(2,3) n r(1,2) _ ids(2) a dec p(2,4,5)
    by (rule open_sealed) (use m ids clock p in \<open>auto simp: check_timestamp_skew_def\<close>)
  then have "open_frame ch' clock_ms now' f st = (Inr (packet, receive_on ?c now' r),
      modify_session ?sid (receive_on ?c now') st)"
    unfolding open_frame_eq [OF inv] open_checks_eq_Inr [symmetric] by simp
  then show ?thesis using p(3-5) by blast
qed

lemma seal_total:
  assumes match: "matching_sessions ch s ch' r" and laws: "aead_laws ch ch'" "pack_law ch ch' payload"
    and own: "utf8_encode (sc_own_device_id ch) = Inr own" "length own < 256 ^ 2"
    and peer: "utf8_encode (sc_own_device_id ch') = Inr peer" "length peer < 256 ^ 2"
    and payload: "sc_packb ch payload = Inr pb" "HEADER_SIZE + length pb < 2 ^ 31"
    and clock: "0 \<le> now_ms" "now_ms < 256 ^ 8"
    and counter: "0 < ps_next_send_counter s" "ps_next_send_counter s \<le> MAX_COUNTER"
      "ps_sent_count s < MAX_MESSAGES_PER_KEY"
  shows "\<exists>f s'. seal ch now_ms now s pt payload = (Inr f, s')"
proof -
  let ?c = "ps_next_send_counter s" and ?sid = "ps_session_id r"
  have c: "0 \<le> ?c" "?c < 256 ^ 8" using counter by (simp_all add: MAX_COUNTER_def)
  note m = match [unfolded matching_sessions_def]
  obtain d where d: "outgoing_direction (ps_role s) = Inr d" "is_byte d"
      "d = DIRECTION_INITIATOR_TO_RESPONDER \<or> d = DIRECTION_RESPONDER_TO_INITIATOR"
    using matching_direction [OF match] by blast
  have sid: "length ?sid = SESSION_ID_SIZE" and key: "length (ps_send_key s) = KEY_SIZE" using m by metis+
  obtain nonce where n: "derive_nonce d ?c = Inr nonce" using d(3) c counter derive_nonce_eq_Inr by blast
  obtain aad where a: "build_aad FRAME_VERSION d (packet_type_value pt) ?sid own peer = Inr aad"
    using own(2) peer(2) build_aad_eq_Inr by blast
  have pb4: "length pb < 256 ^ 4" using payload(2) by simp
  obtain framed where p: "encode_packet (sc_packb ch) \<lparr>pk_header = make_header now_ms pt ?c 0, pk_payload = payload\<rparr> = Inr framed"
    using packet_encodes [OF payload(1) pb4 clock c laws(2)] by blast
  then have "length framed = HEADER_SIZE + length pb"
    using payload(1) by (auto simp: encode_packet_eq_Inr dest: pack_header_Inr)
  moreover have "length aad < 2 ^ 31"
    using a own(2) peer(2) sid by (auto simp: build_aad_eq_Inr prefix16_def SESSION_ID_SIZE_def)
  ultimately have "aead_input framed (ps_send_key s) nonce aad"
    using payload(2) key derive_nonce_length [OF n] by (simp add: aead_input_def)
  then obtain e where e: "sc_encrypt ch framed (ps_send_key s) nonce aad = Inr e" "length (ep_tag e) = TAG_SIZE"
    using laws(1) unfolding aead_laws_def by blast
  obtain s1 where al: "allocate_counter s = (Inr ?c, s1)" "ps_role s1 = ps_role s" "ps_session_id s1 = ?sid"
      "ps_send_key s1 = ps_send_key s" "ps_peer_id s1 = sc_own_device_id ch'"
    using counter m by (simp add: allocate_counter_def)
  have "seal_payload ch now_ms s1 pt payload ?c = Inr (d, nonce, e)"
    by (simp add: seal_payload_def p al d(1) n own peer a e(1))
  moreover have "\<exists>f. encode_frame d (packet_type_value pt) ?sid nonce (ep_ciphertext e) (ep_tag e) FRAME_VERSION = Inr f"
    using sid e(2) derive_nonce_length [OF n] by (simp add: encode_frame_def pack_frame_header_def)
  ultimately show ?thesis by (auto simp: seal_def al(1,3))
qed

section \<open>Properties\<close>

text \<open>
  C14: A sealed packet opens at the other end. For two matching sessions whose ids fit their
  length fields, a sender with counters left and a payload MessagePack packs into less than 2 GiB, \<^verbatim>\<open>seal\<close> returns a frame,
  and the receiver, if its window still accepts the counter and the clocks agree within the skew,
  opens it to the same payload, packet type and message id.
\<close>

theorem seal_open_round_trip:
  assumes inv: "index_inv st" and match: "matching_sessions ch s ch' r"
    and laws: "aead_laws ch ch'" "pack_law ch ch' payload"
    and own: "utf8_encode (sc_own_device_id ch) = Inr own" "length own < 256 ^ 2"
    and peer: "utf8_encode (sc_own_device_id ch') = Inr peer" "length peer < 256 ^ 2"
    and payload: "sc_packb ch payload = Inr pb" "HEADER_SIZE + length pb < 2 ^ 31"
    and clock: "0 \<le> now_ms" "now_ms < 256 ^ 8" "\<bar>clock_ms - now_ms\<bar> \<le> sc_timestamp_skew_ms ch'"
    and counter: "0 < ps_next_send_counter s" "ps_next_send_counter s \<le> MAX_COUNTER"
      "ps_sent_count s < MAX_MESSAGES_PER_KEY"
    and r: "get_by_session_id st (ps_session_id r) = Some r"
      "would_accept (ps_receive_window r) (ps_next_send_counter s)"
  shows "\<exists>f s' packet. seal ch now_ms now s pt payload = (Inr f, s') \<and>
    open_frame ch' clock_ms now' f st =
      (Inr (packet, receive_on (ps_next_send_counter s) now' r),
       modify_session (ps_session_id r) (receive_on (ps_next_send_counter s) now') st) \<and>
    pk_payload packet = payload \<and> ph_packet_type (pk_header packet) = pt \<and>
    ph_message_id (pk_header packet) = ps_next_send_counter s"
proof -
  obtain f s' where f: "seal ch now_ms now s pt payload = (Inr f, s')"
    using seal_total [OF match laws own peer payload clock(1,2) counter] by blast
  show ?thesis using frame_opens [OF inv match laws f clock counter r, of now'] f by blast
qed

theorem seal_open_round_trip_witness:
  "\<exists>f s' packet. seal (plain_channel [66]) 1000 1 (sample_session 1 True) CHUNK_DATA [7] = (Inr f, s') \<and>
    open_frame (plain_channel [65]) 2000 2 f receiver_store =
      (Inr (packet, receive_on 1 2 sample_receiver),
       modify_session (replicate 8 1) (receive_on 1 2) receiver_store) \<and>
    pk_payload packet = [7]"
proof -
  have m: "matching_sessions (plain_channel [66]) (sample_session 1 True) (plain_channel [65]) sample_receiver"
    by (auto simp: matching_sessions_def plain_channel_def sample_receiver_def sample_session_def
        SESSION_ID_SIZE_def KEY_SIZE_def role_defs)
  have a: "aead_laws (plain_channel [66]) (plain_channel [65])" "pack_law (plain_channel [66]) (plain_channel [65]) [7]"
    by (simp_all add: aead_laws_def pack_law_def plain_channel_def TAG_SIZE_def)
  have w: "would_accept (ps_receive_window sample_receiver) (ps_next_send_counter (sample_session 1 True))"
    by (simp add: would_accept_def sample_receiver_def sample_session_def w_slot_def bits_is_set_def)
  have s: "get_by_session_id receiver_store (ps_session_id sample_receiver) = Some sample_receiver"
    by (simp add: receiver_store_def get_add_session)
  have x: "sc_own_device_id (plain_channel o1) = o1" "sc_packb (plain_channel o1) = Inr"
    "sc_timestamp_skew_ms (plain_channel o1) = 300000"
    "ps_session_id sample_receiver = replicate 8 1" "ps_next_send_counter (sample_session 1 True) = 1"
    "ps_sent_count (sample_session 1 True) = 0" for o1
    by (simp_all add: plain_channel_def sample_receiver_def sample_session_def DEFAULT_TIMESTAMP_SKEW_MS_def)
  have u: "utf8_encode [66] = Inr [66]" "utf8_encode [65] = Inr [65]"
    by (simp_all add: utf8_encode_def scalar_def utf8_char_def)
  from seal_open_round_trip [OF receiver_store_inv m a, of "[66]" "[65]" "[7]" 1000 2000 1 CHUNK_DATA 2] w s
  show ?thesis by (simp add: x u MAX_COUNTER_def MAX_MESSAGES_PER_KEY_def HEADER_SIZE_def) blast
qed

text \<open>
  C1: No frame is accepted twice. Starting from sessions whose windows are fresh, over any history of
  arriving frames (replayed, reordered, forged) interleaved with sends, confirmations, prunings and
  removals, the pairs of session id and message id that \<^verbatim>\<open>open\<close> accepts are pairwise distinct.
\<close>

theorem no_frame_accepted_twice:
  assumes "store_inv st" and "list_all local_event es"
    and "\<forall>sid s. get_by_session_id st sid = Some s \<longrightarrow>
      mk_AntiReplayWindow DEFAULT_REPLAY_WINDOW_SIZE = Inr (ps_receive_window s)"
  shows "distinct (fst (receive_run ch es st))"
proof -
  have "windows_remember {} st"
    using assms(3) window_rel_new unfolding windows_remember_def remembers_def by fastforce
  then show ?thesis using receive_run_distinct assms(1,2) by blast
qed

text \<open>A store with one fresh session; the frame its peer seals is accepted once, however often it is replayed.\<close>

definition fresh_receiver :: peer_session where
  "fresh_receiver = sample_receiver\<lparr>ps_receive_window := \<lparr>w_window = 128, w_slots = 257, w_bits = replicate 33 0, w_highest = 0, w_base = -127\<rparr>\<rparr>"

definition fresh_store :: session_store where
  "fresh_store = add_session fresh_receiver mk_SessionStore"

lemma fresh_store_ok: "store_inv fresh_store"
  unfolding fresh_store_def
  by (rule add_session_inv) (use mk_SessionStore_inv in \<open>simp_all add: fresh_receiver_def sample_receiver_def sample_session_def
      SESSION_ID_SIZE_def mk_SessionStore_def get_by_session_id_def unconf_count_def ids_of_def
      MAX_SESSIONS_PER_PEER_def MAX_UNCONFIRMED_PER_PEER_def GLOBAL_SESSION_CAP_def\<close>)

lemma fresh_store_get: "get_by_session_id fresh_store sid = (if sid = replicate 8 1 then Some fresh_receiver else None)"
proof -
  have "ps_session_id fresh_receiver = replicate 8 1" by (simp add: fresh_receiver_def sample_receiver_def sample_session_def)
  moreover have "get_by_session_id mk_SessionStore sid = None" by (simp add: mk_SessionStore_def get_by_session_id_def)
  ultimately show ?thesis by (simp add: fresh_store_def get_add_session)
qed

lemma fresh_window: "mk_AntiReplayWindow DEFAULT_REPLAY_WINDOW_SIZE = Inr (ps_receive_window fresh_receiver)"
  by (simp add: mk_AntiReplayWindow_def DEFAULT_REPLAY_WINDOW_SIZE_def fresh_receiver_def raise_if_def)

lemma plain_utf8: "utf8_encode [66] = Inr [66]" "utf8_encode [65] = Inr [65]"
  by (simp_all add: utf8_encode_def scalar_def utf8_char_def)

lemma fresh_frame:
  obtains f s' packet st1 where "seal (plain_channel [66]) 1000 1 (sample_session 1 True) CHUNK_DATA [7] = (Inr f, s')"
    "open_frame (plain_channel [65]) 2000 2 f fresh_store = (Inr (packet, receive_on 1 2 fresh_receiver), st1)"
    "ph_message_id (pk_header packet) = 1"
proof -
  have m: "matching_sessions (plain_channel [66]) (sample_session 1 True) (plain_channel [65]) fresh_receiver"
    by (auto simp: matching_sessions_def plain_channel_def fresh_receiver_def sample_receiver_def sample_session_def
        SESSION_ID_SIZE_def KEY_SIZE_def role_defs)
  have a: "aead_laws (plain_channel [66]) (plain_channel [65])" "pack_law (plain_channel [66]) (plain_channel [65]) [7]"
    by (simp_all add: aead_laws_def pack_law_def plain_channel_def TAG_SIZE_def)
  have w: "would_accept (ps_receive_window fresh_receiver) (ps_next_send_counter (sample_session 1 True))"
    by (simp add: would_accept_def fresh_receiver_def sample_session_def w_slot_def bits_is_set_def)
  have s: "get_by_session_id fresh_store (ps_session_id fresh_receiver) = Some fresh_receiver"
    by (simp add: fresh_store_get) (simp add: fresh_receiver_def sample_receiver_def sample_session_def)
  have ids: "utf8_encode (sc_own_device_id (plain_channel [66])) = Inr [66]" "length [66 :: byte] < 256 ^ 2"
    "utf8_encode (sc_own_device_id (plain_channel [65])) = Inr [65]" "length [65 :: byte] < 256 ^ 2"
    "sc_packb (plain_channel [66]) [7] = Inr [7]" "HEADER_SIZE + length [7 :: byte] < 2 ^ 31"
    by (simp_all add: plain_utf8 plain_channel_def HEADER_SIZE_def)
  have clock: "(0 :: int) \<le> 1000" "(1000 :: int) < 256 ^ 8" "\<bar>2000 - 1000\<bar> \<le> sc_timestamp_skew_ms (plain_channel [65])"
    by (simp_all add: plain_channel_def DEFAULT_TIMESTAMP_SKEW_MS_def)
  have counter: "0 < ps_next_send_counter (sample_session 1 True)" "ps_next_send_counter (sample_session 1 True) \<le> MAX_COUNTER"
    "ps_sent_count (sample_session 1 True) < MAX_MESSAGES_PER_KEY"
    by (simp_all add: sample_session_def MAX_COUNTER_def MAX_MESSAGES_PER_KEY_def)
  have ix: "index_inv fresh_store" using fresh_store_ok by (simp add: store_inv_def)
  obtain f s' where f: "seal (plain_channel [66]) 1000 1 (sample_session 1 True) CHUNK_DATA [7] = (Inr f, s')"
    using seal_total [OF m a ids clock(1,2) counter] by blast
  have c: "ps_next_send_counter (sample_session 1 True) = 1" by (simp add: sample_session_def)
  show thesis using frame_opens [OF ix m a f clock counter s w, of 2] that f unfolding c by blast
qed

text \<open>The pair that an accepted frame is remembered by is written in the frame.\<close>

lemma accepted_key:
  assumes "index_inv st" "open_frame ch clock_ms now f st = (Inr (packet, session), st')"
  shows "\<exists>h nonce e. split_frame f = Inr (h, nonce, e) \<and>
    (ps_session_id session, ph_message_id (pk_header packet)) = (fh_session_id h, field 1 9 nonce)"
proof -
  obtain s0 c where c: "open_checks ch clock_ms f st = Inr (packet, s0, c)" "session = receive_on c now s0"
    using assms(2) unfolding open_frame_eq [OF assms(1)] by (auto split: sum.splits)
  note o = c(1) [unfolded open_checks_eq_Inr]
  obtain h nonce e where "split_frame f = Inr (h, nonce, e)" "c = field 1 9 nonce" "get_by_session_id st (fh_session_id h) = Some s0"
    using o unfolding open_passed_def by blast
  moreover from this(3) have "ps_session_id s0 = fh_session_id h" using index_invD(3) [OF assms(1)] by blast
  ultimately show ?thesis using open_passed_counter(1) [OF o assms(1)] c(2) by (simp add: receive_on_def mark_active_def)
qed

theorem no_frame_accepted_twice_witness:
  "\<exists>f s'. seal (plain_channel [66]) 1000 1 (sample_session 1 True) CHUNK_DATA [7] = (Inr f, s') \<and>
    fst (receive_run (plain_channel [65]) [Arrive 2000 2 f, Local (PruneExpired 5), Arrive 2000 3 f] fresh_store) = [(replicate 8 1, 1)]"
proof -
  let ?ch = "plain_channel [65]"
  obtain f s' packet st1 where f: "seal (plain_channel [66]) 1000 1 (sample_session 1 True) CHUNK_DATA [7] = (Inr f, s')"
    "open_frame ?ch 2000 2 f fresh_store = (Inr (packet, receive_on 1 2 fresh_receiver), st1)" "ph_message_id (pk_header packet) = 1"
    by (rule fresh_frame)
  let ?es = "[Arrive 2000 2 f, Local (PruneExpired 5), Arrive 2000 3 f]"
  have sid: "ps_session_id (receive_on 1 2 fresh_receiver) = replicate 8 1"
    by (simp add: receive_on_def mark_active_def fresh_receiver_def sample_receiver_def sample_session_def)
  have ix: "index_inv fresh_store" using fresh_store_ok by (simp add: store_inv_def)
  have "windows_remember {} fresh_store"
    using window_rel_new fresh_window by (fastforce simp: windows_remember_def remembers_def fresh_store_get)
  note st1 = open_remembers [OF fresh_store_ok this f(2)]
  let ?st2 = "store_step (PruneExpired 5) st1"
  have st2: "index_inv ?st2"
    using store_machine.step_inv [of st1 "PruneExpired 5"] st1 by (simp add: store_inv_def)
  have d: "distinct (fst (receive_run ?ch ?es fresh_store))"
    by (rule no_frame_accepted_twice [OF fresh_store_ok]) (simp_all add: fresh_store_get fresh_window)
  have "fst (receive_run ?ch ?es fresh_store) = [(replicate 8 1, 1)]"
  proof (cases "open_frame ?ch 2000 3 f ?st2")
    case (Pair r st3)
    show ?thesis
    proof (cases r)
      case (Inl e)
      then show ?thesis using f Pair sid by simp
    next
      case (Inr ps)
      obtain packet' session' where ps: "ps = (packet', session')" by (cases ps)
      have "(ps_session_id session', ph_message_id (pk_header packet')) = (replicate 8 1, 1)"
        using accepted_key [OF st2 Pair [unfolded Inr ps]] accepted_key [OF ix f(2)] sid f(3) by auto
      then show ?thesis using d f Pair Inr ps sid by simp
    qed
  qed
  then show ?thesis using f(1) by blast
qed

text \<open>
  C2: A rejected frame changes nothing, and an accepted one was authenticated. Whatever the
  bytes, \<^verbatim>\<open>open\<close> raising leaves the whole session store as it was; when it returns, the frame's AEAD payload
  decrypted under the receive key of a stored session, with associated data naming that session's
  peer as the sender and this device as the receiver, its direction is the one the role expects, its
  nonce is the one of the authenticated message id, and the outer packet type is the inner one.
\<close>

theorem open_authenticated_or_unchanged:
  assumes "index_inv st" and "open_frame ch clock_ms now frame st = (res, st')"
  shows "case res of
      Inl e \<Rightarrow> st' = st
    | Inr (packet, session') \<Rightarrow>
        (\<exists>session. open_passed ch clock_ms frame st packet session (ph_message_id (pk_header packet)) \<and>
           session' = receive_on (ph_message_id (pk_header packet)) now session \<and>
           get_by_session_id st' (ps_session_id session) = Some session' \<and>
           (\<forall>sid. sid \<noteq> ps_session_id session \<longrightarrow> get_by_session_id st' sid = get_by_session_id st sid))"
proof (cases "open_checks ch clock_ms frame st")
  case (Inl e)
  then show ?thesis using assms by (auto simp: open_frame_eq)
next
  case (Inr x)
  obtain packet session c where x: "x = (packet, session, c)" by (cases x)
  then have p: "open_passed ch clock_ms frame st packet session c" using Inr by (simp add: open_checks_eq_Inr)
  note f = open_passed_counter [OF p assms(1)]
  have "res = Inr (packet, receive_on c now session)" "st' = modify_session (ps_session_id session) (receive_on c now) st"
    using assms(2) Inr x unfolding open_frame_eq [OF assms(1)] by simp_all
  then show ?thesis using p f(1,3) by (auto simp: get_modify_session)
qed

theorem open_authenticated_or_unchanged_witness:
  "open_frame (plain_channel [65]) 2000 2 [] receiver_store = (Inl (Replay FrameDecodeError), receiver_store)"
proof -
  obtain res st' where o: "open_frame (plain_channel [65]) 2000 2 [] receiver_store = (res, st')"
    by (cases "open_frame (plain_channel [65]) 2000 2 [] receiver_store")
  have "res = Inl (Replay FrameDecodeError)"
    using o by (auto simp: open_frame_def open_checks_def split_frame_def frame_sizes)
  with open_authenticated_or_unchanged [OF receiver_store_inv o] o show ?thesis by simp
qed

text \<open>
  C15: A sender never reuses a nonce. However many packets are sealed on one session, in whatever
  order of types, payloads and failures, the nonces of the returned frames are pairwise distinct and their
  counters strictly increase from the session's next counter.
\<close>

theorem seal_nonces_distinct:
  "distinct (map frame_nonce (fst (seal_run ch ms s))) \<and>
   sorted_wrt (<) (map frame_counter (fst (seal_run ch ms s))) \<and>
   list_all (\<lambda>f. ps_next_send_counter s \<le> frame_counter f) (fst (seal_run ch ms s))"
proof -
  let ?fs = "fst (seal_run ch ms s)"
  have "distinct (map frame_counter ?fs)"
    using seal_run_increasing [of ch ms s] by (simp add: strict_sorted_iff)
  moreover have "map frame_counter ?fs = map (\<lambda>n. field 1 9 n) (map frame_nonce ?fs)"
    by (simp add: frame_counter_def)
  ultimately have "distinct (map frame_nonce ?fs)" by (metis distinct_map)
  then show ?thesis using seal_run_increasing [of ch ms s] by (simp add: list_all_iff)
qed

end
