(* ===== verification/Session_Keys.thy ===== *)
theory Session_Keys
  imports Frames
begin

text \<open>
  \<^verbatim>\<open>networking/session_keys.py\<close>: the key schedule. HKDF-SHA256 belongs to the
  \<^verbatim>\<open>cryptography\<close> package and is the argument \<open>hkdf secret salt info length\<close>; the only law used
  of it is that it returns as many bytes as asked for (RFC 5869).
\<close>

section \<open>Length-prefixed fields\<close>

definition MASTER_INFO :: bytes where "MASTER_INFO = byte_lit ''securesync-master-v2''"
definition SESSION_ID_INFO :: bytes where "SESSION_ID_INFO = byte_lit ''securesync-session-id''"
definition I2R_INFO :: bytes where "I2R_INFO = byte_lit ''securesync-initiator-to-responder''"
definition R2I_INFO :: bytes where "R2I_INFO = byte_lit ''securesync-responder-to-initiator''"

definition length_prefixed :: "bytes \<Rightarrow> bytes result" where
  "length_prefixed value =
     raise_if (0xFFFF < length value) KeyScheduleError
       (rbind (pack_uint 2 (int (length value))) (\<lambda>l. Inr (l @ value)))"

definition lp_str :: "pystr \<Rightarrow> bytes result" where
  "lp_str value = rbind (utf8_encode value) length_prefixed"

lemma length_prefixed_eq_Inr [result_simps]:
  "length_prefixed v = Inr bs \<longleftrightarrow> length v < 256 ^ 2 \<and> bs = prefix16 v"
  by (auto simp: length_prefixed_def result_simps prefix16_def simp del: be_bytes.simps)

section \<open>Key derivation\<close>

type_synonym hkdf = "bytes \<Rightarrow> bytes \<Rightarrow> bytes \<Rightarrow> nat \<Rightarrow> bytes"

definition keys_info :: "bytes \<Rightarrow> bytes \<Rightarrow> bytes \<Rightarrow> bytes result" where
  "keys_info label initiator_ephemeral_pub responder_ephemeral_pub =
     rbind (length_prefixed label) (\<lambda>a.
     rbind (length_prefixed initiator_ephemeral_pub) (\<lambda>b.
     rbind (length_prefixed responder_ephemeral_pub) (\<lambda>c. Inr (a @ b @ c))))"

definition derive_master :: "hkdf \<Rightarrow> bytes \<Rightarrow> bytes \<Rightarrow> bytes \<Rightarrow> bytes \<Rightarrow> bytes result" where
  "derive_master hkdf shared_secret salt initiator_ephemeral_pub responder_ephemeral_pub =
     rbind (keys_info MASTER_INFO initiator_ephemeral_pub responder_ephemeral_pub) (\<lambda>info.
       Inr (hkdf shared_secret salt info KEY_SIZE))"

definition derive_session_id :: "hkdf \<Rightarrow> bytes \<Rightarrow> bytes \<Rightarrow> bytes \<Rightarrow> bytes \<Rightarrow> bytes result" where
  "derive_session_id hkdf shared_secret salt initiator_ephemeral_pub responder_ephemeral_pub =
     rbind (keys_info SESSION_ID_INFO initiator_ephemeral_pub responder_ephemeral_pub) (\<lambda>info.
       Inr (hkdf shared_secret salt info SESSION_ID_SIZE))"

definition common_info :: "pystr \<Rightarrow> pystr \<Rightarrow> bytes \<Rightarrow> bytes \<Rightarrow> bytes \<Rightarrow> bytes result" where
  "common_info initiator_id responder_id session_id initiator_ephemeral_pub responder_ephemeral_pub =
     rbind (lp_str initiator_id) (\<lambda>a.
     rbind (lp_str responder_id) (\<lambda>b.
     rbind (length_prefixed initiator_ephemeral_pub) (\<lambda>c.
     rbind (length_prefixed responder_ephemeral_pub) (\<lambda>d.
     Inr (a @ b @ session_id @ c @ d)))))"

definition derive_directional_keys ::
  "hkdf \<Rightarrow> bytes \<Rightarrow> pystr \<Rightarrow> pystr \<Rightarrow> bytes \<Rightarrow> bytes \<Rightarrow> bytes \<Rightarrow> (bytes \<times> bytes) result" where
  "derive_directional_keys hkdf master initiator_id responder_id session_id
      initiator_ephemeral_pub responder_ephemeral_pub =
     raise_if (length session_id \<noteq> SESSION_ID_SIZE) KeyScheduleError
    (rbind (common_info initiator_id responder_id session_id
              initiator_ephemeral_pub responder_ephemeral_pub) (\<lambda>common.
     rbind (length_prefixed I2R_INFO) (\<lambda>li.
     rbind (length_prefixed R2I_INFO) (\<lambda>lr.
     Inr (hkdf master [] (li @ common) KEY_SIZE, hkdf master [] (lr @ common) KEY_SIZE)))))"

record session_keys =
  sk_session_id :: bytes
  sk_send_key :: bytes
  sk_receive_key :: bytes
  sk_role :: int

definition derive_session_keys ::
  "hkdf \<Rightarrow> bytes \<Rightarrow> bytes \<Rightarrow> pystr \<Rightarrow> pystr \<Rightarrow> bytes \<Rightarrow> bytes \<Rightarrow> int \<Rightarrow> session_keys result" where
  "derive_session_keys hkdf shared_secret salt initiator_id responder_id
      initiator_ephemeral_pub responder_ephemeral_pub role =
     rbind (derive_master hkdf shared_secret salt initiator_ephemeral_pub responder_ephemeral_pub) (\<lambda>master.
     rbind (derive_session_id hkdf shared_secret salt initiator_ephemeral_pub responder_ephemeral_pub) (\<lambda>session_id.
     rbind (derive_directional_keys hkdf master initiator_id responder_id session_id
              initiator_ephemeral_pub responder_ephemeral_pub) (\<lambda>(i2r, r2i).
     if role = ROLE_INITIATOR then
       Inr \<lparr>sk_session_id = session_id, sk_send_key = i2r, sk_receive_key = r2i, sk_role = role\<rparr>
     else if role = ROLE_RESPONDER then
       Inr \<lparr>sk_session_id = session_id, sk_send_key = r2i, sk_receive_key = i2r, sk_role = role\<rparr>
     else Inl KeyScheduleError)))"

section \<open>Lemmas\<close>

definition hkdf_length :: "hkdf \<Rightarrow> bool" where
  "hkdf_length hkdf \<longleftrightarrow> (\<forall>secret salt info n. length (hkdf secret salt info n) = n)"

lemma length_byte_lit [simp]: "length (byte_lit s) = length s"
  by (simp add: byte_lit_def)

lemma label_lengths [simp]:
  "length MASTER_INFO = 20" "length SESSION_ID_INFO = 21" "length I2R_INFO = 33" "length R2I_INFO = 33"
  by (simp_all add: MASTER_INFO_def SESSION_ID_INFO_def I2R_INFO_def R2I_INFO_def)

lemma master_not_session_id: "MASTER_INFO \<noteq> SESSION_ID_INFO"
  by (simp add: MASTER_INFO_def SESSION_ID_INFO_def byte_lit_def)

lemma i2r_not_r2i: "I2R_INFO \<noteq> R2I_INFO"
  by (simp add: I2R_INFO_def R2I_INFO_def byte_lit_def)

lemma keys_info_eq_Inr [result_simps]:
  "keys_info l a b = Inr i \<longleftrightarrow> length l < 256 ^ 2 \<and> length a < 256 ^ 2 \<and> length b < 256 ^ 2 \<and>
     i = prefix16 l @ prefix16 a @ prefix16 b"
  by (auto simp: keys_info_def result_simps)

lemma common_info_eq_Inr:
  "common_info i r sid a b = Inr c \<longleftrightarrow>
     (\<exists>ib rb. utf8_encode i = Inr ib \<and> utf8_encode r = Inr rb \<and> length ib < 256 ^ 2 \<and>
        length rb < 256 ^ 2 \<and> length a < 256 ^ 2 \<and> length b < 256 ^ 2 \<and>
        c = prefix16 ib @ prefix16 rb @ sid @ prefix16 a @ prefix16 b)"
  by (auto simp: common_info_def lp_str_def result_simps)

lemma keys_info_inject:
  assumes "keys_info l a b = Inr i" "keys_info l' a' b' = Inr i"
  shows "l = l' \<and> a = a' \<and> b = b'"
  using assms prefix16_cancel [of l "prefix16 a @ prefix16 b" l' "prefix16 a' @ prefix16 b'"]
    prefix16_cancel [of a "prefix16 b" a' "prefix16 b'"] prefix16_cancel [of b "[]" b' "[]"]
  by (simp add: result_simps)

lemma common_info_inject:
  assumes "common_info i r sid a b = Inr c" "common_info i' r' sid' a' b' = Inr c"
    and "length sid = length sid'"
  shows "i = i' \<and> r = r' \<and> sid = sid' \<and> a = a' \<and> b = b'"
proof -
  from assms(1) obtain ib rb where 1: "utf8_encode i = Inr ib" "utf8_encode r = Inr rb"
    "length ib < 256 ^ 2" "length rb < 256 ^ 2" "length a < 256 ^ 2" "length b < 256 ^ 2"
    "c = prefix16 ib @ prefix16 rb @ sid @ prefix16 a @ prefix16 b"
    unfolding common_info_eq_Inr by blast
  from assms(2) obtain ib' rb' where 2: "utf8_encode i' = Inr ib'" "utf8_encode r' = Inr rb'"
    "length ib' < 256 ^ 2" "length rb' < 256 ^ 2" "length a' < 256 ^ 2" "length b' < 256 ^ 2"
    "c = prefix16 ib' @ prefix16 rb' @ sid' @ prefix16 a' @ prefix16 b'"
    unfolding common_info_eq_Inr by blast
  have i: "ib = ib'" "prefix16 rb @ sid @ prefix16 a @ prefix16 b = prefix16 rb' @ sid' @ prefix16 a' @ prefix16 b'"
    using prefix16_cancel [OF trans [OF 1(7) [symmetric] 2(7)] 1(3) 2(3)] by simp_all
  have r: "rb = rb'" "sid @ prefix16 a @ prefix16 b = sid' @ prefix16 a' @ prefix16 b'"
    using prefix16_cancel [OF i(2) 1(4) 2(4)] by simp_all
  have s: "sid = sid'" "prefix16 a @ prefix16 b = prefix16 a' @ prefix16 b'" using r(2) assms(3) by simp_all
  have "a = a'" "b = b'"
    using prefix16_cancel [OF s(2) 1(5) 2(5)] prefix16_cancel [of b "[]" b' "[]"] 1(6) 2(6) by simp_all
  then show ?thesis using i(1) r(1) s(1) 1(1,2) 2(1,2) utf8_encode_inject by blast
qed

section \<open>Properties\<close>

text \<open>Both roles of one key schedule.\<close>

lemma derive_both_roles:
  assumes "hkdf_length hkdf"
    and "utf8_encode i = Inr ib" "length ib < 65536" "utf8_encode r = Inr rb" "length rb < 65536"
    and "length a < 65536" "length b < 65536"
  shows "\<exists>ki kr. derive_session_keys hkdf z salt i r a b ROLE_INITIATOR = Inr ki \<and>
     derive_session_keys hkdf z salt i r a b ROLE_RESPONDER = Inr kr \<and>
     sk_session_id ki = sk_session_id kr \<and> length (sk_session_id ki) = SESSION_ID_SIZE \<and>
     sk_send_key ki = sk_receive_key kr \<and> sk_receive_key ki = sk_send_key kr \<and>
     length (sk_send_key ki) = KEY_SIZE \<and> length (sk_receive_key ki) = KEY_SIZE \<and>
     (role \<noteq> ROLE_INITIATOR \<longrightarrow> role \<noteq> ROLE_RESPONDER \<longrightarrow>
        derive_session_keys hkdf z salt i r a b role = Inl KeyScheduleError)"
proof -
  have lp: "length_prefixed x = Inr (prefix16 x)" if "length x < 65536" for x
    using that length_prefixed_eq_Inr [of x "prefix16 x"] by simp
  show ?thesis using assms
    by (simp add: derive_session_keys_def derive_master_def derive_session_id_def
        derive_directional_keys_def common_info_def keys_info_def lp_str_def lp hkdf_length_def role_defs)
qed

text \<open>
  The two ends agree. From the same secret, salt, identities and ephemeral keys the initiator's
  send key is the responder's receive key and conversely, under one common session id of 8 bytes;
  derivation succeeds for both whenever the ids encode to at most 65535 bytes and the keys are that
  short, and a role other than the two is a \<^verbatim>\<open>KeyScheduleError\<close>.
\<close>

theorem session_keys_agree:
  assumes "hkdf_length hkdf"
    and "utf8_encode i = Inr ib" "length ib < 65536" "utf8_encode r = Inr rb" "length rb < 65536"
    and "length a < 65536" "length b < 65536"
  shows "\<exists>ki kr. derive_session_keys hkdf z salt i r a b ROLE_INITIATOR = Inr ki \<and>
     derive_session_keys hkdf z salt i r a b ROLE_RESPONDER = Inr kr \<and>
     sk_session_id ki = sk_session_id kr \<and> length (sk_session_id ki) = SESSION_ID_SIZE \<and>
     sk_send_key ki = sk_receive_key kr \<and> sk_receive_key ki = sk_send_key kr \<and>
     length (sk_send_key ki) = KEY_SIZE \<and> length (sk_receive_key ki) = KEY_SIZE \<and>
     (role \<noteq> ROLE_INITIATOR \<longrightarrow> role \<noteq> ROLE_RESPONDER \<longrightarrow>
        derive_session_keys hkdf z salt i r a b role = Inl KeyScheduleError)"
  using assms by (rule derive_both_roles)

theorem session_keys_agree_witness:
  "\<exists>ki kr. derive_session_keys (\<lambda>s t u n. replicate n (s ! 0)) [7] [] [65] [66] [1] [2] ROLE_INITIATOR = Inr ki \<and>
     derive_session_keys (\<lambda>s t u n. replicate n (s ! 0)) [7] [] [65] [66] [1] [2] ROLE_RESPONDER = Inr kr \<and>
     sk_send_key ki = sk_receive_key kr"
  using session_keys_agree [of "\<lambda>s t u n. replicate n (s ! 0)" "[65]" "[65]" "[66]" "[66]" "[1]" "[2]" "[7]" "[]" 5]
  by (auto simp: hkdf_length_def utf8_encode_def scalar_def utf8_char_def)

text \<open>
  Key separation. The HKDF inputs of the key schedule determine what they were derived for: the
  labelled inputs of the master key and of the session id differ from each other and are injective
  in the ephemeral keys, and the two directional inputs differ from each other and are injective in
  both device ids, the session id and both ephemeral keys.
\<close>

theorem key_inputs_separate:
  assumes "keys_info MASTER_INFO a b = Inr m" "keys_info SESSION_ID_INFO a' b' = Inr s"
    and "common_info i r sid a b = Inr c" "common_info i' r' sid' a' b' = Inr c'"
    and "length sid = SESSION_ID_SIZE" "length sid' = SESSION_ID_SIZE"
    and "length_prefixed I2R_INFO = Inr li" "length_prefixed R2I_INFO = Inr lr"
  shows "m \<noteq> s \<and> li @ c \<noteq> lr @ c' \<and>
    (li @ c = li @ c' \<longrightarrow> (i, r, sid, a, b) = (i', r', sid', a', b')) \<and>
    (keys_info MASTER_INFO a' b' = Inr m \<longrightarrow> (a, b) = (a', b')) \<and>
    (keys_info SESSION_ID_INFO a b = Inr s \<longrightarrow> (a, b) = (a', b'))"
proof -
  have "m \<noteq> s" using keys_info_inject [OF assms(1), of SESSION_ID_INFO a' b'] assms(2) master_not_session_id by auto
  moreover have "li @ c \<noteq> lr @ c'"
    using prefix16_cancel [of I2R_INFO c R2I_INFO c'] i2r_not_r2i assms(7,8) by (auto simp: result_simps)
  moreover have "li @ c = li @ c' \<Longrightarrow> (i, r, sid, a, b) = (i', r', sid', a', b')"
    using common_info_inject [OF assms(3), of i' r' sid' a' b'] assms(4-6) by simp
  moreover have "keys_info MASTER_INFO a' b' = Inr m \<Longrightarrow> (a, b) = (a', b')"
    using keys_info_inject [OF assms(1)] by blast
  moreover have "keys_info SESSION_ID_INFO a b = Inr s \<Longrightarrow> (a, b) = (a', b')"
    using keys_info_inject [OF assms(2)] by blast
  ultimately show ?thesis by blast
qed

theorem key_inputs_separate_witness:
  "\<exists>m s c c' li lr. keys_info MASTER_INFO [1] [2] = Inr m \<and> keys_info SESSION_ID_INFO [1] [2] = Inr s \<and>
     common_info [65] [66] (replicate 8 0) [1] [2] = Inr c \<and> common_info [] [65, 66] (replicate 8 0) [1] [2] = Inr c' \<and>
     length_prefixed I2R_INFO = Inr li \<and> length_prefixed R2I_INFO = Inr lr \<and>
     m \<noteq> s \<and> li @ c \<noteq> lr @ c' \<and> c \<noteq> c'"
proof -
  obtain m s c c' li lr where e:
    "keys_info MASTER_INFO [1] [2] = Inr m" "keys_info SESSION_ID_INFO [1] [2] = Inr s"
    "common_info [65] [66] (replicate 8 0) [1] [2] = Inr c"
    "common_info [] [65, 66] (replicate 8 0) [1] [2] = Inr c'"
    "length_prefixed I2R_INFO = Inr li" "length_prefixed R2I_INFO = Inr lr"
    by (simp add: keys_info_def common_info_def lp_str_def length_prefixed_def pack_uint_def
        utf8_encode_def scalar_def utf8_char_def)
  from key_inputs_separate [OF e(1,2,3,4) _ _ e(5,6)] e show ?thesis
    by (auto simp: SESSION_ID_SIZE_def)
qed

end
