(* ===== verification/Safe_Path.thy ===== *)
theory Safe_Path
  imports Prelude "HOL-Library.Sublist"
begin

text \<open>
  \<^verbatim>\<open>shared/safe_path.py\<close>: the one place where a path chosen by a peer becomes a local path.
  The parts of \<^verbatim>\<open>pathlib\<close> and \<^verbatim>\<open>ntpath\<close> it uses are modelled on strings of code points;
  \<^verbatim>\<open>Path.resolve\<close> depends on the file system (symbolic links), so it is an argument of the
  definitions.
\<close>

section \<open>Pure paths\<close>

text \<open>A POSIX path: how many slashes its root has (0 relative, 1, or exactly 2) and its parts.\<close>

datatype pure_path = PurePath (pp_root: nat) (pp_parts: "pystr list")

abbreviation slash :: nat where "slash \<equiv> 47"
abbreviation backslash :: nat where "backslash \<equiv> 92"
abbreviation colon :: nat where "colon \<equiv> 58"

abbreviation dotdot :: pystr where "dotdot \<equiv> [46, 46]"
abbreviation dot :: pystr where "dot \<equiv> [46]"

text \<open>\<^verbatim>\<open>str.split(sep)\<close> for a one-character separator, and \<^verbatim>\<open>str.replace\<close> of one character.\<close>

fun split_on :: "nat \<Rightarrow> pystr \<Rightarrow> pystr list" where
  "split_on c [] = [[]]"
| "split_on c (x # xs) =
     (if x = c then [] # split_on c xs
      else (case split_on c xs of [] \<Rightarrow> [[x]] | p # ps \<Rightarrow> (x # p) # ps))"

definition replace_char :: "nat \<Rightarrow> nat \<Rightarrow> pystr \<Rightarrow> pystr" where
  "replace_char a b s = map (\<lambda>x. if x = a then b else x) s"

text \<open>\<^verbatim>\<open>PurePosixPath(s)\<close>: empty and \<^verbatim>\<open>.\<close> components vanish, exactly two leading slashes are kept.\<close>

definition posix_root :: "pystr \<Rightarrow> nat" where
  "posix_root s =
     (if take 1 s \<noteq> [slash] then 0
      else if take 2 s = [slash, slash] \<and> take 3 s \<noteq> [slash, slash, slash] then 2 else 1)"

definition PurePosixPath :: "pystr \<Rightarrow> pure_path" where
  "PurePosixPath s =
     PurePath (posix_root s) (filter (\<lambda>p. p \<noteq> [] \<and> p \<noteq> dot) (split_on slash s))"

text \<open>The \<^verbatim>\<open>.parts\<close> tuple: the root string first, when there is one.\<close>

definition path_parts :: "pure_path \<Rightarrow> pystr list" where
  "path_parts p = (if pp_root p = 0 then [] else [replicate (pp_root p) slash]) @ pp_parts p"

definition is_absolute :: "pure_path \<Rightarrow> bool" where
  "is_absolute p \<longleftrightarrow> pp_root p \<noteq> 0"

text \<open>\<^verbatim>\<open>base / s\<close>: an absolute \<open>s\<close> replaces the base.\<close>

definition path_join :: "pure_path \<Rightarrow> pystr \<Rightarrow> pure_path" where
  "path_join base s =
     (let q = PurePosixPath s
      in if is_absolute q then q else PurePath (pp_root base) (pp_parts base @ pp_parts q))"

definition is_relative_to :: "pure_path \<Rightarrow> pure_path \<Rightarrow> bool" where
  "is_relative_to p base \<longleftrightarrow> pp_root p = pp_root base \<and> prefix (pp_parts base) (pp_parts p)"

text \<open>
  \<^verbatim>\<open>ntpath.splitroot\<close>, which gives \<^verbatim>\<open>PureWindowsPath\<close> its drive and root. \<open>find_from c k s\<close> is
  \<^verbatim>\<open>s.find(c, k)\<close>. \<open>nt_unc_prefix\<close> is the upper-cased \<^verbatim>\<open>\\?\UNC\\<close> prefix.
\<close>

definition find_from :: "nat \<Rightarrow> nat \<Rightarrow> pystr \<Rightarrow> nat option" where
  "find_from c k s = (if c \<in> set (drop k s) then Some (k + length (takeWhile (\<lambda>x. x \<noteq> c) (drop k s))) else None)"

definition ascii_upper :: "nat \<Rightarrow> nat" where
  "ascii_upper x = (if 97 \<le> x \<and> x \<le> 122 then x - 32 else x)"

definition nt_unc_prefix :: pystr where
  "nt_unc_prefix = [92, 92, 63, 92, 85, 78, 67, 92]"

definition nt_splitroot :: "pystr \<Rightarrow> pystr \<times> pystr \<times> pystr" where
  "nt_splitroot p =
     (let n = replace_char slash backslash p in
      if take 1 n = [backslash] then
        (if take 1 (drop 1 n) = [backslash] then
           (let start = (if map ascii_upper (take 8 n) = nt_unc_prefix then 8 else 2) in
            case find_from backslash start n of
              None \<Rightarrow> (p, [], [])
            | Some i \<Rightarrow>
                (case find_from backslash (i + 1) n of
                   None \<Rightarrow> (p, [], [])
                 | Some j \<Rightarrow> (take j p, take 1 (drop j p), drop (j + 1) p)))
         else ([], take 1 p, drop 1 p))
      else if take 1 (drop 1 n) = [colon] then
        (if take 1 (drop 2 n) = [backslash] then (take 2 p, take 1 (drop 2 p), drop 3 p)
         else (take 2 p, [], drop 2 p))
      else ([], [], p))"

definition nt_drive :: "pystr \<Rightarrow> pystr" where
  "nt_drive p = fst (nt_splitroot p)"

definition nt_is_absolute :: "pystr \<Rightarrow> bool" where
  "nt_is_absolute p = (case nt_splitroot p of (d, r, _) \<Rightarrow> d \<noteq> [] \<and> r \<noteq> [])"

section \<open>The checks of \<^verbatim>\<open>safe_path.py\<close>\<close>

definition MAX_RELATIVE_PATH_LENGTH :: nat where
  "MAX_RELATIVE_PATH_LENGTH = 4096"

definition reject_unsafe_spelling :: "pystr \<Rightarrow> unit result" where
  "reject_unsafe_spelling s =
     raise_if (s = []) (Sync UnsafePathError)
    (raise_if (length s > MAX_RELATIVE_PATH_LENGTH) (Sync UnsafePathError)
    (raise_if (0 \<in> set s) (Sync UnsafePathError)
    (raise_if (nt_drive s \<noteq> [] \<or> nt_is_absolute s) (Sync UnsafePathError)
    (raise_if (is_absolute (PurePosixPath s)) (Sync UnsafePathError)
    (raise_if (\<exists>n \<in> set [s, replace_char backslash slash s]. dotdot \<in> set (path_parts (PurePosixPath n)))
       (Sync UnsafePathError)
    (Inr ()))))))"

definition resolve_within ::
  "(pure_path \<Rightarrow> pure_path result) \<Rightarrow> pure_path \<Rightarrow> pystr \<Rightarrow> pure_path result" where
  "resolve_within resolve sync_root relative_path =
     rbind (reject_unsafe_spelling relative_path) (\<lambda>_.
     rbind (resolve sync_root) (\<lambda>root_resolved.
     rbind (resolve (path_join root_resolved relative_path)) (\<lambda>resolved.
     raise_if (\<not> is_relative_to resolved root_resolved) (Sync UnsafePathError)
     (Inr resolved))))"

section \<open>Lemmas on splitting\<close>

lemma split_on_not_Nil [simp]: "split_on c s \<noteq> []"
  by (induction s) (auto split: list.splits)

lemma split_on_no_sep: "p \<in> set (split_on c s) \<Longrightarrow> c \<notin> set p"
  by (induction s arbitrary: p) (auto split: if_splits list.splits)

lemma split_on_subset: "p \<in> set (split_on c s) \<Longrightarrow> set p \<subseteq> set s"
proof (induction s arbitrary: p)
  case (Cons x xs)
  show ?case
  proof (cases "x = c")
    case True
    then have "p = [] \<or> p \<in> set (split_on c xs)" using Cons.prems by simp
    then show ?thesis using Cons.IH by auto
  next
    case False
    obtain q qs where q: "split_on c xs = q # qs" using split_on_not_Nil by (meson neq_Nil_conv)
    then have "p = x # q \<or> p \<in> set qs" using Cons.prems False by simp
    moreover have "set q \<subseteq> set xs" and "\<And>r. r \<in> set qs \<Longrightarrow> set r \<subseteq> set xs"
      using Cons.IH q by auto
    ultimately show ?thesis by fastforce
  qed
qed simp

text \<open>
  Joining the components with the separator gives the string back, so the components of the
  normalised string are those of the string split at either separator.
\<close>

fun split_any :: "nat \<Rightarrow> nat \<Rightarrow> pystr \<Rightarrow> pystr list" where
  "split_any a b [] = [[]]"
| "split_any a b (x # xs) =
     (if x = a \<or> x = b then [] # split_any a b xs
      else (case split_any a b xs of [] \<Rightarrow> [[x]] | p # ps \<Rightarrow> (x # p) # ps))"

lemma split_any_not_Nil [simp]: "split_any a b s \<noteq> []"
  by (induction s) (auto split: list.splits)

lemma split_replace: "a \<noteq> b \<Longrightarrow> split_on b (replace_char a b s) = split_any a b s"
  by (induction s) (auto simp: replace_char_def)

text \<open>A component without backslashes stays a component when backslashes become slashes.\<close>

lemma split_on_hd_any:
  "a \<notin> set (hd (split_on b s)) \<Longrightarrow> hd (split_any a b s) = hd (split_on b s)"
proof (induction s)
  case (Cons x xs)
  obtain q qs where q: "split_on b xs = q # qs" by (meson split_on_not_Nil neq_Nil_conv)
  obtain r rs where r: "split_any a b xs = r # rs" by (meson split_any_not_Nil neq_Nil_conv)
  from Cons q r show ?case by (auto split: if_splits)
qed simp

lemma split_on_tl_any:
  "p \<in> set (tl (split_on b s)) \<Longrightarrow> a \<notin> set p \<Longrightarrow> p \<in> set (tl (split_any a b s))"
proof (induction s)
  case (Cons x xs)
  obtain q qs where q: "split_on b xs = q # qs" by (meson split_on_not_Nil neq_Nil_conv)
  obtain r rs where r: "split_any a b xs = r # rs" by (meson split_any_not_Nil neq_Nil_conv)
  have "p \<in> set (split_any a b xs)" if "p = q"
    using that Cons.prems q r split_on_hd_any [of a b xs] by simp
  then show ?case using Cons q r by (auto split: if_splits)
qed simp

lemma split_on_any:
  assumes "p \<in> set (split_on b s)" and "a \<notin> set p"
  shows "p \<in> set (split_any a b s)"
proof -
  obtain q qs where q: "split_on b s = q # qs" by (meson split_on_not_Nil neq_Nil_conv)
  obtain r rs where r: "split_any a b s = r # rs" by (meson split_any_not_Nil neq_Nil_conv)
  show ?thesis
    using assms q r split_on_hd_any [of a b s] split_on_tl_any [of p b s a] by auto
qed

lemma replicate_slash_not_dotdot [simp]: "dotdot \<noteq> replicate n slash"
  by (cases n) auto

lemma dotdot_in_parts: "dotdot \<in> set (path_parts (PurePosixPath s)) \<longleftrightarrow> dotdot \<in> set (split_on slash s)"
  by (auto simp: path_parts_def PurePosixPath_def)

text \<open>The check on the string as sent is implied by the one on the normalised string.\<close>

lemma dotdot_either_separator:
  "(\<exists>n \<in> set [s, replace_char backslash slash s]. dotdot \<in> set (path_parts (PurePosixPath n)))
     \<longleftrightarrow> dotdot \<in> set (split_any backslash slash s)"
proof -
  have "dotdot \<in> set (split_any backslash slash s)" if "dotdot \<in> set (split_on slash s)"
    using split_on_any [OF that] by simp
  then show ?thesis by (auto simp: dotdot_in_parts split_replace)
qed

lemma find_from_ge: "find_from c k s = Some i \<Longrightarrow> k \<le> i"
  by (auto simp: find_from_def split: if_splits)

lemma nt_drive_iff:
  "nt_drive s \<noteq> [] \<longleftrightarrow>
     (let n = replace_char slash backslash s
      in take 2 n = [backslash, backslash] \<or> (take 1 n \<noteq> [backslash] \<and> take 1 (drop 1 n) = [colon]))"
proof -
  define n where "n = replace_char slash backslash s"
  have two: "take 2 n = [backslash, backslash] \<longleftrightarrow>
      take 1 n = [backslash] \<and> take 1 (drop 1 n) = [backslash]"
    by (cases n; cases "tl n") auto
  have len: "length n = length s" by (simp add: n_def replace_char_def)
  have unc: "fst (nt_splitroot s) \<noteq> []" if "take 1 n = [backslash]" "take 1 (drop 1 n) = [backslash]"
  proof -
    have "s \<noteq> []" using that len by auto
    then show ?thesis
      using that by (auto simp: nt_splitroot_def n_def [symmetric] Let_def
          dest!: find_from_ge split: option.splits)
  qed
  have letter: "fst (nt_splitroot s) \<noteq> [] \<longleftrightarrow> take 1 (drop 1 n) = [colon]" if "take 1 n \<noteq> [backslash]"
  proof -
    have "take 1 (drop 1 n) = [colon] \<Longrightarrow> s \<noteq> []" using len by auto
    then show ?thesis
      using that by (auto simp: nt_splitroot_def n_def [symmetric] Let_def)
  qed
  have one: "fst (nt_splitroot s) = []" if "take 1 n = [backslash]" "take 1 (drop 1 n) \<noteq> [backslash]"
    using that by (simp add: nt_splitroot_def n_def [symmetric] Let_def)
  show ?thesis
    unfolding nt_drive_def n_def [symmetric] Let_def two
    using unc letter one by blast
qed

lemma is_absolute_PurePosixPath: "is_absolute (PurePosixPath s) \<longleftrightarrow> take 1 s = [slash]"
  by (simp add: is_absolute_def PurePosixPath_def posix_root_def)

text \<open>What the spelling check accepts, in one line per rule.\<close>

lemma reject_unsafe_spelling_iff:
  "reject_unsafe_spelling s = Inr () \<longleftrightarrow>
     s \<noteq> [] \<and> length s \<le> 4096 \<and> 0 \<notin> set s \<and> nt_drive s = [] \<and> take 1 s \<noteq> [slash] \<and>
     dotdot \<notin> set (split_any backslash slash s)"
proof -
  have "nt_drive s = [] \<Longrightarrow> \<not> nt_is_absolute s"
    by (cases "nt_splitroot s") (simp add: nt_drive_def nt_is_absolute_def)
  then show ?thesis
    unfolding reject_unsafe_spelling_def dotdot_either_separator is_absolute_PurePosixPath
      MAX_RELATIVE_PATH_LENGTH_def raise_if_eq_Inr
    by auto
qed

lemma resolve_within_eq_Inr:
  "resolve_within resolve base s = Inr p \<longleftrightarrow>
     reject_unsafe_spelling s = Inr () \<and>
     (\<exists>r. resolve base = Inr r \<and> resolve (path_join r s) = Inr p \<and> is_relative_to p r)"
  by (auto simp: resolve_within_def result_simps)

text \<open>A rejected path is rejected with \<open>UnsafePathError\<close>, or with an error of the file system.\<close>

lemma resolve_within_eq_Inl:
  "resolve_within resolve base s = Inl e \<Longrightarrow>
     e = Sync UnsafePathError \<or> resolve base = Inl e \<or> (\<exists>r. resolve (path_join r s) = Inl e)"
  by (auto simp: resolve_within_def reject_unsafe_spelling_def result_simps split: if_splits)

lemma path_join_safe:
  assumes "reject_unsafe_spelling s = Inr ()"
  shows "path_join r s = PurePath (pp_root r) (pp_parts r @ pp_parts (PurePosixPath s))"
    and "dotdot \<notin> set (pp_parts (PurePosixPath s))"
proof -
  from assms have "\<not> is_absolute (PurePosixPath s)"
    by (simp add: reject_unsafe_spelling_iff is_absolute_PurePosixPath)
  then show "path_join r s = PurePath (pp_root r) (pp_parts r @ pp_parts (PurePosixPath s))"
    by (simp add: path_join_def)
  from assms have "dotdot \<notin> set (split_any backslash slash s)"
    by (simp add: reject_unsafe_spelling_iff)
  then have "dotdot \<notin> set (split_on slash s)"
    using split_on_any [of dotdot slash s backslash] by auto
  then show "dotdot \<notin> set (pp_parts (PurePosixPath s))"
    by (simp add: PurePosixPath_def)
qed

section \<open>Properties\<close>

text \<open>C18: A path that \<open>resolve_within\<close> returns lies inside the resolved sync root whatever the file
  system's \<^verbatim>\<open>resolve\<close> does (symbolic links included), and the spelling it came from is relative,
  free of NUL, of a Windows drive and of \<^verbatim>\<open>..\<close> components under either separator.\<close>

theorem resolve_within_confined:
  assumes "resolve_within resolve base s = Inr p"
  shows "(\<exists>r. resolve base = Inr r \<and> is_relative_to p r) \<and>
     s \<noteq> [] \<and> length s \<le> MAX_RELATIVE_PATH_LENGTH \<and> 0 \<notin> set s \<and>
     nt_drive s = [] \<and> take 1 s \<noteq> [slash] \<and> dotdot \<notin> set (split_any backslash slash s)"
  using assms
  by (auto simp: resolve_within_eq_Inr reject_unsafe_spelling_iff MAX_RELATIVE_PATH_LENGTH_def)

theorem resolve_within_confined_witness:
  "resolve_within Inr (PurePath 1 [codes ''sync'']) (codes ''a/b'') =
     Inr (PurePath 1 [codes ''sync'', codes ''a'', codes ''b'']) \<and>
   nt_drive (codes ''a/b'') = []"
proof -
  have h: "resolve_within Inr (PurePath 1 [codes ''sync'']) (codes ''a/b'') =
     Inr (PurePath 1 [codes ''sync'', codes ''a'', codes ''b''])"
    by code_simp
  show ?thesis using h resolve_within_confined [OF h] by blast
qed

text \<open>On a tree without symbolic links (\<^verbatim>\<open>resolve\<close> leaves a path without \<^verbatim>\<open>..\<close> as it is) the
  outcome is decided by the spelling alone: every safe spelling is accepted and denotes its
  components below the root, every other one raises \<open>UnsafePathError\<close>.\<close>

theorem resolve_within_lexical:
  assumes lexical: "\<And>q. dotdot \<notin> set (pp_parts q) \<Longrightarrow> resolve q = Inr q"
    and base: "dotdot \<notin> set (pp_parts base)"
  shows "resolve_within resolve base s =
     (if s \<noteq> [] \<and> length s \<le> 4096 \<and> 0 \<notin> set s \<and> nt_drive s = [] \<and> take 1 s \<noteq> [slash] \<and>
         dotdot \<notin> set (split_any backslash slash s)
      then Inr (PurePath (pp_root base) (pp_parts base @ pp_parts (PurePosixPath s)))
      else Inl (Sync UnsafePathError))"
proof (cases "reject_unsafe_spelling s = Inr ()")
  case True
  note join = path_join_safe(1) [OF True, of base] path_join_safe(2) [OF True]
  have "resolve base = Inr base" using base by (rule lexical)
  moreover have "resolve (path_join base s) = Inr (path_join base s)"
    using base join by (intro lexical) simp
  moreover have "is_relative_to (path_join base s) base"
    by (simp add: join is_relative_to_def)
  ultimately have "resolve_within resolve base s = Inr (path_join base s)"
    using True by (auto simp: resolve_within_eq_Inr)
  then show ?thesis using True join by (simp add: reject_unsafe_spelling_iff)
next
  case False
  then have "reject_unsafe_spelling s = Inl (Sync UnsafePathError)"
    by (auto simp: reject_unsafe_spelling_def raise_if_def split: if_splits)
  moreover have "\<not> (s \<noteq> [] \<and> length s \<le> 4096 \<and> 0 \<notin> set s \<and> nt_drive s = [] \<and> take 1 s \<noteq> [slash] \<and>
         dotdot \<notin> set (split_any backslash slash s))"
    using False by (simp add: reject_unsafe_spelling_iff)
  ultimately show ?thesis by (simp only: resolve_within_def rbind_Inl if_False)
qed

theorem resolve_within_lexical_witness:
  "resolve_within Inr (PurePath 1 [codes ''sync'']) (codes ''a/../../etc'') = Inl (Sync UnsafePathError)"
proof -
  have "dotdot \<notin> set (pp_parts (PurePath 1 [codes ''sync'']))"
    by (simp add: codes_def)
  moreover have "dotdot \<in> set (split_any backslash slash (codes ''a/../../etc''))"
    by (simp add: codes_def)
  ultimately show ?thesis
    using resolve_within_lexical [of Inr "PurePath 1 [codes ''sync'']" "codes ''a/../../etc''"] by simp
qed

end
