(* ===== verification/Chunks.thy ===== *)
theory Chunks
  imports Safe_Path
begin

text \<open>
  \<^verbatim>\<open>domain/chunk.py\<close>: the value objects of the chunk engine. Each constructor \<open>mk_...\<close> is the
  dataclass constructor with its \<^verbatim>\<open>__post_init__\<close> checks; the \<open>wf_...\<close> predicates say what a
  constructed object satisfies. The theory also models what \<^verbatim>\<open>int(s, 16)\<close> accepts, because the
  digest check is written with it.
\<close>

section \<open>What \<^verbatim>\<open>int(s, 16)\<close> accepts\<close>

text \<open>
  CPython folds a string with a non-ASCII character first: spaces become an ASCII space,
  decimal digits of any script become ASCII digits, other non-ASCII characters become
  \<^verbatim>\<open>?\<close>. \<open>decimal_zeros\<close> are the zeros of Unicode's decimal digit blocks (each block is ten
  consecutive code points).
\<close>

definition decimal_zeros :: "nat list" where
  "decimal_zeros =
     [1632, 1776, 1984, 2406, 2534, 2662, 2790, 2918, 3046, 3174, 3302, 3430, 3558, 3664, 3792,
     3872, 4160, 4240, 6112, 6160, 6470, 6608, 6784, 6800, 6992, 7088, 7232, 7248, 42528,
     43216, 43264, 43472, 43504, 43600, 44016, 65296, 66720, 68912, 69734, 69872, 69942, 70096,
     70384, 70736, 70864, 71248, 71360, 71472, 71904, 72016, 72784, 73040, 73120, 73552, 92768,
     92864, 93008, 120782, 120792, 120802, 120812, 120822, 123200, 123632, 124144, 125264,
     130032]"

definition unicode_space :: "nat \<Rightarrow> bool" where
  "unicode_space x \<longleftrightarrow> x \<in> set [9, 10, 11, 12, 13, 28, 29, 30, 31, 32, 133, 160, 5760, 8192, 8193,
     8194, 8195, 8196, 8197, 8198, 8199, 8200, 8201, 8202, 8232, 8233, 8239, 8287, 12288]"

definition fold_ascii :: "nat \<Rightarrow> nat" where
  "fold_ascii x =
     (if x < 128 then x
      else if unicode_space x then 32
      else (case find (\<lambda>z. z \<le> x \<and> x < z + 10) decimal_zeros of
              None \<Rightarrow> 63 | Some z \<Rightarrow> 48 + (x - z)))"

definition to_ascii :: "pystr \<Rightarrow> pystr" where
  "to_ascii s = (if list_all (\<lambda>x. x < 128) s then s else map fold_ascii s)"

definition ascii_space :: "nat \<Rightarrow> bool" where
  "ascii_space x \<longleftrightarrow> x = 32 \<or> (9 \<le> x \<and> x \<le> 13)"

definition hex_digit :: "nat \<Rightarrow> bool" where
  "hex_digit x \<longleftrightarrow> (48 \<le> x \<and> x \<le> 57) \<or> (65 \<le> x \<and> x \<le> 70) \<or> (97 \<le> x \<and> x \<le> 102)"

text \<open>
  Digits with single underscores between them: \<open>hex_run prev s\<close> checks the rest after a
  character; \<open>prev\<close> says it was an underscore.
\<close>

fun hex_run :: "bool \<Rightarrow> pystr \<Rightarrow> bool" where
  "hex_run prev [] \<longleftrightarrow> \<not> prev"
| "hex_run prev (x # xs) \<longleftrightarrow>
     (if hex_digit x then hex_run False xs
      else if x = 95 then \<not> prev \<and> hex_run True xs
      else \<not> prev \<and> list_all ascii_space (x # xs))"

definition hex_number :: "pystr \<Rightarrow> bool" where
  "hex_number s = (case s of [] \<Rightarrow> False | x # xs \<Rightarrow> hex_digit x \<and> hex_run False xs)"

definition drop_sign :: "pystr \<Rightarrow> pystr" where
  "drop_sign s = (case s of x # xs \<Rightarrow> if x = 43 \<or> x = 45 then xs else s | [] \<Rightarrow> [])"

definition drop_0x :: "pystr \<Rightarrow> pystr" where
  "drop_0x s =
     (case s of
        z # x # xs \<Rightarrow>
          if z = 48 \<and> (x = 120 \<or> x = 88)
          then (case xs of u # us \<Rightarrow> if u = 95 then us else xs | [] \<Rightarrow> [])
          else s
      | _ \<Rightarrow> s)"

definition int16_ok :: "pystr \<Rightarrow> bool" where
  "int16_ok s = hex_number (drop_0x (drop_sign (dropWhile ascii_space (to_ascii s))))"

section \<open>ChunkHash\<close>

datatype chunk_algorithm = SHA256

fun algorithm_value :: "chunk_algorithm \<Rightarrow> pystr" where
  "algorithm_value SHA256 = codes ''sha256''"

text \<open>\<^verbatim>\<open>ChunkAlgorithm(value)\<close>: an unknown value is a \<open>ValueError\<close>.\<close>

definition algorithm_of_value :: "pystr \<Rightarrow> chunk_algorithm result" where
  "algorithm_of_value s = (if s = codes ''sha256'' then Inr SHA256 else Inl (Py ValueError))"

fun DIGEST_HEX_LENGTH :: "chunk_algorithm \<Rightarrow> nat" where
  "DIGEST_HEX_LENGTH SHA256 = 64"

record chunk_hash =
  algorithm :: chunk_algorithm
  digest :: pystr

definition mk_ChunkHash :: "chunk_algorithm \<Rightarrow> pystr \<Rightarrow> chunk_hash result" where
  "mk_ChunkHash alg d =
     raise_if (d = []) (Py ValueError)
    (raise_if (\<not> int16_ok d) (Py ValueError)
    (raise_if (length d \<noteq> DIGEST_HEX_LENGTH alg) (Py ValueError)
    (Inr \<lparr>algorithm = alg, digest = d\<rparr>)))"

definition wf_hash :: "chunk_hash \<Rightarrow> bool" where
  "wf_hash h \<longleftrightarrow> int16_ok (digest h) \<and> length (digest h) = DIGEST_HEX_LENGTH (algorithm h)"

text \<open>\<^verbatim>\<open>ChunkHash.__str__\<close>.\<close>

definition hash_str :: "chunk_hash \<Rightarrow> pystr" where
  "hash_str h = algorithm_value (algorithm h) @ colon # digest h"

section \<open>ChunkMetadata\<close>

text \<open>Datetimes are microseconds since the epoch.\<close>

record chunk_metadata =
  chunk_id :: pystr
  cm_index :: int
  cm_size :: int
  cm_offset :: int
  cm_hash :: "chunk_hash option"
  created_at :: int

definition mk_ChunkMetadata ::
  "pystr \<Rightarrow> int \<Rightarrow> int \<Rightarrow> int \<Rightarrow> chunk_hash option \<Rightarrow> int \<Rightarrow> chunk_metadata result" where
  "mk_ChunkMetadata cid i n off h t =
     raise_if (cid = []) (Py ValueError)
    (raise_if (i < 0) (Py ValueError)
    (raise_if (n < 0) (Py ValueError)
    (raise_if (off < 0) (Py ValueError)
    (Inr \<lparr>chunk_id = cid, cm_index = i, cm_size = n, cm_offset = off, cm_hash = h, created_at = t\<rparr>))))"

definition wf_metadata :: "chunk_metadata \<Rightarrow> bool" where
  "wf_metadata m \<longleftrightarrow> chunk_id m \<noteq> [] \<and> 0 \<le> cm_index m \<and> 0 \<le> cm_size m \<and> 0 \<le> cm_offset m"

definition metadata_with_hash :: "chunk_metadata \<Rightarrow> chunk_hash \<Rightarrow> chunk_metadata" where
  "metadata_with_hash m h = m\<lparr>cm_hash := Some h\<rparr>"

section \<open>Chunk\<close>

record chunk =
  ck_metadata :: chunk_metadata
  ck_data :: bytes

definition mk_Chunk :: "chunk_metadata \<Rightarrow> bytes \<Rightarrow> chunk result" where
  "mk_Chunk m bs =
     raise_if (int (length bs) \<noteq> cm_size m) (Py ValueError) (Inr \<lparr>ck_metadata = m, ck_data = bs\<rparr>)"

definition wf_chunk :: "chunk \<Rightarrow> bool" where
  "wf_chunk c \<longleftrightarrow> wf_metadata (ck_metadata c) \<and> int (length (ck_data c)) = cm_size (ck_metadata c)"

definition chunk_with_hash :: "chunk \<Rightarrow> chunk_hash \<Rightarrow> chunk" where
  "chunk_with_hash c h = c\<lparr>ck_metadata := metadata_with_hash (ck_metadata c) h\<rparr>"

section \<open>ChunkCollection\<close>

record chunk_collection =
  source_path :: pure_path
  cc_chunk_size :: int
  total_size :: int
  cc_chunks :: "chunk_metadata list"

text \<open>The loop of \<^verbatim>\<open>__post_init__\<close> over \<^verbatim>\<open>enumerate(self.chunks)\<close>.\<close>

fun check_indices :: "int \<Rightarrow> chunk_metadata list \<Rightarrow> unit result" where
  "check_indices k [] = Inr ()"
| "check_indices k (m # ms) = raise_if (cm_index m \<noteq> k) (Py ValueError) (check_indices (k + 1) ms)"

definition mk_ChunkCollection ::
  "pure_path \<Rightarrow> int \<Rightarrow> int \<Rightarrow> chunk_metadata list \<Rightarrow> chunk_collection result" where
  "mk_ChunkCollection p cs n ms =
     raise_if (cs \<le> 0) (Py ValueError)
    (raise_if (n < 0) (Py ValueError)
    (rbind (check_indices 0 ms) (\<lambda>_.
     raise_if (sum_list (map cm_size ms) \<noteq> n) (Py ValueError)
    (Inr \<lparr>source_path = p, cc_chunk_size = cs, total_size = n, cc_chunks = ms\<rparr>))))"

definition chunk_count :: "chunk_collection \<Rightarrow> int" where
  "chunk_count c = int (length (cc_chunks c))"

definition wf_collection :: "chunk_collection \<Rightarrow> bool" where
  "wf_collection c \<longleftrightarrow>
     0 < cc_chunk_size c \<and> 0 \<le> total_size c \<and>
     map cm_index (cc_chunks c) = map int [0 ..< length (cc_chunks c)] \<and>
     sum_list (map cm_size (cc_chunks c)) = total_size c"

section \<open>Lemmas\<close>

lemma mk_ChunkHash_eq_Inr [result_simps]:
  "mk_ChunkHash alg d = Inr h \<longleftrightarrow> h = \<lparr>algorithm = alg, digest = d\<rparr> \<and> wf_hash h"
proof -
  have "\<not> int16_ok []"
    by (simp add: int16_ok_def to_ascii_def drop_sign_def drop_0x_def hex_number_def)
  then show ?thesis by (auto simp: mk_ChunkHash_def wf_hash_def result_simps)
qed

lemma mk_ChunkHash_eq_Inl: "mk_ChunkHash alg d = Inl e \<Longrightarrow> e = Py ValueError"
  by (auto simp: mk_ChunkHash_def result_simps)

lemma mk_ChunkMetadata_eq_Inr [result_simps]:
  "mk_ChunkMetadata cid i n off h t = Inr m \<longleftrightarrow>
     m = \<lparr>chunk_id = cid, cm_index = i, cm_size = n, cm_offset = off, cm_hash = h, created_at = t\<rparr> \<and>
     wf_metadata m"
  by (auto simp: mk_ChunkMetadata_def wf_metadata_def result_simps)

lemma mk_Chunk_eq_Inr [result_simps]:
  "mk_Chunk m bs = Inr c \<longleftrightarrow> c = \<lparr>ck_metadata = m, ck_data = bs\<rparr> \<and> int (length bs) = cm_size m"
  by (auto simp: mk_Chunk_def result_simps)

lemma check_indices_eq_Inr [result_simps]:
  "check_indices k ms = Inr () \<longleftrightarrow> map cm_index ms = map (\<lambda>i. k + int i) [0 ..< length ms]"
proof (induction ms arbitrary: k)
  case (Cons m ms)
  have "map (\<lambda>i. k + int i) [0 ..< length (m # ms)] = k # map (\<lambda>i. k + 1 + int i) [0 ..< length ms]"
    by (simp add: upt_conv_Cons map_Suc_upt [symmetric] del: upt_Suc)
  with Cons show ?case by (simp add: result_simps)
qed simp

lemma mk_ChunkCollection_eq_Inr [result_simps]:
  "mk_ChunkCollection p cs n ms = Inr c \<longleftrightarrow>
     c = \<lparr>source_path = p, cc_chunk_size = cs, total_size = n, cc_chunks = ms\<rparr> \<and> wf_collection c"
  by (auto simp: mk_ChunkCollection_def wf_collection_def result_simps)

lemma wf_collection_index:
  "wf_collection c \<Longrightarrow> i < length (cc_chunks c) \<Longrightarrow> cm_index (cc_chunks c ! i) = int i"
  unfolding wf_collection_def
  by (metis add_0 length_upt minus_nat.diff_0 nth_map nth_upt)

lemma wf_metadata_with_hash [simp]: "wf_metadata (metadata_with_hash m h) \<longleftrightarrow> wf_metadata m"
  by (simp add: wf_metadata_def metadata_with_hash_def)

lemma metadata_with_hash_sel [simp]:
  "chunk_id (metadata_with_hash m h) = chunk_id m" "cm_index (metadata_with_hash m h) = cm_index m"
  "cm_size (metadata_with_hash m h) = cm_size m" "cm_offset (metadata_with_hash m h) = cm_offset m"
  "cm_hash (metadata_with_hash m h) = Some h"
  by (simp_all add: metadata_with_hash_def)

lemma wf_chunk_with_hash [simp]: "wf_chunk (chunk_with_hash c h) \<longleftrightarrow> wf_chunk c"
  by (simp add: wf_chunk_def chunk_with_hash_def)

lemma algorithm_round_trip [simp]: "algorithm_of_value (algorithm_value a) = Inr a"
  by (cases a) (simp add: algorithm_of_value_def)

end
