(* ===== verification/Version_Vectors.thy ===== *)
theory Version_Vectors
  imports Prelude
begin

text \<open>
  \<^verbatim>\<open>domain/conflict.py\<close>: version vectors. The abstraction of a vector is the function that gives
  each device its counter (0 when it has none); comparison and merge are shown to be the pointwise
  order and the pointwise maximum of these functions.
\<close>

record version_vector =
  counters :: "(pystr, int) dict"

abbreviation empty_vector :: version_vector where
  "empty_vector \<equiv> \<lparr>counters = []\<rparr>"

text \<open>\<^verbatim>\<open>counters.get(device_id, 0)\<close>.\<close>

definition counter_of :: "(pystr, int) dict \<Rightarrow> pystr \<Rightarrow> int" where
  "counter_of d k = (case dict_get d k of None \<Rightarrow> 0 | Some c \<Rightarrow> c)"

definition vv_increment :: "version_vector \<Rightarrow> pystr \<Rightarrow> version_vector" where
  "vv_increment v dev = \<lparr>counters = dict_set dev (counter_of (counters v) dev + 1) (counters v)\<rparr>"

fun merge_counters :: "(pystr, int) dict \<Rightarrow> (pystr, int) dict \<Rightarrow> (pystr, int) dict" where
  "merge_counters new [] = new"
| "merge_counters new ((dev, c) # rest) =
     merge_counters (dict_set dev (max (counter_of new dev) c) new) rest"

definition vv_merge :: "version_vector \<Rightarrow> version_vector \<Rightarrow> version_vector" where
  "vv_merge v w = \<lparr>counters = merge_counters (counters v) (counters w)\<rparr>"

fun counters_le :: "(pystr, int) dict \<Rightarrow> (pystr, int) dict \<Rightarrow> bool" where
  "counters_le [] other = True"
| "counters_le ((dev, c) # rest) other =
     (if c > counter_of other dev then False else counters_le rest other)"

definition vv_le :: "version_vector \<Rightarrow> version_vector \<Rightarrow> bool" where
  "vv_le v w = counters_le (counters v) (counters w)"

text \<open>The dataclass equality compares the dictionaries, in which order does not count.\<close>

definition vv_eq :: "version_vector \<Rightarrow> version_vector \<Rightarrow> bool" where
  "vv_eq v w \<longleftrightarrow>
     list_all (\<lambda>k. dict_get (counters v) k = dict_get (counters w) k)
       (dict_keys (counters v) @ dict_keys (counters w))"

definition vv_lt :: "version_vector \<Rightarrow> version_vector \<Rightarrow> bool" where
  "vv_lt v w \<longleftrightarrow> vv_le v w \<and> \<not> vv_eq v w"

definition is_concurrent :: "version_vector \<Rightarrow> version_vector \<Rightarrow> bool" where
  "is_concurrent v w \<longleftrightarrow> \<not> (vv_le v w \<or> vv_le w v)"

text \<open>
  What the operations maintain from the empty vector on: a key occurs once and every recorded
  counter is positive.
\<close>

definition wf_vector :: "version_vector \<Rightarrow> bool" where
  "wf_vector v \<longleftrightarrow> wf_dict (counters v) \<and> (\<forall>(k, c) \<in> set (counters v). 0 < c)"

definition vv_abs :: "version_vector \<Rightarrow> pystr \<Rightarrow> int" where
  "vv_abs v = counter_of (counters v)"

section \<open>Refinement to pointwise counters\<close>

lemma counter_of_set [simp]: "counter_of (dict_set k c d) k' = (if k' = k then c else counter_of d k')"
  by (simp add: counter_of_def)

lemma wf_vector_empty [simp]: "wf_vector empty_vector"
  by (simp add: wf_vector_def)

lemma counter_of_pos: "(\<forall>(k, c) \<in> set d. 0 < c) \<Longrightarrow> 0 \<le> counter_of d k"
  by (fastforce simp: counter_of_def split: option.splits dest: map_of_SomeD)

lemma vv_abs_nonneg: "wf_vector v \<Longrightarrow> 0 \<le> vv_abs v k"
  by (simp add: wf_vector_def vv_abs_def counter_of_pos)

lemma set_dict_set: "set (dict_set k c d) \<subseteq> insert (k, c) (set d)"
  by (induction d) auto

lemma wf_vector_set:
  "wf_dict d \<Longrightarrow> \<forall>(k, c) \<in> set d. 0 < c \<Longrightarrow> 0 < c \<Longrightarrow>
     wf_dict (dict_set k c d) \<and> (\<forall>(k, c) \<in> set (dict_set k c d). 0 < c)"
  using set_dict_set [of k c d] by (auto intro: wf_dict_set)

lemma wf_vector_increment: "wf_vector v \<Longrightarrow> wf_vector (vv_increment v dev)"
  using wf_vector_set [of "counters v" "counter_of (counters v) dev + 1" dev]
    counter_of_pos [of "counters v" dev]
  by (simp add: wf_vector_def vv_increment_def)

lemma wf_merge_counters:
  "wf_dict d \<Longrightarrow> \<forall>(k, c) \<in> set d. 0 < c \<Longrightarrow> \<forall>(k, c) \<in> set e. 0 < c \<Longrightarrow>
     wf_dict (merge_counters d e) \<and> (\<forall>(k, c) \<in> set (merge_counters d e). 0 < c)"
proof (induction d e rule: merge_counters.induct)
  case (2 new dev c rest)
  have "wf_dict (dict_set dev (max (counter_of new dev) c) new) \<and>
      (\<forall>(k, c) \<in> set (dict_set dev (max (counter_of new dev) c) new). 0 < c)"
    using 2 by (intro wf_vector_set) auto
  with 2 show ?case by simp
qed simp

lemma wf_vector_merge: "wf_vector v \<Longrightarrow> wf_vector w \<Longrightarrow> wf_vector (vv_merge v w)"
  using wf_merge_counters [of "counters v" "counters w"] by (simp add: wf_vector_def vv_merge_def)

lemma vv_abs_increment: "vv_abs (vv_increment v dev) = (vv_abs v)(dev := vv_abs v dev + 1)"
  by (rule ext) (simp add: vv_abs_def vv_increment_def)

lemma counter_of_merge_notin:
  "k \<notin> set (dict_keys e) \<Longrightarrow> counter_of (merge_counters d e) k = counter_of d k"
  by (induction d e rule: merge_counters.induct) auto

lemma counter_of_merge:
  "wf_dict e \<Longrightarrow> (k, c) \<in> set e \<Longrightarrow> counter_of (merge_counters d e) k = max (counter_of d k) c"
proof (induction d e rule: merge_counters.induct)
  case (2 new dev c' rest)
  then show ?case by (cases "k = dev") (force simp: counter_of_merge_notin)+
qed simp

lemma counter_of_in: "wf_dict d \<Longrightarrow> (k, c) \<in> set d \<Longrightarrow> counter_of d k = c"
  by (simp add: counter_of_def)

lemma counter_of_notin: "k \<notin> set (dict_keys d) \<Longrightarrow> counter_of d k = 0"
  by (simp add: counter_of_def dict_get_None [THEN iffD2])

lemma vv_abs_merge:
  assumes "wf_vector v" "wf_vector w"
  shows "vv_abs (vv_merge v w) = (\<lambda>k. max (vv_abs v k) (vv_abs w k))"
proof
  fix k
  have nn: "0 \<le> counter_of (counters v) k"
    using assms by (simp add: wf_vector_def counter_of_pos)
  show "vv_abs (vv_merge v w) k = max (vv_abs v k) (vv_abs w k)"
  proof (cases "k \<in> set (dict_keys (counters w))")
    case True
    then obtain c where "(k, c) \<in> set (counters w)" by auto
    then show ?thesis
      using assms by (simp add: vv_abs_def vv_merge_def wf_vector_def counter_of_merge counter_of_in)
  next
    case False
    then show ?thesis
      using nn by (simp add: vv_abs_def vv_merge_def counter_of_merge_notin counter_of_notin)
  qed
qed

lemma counters_le_iff: "counters_le d e \<longleftrightarrow> (\<forall>(k, c) \<in> set d. c \<le> counter_of e k)"
  by (induction d e rule: counters_le.induct) auto

lemma vv_le_iff:
  assumes "wf_vector v" "wf_vector w"
  shows "vv_le v w \<longleftrightarrow> (\<forall>k. vv_abs v k \<le> vv_abs w k)"
proof
  assume le: "vv_le v w"
  show "\<forall>k. vv_abs v k \<le> vv_abs w k"
  proof
    fix k
    show "vv_abs v k \<le> vv_abs w k"
    proof (cases "k \<in> set (dict_keys (counters v))")
      case True
      then obtain c where c: "(k, c) \<in> set (counters v)" by auto
      with le have "c \<le> vv_abs w k" by (auto simp: vv_le_def counters_le_iff vv_abs_def)
      with c assms(1) show ?thesis by (simp add: vv_abs_def wf_vector_def counter_of_in)
    next
      case False
      then show ?thesis using vv_abs_nonneg [OF assms(2)] by (simp add: vv_abs_def counter_of_notin)
    qed
  qed
next
  assume "\<forall>k. vv_abs v k \<le> vv_abs w k"
  then show "vv_le v w"
    using assms(1) counter_of_in [of "counters v"]
    by (fastforce simp: vv_le_def counters_le_iff vv_abs_def wf_vector_def)
qed

lemma dict_get_abs: "wf_vector v \<Longrightarrow> dict_get (counters v) k = (if vv_abs v k = 0 then None else Some (vv_abs v k))"
  by (fastforce simp: wf_vector_def vv_abs_def counter_of_def split: option.splits dest: map_of_SomeD)

lemma vv_eq_iff:
  assumes "wf_vector v" "wf_vector w"
  shows "vv_eq v w \<longleftrightarrow> vv_abs v = vv_abs w"
proof
  assume eq: "vv_eq v w"
  show "vv_abs v = vv_abs w"
  proof
    fix k
    have "dict_get (counters v) k = dict_get (counters w) k"
    proof (cases "k \<in> set (dict_keys (counters v) @ dict_keys (counters w))")
      case True
      then show ?thesis using eq by (auto simp: vv_eq_def list_all_iff)
    next
      case False
      then show ?thesis by (metis UnI1 UnI2 dict_get_None set_append)
    qed
    then show "vv_abs v k = vv_abs w k" by (simp add: vv_abs_def counter_of_def)
  qed
next
  assume "vv_abs v = vv_abs w"
  then show "vv_eq v w" using assms by (simp add: vv_eq_def list_all_iff dict_get_abs)
qed

lemmas vv_refine = vv_le_iff vv_eq_iff vv_abs_merge vv_abs_increment wf_vector_merge wf_vector_increment

section \<open>Properties\<close>

text \<open>\<open>merge\<close> is the least upper bound: it is above both vectors, below every vector above both,
  keeps well-formedness, and so is commutative, associative and idempotent up to equality.\<close>

theorem merge_is_join:
  assumes "wf_vector v" "wf_vector w" "wf_vector u"
  shows "wf_vector (vv_merge v w) \<and> vv_le v (vv_merge v w) \<and> vv_le w (vv_merge v w) \<and>
     (vv_le v u \<and> vv_le w u \<longleftrightarrow> vv_le (vv_merge v w) u) \<and>
     vv_eq (vv_merge v w) (vv_merge w v) \<and> vv_eq (vv_merge v v) v \<and>
     vv_eq (vv_merge (vv_merge v w) u) (vv_merge v (vv_merge w u))"
  using assms by (auto simp: vv_refine max.commute max.assoc)

theorem merge_is_join_witness:
  "vv_le \<lparr>counters = [([97], 1)]\<rparr> (vv_merge \<lparr>counters = [([97], 1)]\<rparr> \<lparr>counters = [([98], 2)]\<rparr>) \<and>
   vv_merge \<lparr>counters = [([97], 1)]\<rparr> \<lparr>counters = [([98], 2)]\<rparr> = \<lparr>counters = [([97], 1), ([98], 2)]\<rparr>"
proof -
  have "wf_vector \<lparr>counters = [([97], 1)]\<rparr>" "wf_vector \<lparr>counters = [([98], 2)]\<rparr>"
    by (simp_all add: wf_vector_def)
  from merge_is_join [OF this this(1)] show ?thesis
    by (simp add: vv_merge_def counter_of_def)
qed

text \<open>On vectors the operations build, the comparisons that drive synchronisation are exclusive and
  exhaustive: exactly one of older, newer, equal and concurrent holds.\<close>

theorem causal_order_exhaustive:
  assumes "wf_vector v" "wf_vector w"
  shows "(vv_lt v w \<and> \<not> vv_lt w v \<and> \<not> vv_eq v w \<and> \<not> is_concurrent v w) \<or>
     (\<not> vv_lt v w \<and> vv_lt w v \<and> \<not> vv_eq v w \<and> \<not> is_concurrent v w) \<or>
     (\<not> vv_lt v w \<and> \<not> vv_lt w v \<and> vv_eq v w \<and> \<not> is_concurrent v w) \<or>
     (\<not> vv_lt v w \<and> \<not> vv_lt w v \<and> \<not> vv_eq v w \<and> is_concurrent v w)"
proof -
  have anti: "vv_le v w \<Longrightarrow> vv_le w v \<Longrightarrow> vv_abs v = vv_abs w"
    using assms by (auto simp: vv_refine fun_eq_iff intro: antisym)
  have "vv_eq v w \<longleftrightarrow> vv_abs v = vv_abs w" "vv_eq w v \<longleftrightarrow> vv_abs v = vv_abs w"
    using assms by (auto simp: vv_refine)
  moreover have "vv_abs v = vv_abs w \<Longrightarrow> vv_le v w \<and> vv_le w v"
    using assms by (simp add: vv_refine)
  ultimately show ?thesis using anti unfolding vv_lt_def is_concurrent_def by blast
qed

theorem causal_order_exhaustive_witness:
  "is_concurrent \<lparr>counters = [([97], 1)]\<rparr> \<lparr>counters = [([98], 2)]\<rparr> \<and>
   \<not> vv_lt \<lparr>counters = [([97], 1)]\<rparr> \<lparr>counters = [([98], 2)]\<rparr>"
proof -
  have w: "wf_vector \<lparr>counters = [([97], 1)]\<rparr>" "wf_vector \<lparr>counters = [([98], 2)]\<rparr>"
    by (simp_all add: wf_vector_def)
  have "is_concurrent \<lparr>counters = [([97], 1)]\<rparr> \<lparr>counters = [([98], 2)]\<rparr>"
    by (simp add: is_concurrent_def vv_le_def counter_of_def)
  with causal_order_exhaustive [OF w] show ?thesis by blast
qed

text \<open>A local edit makes a strictly newer version, and edits of the same version on two devices are
  concurrent; merging them is strictly newer than either.\<close>

theorem edits_tracked:
  assumes "wf_vector v" "a \<noteq> b"
  shows "vv_lt v (vv_increment v a) \<and> is_concurrent (vv_increment v a) (vv_increment v b) \<and>
     vv_lt (vv_increment v a) (vv_merge (vv_increment v a) (vv_increment v b)) \<and>
     vv_lt (vv_increment v b) (vv_merge (vv_increment v a) (vv_increment v b))"
  using assms by (auto simp: vv_lt_def is_concurrent_def vv_refine fun_eq_iff max_def)

theorem edits_tracked_witness:
  "is_concurrent (vv_increment empty_vector [97]) (vv_increment empty_vector [98])"
  using edits_tracked [of empty_vector "[97]" "[98]"] by simp

text \<open>The strict comparison is not asymmetric on vectors that carry a zero counter, which the
  receiving code accepts from a peer unchecked: such a vector and the one without the entry are each
  strictly older than the other.\<close>

theorem zero_counter_breaks_order:
  "vv_lt \<lparr>counters = [([97], 1), ([98], 0)]\<rparr> \<lparr>counters = [([97], 1)]\<rparr> \<and>
   vv_lt \<lparr>counters = [([97], 1)]\<rparr> \<lparr>counters = [([97], 1), ([98], 0)]\<rparr>"
  by (simp add: vv_lt_def vv_le_def vv_eq_def counter_of_def)

end
