(* ===== verification/Sync_Direction.thy ===== *)
theory Sync_Direction
  imports Chunks Version_Vectors
begin

text \<open>
  \<^verbatim>\<open>domain/sync_direction.py\<close>: which way one file has to move between this device and a peer.
  The human-readable reason is a constructor per message.
\<close>

datatype sync_direction = PUSH | PULL | CONFLICT | NOOP

datatype reason =
    PeerHasNoManifest | NeitherHasFile
  | RemoteNewer version_vector version_vector | LocalNewer version_vector version_vector
  | VersionsEqualContentMatches version_vector | NoVersionsFallback
  | BothHaveChunksOtherLacks | LocalHasChunks | RemoteHasChunks | ChunkSetsEqual

record sync_decision =
  direction :: sync_direction
  why :: reason

abbreviation decide :: "sync_direction \<Rightarrow> reason \<Rightarrow> sync_decision" where
  "decide d r \<equiv> \<lparr>direction = d, why = r\<rparr>"

definition content_digests :: "chunk_collection option \<Rightarrow> pystr list" where
  "content_digests c =
     (case c of None \<Rightarrow> []
      | Some col \<Rightarrow> List.map_filter (\<lambda>m. map_option digest (cm_hash m)) (cc_chunks col))"

definition diff_content_hashes ::
  "chunk_collection option \<Rightarrow> chunk_collection option \<Rightarrow> sync_decision" where
  "diff_content_hashes lc rc =
     (let local_hashes = content_digests lc;
          remote_hashes = content_digests rc;
          local_only = filter (\<lambda>h. h \<notin> set remote_hashes) local_hashes;
          remote_only = filter (\<lambda>h. h \<notin> set local_hashes) remote_hashes
      in if local_only \<noteq> [] \<and> remote_only \<noteq> [] then decide CONFLICT BothHaveChunksOtherLacks
         else if local_only \<noteq> [] then decide PUSH LocalHasChunks
         else if remote_only \<noteq> [] then decide PULL RemoteHasChunks
         else decide NOOP ChunkSetsEqual)"

definition resolve_with_versions ::
  "version_vector \<Rightarrow> version_vector \<Rightarrow> chunk_collection option \<Rightarrow> chunk_collection option \<Rightarrow> sync_decision" where
  "resolve_with_versions lv rv lc rc =
     (if vv_lt lv rv then decide PULL (RemoteNewer rv lv)
      else if vv_lt rv lv then decide PUSH (LocalNewer lv rv)
      else (let d = diff_content_hashes lc rc
            in if direction d = CONFLICT then d
               else if direction d = NOOP then decide NOOP (VersionsEqualContentMatches lv)
               else d))"

definition resolve_without_versions ::
  "chunk_collection option \<Rightarrow> chunk_collection option \<Rightarrow> sync_decision" where
  "resolve_without_versions lc rc =
     (let d = diff_content_hashes lc rc
      in if direction d = CONFLICT then decide PUSH NoVersionsFallback else d)"

definition resolve_direction ::
  "chunk_collection option \<Rightarrow> version_vector option \<Rightarrow> chunk_collection option \<Rightarrow>
   version_vector option \<Rightarrow> sync_decision" where
  "resolve_direction lc lv rc rv =
     (if rc = None \<and> rv = None then
        (case lc of
           Some c \<Rightarrow> if chunk_count c > 0 then decide PUSH PeerHasNoManifest else decide NOOP NeitherHasFile
         | None \<Rightarrow> decide NOOP NeitherHasFile)
      else (case (lv, rv) of
              (Some l, Some r) \<Rightarrow> resolve_with_versions l r lc rc
            | _ \<Rightarrow> resolve_without_versions lc rc))"

section \<open>Lemmas\<close>

text \<open>The direction of the same file as the other side sees it.\<close>

fun mirrored :: "sync_direction \<Rightarrow> sync_direction" where
  "mirrored PUSH = PULL"
| "mirrored PULL = PUSH"
| "mirrored CONFLICT = CONFLICT"
| "mirrored NOOP = NOOP"

lemma mirrored_mirrored [simp]: "mirrored (mirrored d) = d"
  by (cases d) simp_all

lemma diff_direction:
  "direction (diff_content_hashes lc rc) =
     (let L = set (content_digests lc); R = set (content_digests rc)
      in if L \<subseteq> R then (if R \<subseteq> L then NOOP else PULL) else (if R \<subseteq> L then PUSH else CONFLICT))"
  by (auto simp: diff_content_hashes_def Let_def filter_empty_conv)

lemma diff_mirrored:
  "direction (diff_content_hashes rc lc) = mirrored (direction (diff_content_hashes lc rc))"
  by (simp add: diff_direction Let_def)

lemma with_versions_direction:
  "direction (resolve_with_versions lv rv lc rc) =
     (if vv_lt lv rv then PULL else if vv_lt rv lv then PUSH
      else direction (diff_content_hashes lc rc))"
  by (simp add: resolve_with_versions_def Let_def)

section \<open>Properties\<close>

text \<open>With version vectors on both sides the two devices decide consistently: when one pushes the
  other pulls, and they agree on a conflict or on having nothing to do.\<close>

theorem directions_mirror:
  assumes "wf_vector lv" "wf_vector rv"
  shows "direction (resolve_direction (Some rc) (Some rv) (Some lc) (Some lv)) =
     mirrored (direction (resolve_direction (Some lc) (Some lv) (Some rc) (Some rv)))"
proof -
  have "\<not> (vv_lt lv rv \<and> vv_lt rv lv)"
    using assms by (auto simp: vv_lt_def vv_refine fun_eq_iff intro: antisym)
  then show ?thesis
    by (auto simp: resolve_direction_def with_versions_direction diff_mirrored [of "Some lc" "Some rc"])
qed

theorem directions_mirror_witness:
  "direction (resolve_direction
      (Some \<lparr>source_path = PurePath 1 [], cc_chunk_size = 4, total_size = 0, cc_chunks = []\<rparr>)
      (Some \<lparr>counters = [([97], 2)]\<rparr>)
      (Some \<lparr>source_path = PurePath 1 [], cc_chunk_size = 4, total_size = 0, cc_chunks = []\<rparr>)
      (Some \<lparr>counters = [([97], 1)]\<rparr>)) = PUSH"
proof -
  let ?c = "\<lparr>source_path = PurePath 1 [], cc_chunk_size = 4, total_size = 0, cc_chunks = []\<rparr>"
  have w: "wf_vector \<lparr>counters = [([97], 1)]\<rparr>" "wf_vector \<lparr>counters = [([97], 2)]\<rparr>"
    by (simp_all add: wf_vector_def)
  have "direction (resolve_direction (Some ?c) (Some \<lparr>counters = [([97], 1)]\<rparr>) (Some ?c)
      (Some \<lparr>counters = [([97], 2)]\<rparr>)) = PULL"
    by (simp add: resolve_direction_def with_versions_direction vv_lt_def vv_le_def vv_eq_def counter_of_def)
  with directions_mirror [OF w, of ?c ?c] show ?thesis by simp
qed

text \<open>The direction follows the causal order when the vectors are ordered, whatever the contents;
  without a version on one side the decision is by content alone and is never a conflict.\<close>

theorem direction_follows_versions:
  assumes "wf_vector lv" "wf_vector rv"
  shows "(vv_lt lv rv \<longrightarrow> direction (resolve_direction lc (Some lv) rc (Some rv)) = PULL) \<and>
     (vv_lt rv lv \<longrightarrow> direction (resolve_direction lc (Some lv) rc (Some rv)) = PUSH) \<and>
     direction (resolve_direction lc None rc (Some rv)) \<noteq> CONFLICT \<and>
     direction (resolve_direction lc (Some lv) rc None) \<noteq> CONFLICT"
proof -
  have "\<not> (vv_lt lv rv \<and> vv_lt rv lv)"
    using assms by (auto simp: vv_lt_def vv_refine fun_eq_iff intro: antisym)
  then show ?thesis
    by (auto simp: resolve_direction_def with_versions_direction resolve_without_versions_def Let_def
        split: option.splits)
qed

theorem direction_follows_versions_witness:
  "direction (resolve_direction None (Some empty_vector) None (Some \<lparr>counters = [([97], 2)]\<rparr>)) = PULL"
proof -
  have w: "wf_vector empty_vector" "wf_vector \<lparr>counters = [([97], 2)]\<rparr>"
    by (simp_all add: wf_vector_def)
  have "vv_lt empty_vector \<lparr>counters = [([97], 2)]\<rparr>"
    by (simp add: vv_lt_def vv_le_def vv_eq_def)
  with direction_follows_versions [OF w, of None None] show ?thesis by blast
qed

text \<open>Concurrent versions are not always reported as a conflict: the resolver falls through to the
  comparison of chunk sets, so a concurrent edit whose chunks include all of the peer's is pushed over
  the peer's version.\<close>

theorem concurrent_versions_pushed:
  "\<exists>lc rc lv rv. wf_collection lc \<and> wf_collection rc \<and> wf_vector lv \<and> wf_vector rv \<and>
     is_concurrent lv rv \<and> direction (resolve_direction (Some lc) (Some lv) (Some rc) (Some rv)) = PUSH"
proof -
  define m where "m = \<lparr>chunk_id = [120], cm_index = 0, cm_size = 1, cm_offset = 0,
     cm_hash = Some \<lparr>algorithm = SHA256, digest = replicate 64 97\<rparr>, created_at = 0\<rparr>"
  define lc where "lc = \<lparr>source_path = PurePath 1 [], cc_chunk_size = 4, total_size = 1, cc_chunks = [m]\<rparr>"
  define rc where "rc = \<lparr>source_path = PurePath 1 [], cc_chunk_size = 4, total_size = 0, cc_chunks = []\<rparr>"
  define lv where "lv = \<lparr>counters = [([97 :: nat], 1 :: int)]\<rparr>"
  define rv where "rv = \<lparr>counters = [([98 :: nat], 1 :: int)]\<rparr>"
  have "direction (resolve_direction (Some lc) (Some lv) (Some rc) (Some rv)) = PUSH"
    by (simp add: resolve_direction_def with_versions_direction diff_direction content_digests_def
        lc_def rc_def lv_def rv_def m_def vv_lt_def vv_le_def vv_eq_def counter_of_def List.map_filter_simps)
  moreover have "wf_collection lc" "wf_collection rc"
    by (simp_all add: wf_collection_def lc_def rc_def m_def)
  moreover have "wf_vector lv" "wf_vector rv" "is_concurrent lv rv"
    by (simp_all add: wf_vector_def lv_def rv_def is_concurrent_def vv_le_def counter_of_def)
  ultimately show ?thesis by blast
qed

end
