(* ===== verification/Delta.thy ===== *)
theory Delta
  imports Chunks
begin

text \<open>
  \<^verbatim>\<open>domain/delta.py\<close>: what has to be transferred to bring a baseline manifest up to a current
  one. Chunks are compared by content hash only, never by position.
\<close>

datatype chunk_action = TRANSFER | REUSE

record chunk_delta_entry =
  de_metadata :: chunk_metadata
  de_action :: chunk_action

record delta_plan =
  dp_source_path :: pure_path
  dp_baseline :: "chunk_collection option"
  dp_current :: chunk_collection
  dp_entries :: "chunk_delta_entry list"

definition chunks_to_transfer :: "delta_plan \<Rightarrow> chunk_metadata list" where
  "chunks_to_transfer p = map de_metadata (filter (\<lambda>e. de_action e = TRANSFER) (dp_entries p))"

definition transfer_count :: "delta_plan \<Rightarrow> int" where
  "transfer_count p = int (length (chunks_to_transfer p))"

definition reuse_count :: "delta_plan \<Rightarrow> int" where
  "reuse_count p = chunk_count (dp_current p) - transfer_count p"

definition bytes_to_transfer :: "delta_plan \<Rightarrow> int" where
  "bytes_to_transfer p = sum_list (map cm_size (chunks_to_transfer p))"

definition is_first_sync :: "delta_plan \<Rightarrow> bool" where
  "is_first_sync p \<longleftrightarrow> dp_baseline p = None"

definition has_changes :: "delta_plan \<Rightarrow> bool" where
  "has_changes p \<longleftrightarrow> transfer_count p > 0"

section \<open>DeltaCalculator\<close>

definition known_hashes :: "chunk_collection option \<Rightarrow> chunk_hash list" where
  "known_hashes baseline =
     (case baseline of None \<Rightarrow> [] | Some b \<Rightarrow> List.map_filter cm_hash (cc_chunks b))"

definition require_hash :: "chunk_metadata \<Rightarrow> chunk_hash result" where
  "require_hash m = (case cm_hash m of None \<Rightarrow> Inl (Domain UnhashedChunkError) | Some h \<Rightarrow> Inr h)"

definition delta_entry :: "chunk_hash list \<Rightarrow> chunk_metadata \<Rightarrow> chunk_delta_entry result" where
  "delta_entry known m =
     rbind (require_hash m) (\<lambda>h.
       Inr \<lparr>de_metadata = m, de_action = (if h \<in> set known then REUSE else TRANSFER)\<rparr>)"

definition compute_delta :: "chunk_collection option \<Rightarrow> chunk_collection \<Rightarrow> delta_plan result" where
  "compute_delta baseline current =
     raise_if (case baseline of None \<Rightarrow> False | Some b \<Rightarrow> source_path b \<noteq> source_path current)
       (Domain IncompatibleBaselineError)
    (rbind (rmap (delta_entry (known_hashes baseline)) (cc_chunks current)) (\<lambda>entries.
       Inr \<lparr>dp_source_path = source_path current, dp_baseline = baseline, dp_current = current,
            dp_entries = entries\<rparr>))"

section \<open>Lemmas\<close>

definition all_hashed :: "chunk_collection \<Rightarrow> bool" where
  "all_hashed c \<longleftrightarrow> (\<forall>m \<in> set (cc_chunks c). cm_hash m \<noteq> None)"

definition compatible :: "chunk_collection option \<Rightarrow> chunk_collection \<Rightarrow> bool" where
  "compatible baseline current \<longleftrightarrow> (\<forall>b. baseline = Some b \<longrightarrow> source_path b = source_path current)"

lemma set_known_hashes:
  "set (known_hashes baseline) = {h. \<exists>b m. baseline = Some b \<and> m \<in> set (cc_chunks b) \<and> cm_hash m = Some h}"
  by (cases baseline) (force simp: known_hashes_def List.map_filter_def)+

definition entry_for :: "chunk_hash list \<Rightarrow> chunk_metadata \<Rightarrow> chunk_delta_entry" where
  "entry_for known m =
     \<lparr>de_metadata = m, de_action = (if the (cm_hash m) \<in> set known then REUSE else TRANSFER)\<rparr>"

lemma delta_entry_hashed: "cm_hash m \<noteq> None \<Longrightarrow> delta_entry known m = Inr (entry_for known m)"
  by (auto simp: delta_entry_def require_hash_def entry_for_def)

lemma delta_entry_unhashed: "cm_hash m = None \<Longrightarrow> delta_entry known m = Inl (Domain UnhashedChunkError)"
  by (simp add: delta_entry_def require_hash_def)

lemma rmap_delta_entry:
  "rmap (delta_entry known) ms =
     (if \<forall>m \<in> set ms. cm_hash m \<noteq> None then Inr (map (entry_for known) ms)
      else Inl (Domain UnhashedChunkError))"
proof (induction ms)
  case (Cons m ms)
  then show ?case
    by (cases "cm_hash m") (auto simp: delta_entry_hashed delta_entry_unhashed)
qed simp

text \<open>The whole function in one equation.\<close>

lemma compute_delta_eq:
  "compute_delta baseline current =
     (if \<not> compatible baseline current then Inl (Domain IncompatibleBaselineError)
      else if \<not> all_hashed current then Inl (Domain UnhashedChunkError)
      else Inr \<lparr>dp_source_path = source_path current, dp_baseline = baseline, dp_current = current,
                dp_entries = map (entry_for (known_hashes baseline)) (cc_chunks current)\<rparr>)"
  by (auto simp: compute_delta_def compatible_def all_hashed_def rmap_delta_entry raise_if_def
      split: option.splits)

lemma chunks_to_transfer_compute:
  "compute_delta baseline current = Inr p \<Longrightarrow>
     chunks_to_transfer p = filter (\<lambda>m. the (cm_hash m) \<notin> set (known_hashes baseline)) (cc_chunks current)"
  by (auto simp: compute_delta_eq chunks_to_transfer_def filter_map o_def entry_for_def split: if_splits)

lemma sum_list_filter_le:
  "\<forall>x \<in> set xs. 0 \<le> (f x :: int) \<Longrightarrow> sum_list (map f (filter P xs)) \<le> sum_list (map f xs)"
  by (induction xs) auto

section \<open>Properties\<close>

text \<open>The plan is computed exactly when the baseline belongs to the same file and every current
  chunk is hashed; it keeps the chunks in order and marks a chunk for transfer if and only if no
  chunk of the baseline carries its hash. Otherwise the first failed check decides the error.\<close>

theorem compute_delta_spec:
  "compute_delta baseline current =
     (if \<exists>b. baseline = Some b \<and> source_path b \<noteq> source_path current
      then Inl (Domain IncompatibleBaselineError)
      else if \<exists>m \<in> set (cc_chunks current). cm_hash m = None then Inl (Domain UnhashedChunkError)
      else Inr \<lparr>dp_source_path = source_path current, dp_baseline = baseline, dp_current = current,
        dp_entries = map (\<lambda>m. \<lparr>de_metadata = m, de_action =
            (if \<exists>b m'. baseline = Some b \<and> m' \<in> set (cc_chunks b) \<and> cm_hash m' = cm_hash m
             then REUSE else TRANSFER)\<rparr>) (cc_chunks current)\<rparr>)"
proof -
  let ?entry = "\<lambda>m. \<lparr>de_metadata = m, de_action =
      (if \<exists>b m'. baseline = Some b \<and> m' \<in> set (cc_chunks b) \<and> cm_hash m' = cm_hash m
       then REUSE else TRANSFER)\<rparr>"
  have "entry_for (known_hashes baseline) m = ?entry m" if "cm_hash m \<noteq> None" for m
    using that by (auto simp: entry_for_def set_known_hashes)
  then have entries: "all_hashed current \<Longrightarrow>
      map (entry_for (known_hashes baseline)) (cc_chunks current) = map ?entry (cc_chunks current)"
    by (simp add: all_hashed_def)
  have "(\<exists>b. baseline = Some b \<and> source_path b \<noteq> source_path current) = (\<not> compatible baseline current)"
    "(\<exists>m \<in> set (cc_chunks current). cm_hash m = None) = (\<not> all_hashed current)"
    by (auto simp: compatible_def all_hashed_def)
  then show ?thesis using entries by (simp only: compute_delta_eq if_cancel split: if_split) simp
qed

text \<open>The plan's counts add up: transferred and reused chunks make up the file, no more bytes are
  sent than the file has, a first sync sends every chunk and a sync against an identical manifest
  sends none.\<close>

theorem delta_counts:
  assumes "compute_delta baseline current = Inr p" "wf_collection current"
    and "\<forall>m \<in> set (cc_chunks current). wf_metadata m"
  shows "transfer_count p + reuse_count p = chunk_count current \<and>
     0 \<le> transfer_count p \<and> 0 \<le> reuse_count p \<and>
     0 \<le> bytes_to_transfer p \<and> bytes_to_transfer p \<le> total_size current \<and>
     (is_first_sync p \<longrightarrow> transfer_count p = chunk_count current \<and> bytes_to_transfer p = total_size current) \<and>
     (baseline = Some current \<longrightarrow> \<not> has_changes p)"
proof -
  note tr = chunks_to_transfer_compute [OF assms(1)]
  have p: "dp_current p = current" "dp_baseline p = baseline" "all_hashed current"
    using assms(1) by (auto simp: compute_delta_eq split: if_splits)
  have size: "\<forall>m \<in> set (cc_chunks current). 0 \<le> cm_size m"
    using assms(3) by (simp add: wf_metadata_def)
  have first: "is_first_sync p \<Longrightarrow> chunks_to_transfer p = cc_chunks current"
    by (simp add: tr p is_first_sync_def known_hashes_def)
  have same: "chunks_to_transfer p = []" if "baseline = Some current"
    using that p(3) by (auto simp: tr filter_empty_conv set_known_hashes all_hashed_def)
  have le: "length (chunks_to_transfer p) \<le> length (cc_chunks current)" by (simp add: tr)
  have "sum_list (map cm_size (chunks_to_transfer p)) \<le> total_size current"
    using assms(2) sum_list_filter_le [OF size] by (simp add: tr wf_collection_def)
  moreover have "0 \<le> sum_list (map cm_size (chunks_to_transfer p))"
    using size by (auto simp: tr intro!: sum_list_nonneg)
  ultimately show ?thesis
    using le first same assms(2)
    by (auto simp: transfer_count_def reuse_count_def bytes_to_transfer_def chunk_count_def p
        has_changes_def wf_collection_def)
qed

theorem delta_counts_witness:
  "\<exists>p. compute_delta None \<lparr>source_path = PurePath 1 [], cc_chunk_size = 4, total_size = 0, cc_chunks = []\<rparr>
     = Inr p \<and> transfer_count p + reuse_count p = 0"
proof -
  let ?c = "\<lparr>source_path = PurePath 1 [], cc_chunk_size = 4, total_size = 0, cc_chunks = []\<rparr>"
  obtain p where p: "compute_delta None ?c = Inr p" by (simp add: compute_delta_def)
  have "wf_collection ?c" by (simp add: wf_collection_def)
  then show ?thesis using delta_counts [OF p] p by (simp add: chunk_count_def)
qed

end
