(* ===== verification/Chunk_Reader.thy ===== *)
theory Chunk_Reader
  imports Chunks
begin

text \<open>
  \<^verbatim>\<open>infrastructure/chunking/streaming_chunk_reader.py\<close> and the \<^verbatim>\<open>ChunkingStrategy\<close> port of
  \<^verbatim>\<open>domain/chunking.py\<close>. The port is the locale \<open>chunking_strategy\<close>, whose laws are the ones its
  docstring asks of \<^verbatim>\<open>next_cut\<close>; the reader's correctness is proved once inside it and the
  fixed-size strategy is an instance.
\<close>

section \<open>Reading blocks\<close>

text \<open>
  An open file is the bytes not read yet. \<^verbatim>\<open>readinto\<close> may return fewer bytes than asked for:
  \<open>rd want avail\<close> is how many it delivers (clipped to what fits and what is there).
\<close>

definition readinto :: "(nat \<Rightarrow> nat \<Rightarrow> nat) \<Rightarrow> nat \<Rightarrow> bytes \<Rightarrow> bytes" where
  "readinto rd want inp = take (min want (rd want (length inp))) inp"

text \<open>It only returns nothing at the end of the file.\<close>

definition delivers :: "(nat \<Rightarrow> nat \<Rightarrow> nat) \<Rightarrow> bool" where
  "delivers rd \<longleftrightarrow> (\<forall>want avail. 0 < want \<longrightarrow> 0 < avail \<longrightarrow> 0 < rd want avail)"

function read_full :: "(nat \<Rightarrow> nat \<Rightarrow> nat) \<Rightarrow> nat \<Rightarrow> bytes \<Rightarrow> bytes \<Rightarrow> bytes \<times> bytes" where
  "read_full rd want got inp =
     (if length got < want then
        (let new = readinto rd (want - length got) inp in
         if new = [] then (got, inp)
         else read_full rd want (got @ new) (drop (length new) inp))
      else (got, inp))"
  by pat_completeness auto
termination
  by (relation "measure (\<lambda>(rd, want, got, inp). want - length got)")
    (auto simp: diff_less_mono2)

declare read_full.simps [simp del]

lemma take_drop_readinto: "readinto rd w inp @ drop (length (readinto rd w inp)) inp = inp"
  by (simp add: readinto_def min_def)

lemma read_full_append: "read_full rd want got inp = (got', inp') \<Longrightarrow> got' @ inp' = got @ inp"
proof (induction rd want got inp rule: read_full.induct)
  case (1 rd want got inp)
  then show ?case
    using take_drop_readinto [of rd "want - length got" inp]
    by (subst (asm) (2) read_full.simps) (auto simp: Let_def split: if_splits)
qed

lemma read_full_split:
  "delivers rd \<Longrightarrow> length got \<le> want \<Longrightarrow>
   read_full rd want got inp = (got @ take (want - length got) inp, drop (want - length got) inp)"
proof (induction rd want got inp rule: read_full.induct)
  case (1 rd want got inp)
  let ?new = "readinto rd (want - length got) inp"
  show ?case
  proof (cases "length got < want \<and> ?new \<noteq> []")
    case True
    then have "length (got @ ?new) \<le> want" by (auto simp: readinto_def)
    with 1 True have "read_full rd want (got @ ?new) (drop (length ?new) inp) =
        ((got @ ?new) @ take (want - length (got @ ?new)) (drop (length ?new) inp),
         drop (want - length (got @ ?new)) (drop (length ?new) inp))"
      by simp
    moreover have "?new @ take (want - length got - length ?new) (drop (length ?new) inp)
        = take (want - length got) inp"
    proof -
      have new: "?new = take (length ?new) inp"
        by (simp add: readinto_def min_def)
      have "length ?new \<le> want - length got" by (simp add: readinto_def)
      then have "length ?new + (want - length got - length ?new) = want - length got" by simp
      then show ?thesis by (subst new) (metis take_add)
    qed
    moreover have "want - (length got + length ?new) + length ?new = want - length got"
      using \<open>length (got @ ?new) \<le> want\<close> by simp
    ultimately show ?thesis
      using True by (subst read_full.simps) (simp add: Let_def)
  next
    case False
    have "?new \<noteq> []" if "length got < want" "inp \<noteq> []"
    proof -
      have "0 < rd (want - length got) (length inp)"
        using "1.prems"(1) that by (simp add: delivers_def)
      then show ?thesis using that by (simp add: readinto_def)
    qed
    then have "length got = want \<or> inp = []" using False "1.prems"(2) by linarith
    with False show ?thesis
      using "1.prems"(2) by (subst read_full.simps) (auto simp: Let_def)
  qed
qed

section \<open>The streaming loop\<close>

definition MAX_READ_BLOCK_BYTES :: int where
  "MAX_READ_BLOCK_BYTES = 16 * 1024 * 1024"

definition read_block_size :: "int \<Rightarrow> nat" where
  "read_block_size preferred = nat (max 1 (min preferred MAX_READ_BLOCK_BYTES))"

text \<open>
  What the generator produces: the chunks it yields, and the exception that ends it, if any.
  \<open>next_cut\<close> is the strategy, \<open>cid\<close> gives the chunk id of an index (\<^verbatim>\<open>_derive_chunk_id\<close>, a
  UUIDv5 of path and index) and \<open>clk\<close> the creation time.
\<close>

type_synonym chunk_stream = "chunk list \<times> exn option"

function stream_loop ::
  "(nat \<Rightarrow> nat \<Rightarrow> nat) \<Rightarrow> (bytes \<Rightarrow> bool \<Rightarrow> int option) \<Rightarrow> nat \<Rightarrow> (int \<Rightarrow> pystr) \<Rightarrow> (int \<Rightarrow> int) \<Rightarrow>
   bytes \<Rightarrow> bytes \<Rightarrow> int \<Rightarrow> int \<Rightarrow> chunk_stream" where
  "stream_loop rd next_cut block cid clk inp acc index offset =
     (let (got, inp') = read_full rd block [] inp;
          acc' = acc @ got;
          at_eof = (got = [])
      in case next_cut acc' at_eof of
           None \<Rightarrow>
             if at_eof then ([], None)
             else stream_loop rd next_cut block cid clk inp' acc' index offset
         | Some k \<Rightarrow>
             if k \<le> 0 then ([], Some (Domain ChunkingError))
             else
               (let data = take (nat k) acc'; rest = drop (nat k) acc' in
                case rbind (mk_ChunkMetadata (cid index) index (int (length data)) offset None (clk index))
                       (\<lambda>m. mk_Chunk m data) of
                  Inl e \<Rightarrow> ([], Some e)
                | Inr c \<Rightarrow>
                    if at_eof \<and> rest = [] then ([c], None)
                    else
                      (let (cs, e) = stream_loop rd next_cut block cid clk inp' rest
                             (index + 1) (offset + int (length data))
                       in (c # cs, e))))"
  by pat_completeness auto
termination
proof (relation "measures [\<lambda>(rd, nc, b, cid, clk, inp, acc, i, off). length inp,
    \<lambda>(rd, nc, b, cid, clk, inp, acc, i, off). length acc]", goal_cases)
  case 1
  show ?case by simp
next
  case (2 rd nc b cid clk inp acc i off x got inp')
  then have "[] @ inp = got @ inp'" by (metis read_full_append)
  with 2 show ?case by (cases got) auto
next
  case (3 rd nc b cid clk inp acc i off x got inp' acc' eof k)
  then have "[] @ inp = got @ inp'" by (metis read_full_append)
  with 3 show ?case by (cases got; cases acc) auto
qed

declare stream_loop.simps [simp del]

text \<open>What the source path holds: nothing, something that is not a regular file, a file that cannot
  be opened, or a regular file.\<close>

datatype fs_node = Missing | NotRegular | Unreadable | Regular bytes

text \<open>\<^verbatim>\<open>read_chunks\<close> over \<^verbatim>\<open>_stream_chunks\<close>; \<open>pref\<close> is the strategy's preferred read block size.\<close>

definition stream_chunks ::
  "(nat \<Rightarrow> nat \<Rightarrow> nat) \<Rightarrow> (bytes \<Rightarrow> bool \<Rightarrow> int option) \<Rightarrow> int \<Rightarrow> (int \<Rightarrow> pystr) \<Rightarrow> (int \<Rightarrow> int) \<Rightarrow>
   bytes \<Rightarrow> chunk_stream" where
  "stream_chunks rd next_cut pref cid clk content =
     stream_loop rd next_cut (read_block_size pref) cid clk content [] 0 0"

definition read_chunks ::
  "(nat \<Rightarrow> nat \<Rightarrow> nat) \<Rightarrow> (bytes \<Rightarrow> bool \<Rightarrow> int option) \<Rightarrow> int \<Rightarrow> (int \<Rightarrow> pystr) \<Rightarrow> (int \<Rightarrow> int) \<Rightarrow>
   fs_node \<Rightarrow> chunk_stream" where
  "read_chunks rd next_cut pref cid clk node =
     (case node of
        Missing \<Rightarrow> ([], Some (Domain ChunkSourceNotFoundError))
      | NotRegular \<Rightarrow> ([], Some (Domain ChunkSourceAccessError))
      | Unreadable \<Rightarrow> ([], Some (Domain ChunkSourceAccessError))
      | Regular content \<Rightarrow> stream_chunks rd next_cut pref cid clk content)"

section \<open>The fixed-size strategy\<close>

definition DEFAULT_CHUNK_SIZE :: int where
  "DEFAULT_CHUNK_SIZE = 4 * 1024 * 1024"

text \<open>The constructor returns the configured size; the strategy is its \<^verbatim>\<open>next_cut\<close>.\<close>

definition mk_FixedSizeChunkingStrategy :: "int \<Rightarrow> int result" where
  "mk_FixedSizeChunkingStrategy cs = raise_if (cs \<le> 0) (Domain InvalidChunkSizeError) (Inr cs)"

definition fixed_next_cut :: "int \<Rightarrow> bytes \<Rightarrow> bool \<Rightarrow> int option" where
  "fixed_next_cut cs buffered at_eof =
     (if int (length buffered) \<ge> cs then Some cs
      else if at_eof then (if buffered \<noteq> [] then Some (int (length buffered)) else None)
      else None)"

text \<open>The reference: cut a list into pieces of \<open>n\<close> elements, the last one possibly shorter.\<close>

function chunks_of :: "nat \<Rightarrow> 'a list \<Rightarrow> 'a list list" where
  "chunks_of n xs = (if xs = [] \<or> n = 0 then [] else take n xs # chunks_of n (drop n xs))"
  by pat_completeness auto
termination
  by (relation "measure (\<lambda>(n, xs). length xs)") auto

declare chunks_of.simps [simp del]

section \<open>Correctness for every strategy that keeps its contract\<close>

text \<open>The chunk the loop builds from a piece of data.\<close>

definition chunk_at :: "(int \<Rightarrow> pystr) \<Rightarrow> (int \<Rightarrow> int) \<Rightarrow> int \<Rightarrow> int \<Rightarrow> bytes \<Rightarrow> chunk" where
  "chunk_at cid clk i off bs =
     \<lparr>ck_metadata = \<lparr>chunk_id = cid i, cm_index = i, cm_size = int (length bs), cm_offset = off,
        cm_hash = None, created_at = clk i\<rparr>, ck_data = bs\<rparr>"

lemma chunk_at_sel [simp]:
  "ck_data (chunk_at cid clk i off bs) = bs"
  "chunk_id (ck_metadata (chunk_at cid clk i off bs)) = cid i"
  "cm_index (ck_metadata (chunk_at cid clk i off bs)) = i"
  "cm_size (ck_metadata (chunk_at cid clk i off bs)) = int (length bs)"
  "cm_offset (ck_metadata (chunk_at cid clk i off bs)) = off"
  "cm_hash (ck_metadata (chunk_at cid clk i off bs)) = None"
  by (simp_all add: chunk_at_def)

lemma wf_chunk_at: "cid i \<noteq> [] \<Longrightarrow> 0 \<le> i \<Longrightarrow> 0 \<le> off \<Longrightarrow> wf_chunk (chunk_at cid clk i off bs)"
  by (simp add: wf_chunk_def wf_metadata_def)

lemma read_block: "delivers rd \<Longrightarrow> read_full rd block [] inp = (take block inp, drop block inp)"
  by (simp add: read_full_split)

text \<open>One iteration, by what the strategy answers.\<close>

lemma stream_loop_None:
  assumes "delivers rd" "0 < block" "nc (acc @ take block inp) (inp = []) = None"
  shows "stream_loop rd nc block cid clk inp acc i off =
     (if inp = [] then ([], None)
      else stream_loop rd nc block cid clk (drop block inp) (acc @ take block inp) i off)"
proof -
  have "take block inp = [] \<longleftrightarrow> inp = []" using assms(2) by simp
  then show ?thesis
    using assms by (subst stream_loop.simps) (simp add: read_block)
qed

lemma stream_loop_Some:
  assumes "delivers rd" "0 < block" "nc (acc @ take block inp) (inp = []) = Some k" "0 < k"
    and "cid i \<noteq> []" "0 \<le> i" "0 \<le> off"
  defines "data \<equiv> take (nat k) (acc @ take block inp)"
    and "rest \<equiv> drop (nat k) (acc @ take block inp)"
  shows "stream_loop rd nc block cid clk inp acc i off =
     (if inp = [] \<and> rest = [] then ([chunk_at cid clk i off data], None)
      else (case stream_loop rd nc block cid clk (drop block inp) rest (i + 1) (off + int (length data)) of
              (cs, e) \<Rightarrow> (chunk_at cid clk i off data # cs, e)))"
proof -
  have eof: "(take block inp = []) = (inp = [])" using assms(2) by simp
  have pos: "(k \<le> 0) = False" using assms(4) by simp
  have mk: "rbind (mk_ChunkMetadata (cid i) i (int (length data)) off None (clk i)) (\<lambda>m. mk_Chunk m data)
      = Inr (chunk_at cid clk i off data)"
    using assms(5-7) by (auto simp: result_simps wf_metadata_def chunk_at_def)
  show ?thesis
    by (subst stream_loop.simps)
      (simp only: read_block [OF assms(1)] prod.case Let_def eof assms(3) option.case pos if_False
        data_def [symmetric] rest_def [symmetric] mk sum.case)
qed

text \<open>Induction along the loop.\<close>

lemma stream_induct:
  assumes block: "0 < (block :: nat)"
    and step: "\<And>inp acc i off.
        (inp \<noteq> [] \<Longrightarrow> P (drop block inp) (acc @ take block inp) i off) \<Longrightarrow>
        (\<And>(k :: nat) i' off'. 0 < k \<Longrightarrow> \<not> (inp = [] \<and> drop k (acc @ take block inp) = []) \<Longrightarrow>
            P (drop block inp) (drop k (acc @ take block inp)) i' off') \<Longrightarrow>
        P inp acc i off"
  shows "P (inp :: bytes) (acc :: bytes) (i :: int) (off :: int)"
proof (induction "(inp, acc)" arbitrary: inp acc i off
    rule: wf_induct_rule [OF wf_measures [of "[\<lambda>(inp, acc). length inp, \<lambda>(inp, acc). length acc]"]])
  case (1 inp acc i off)
  show ?case
  proof (rule step)
    assume "inp \<noteq> []"
    then show "P (drop block inp) (acc @ take block inp) i off" using block by (intro 1) auto
  next
    fix k :: nat and i' off' :: int assume "0 < k" "\<not> (inp = [] \<and> drop k (acc @ take block inp) = [])"
    then show "P (drop block inp) (drop k (acc @ take block inp)) i' off'"
      using block by (cases inp; intro 1) auto
  qed
qed

text \<open>Chunks laid out one after the other from an index and an offset.\<close>

fun laid_out :: "(int \<Rightarrow> pystr) \<Rightarrow> int \<Rightarrow> int \<Rightarrow> chunk list \<Rightarrow> bool" where
  "laid_out cid i off [] \<longleftrightarrow> True"
| "laid_out cid i off (c # cs) \<longleftrightarrow>
     wf_chunk c \<and> chunk_id (ck_metadata c) = cid i \<and> cm_index (ck_metadata c) = i \<and>
     cm_offset (ck_metadata c) = off \<and> cm_hash (ck_metadata c) = None \<and> ck_data c \<noteq> [] \<and>
     laid_out cid (i + 1) (off + int (length (ck_data c))) cs"

locale chunking_strategy =
  fixes next_cut :: "bytes \<Rightarrow> bool \<Rightarrow> int option"
  assumes cut_range: "next_cut b eof = Some k \<Longrightarrow> 0 < k \<and> k \<le> int (length b)"
    and eof_flushes: "b \<noteq> [] \<Longrightarrow> next_cut b True \<noteq> None"
begin

lemma stream_loop_correct:
  assumes rd: "delivers rd" and block: "0 < block" and cid: "\<And>i. cid i \<noteq> []"
  shows "0 \<le> i \<Longrightarrow> 0 \<le> off \<Longrightarrow>
     \<exists>cs. stream_loop rd next_cut block cid clk inp acc i off = (cs, None) \<and>
          concat (map ck_data cs) = acc @ inp \<and> laid_out cid i off cs"
proof (induction inp acc i off rule: stream_induct [OF block])
  case (1 inp acc i off)
  show ?case
  proof (cases "next_cut (acc @ take block inp) (inp = [])")
    case None
    show ?thesis
    proof (cases "inp = []")
      case True
      then have "acc = []" using None eof_flushes [of acc] by auto
      with True show ?thesis
        using stream_loop_None [OF rd block, of next_cut acc inp] None by simp
    next
      case False
      from "1.IH"(1) [OF False "1.prems"] obtain cs where
        "stream_loop rd next_cut block cid clk (drop block inp) (acc @ take block inp) i off = (cs, None)"
        "concat (map ck_data cs) = (acc @ take block inp) @ drop block inp" "laid_out cid i off cs"
        by blast
      with False show ?thesis
        using stream_loop_None [OF rd block, of next_cut acc inp] None by simp
    qed
  next
    case (Some k)
    from cut_range [OF Some] have k: "0 < k" "k \<le> int (length (acc @ take block inp))" by auto
    define data where "data = take (nat k) (acc @ take block inp)"
    define rest where "rest = drop (nat k) (acc @ take block inp)"
    have all: "data @ rest @ drop block inp = acc @ inp"
      by (metis append.assoc append_take_drop_id data_def rest_def)
    have ne: "data \<noteq> []" using k by (auto simp: data_def)
    note wf = wf_chunk_at [of cid i off clk data, OF cid [of i] "1.prems"]
    note loop = stream_loop_Some [where nc = next_cut and cid = cid, OF rd block Some k(1) cid [of i] "1.prems", of clk,
        folded data_def rest_def]
    show ?thesis
    proof (cases "inp = [] \<and> rest = []")
      case True
      then show ?thesis using loop ne wf all by simp
    next
      case False
      have "\<exists>cs. stream_loop rd next_cut block cid clk (drop block inp) rest (i + 1)
              (off + int (length data)) = (cs, None) \<and> concat (map ck_data cs) = rest @ drop block inp \<and>
            laid_out cid (i + 1) (off + int (length data)) cs"
        using "1.IH"(2) [of "nat k"] k False "1.prems" by (simp add: rest_def)
      then show ?thesis using loop False ne wf all by fastforce
    qed
  qed
qed

text \<open>Reading a file: no error, the data of the chunks in order is the file, indices and offsets run on.\<close>

lemma stream_chunks_correct:
  assumes "delivers rd" "\<And>i. cid i \<noteq> []"
  shows "\<exists>cs. stream_chunks rd next_cut pref cid clk content = (cs, None) \<and>
           concat (map ck_data cs) = content \<and> laid_out cid 0 0 cs"
proof -
  have "0 < read_block_size pref" by (simp add: read_block_size_def)
  from stream_loop_correct [OF assms(1) this assms(2), of 0 0, where acc = "[]"]
  show ?thesis by (simp add: stream_chunks_def)
qed

end

section \<open>The fixed-size strategy keeps the contract\<close>

lemma fixed_size_strategy: "0 < cs \<Longrightarrow> chunking_strategy (fixed_next_cut cs)"
  by unfold_locales (auto simp: fixed_next_cut_def split: if_splits)

interpretation default_strategy: chunking_strategy "fixed_next_cut DEFAULT_CHUNK_SIZE"
  by (rule fixed_size_strategy) (simp add: DEFAULT_CHUNK_SIZE_def)

lemma chunks_of_Nil [simp]: "chunks_of n [] = []"
  by (simp add: chunks_of.simps)

lemma chunks_of_append: "0 < n \<Longrightarrow> n \<le> length xs \<Longrightarrow> chunks_of n (xs @ ys) = take n xs # chunks_of n (drop n xs @ ys)"
  by (subst chunks_of.simps) auto

lemma chunks_of_short: "xs \<noteq> [] \<Longrightarrow> length xs \<le> n \<Longrightarrow> chunks_of n xs = [xs]"
  by (subst chunks_of.simps) (cases n; simp)

lemma concat_chunks_of: "0 < n \<Longrightarrow> concat (chunks_of n xs) = xs"
  by (induction n xs rule: chunks_of.induct) (subst chunks_of.simps, auto)

lemma fixed_stream_loop:
  assumes rd: "delivers rd" and block: "0 < block" and cid: "\<And>i. cid i \<noteq> []" and cs: "0 < cs"
  shows "0 \<le> i \<Longrightarrow> 0 \<le> off \<Longrightarrow>
     map ck_data (fst (stream_loop rd (fixed_next_cut cs) block cid clk inp acc i off)) =
     chunks_of (nat cs) (acc @ inp)"
proof (induction inp acc i off rule: stream_induct [OF block])
  case (1 inp acc i off)
  let ?b = "acc @ take block inp"
  have b: "?b @ drop block inp = acc @ inp" by simp
  show ?case
  proof (cases "fixed_next_cut cs ?b (inp = [])")
    case None
    then have "inp = [] \<Longrightarrow> acc = []" by (auto simp: fixed_next_cut_def split: if_splits)
    then show ?thesis
      using stream_loop_None [where nc = "fixed_next_cut cs", OF rd block None] "1.IH"(1) "1.prems"
      by (cases "inp = []") simp_all
  next
    case (Some k)
    then have k: "0 < k" using cs by (auto simp: fixed_next_cut_def split: if_splits)
    note loop = stream_loop_Some [where nc = "fixed_next_cut cs" and cid = cid, OF rd block Some k cid [of i] "1.prems", of clk]
    have rec: "map ck_data (fst (stream_loop rd (fixed_next_cut cs) block cid clk (drop block inp)
        (drop (nat k) ?b) (i + 1) (off + int (length (take (nat k) ?b))))) =
        chunks_of (nat cs) (drop (nat k) ?b @ drop block inp)"
      if "\<not> (inp = [] \<and> drop (nat k) ?b = [])"
      using "1.IH"(2) [of "nat k"] k that "1.prems" by simp
    have split: "chunks_of (nat cs) (acc @ inp) =
        take (nat k) ?b # chunks_of (nat cs) (drop (nat k) ?b @ drop block inp)"
    proof (cases "int (length ?b) \<ge> cs")
      case True
      then have "k = cs" using Some by (simp add: fixed_next_cut_def)
      moreover have "nat cs \<le> length ?b" using True by linarith
      ultimately show ?thesis using chunks_of_append [of "nat cs" ?b "drop block inp"] cs b by simp
    next
      case False
      then have "inp = []" "?b \<noteq> []" "k = int (length ?b)"
        using Some by (auto simp: fixed_next_cut_def split: if_splits)
      then show ?thesis
        using False chunks_of_short [of acc "nat cs"] by simp
    qed
    define data where "data = take (nat k) ?b"
    define rest where "rest = drop (nat k) ?b"
    note folded = loop [folded data_def rest_def] rec [folded data_def rest_def]
      split [folded data_def rest_def]
    show ?thesis
    proof (cases "inp = [] \<and> rest = []")
      case True
      then have "stream_loop rd (fixed_next_cut cs) block cid clk inp acc i off =
          ([chunk_at cid clk i off data], None)" by (subst folded(1)) (rule if_P)
      moreover have "chunks_of (nat cs) (acc @ inp) = [data]"
        using True by (subst folded(3)) simp
      ultimately show ?thesis by (simp only: fst_conv list.map chunk_at_sel)
    next
      case False
      then show ?thesis using folded(2) by (auto simp: folded(1,3) split: prod.splits)
    qed
  qed
qed

section \<open>Properties\<close>

lemma laid_out_nth:
  "laid_out cid i off cs \<Longrightarrow> j < length cs \<Longrightarrow>
     wf_chunk (cs ! j) \<and> chunk_id (ck_metadata (cs ! j)) = cid (i + int j) \<and>
     cm_index (ck_metadata (cs ! j)) = i + int j \<and>
     cm_offset (ck_metadata (cs ! j)) = off + int (length (concat (map ck_data (take j cs))))"
proof (induction cs arbitrary: i off j)
  case (Cons c cs)
  then show ?case by (cases j) (auto simp: algebra_simps)
qed simp

text \<open>C19: Streaming a file through any strategy that keeps the \<open>ChunkingStrategy\<close> contract ends
  without an error and loses nothing: the chunk data in order is the file, and chunk \<open>j\<close> has index \<open>j\<close>
  and the offset where its bytes lie in the file, whatever the read block size and however short the
  individual reads are.\<close>

theorem stream_chunks_lossless:
  assumes "chunking_strategy next_cut" "delivers rd" "\<And>i. cid i \<noteq> []"
  shows "\<exists>cs. stream_chunks rd next_cut pref cid clk content = (cs, None) \<and>
     concat (map ck_data cs) = content \<and>
     (\<forall>j < length cs. cm_index (ck_metadata (cs ! j)) = int j \<and>
        cm_offset (ck_metadata (cs ! j)) = int (length (concat (map ck_data (take j cs)))))"
proof -
  obtain cs where "stream_chunks rd next_cut pref cid clk content = (cs, None)"
    "concat (map ck_data cs) = content" "laid_out cid 0 0 cs"
    using chunking_strategy.stream_chunks_correct [of next_cut rd cid, OF assms] by blast
  then show ?thesis using laid_out_nth by fastforce
qed

theorem stream_chunks_lossless_witness:
  "\<exists>cs. stream_chunks (\<lambda>_ _. 1) (fixed_next_cut 2) 2 (\<lambda>_. [65]) (\<lambda>_. 0) [1, 2, 3] = (cs, None) \<and>
     concat (map ck_data cs) = [1, 2, 3]"
proof -
  have "chunking_strategy (fixed_next_cut 2)" by (simp add: fixed_size_strategy)
  moreover have "delivers (\<lambda>_ _. 1)" by (simp add: delivers_def)
  ultimately show ?thesis
    using stream_chunks_lossless [of "fixed_next_cut 2" "\<lambda>_ _. 1" "\<lambda>_. [65]" 2 "\<lambda>_. 0" "[1, 2, 3]"]
    by auto
qed

text \<open>With the fixed-size strategy the streaming reader computes the reference split: the file is
  cut into pieces of \<open>chunk_size\<close> bytes, only the last of which may be shorter, also when the chunk size
  exceeds the read block cap of 16 MiB and a chunk is assembled from several reads.\<close>

theorem fixed_size_split:
  assumes "mk_FixedSizeChunkingStrategy cs = Inr cs" "delivers rd" "\<And>i. cid i \<noteq> []"
  shows "map ck_data (fst (stream_chunks rd (fixed_next_cut cs) cs cid clk content)) =
     chunks_of (nat cs) content"
proof -
  from assms(1) have cs: "0 < cs" by (simp add: mk_FixedSizeChunkingStrategy_def result_simps)
  have block: "0 < read_block_size cs" by (simp add: read_block_size_def)
  show ?thesis
    using fixed_stream_loop [OF assms(2) block assms(3) cs, of 0 0, where acc = "[]"]
    by (simp add: stream_chunks_def)
qed

theorem fixed_size_split_witness:
  "map ck_data (fst (stream_chunks (\<lambda>_ _. 1) (fixed_next_cut 2) 2 (\<lambda>_. [65]) (\<lambda>_. 0) [1, 2, 3])) =
     [[1, 2], [3]]"
proof -
  have h: "mk_FixedSizeChunkingStrategy 2 = Inr 2" "delivers (\<lambda>_ _. 1)"
    by (simp_all add: mk_FixedSizeChunkingStrategy_def delivers_def)
  have "chunks_of (nat 2) [1, 2, 3 :: byte] = [[1, 2], [3]]"
    by (simp add: chunks_of.simps [of 2])
  then show ?thesis
    using fixed_size_split [OF h, of "\<lambda>_. [65]" "\<lambda>_. 0" "[1, 2, 3]"] by simp
qed

end
