(* ===== verification/Handshake_Messages.thy ===== *)
theory Handshake_Messages
  imports Session_Keys
begin

text \<open>
  \<^verbatim>\<open>networking/handshake_messages.py\<close> and \<^verbatim>\<open>networking/x25519_safety.py\<close>: the four handshake
  messages with their validation, the encoders and decoders, the transcript chain, and the checks
  against low-order X25519 points. SHA-256 is the argument \<open>sha256\<close>.
\<close>

section \<open>Low-order points\<close>

definition X25519_KEY_SIZE :: nat where "X25519_KEY_SIZE = 32"

text \<open>\<^verbatim>\<open>bytes.fromhex\<close> of 64 digits is the 32-byte big-endian writing of the number they spell.\<close>

definition LOW_ORDER_POINTS :: "bytes list" where
  "LOW_ORDER_POINTS =
     [replicate 32 0, 1 # replicate 31 0,
      be_bytes 32 0xe0eb7a7c3b41b8ae1656e3faf19fc46ada098deb9c32b1fd866205165f49b800,
      be_bytes 32 0x5f9c95bca3508c24b1d0b1559c83ef5b04445cc4581c8e86d8224eddd09f1157,
      be_bytes 32 0xecffffffffffffffffffffffffffffffffffffffffffffffffffffffffffff7f,
      be_bytes 32 0xedffffffffffffffffffffffffffffffffffffffffffffffffffffffffffff7f,
      be_bytes 32 0xeeffffffffffffffffffffffffffffffffffffffffffffffffffffffffffff7f]"

definition check_public_key :: "bytes \<Rightarrow> unit result" where
  "check_public_key public_key =
     raise_if (length public_key \<noteq> X25519_KEY_SIZE) (Protocol LowOrderPointError)
    (raise_if (public_key \<in> set LOW_ORDER_POINTS) (Protocol LowOrderPointError)
    (Inr ()))"

definition check_shared_secret :: "bytes \<Rightarrow> unit result" where
  "check_shared_secret shared_secret =
     raise_if (length shared_secret \<noteq> X25519_KEY_SIZE) (Protocol LowOrderPointError)
    (raise_if (shared_secret = replicate X25519_KEY_SIZE 0) (Protocol LowOrderPointError)
    (Inr ()))"

section \<open>Constants and messages\<close>

definition HANDSHAKE_VERSION :: int where "HANDSHAKE_VERSION = 3"
definition MSG_HELLO :: int where "MSG_HELLO = 0x01"
definition MSG_REPLY :: int where "MSG_REPLY = 0x02"
definition MSG_CONFIRM :: int where "MSG_CONFIRM = 0x03"
definition MSG_FINAL :: int where "MSG_FINAL = 0x04"
definition STATUS_ACCEPT :: int where "STATUS_ACCEPT = 0x00"
definition STATUS_REJECT :: int where "STATUS_REJECT = 0x01"
definition MAX_DEVICE_ID_BYTES :: nat where "MAX_DEVICE_ID_BYTES = 64"
definition MIN_DEVICE_ID_BYTES :: nat where "MIN_DEVICE_ID_BYTES = 1"
definition MIN_PORT :: int where "MIN_PORT = 1"
definition MAX_PORT :: int where "MAX_PORT = 65535"
definition HS_NONCE_SIZE :: nat where "HS_NONCE_SIZE = 32"
definition ED25519_PUBLIC_KEY_SIZE :: nat where "ED25519_PUBLIC_KEY_SIZE = 32"
definition ED25519_SIGNATURE_SIZE :: nat where "ED25519_SIGNATURE_SIZE = 64"
definition MAC_SIZE :: nat where "MAC_SIZE = 32"
definition T1 :: bytes where "T1 = byte_lit ''securesync-1e-handshake-v1''"
definition RESPONDER_SIG_LABEL :: bytes where "RESPONDER_SIG_LABEL = byte_lit ''securesync-1e-responder-sig''"
definition INITIATOR_SIG_LABEL :: bytes where "INITIATOR_SIG_LABEL = byte_lit ''securesync-1e-initiator-sig''"
definition M4_ACCEPT_LABEL :: bytes where "M4_ACCEPT_LABEL = byte_lit ''securesync-1e-m4-accept''"
definition M4_REJECT_LABEL :: bytes where "M4_REJECT_LABEL = byte_lit ''securesync-1e-m4-reject''"

lemmas handshake_sizes = X25519_KEY_SIZE_def HS_NONCE_SIZE_def ED25519_PUBLIC_KEY_SIZE_def
  ED25519_SIGNATURE_SIZE_def MAC_SIZE_def MAX_DEVICE_ID_BYTES_def MIN_DEVICE_ID_BYTES_def
lemmas handshake_codes = HANDSHAKE_VERSION_def MSG_HELLO_def MSG_REPLY_def MSG_CONFIRM_def MSG_FINAL_def
  STATUS_ACCEPT_def STATUS_REJECT_def MIN_PORT_def MAX_PORT_def

text \<open>The fields that HELLO and REPLY have in common.\<close>

record party =
  pa_ephemeral :: bytes
  pa_nonce :: bytes
  pa_device_id :: pystr
  pa_identity_public_key :: bytes
  pa_transfer_port :: int
  pa_manifest_port :: int

record hello_message =
  hm_version :: int
  hm_party :: party
  hm_raw :: bytes

record reply_message =
  rm_version :: int
  rm_party :: party
  rm_sig_r :: bytes
  rm_mac_r :: bytes
  rm_body :: bytes
  rm_raw :: bytes

record confirm_message =
  cm_version :: int
  cm_sig_i :: bytes
  cm_mac_i :: bytes
  cm_raw :: bytes

record final_message =
  fm_version :: int
  fm_status :: int
  fm_mac_f :: bytes
  fm_raw :: bytes

abbreviation decode_err :: exn where "decode_err \<equiv> Protocol HandshakeDecodeError"
abbreviation validation_err :: exn where "validation_err \<equiv> Protocol HandshakeValidationError"

section \<open>Validation\<close>

definition validate_version :: "int \<Rightarrow> unit result" where
  "validate_version version =
     raise_if (version \<noteq> HANDSHAKE_VERSION) (Replay UnsupportedVersionError) (Inr ())"

definition validate_msg_type :: "bytes \<Rightarrow> int \<Rightarrow> unit result" where
  "validate_msg_type data expected =
     raise_if (length data < 2) decode_err
    (rbind (validate_version (uint (data ! 0))) (\<lambda>_.
     raise_if (uint (data ! 1) \<noteq> expected) decode_err (Inr ())))"

text \<open>\<^verbatim>\<open>unicodedata.category(ch) == "Cc"\<close>: the C0 and C1 control characters and DEL.\<close>

definition is_control :: "nat \<Rightarrow> bool" where
  "is_control c \<longleftrightarrow> c < 0x20 \<or> (0x7F \<le> c \<and> c < 0xA0)"

definition validate_device_id :: "pystr \<Rightarrow> bytes result" where
  "validate_device_id device_id =
     (case utf8_encode device_id of
        Inl _ \<Rightarrow> Inl validation_err
      | Inr encoded \<Rightarrow>
          raise_if (encoded = []) validation_err
         (raise_if (length encoded > MAX_DEVICE_ID_BYTES) validation_err
         (raise_if (list_ex is_control device_id) validation_err
         (Inr encoded))))"

definition decode_device_id :: "bytes \<Rightarrow> pystr result" where
  "decode_device_id raw =
     (case utf8_decode raw of
        Inl _ \<Rightarrow> Inl validation_err
      | Inr device_id \<Rightarrow>
          raise_if (device_id = []) validation_err
         (raise_if (length raw > MAX_DEVICE_ID_BYTES) validation_err
         (raise_if (list_ex is_control device_id) validation_err
         (Inr device_id))))"

definition validate_port :: "int \<Rightarrow> unit result" where
  "validate_port port = raise_if (\<not> (MIN_PORT \<le> port \<and> port \<le> MAX_PORT)) validation_err (Inr ())"

definition validate_bytes :: "bytes \<Rightarrow> nat \<Rightarrow> unit result" where
  "validate_bytes value n = raise_if (length value \<noteq> n) validation_err (Inr ())"

definition lp :: "bytes \<Rightarrow> bytes result" where
  "lp value = (case length_prefixed value of
     Inl e \<Rightarrow> Inl (if e = KeyScheduleError then validation_err else e) | Inr b \<Rightarrow> Inr b)"

definition take_field :: "bytes \<Rightarrow> nat \<Rightarrow> nat \<Rightarrow> bytes result" where
  "take_field data offset n =
     raise_if (offset + n > length data) decode_err (Inr (slice offset (offset + n) data))"

definition u16 :: "bytes \<Rightarrow> nat \<Rightarrow> int result" where
  "u16 data offset =
     raise_if (offset + 2 > length data) decode_err (Inr (field offset (offset + 2) data))"

definition check_not_self :: "pystr \<Rightarrow> bytes \<Rightarrow> pystr \<Rightarrow> bytes \<Rightarrow> unit result" where
  "check_not_self peer_device_id peer_identity own_device_id own_identity =
     raise_if (peer_device_id = own_device_id) validation_err
    (raise_if (peer_identity = own_identity) validation_err (Inr ()))"

section \<open>Encoders\<close>

text \<open>The common body of \<^verbatim>\<open>encode_hello\<close> and \<^verbatim>\<open>encode_reply_body\<close>, which differ in the message type.\<close>

definition encode_party :: "int \<Rightarrow> party \<Rightarrow> bytes result" where
  "encode_party msg_type p =
     rbind (validate_version HANDSHAKE_VERSION) (\<lambda>_.
     rbind (validate_bytes (pa_ephemeral p) X25519_KEY_SIZE) (\<lambda>_.
     rbind (validate_bytes (pa_nonce p) HS_NONCE_SIZE) (\<lambda>_.
     rbind (validate_bytes (pa_identity_public_key p) ED25519_PUBLIC_KEY_SIZE) (\<lambda>_.
     rbind (validate_port (pa_transfer_port p)) (\<lambda>_.
     rbind (validate_port (pa_manifest_port p)) (\<lambda>_.
     rbind (validate_device_id (pa_device_id p)) (\<lambda>device_id_bytes.
     rbind (pack_uint 1 HANDSHAKE_VERSION) (\<lambda>v.
     rbind (pack_uint 1 msg_type) (\<lambda>t.
     rbind (pack_uint 2 (int (length device_id_bytes))) (\<lambda>l.
     rbind (pack_uint 2 (pa_transfer_port p)) (\<lambda>tp.
     rbind (pack_uint 2 (pa_manifest_port p)) (\<lambda>mp.
     Inr ((v @ t) @ pa_ephemeral p @ pa_nonce p @ l @ device_id_bytes @ pa_identity_public_key p @
          (tp @ mp))))))))))))))"

definition encode_hello :: "party \<Rightarrow> bytes result" where
  "encode_hello p = encode_party MSG_HELLO p"

definition encode_reply_body :: "party \<Rightarrow> bytes result" where
  "encode_reply_body p = encode_party MSG_REPLY p"

definition encode_reply :: "party \<Rightarrow> bytes \<Rightarrow> bytes \<Rightarrow> bytes result" where
  "encode_reply p sig_r mac_r =
     rbind (validate_bytes sig_r ED25519_SIGNATURE_SIZE) (\<lambda>_.
     rbind (validate_bytes mac_r MAC_SIZE) (\<lambda>_.
     rbind (encode_reply_body p) (\<lambda>body. Inr (body @ sig_r @ mac_r))))"

definition encode_confirm :: "bytes \<Rightarrow> bytes \<Rightarrow> bytes result" where
  "encode_confirm sig_i mac_i =
     rbind (validate_version HANDSHAKE_VERSION) (\<lambda>_.
     rbind (validate_bytes sig_i ED25519_SIGNATURE_SIZE) (\<lambda>_.
     rbind (validate_bytes mac_i MAC_SIZE) (\<lambda>_.
     rbind (pack_uint 1 HANDSHAKE_VERSION) (\<lambda>v. rbind (pack_uint 1 MSG_CONFIRM) (\<lambda>t.
     Inr ((v @ t) @ sig_i @ mac_i))))))"

definition encode_final :: "int \<Rightarrow> bytes \<Rightarrow> bytes result" where
  "encode_final status mac_f =
     rbind (validate_version HANDSHAKE_VERSION) (\<lambda>_.
     raise_if (status \<noteq> STATUS_ACCEPT \<and> status \<noteq> STATUS_REJECT) validation_err
    (rbind (validate_bytes mac_f MAC_SIZE) (\<lambda>_.
     rbind (pack_uint 1 HANDSHAKE_VERSION) (\<lambda>v. rbind (pack_uint 1 MSG_FINAL) (\<lambda>t.
     rbind (pack_uint 1 status) (\<lambda>s. Inr ((v @ t @ s) @ mac_f)))))))"

section \<open>Decoders\<close>

text \<open>The fields up to the manifest port, common to both decoders, and the offset after them.\<close>

definition decode_party :: "int \<Rightarrow> bytes \<Rightarrow> (party \<times> nat) result" where
  "decode_party msg_type data =
     rbind (validate_msg_type data msg_type) (\<lambda>_.
     rbind (take_field data 2 X25519_KEY_SIZE) (\<lambda>e.
     rbind (take_field data 34 HS_NONCE_SIZE) (\<lambda>n.
     rbind (u16 data 66) (\<lambda>id_len.
     raise_if (\<not> (int MIN_DEVICE_ID_BYTES \<le> id_len \<and> id_len \<le> int MAX_DEVICE_ID_BYTES)) validation_err
    (let off = 68 + nat id_len in
     rbind (take_field data 68 (nat id_len)) (\<lambda>idb.
     rbind (decode_device_id idb) (\<lambda>device_id.
     rbind (take_field data off ED25519_PUBLIC_KEY_SIZE) (\<lambda>identity.
     rbind (u16 data (off + 32)) (\<lambda>transfer_port.
     rbind (u16 data (off + 34)) (\<lambda>manifest_port.
     Inr (\<lparr>pa_ephemeral = e, pa_nonce = n, pa_device_id = device_id, pa_identity_public_key = identity,
           pa_transfer_port = transfer_port, pa_manifest_port = manifest_port\<rparr>, off + 36)))))))))))"

definition decode_hello :: "bytes \<Rightarrow> hello_message result" where
  "decode_hello data =
     rbind (decode_party MSG_HELLO data) (\<lambda>(p, offset).
     raise_if (offset \<noteq> length data) decode_err
    (rbind (validate_port (pa_transfer_port p)) (\<lambda>_.
     rbind (validate_port (pa_manifest_port p)) (\<lambda>_.
     rbind (check_public_key (pa_ephemeral p)) (\<lambda>_.
     Inr \<lparr>hm_version = uint (data ! 0), hm_party = p, hm_raw = data\<rparr>)))))"

definition decode_reply :: "bytes \<Rightarrow> reply_message result" where
  "decode_reply data =
     rbind (decode_party MSG_REPLY data) (\<lambda>(p, body_end).
     rbind (take_field data body_end ED25519_SIGNATURE_SIZE) (\<lambda>sig_r.
     rbind (take_field data (body_end + ED25519_SIGNATURE_SIZE) MAC_SIZE) (\<lambda>mac_r.
     raise_if (body_end + ED25519_SIGNATURE_SIZE + MAC_SIZE \<noteq> length data) decode_err
    (rbind (validate_port (pa_transfer_port p)) (\<lambda>_.
     rbind (validate_port (pa_manifest_port p)) (\<lambda>_.
     rbind (check_public_key (pa_ephemeral p)) (\<lambda>_.
     Inr \<lparr>rm_version = uint (data ! 0), rm_party = p, rm_sig_r = sig_r, rm_mac_r = mac_r,
          rm_body = take body_end data, rm_raw = data\<rparr>)))))))"

definition decode_confirm :: "bytes \<Rightarrow> confirm_message result" where
  "decode_confirm data =
     rbind (validate_msg_type data MSG_CONFIRM) (\<lambda>_.
     rbind (take_field data 2 ED25519_SIGNATURE_SIZE) (\<lambda>sig_i.
     rbind (take_field data (2 + ED25519_SIGNATURE_SIZE) MAC_SIZE) (\<lambda>mac_i.
     raise_if (2 + ED25519_SIGNATURE_SIZE + MAC_SIZE \<noteq> length data) decode_err
    (Inr \<lparr>cm_version = uint (data ! 0), cm_sig_i = sig_i, cm_mac_i = mac_i, cm_raw = data\<rparr>))))"

definition decode_final :: "bytes \<Rightarrow> final_message result" where
  "decode_final data =
     rbind (validate_msg_type data MSG_FINAL) (\<lambda>_.
     rbind (take_field data 2 1) (\<lambda>st.
     (let status = uint (st ! 0) in
     raise_if (status \<noteq> STATUS_ACCEPT \<and> status \<noteq> STATUS_REJECT) validation_err
    (rbind (take_field data 3 MAC_SIZE) (\<lambda>mac_f.
     raise_if (3 + MAC_SIZE \<noteq> length data) decode_err
    (Inr \<lparr>fm_version = uint (data ! 0), fm_status = status, fm_mac_f = mac_f, fm_raw = data\<rparr>))))))"

section \<open>Transcripts\<close>

text \<open>\<^verbatim>\<open>_hash(prefix, *parts)\<close>; the argument of \<open>sha256\<close> is everything the code feeds the digest.\<close>

definition hash_input :: "bytes \<Rightarrow> bytes list \<Rightarrow> bytes result" where
  "hash_input prefix parts = rbind (rmap lp parts) (\<lambda>ps. Inr (prefix @ concat ps))"

definition hash_parts :: "(bytes \<Rightarrow> bytes) \<Rightarrow> bytes \<Rightarrow> bytes list \<Rightarrow> bytes result" where
  "hash_parts sha256 prefix parts = rbind (hash_input prefix parts) (\<lambda>d. Inr (sha256 d))"

definition transcript_t2 :: "(bytes \<Rightarrow> bytes) \<Rightarrow> bytes \<Rightarrow> bytes \<Rightarrow> bytes result" where
  "transcript_t2 sha256 m1 m2body = hash_parts sha256 T1 [m1, m2body]"

definition transcript_t2s :: "(bytes \<Rightarrow> bytes) \<Rightarrow> bytes \<Rightarrow> bytes \<Rightarrow> bytes result" where
  "transcript_t2s sha256 t2 sig_r = hash_parts sha256 t2 [sig_r]"

definition transcript_t3 :: "(bytes \<Rightarrow> bytes) \<Rightarrow> bytes \<Rightarrow> bytes \<Rightarrow> bytes result" where
  "transcript_t3 sha256 t2s mac_r = hash_parts sha256 t2s [mac_r]"

definition transcript_t3s :: "(bytes \<Rightarrow> bytes) \<Rightarrow> bytes \<Rightarrow> bytes \<Rightarrow> bytes result" where
  "transcript_t3s sha256 t3 sig_i = hash_parts sha256 t3 [sig_i]"

definition transcript_final :: "(bytes \<Rightarrow> bytes) \<Rightarrow> bytes \<Rightarrow> bytes \<Rightarrow> bytes result" where
  "transcript_final sha256 t3s mac_i = hash_parts sha256 t3s [mac_i]"

definition transcript_m4_accept :: "(bytes \<Rightarrow> bytes) \<Rightarrow> bytes \<Rightarrow> bytes result" where
  "transcript_m4_accept sha256 t_final = hash_parts sha256 t_final [M4_ACCEPT_LABEL]"

definition transcript_m4_reject :: "(bytes \<Rightarrow> bytes) \<Rightarrow> bytes \<Rightarrow> bytes \<Rightarrow> bytes result" where
  "transcript_m4_reject sha256 t2s m3_raw = hash_parts sha256 t2s [m3_raw, M4_REJECT_LABEL]"

definition signed_responder :: "bytes \<Rightarrow> bytes result" where
  "signed_responder t2 = rbind (lp RESPONDER_SIG_LABEL) (\<lambda>l. Inr (l @ t2))"

definition signed_initiator :: "bytes \<Rightarrow> bytes result" where
  "signed_initiator t2s = rbind (lp INITIATOR_SIG_LABEL) (\<lambda>l. Inr (l @ t2s))"

section \<open>Device ids\<close>

definition valid_device_id :: "pystr \<Rightarrow> bool" where
  "valid_device_id s \<longleftrightarrow>
     (case utf8_encode s of Inl _ \<Rightarrow> False
      | Inr b \<Rightarrow> b \<noteq> [] \<and> length b \<le> MAX_DEVICE_ID_BYTES \<and> \<not> list_ex is_control s)"

lemma validate_device_id_eq_Inr [result_simps]:
  "validate_device_id s = Inr b \<longleftrightarrow>
     utf8_encode s = Inr b \<and> b \<noteq> [] \<and> length b \<le> MAX_DEVICE_ID_BYTES \<and> \<not> list_ex is_control s"
  by (auto simp: validate_device_id_def result_simps split: sum.splits)

lemma decode_device_id_eq_Inr [result_simps]:
  "decode_device_id b = Inr s \<longleftrightarrow>
     utf8_decode b = Inr s \<and> s \<noteq> [] \<and> length b \<le> MAX_DEVICE_ID_BYTES \<and> \<not> list_ex is_control s"
  by (auto simp: decode_device_id_def result_simps split: sum.splits)

lemma utf8_encode_Nil: "utf8_encode s = Inr [] \<longleftrightarrow> s = []"
proof -
  have "utf8_char c \<noteq> []" for c by (simp add: utf8_char_def)
  then show ?thesis by (cases s) (auto simp: utf8_encode_def)
qed

interpretation device_id: codec validate_device_id decode_device_id valid_device_id
proof
  fix s b
  show "\<exists>b. validate_device_id s = Inr b" if "valid_device_id s"
    using that by (auto simp: valid_device_id_def result_simps split: sum.splits)
  have inv: "utf8_encode s = Inr b \<longleftrightarrow> utf8_decode b = Inr s"
  proof
    assume e: "utf8_encode s = Inr b"
    then have "list_all scalar s" by (simp add: utf8_encode_def split: if_splits)
    then show "utf8_decode b = Inr s" using e by (rule utf8.decode_encode)
  next
    assume "utf8_decode b = Inr s"
    then show "utf8_encode s = Inr b" using utf8.decode_canonical by blast
  qed
  have iff: "validate_device_id s = Inr b \<longleftrightarrow> decode_device_id b = Inr s"
  proof (cases "utf8_encode s = Inr b")
    case True
    then have "(b = []) = (s = [])" using utf8_encode_Nil [of s] by (cases s) (auto simp: utf8_encode_def)
    then show ?thesis using True inv by (simp add: validate_device_id_eq_Inr decode_device_id_eq_Inr)
  next
    case False
    then show ?thesis using inv by (simp add: validate_device_id_eq_Inr decode_device_id_eq_Inr)
  qed
  show "decode_device_id b = Inr s" if "valid_device_id s" "validate_device_id s = Inr b" using that iff by simp
  show "valid_device_id s \<and> validate_device_id s = Inr b" if "decode_device_id b = Inr s"
  proof -
    have v: "validate_device_id s = Inr b" using that iff by simp
    then show ?thesis by (simp add: valid_device_id_def validate_device_id_eq_Inr)
  qed
qed

section \<open>The common body\<close>

definition party_bytes :: "int \<Rightarrow> party \<Rightarrow> bytes \<Rightarrow> bytes" where
  "party_bytes msg_type p idb =
     [3, word_of_int msg_type] @ pa_ephemeral p @ pa_nonce p @ be_bytes 2 (length idb) @ idb @
     pa_identity_public_key p @ be_bytes 2 (nat (pa_transfer_port p)) @ be_bytes 2 (nat (pa_manifest_port p))"

definition wf_party :: "party \<Rightarrow> bytes \<Rightarrow> bool" where
  "wf_party p idb \<longleftrightarrow> length (pa_ephemeral p) = 32 \<and> length (pa_nonce p) = 32 \<and>
     length (pa_identity_public_key p) = 32 \<and> validate_device_id (pa_device_id p) = Inr idb"

definition valid_ports :: "party \<Rightarrow> bool" where
  "valid_ports p \<longleftrightarrow> 1 \<le> pa_transfer_port p \<and> pa_transfer_port p \<le> 65535 \<and>
     1 \<le> pa_manifest_port p \<and> pa_manifest_port p \<le> 65535"

lemma pack_byte: "0 \<le> v \<Longrightarrow> v < 256 \<Longrightarrow> be_bytes (Suc 0) (nat v) = [word_of_int v]"
  by (simp add: of_nat_nat)

lemma version_byte: "be_bytes (Suc 0) 3 = [3]"
  by simp

lemma encode_party_eq_Inr:
  assumes "0 \<le> mt" "mt < 256"
  shows "encode_party mt p = Inr bs \<longleftrightarrow> (\<exists>idb. wf_party p idb \<and> valid_ports p \<and> bs = party_bytes mt p idb)"
proof -
  have "length idb < 256 ^ 2" if "validate_device_id d = Inr idb" for d idb
    using that by (simp add: validate_device_id_eq_Inr handshake_sizes)
  then show ?thesis using assms
    by (auto simp: encode_party_def rbind_eq_Inr raise_if_eq_Inr validate_version_def validate_bytes_def
        validate_port_def handshake_codes pack_uint_eq_Inr version_byte pack_byte wf_party_def valid_ports_def
        handshake_sizes party_bytes_def simp del: be_bytes.simps)
qed

text \<open>Reading the field that starts at the end of what precedes it.\<close>

lemma take_field_append:
  "off = length xs \<Longrightarrow> n = length ys \<Longrightarrow> data = xs @ ys @ zs \<Longrightarrow> take_field data off n = Inr ys"
  by (simp add: take_field_def slice_def)

lemma u16_append:
  "off = length xs \<Longrightarrow> v < 256 ^ 2 \<Longrightarrow> data = xs @ be_bytes 2 v @ zs \<Longrightarrow> u16 data off = Inr (int v)"
  by (simp add: u16_def slice_def be_val_be_bytes del: be_bytes.simps)

lemma decode_party_append:
  assumes "wf_party p idb" "valid_ports p" "0 \<le> mt" "mt < 256"
  shows "decode_party mt (party_bytes mt p idb @ rest) = Inr (p, length (party_bytes mt p idb))"
proof -
  let ?e = "pa_ephemeral p" and ?n = "pa_nonce p" and ?i = "pa_identity_public_key p"
  let ?l = "be_bytes 2 (length idb)" and ?tp = "be_bytes 2 (nat (pa_transfer_port p))"
    and ?mp = "be_bytes 2 (nat (pa_manifest_port p))"
  define data where "data = party_bytes mt p idb @ rest"
  have len: "length ?e = 32" "length ?n = 32" "length ?i = 32" "1 \<le> length idb" "length idb \<le> 64"
    and id: "decode_device_id idb = Inr (pa_device_id p)"
    using assms(1) device_id.decode_encode
    by (auto simp: wf_party_def validate_device_id_eq_Inr valid_device_id_def handshake_sizes Suc_le_eq)
  have d: "data = [3, word_of_int mt] @ ?e @ ?n @ ?l @ idb @ ?i @ ?tp @ ?mp @ rest"
    by (simp add: data_def party_bytes_def)
  have h: "validate_msg_type data mt = Inr ()"
    using assms(3,4) by (simp add: d validate_msg_type_def validate_version_def handshake_codes
        uint_pack_low_byte is_byte_def)
  have f1: "take_field data 2 32 = Inr ?e"
    by (rule take_field_append [where xs = "[3, word_of_int mt]"]) (use len d in simp_all)
  have f2: "take_field data 34 32 = Inr ?n"
    by (rule take_field_append [where xs = "[3, word_of_int mt] @ ?e"]) (use len d in simp_all)
  have f3: "u16 data 66 = Inr (int (length idb))"
    by (rule u16_append [where xs = "[3, word_of_int mt] @ ?e @ ?n"]) (use len d in simp_all)
  have f4: "take_field data 68 (length idb) = Inr idb"
    by (rule take_field_append [where xs = "[3, word_of_int mt] @ ?e @ ?n @ ?l"]) (use len d in simp_all)
  have f5: "take_field data (68 + length idb) 32 = Inr ?i"
    by (rule take_field_append [where xs = "[3, word_of_int mt] @ ?e @ ?n @ ?l @ idb"]) (use len d in simp_all)
  have f6: "u16 data (68 + length idb + 32) = Inr (pa_transfer_port p)"
  proof -
    have "u16 data (68 + length idb + 32) = Inr (int (nat (pa_transfer_port p)))"
      by (rule u16_append [where xs = "[3, word_of_int mt] @ ?e @ ?n @ ?l @ idb @ ?i" and zs = "?mp @ rest"])
        (use len d assms(2) in \<open>simp_all add: valid_ports_def nat_less_iff\<close>)
    then show ?thesis using assms(2) by (simp add: valid_ports_def)
  qed
  have f7: "u16 data (68 + length idb + 34) = Inr (pa_manifest_port p)"
  proof -
    have "u16 data (68 + length idb + 34) = Inr (int (nat (pa_manifest_port p)))"
      by (rule u16_append [where xs = "[3, word_of_int mt] @ ?e @ ?n @ ?l @ idb @ ?i @ ?tp" and zs = "rest"])
        (use len d assms(2) in \<open>simp_all add: valid_ports_def nat_less_iff\<close>)
    then show ?thesis using assms(2) by (simp add: valid_ports_def)
  qed
  have "length (party_bytes mt p idb) = 68 + length idb + 36" using len by (simp add: party_bytes_def)
  then show ?thesis
    using len id by (simp only: decode_party_def data_def [symmetric] handshake_sizes Let_def h f1 f2 f3
        rbind_Inr nat_int f4 f5 f6 f7 id) simp
qed

lemma take_field_eq_Inr:
  "take_field data off n = Inr x \<longleftrightarrow> off + n \<le> length data \<and> x = slice off (off + n) data"
  by (auto simp: take_field_def result_simps)

lemma u16_eq_Inr: "u16 data off = Inr v \<longleftrightarrow> off + 2 \<le> length data \<and> v = field off (off + 2) data"
  by (auto simp: u16_def result_simps)

lemma validate_msg_type_eq_Inr:
  "validate_msg_type data mt = Inr u \<longleftrightarrow> 2 \<le> length data \<and> uint (data ! 0) = 3 \<and> uint (data ! 1) = mt"
  by (auto simp: validate_msg_type_def validate_version_def handshake_codes result_simps)

lemma decode_party_Inr:
  assumes "decode_party mt data = Inr (p, off)"
  shows "\<exists>idb. wf_party p idb \<and> take off data = party_bytes mt p idb \<and> off \<le> length data \<and> 2 \<le> length data \<and>
    uint (data ! 0) = 3"
proof -
  let ?k = "nat (field 66 68 data)" and ?o = "68 + nat (field 66 68 data)"
  have h: "2 \<le> length data" "uint (data ! 0) = 3" "uint (data ! 1) = mt" and k: "?k \<le> 64"
    and len: "?o + 36 \<le> length data" and off: "off = ?o + 36"
    and id: "decode_device_id (slice 68 ?o data) = Inr (pa_device_id p)"
    and p: "pa_ephemeral p = slice 2 34 data" "pa_nonce p = slice 34 66 data"
      "pa_identity_public_key p = slice ?o (?o + 32) data"
      "pa_transfer_port p = field (?o + 32) (?o + 34) data" "pa_manifest_port p = field (?o + 34) (?o + 36) data"
    using assms by (auto simp: decode_party_def rbind_eq_Inr raise_if_eq_Inr validate_msg_type_eq_Inr
        take_field_eq_Inr u16_eq_Inr Let_def handshake_sizes add.commute)
  have wf: "wf_party p (slice 68 ?o data)"
    using len device_id.decode_canonical [OF id] by (simp add: wf_party_def p length_slice)
  have "[3, word_of_int mt] = slice 0 2 data"
  proof -
    have "data ! 0 = word_of_int (uint (data ! 0))" by simp
    then have "data ! 0 = 3" unfolding h(2) by simp
    moreover have "data ! 1 = word_of_int mt" unfolding h(3) [symmetric] by simp
    ultimately show ?thesis using h(1)
      by (cases data; cases "tl data") (auto simp: slice_def numeral_2_eq_2)
  qed
  moreover have "length (slice 68 ?o data) = ?k" using len by (simp add: length_slice)
  then have "be_bytes 2 (length (slice 68 ?o data)) = slice 66 68 data"
    using be_bytes_field [of 66 68 data 2] len by simp
  moreover have "be_bytes 2 (nat (pa_transfer_port p)) = slice (?o + 32) (?o + 34) data"
    "be_bytes 2 (nat (pa_manifest_port p)) = slice (?o + 34) (?o + 36) data"
    using be_bytes_field [of "?o + 32" "?o + 34" data 2] be_bytes_field [of "?o + 34" "?o + 36" data 2] len p
    by simp_all
  ultimately have "party_bytes mt p (slice 68 ?o data) = slice 0 off data"
    unfolding party_bytes_def off p(1-3)
    by (simp add: slice_join slice_join_assoc)
  then show ?thesis using wf h len off by (auto simp: slice_zero)
qed

section \<open>The four messages as codecs\<close>

definition valid_party :: "party \<Rightarrow> bool" where
  "valid_party p \<longleftrightarrow> (\<exists>idb. wf_party p idb) \<and> valid_ports p \<and> check_public_key (pa_ephemeral p) = Inr ()"

lemma validate_port_eq_Inr: "validate_port v = Inr u \<longleftrightarrow> 1 \<le> v \<and> v \<le> 65535"
  by (auto simp: validate_port_def handshake_codes result_simps)

lemma validate_bytes_eq_Inr: "validate_bytes v n = Inr u \<longleftrightarrow> length v = n"
  by (auto simp: validate_bytes_def result_simps)

lemma decode_hello_eq_Inr:
  "decode_hello data = Inr m \<longleftrightarrow>
     valid_party (hm_party m) \<and> encode_hello (hm_party m) = Inr data \<and> hm_version m = 3 \<and> hm_raw m = data"
proof
  assume "decode_hello data = Inr m"
  then obtain p where p: "decode_party MSG_HELLO data = Inr (p, length data)"
      "1 \<le> pa_transfer_port p" "pa_transfer_port p \<le> 65535" "1 \<le> pa_manifest_port p" "pa_manifest_port p \<le> 65535"
      "check_public_key (pa_ephemeral p) = Inr ()" and m: "m = \<lparr>hm_version = uint (data ! 0), hm_party = p, hm_raw = data\<rparr>"
    by (auto simp: decode_hello_def rbind_eq_Inr raise_if_eq_Inr validate_port_eq_Inr)
  obtain idb where idb: "wf_party p idb" "take (length data) data = party_bytes MSG_HELLO p idb" "uint (data ! 0) = 3"
    using decode_party_Inr [OF p(1)] by blast
  then have "encode_hello p = Inr data"
    unfolding encode_hello_def using p(2-5) encode_party_eq_Inr [of MSG_HELLO p data]
    by (auto simp: MSG_HELLO_def valid_ports_def)
  then show "valid_party (hm_party m) \<and> encode_hello (hm_party m) = Inr data \<and> hm_version m = 3 \<and> hm_raw m = data"
    using p idb m by (auto simp: valid_party_def valid_ports_def)
next
  assume r: "valid_party (hm_party m) \<and> encode_hello (hm_party m) = Inr data \<and> hm_version m = 3 \<and> hm_raw m = data"
  then obtain idb where idb: "wf_party (hm_party m) idb" "valid_ports (hm_party m)"
      "data = party_bytes MSG_HELLO (hm_party m) idb"
    unfolding encode_hello_def using encode_party_eq_Inr [of MSG_HELLO "hm_party m" data] by (auto simp: MSG_HELLO_def)
  then have "decode_party MSG_HELLO data = Inr (hm_party m, length data)"
    using decode_party_append [of "hm_party m" idb MSG_HELLO "[]"] by (simp add: MSG_HELLO_def)
  moreover have "uint (data ! 0) = 3" by (simp add: idb(3) party_bytes_def)
  ultimately show "decode_hello data = Inr m"
    using r idb(2) by (cases m) (simp add: decode_hello_def validate_port_def handshake_codes valid_ports_def valid_party_def)
qed

lemma decode_reply_eq_Inr:
  "decode_reply data = Inr m \<longleftrightarrow>
     valid_party (rm_party m) \<and> encode_reply (rm_party m) (rm_sig_r m) (rm_mac_r m) = Inr data \<and>
     encode_reply_body (rm_party m) = Inr (rm_body m) \<and> rm_version m = 3 \<and> rm_raw m = data"
proof
  assume "decode_reply data = Inr m"
  then obtain p off where p: "decode_party MSG_REPLY data = Inr (p, off)"
      "1 \<le> pa_transfer_port p" "pa_transfer_port p \<le> 65535" "1 \<le> pa_manifest_port p" "pa_manifest_port p \<le> 65535"
      "check_public_key (pa_ephemeral p) = Inr ()" and len: "off + 96 = length data"
      and m: "m = \<lparr>rm_version = uint (data ! 0), rm_party = p, rm_sig_r = slice off (off + 64) data,
        rm_mac_r = slice (off + 64) (length data) data, rm_body = take off data, rm_raw = data\<rparr>"
    by (auto simp: decode_reply_def rbind_eq_Inr raise_if_eq_Inr validate_port_eq_Inr take_field_eq_Inr
        handshake_sizes add.assoc)
  obtain idb where idb: "wf_party p idb" "take off data = party_bytes MSG_REPLY p idb" "uint (data ! 0) = 3"
    using decode_party_Inr [OF p(1)] by blast
  then have "encode_reply_body p = Inr (take off data)"
    unfolding encode_reply_body_def using p(2-5) encode_party_eq_Inr [of MSG_REPLY p "take off data"]
    by (auto simp: MSG_REPLY_def valid_ports_def)
  moreover have "take off data @ slice off (off + 64) data @ slice (off + 64) (length data) data = data"
    using len by (simp add: slice_join append_slices flip: len)
  ultimately show "valid_party (rm_party m) \<and> encode_reply (rm_party m) (rm_sig_r m) (rm_mac_r m) = Inr data \<and>
     encode_reply_body (rm_party m) = Inr (rm_body m) \<and> rm_version m = 3 \<and> rm_raw m = data"
    using p idb m len
    by (auto simp: valid_party_def valid_ports_def encode_reply_def validate_bytes_def handshake_sizes length_slice)
next
  assume r: "valid_party (rm_party m) \<and> encode_reply (rm_party m) (rm_sig_r m) (rm_mac_r m) = Inr data \<and>
     encode_reply_body (rm_party m) = Inr (rm_body m) \<and> rm_version m = 3 \<and> rm_raw m = data"
  then have d: "data = rm_body m @ rm_sig_r m @ rm_mac_r m" "length (rm_sig_r m) = 64" "length (rm_mac_r m) = 32"
    by (auto simp: encode_reply_def rbind_eq_Inr validate_bytes_eq_Inr handshake_sizes)
  from r obtain idb where idb: "wf_party (rm_party m) idb" "valid_ports (rm_party m)"
      "rm_body m = party_bytes MSG_REPLY (rm_party m) idb"
    unfolding encode_reply_body_def using encode_party_eq_Inr [of MSG_REPLY "rm_party m" "rm_body m"]
    by (auto simp: MSG_REPLY_def)
  then have dp: "decode_party MSG_REPLY data = Inr (rm_party m, length (rm_body m))"
    using decode_party_append [of "rm_party m" idb MSG_REPLY "rm_sig_r m @ rm_mac_r m"] d by (simp add: MSG_REPLY_def)
  have v: "uint (data ! 0) = 3" by (simp add: d(1) idb(3) party_bytes_def)
  have f: "take_field data (length (rm_body m)) 64 = Inr (rm_sig_r m)"
      "take_field data (length (rm_body m) + 64) 32 = Inr (rm_mac_r m)"
    using take_field_append [of _ "rm_body m" 64 "rm_sig_r m" data "rm_mac_r m"]
      take_field_append [of _ "rm_body m @ rm_sig_r m" 32 "rm_mac_r m" data "[]"] d by simp_all
  show "decode_reply data = Inr m"
    using r idb(2) v dp f d
    by (cases m) (simp add: decode_reply_def validate_port_def handshake_codes handshake_sizes valid_ports_def valid_party_def)
qed

lemma header2:
  assumes "2 \<le> length data" "uint (data ! 0) = 3" "uint (data ! 1) = mt"
  shows "slice 0 2 data = [3, word_of_int mt]"
proof -
  have "data ! 0 = word_of_int (uint (data ! 0))" by simp
  then have "data ! 0 = 3" unfolding assms(2) by simp
  moreover have "data ! 1 = word_of_int mt" unfolding assms(3) [symmetric] by simp
  ultimately show ?thesis using assms(1)
    by (cases data; cases "tl data") (auto simp: slice_def numeral_2_eq_2)
qed

lemma decode_confirm_eq_Inr:
  "decode_confirm data = Inr m \<longleftrightarrow>
     encode_confirm (cm_sig_i m) (cm_mac_i m) = Inr data \<and> cm_version m = 3 \<and> cm_raw m = data"
proof
  assume "decode_confirm data = Inr m"
  then have *: "2 \<le> length data" "uint (data ! 0) = 3" "uint (data ! 1) = 3" "98 = length data"
      "m = \<lparr>cm_version = uint (data ! 0), cm_sig_i = slice 2 66 data, cm_mac_i = slice 66 98 data, cm_raw = data\<rparr>"
    by (auto simp: decode_confirm_def rbind_eq_Inr raise_if_eq_Inr validate_msg_type_eq_Inr take_field_eq_Inr
        handshake_sizes MSG_CONFIRM_def)
  have "[3, 3] @ slice 2 66 data @ slice 66 98 data = data"
    using header2 [OF *(1-3)] *(4) by (simp add: slice_join slice_all flip: header2 [OF *(1-3), simplified])
  with * show "encode_confirm (cm_sig_i m) (cm_mac_i m) = Inr data \<and> cm_version m = 3 \<and> cm_raw m = data"
    by (simp add: encode_confirm_def validate_version_def validate_bytes_def pack_uint_def handshake_codes
        handshake_sizes length_slice)
next
  assume r: "encode_confirm (cm_sig_i m) (cm_mac_i m) = Inr data \<and> cm_version m = 3 \<and> cm_raw m = data"
  then have d: "data = [3, 3] @ cm_sig_i m @ cm_mac_i m" "length (cm_sig_i m) = 64" "length (cm_mac_i m) = 32"
    by (auto simp: encode_confirm_def rbind_eq_Inr validate_bytes_eq_Inr pack_uint_eq_Inr handshake_sizes handshake_codes)
  have "take_field data 2 64 = Inr (cm_sig_i m)" "take_field data 66 32 = Inr (cm_mac_i m)"
    using take_field_append [of 2 "[3, 3]" 64 "cm_sig_i m" data "cm_mac_i m"]
      take_field_append [of 66 "[3, 3] @ cm_sig_i m" 32 "cm_mac_i m" data "[]"] d by simp_all
  then show "decode_confirm data = Inr m"
    using r d by (cases m) (simp add: decode_confirm_def validate_msg_type_def validate_version_def
        handshake_sizes handshake_codes)
qed

lemma decode_final_eq_Inr:
  "decode_final data = Inr m \<longleftrightarrow>
     encode_final (fm_status m) (fm_mac_f m) = Inr data \<and> fm_version m = 3 \<and> fm_raw m = data"
proof
  assume "decode_final data = Inr m"
  then have *: "2 \<le> length data" "uint (data ! 0) = 3" "uint (data ! 1) = 4" "35 = length data"
      "m = \<lparr>fm_version = uint (data ! 0), fm_status = uint (slice 2 3 data ! 0), fm_mac_f = slice 3 35 data, fm_raw = data\<rparr>"
      "uint (slice 2 3 data ! 0) = 0 \<or> uint (slice 2 3 data ! 0) = 1"
    by (auto simp: decode_final_def rbind_eq_Inr raise_if_eq_Inr validate_msg_type_eq_Inr take_field_eq_Inr
        handshake_sizes handshake_codes Let_def)
  have "length (slice 2 3 data) = 1" using *(4) by (simp add: length_slice)
  then have "slice 2 3 data = [slice 2 3 data ! 0]" by (cases "slice 2 3 data") auto
  then have s: "slice 2 3 data = [word_of_int (uint (slice 2 3 data ! 0))]" by simp
  have "[3, 4] @ [word_of_int (uint (slice 2 3 data ! 0))] @ slice 3 35 data = data"
    unfolding s [symmetric] using header2 [OF *(1-3)] *(4)
    by (simp add: slice_join slice_all flip: header2 [OF *(1-3), simplified])
  with * show "encode_final (fm_status m) (fm_mac_f m) = Inr data \<and> fm_version m = 3 \<and> fm_raw m = data"
    by (auto simp: encode_final_def validate_version_def validate_bytes_def pack_uint_def handshake_codes
        handshake_sizes length_slice unat_byte_mod)
next
  assume r: "encode_final (fm_status m) (fm_mac_f m) = Inr data \<and> fm_version m = 3 \<and> fm_raw m = data"
  then have d: "data = [3, 4] @ [word_of_int (fm_status m)] @ fm_mac_f m" "length (fm_mac_f m) = 32"
      "fm_status m = 0 \<or> fm_status m = 1"
    by (auto simp: encode_final_def rbind_eq_Inr raise_if_eq_Inr validate_bytes_eq_Inr pack_uint_eq_Inr
        handshake_sizes handshake_codes)
  have "take_field data 2 1 = Inr [word_of_int (fm_status m)]" "take_field data 3 32 = Inr (fm_mac_f m)"
    using take_field_append [of 2 "[3, 4]" 1 "[word_of_int (fm_status m)]" data "fm_mac_f m"]
      take_field_append [of 3 "[3, 4] @ [word_of_int (fm_status m)]" 32 "fm_mac_f m" data "[]"] d by simp_all
  then show "decode_final data = Inr m"
    using r d by (cases m) (auto simp: decode_final_def validate_msg_type_def validate_version_def
        handshake_sizes handshake_codes)
qed

text \<open>The decoders return the raw bytes besides the fields; the codecs are about the fields.\<close>

definition hello_fields :: "bytes \<Rightarrow> party result" where
  "hello_fields data = rbind (decode_hello data) (\<lambda>m. Inr (hm_party m))"

definition reply_fields :: "bytes \<Rightarrow> (party \<times> bytes \<times> bytes) result" where
  "reply_fields data = rbind (decode_reply data) (\<lambda>m. Inr (rm_party m, rm_sig_r m, rm_mac_r m))"

definition valid_reply :: "party \<times> bytes \<times> bytes \<Rightarrow> bool" where
  "valid_reply = (\<lambda>(p, sig, mac). valid_party p \<and> length sig = 64 \<and> length mac = 32)"

lemma encode_party_total:
  assumes "valid_party p" "0 \<le> mt" "mt < 256"
  shows "\<exists>bs. encode_party mt p = Inr bs"
  using assms encode_party_eq_Inr [OF assms(2,3)] by (auto simp: valid_party_def)

interpretation hello_codec: codec encode_hello hello_fields valid_party
proof
  fix p bs
  show "\<exists>bs. encode_hello p = Inr bs" if "valid_party p"
    using encode_party_total [OF that] by (simp add: encode_hello_def MSG_HELLO_def)
  show "hello_fields bs = Inr p" if "valid_party p" "encode_hello p = Inr bs"
    using that decode_hello_eq_Inr [of bs "\<lparr>hm_version = 3, hm_party = p, hm_raw = bs\<rparr>"]
    by (simp add: hello_fields_def)
  show "valid_party p \<and> encode_hello p = Inr bs" if "hello_fields bs = Inr p"
    using that by (auto simp: hello_fields_def rbind_eq_Inr decode_hello_eq_Inr)
qed

interpretation reply_codec: codec "\<lambda>(p, sig, mac). encode_reply p sig mac" reply_fields valid_reply
proof
  fix x :: "party \<times> bytes \<times> bytes" and bs
  obtain p sig mac where x: "x = (p, sig, mac)" by (cases x)
  have e: "\<exists>b. encode_reply_body p = Inr b" if "valid_party p"
    using encode_party_total [OF that] by (simp add: encode_reply_body_def MSG_REPLY_def)
  show "\<exists>bs. (case x of (p, sig, mac) \<Rightarrow> encode_reply p sig mac) = Inr bs" if "valid_reply x"
    using that e by (auto simp: x valid_reply_def encode_reply_def validate_bytes_def handshake_sizes)
  show "reply_fields bs = Inr x" if r: "valid_reply x" "(case x of (p, sig, mac) \<Rightarrow> encode_reply p sig mac) = Inr bs"
  proof -
    obtain b where b: "encode_reply_body p = Inr b" using r(1) e by (auto simp: x valid_reply_def)
    show ?thesis
      using r b decode_reply_eq_Inr [of bs "\<lparr>rm_version = 3, rm_party = p, rm_sig_r = sig, rm_mac_r = mac, rm_body = b, rm_raw = bs\<rparr>"]
      by (simp add: x reply_fields_def valid_reply_def)
  qed
  show "valid_reply x \<and> (case x of (p, sig, mac) \<Rightarrow> encode_reply p sig mac) = Inr bs" if "reply_fields bs = Inr x"
    using that by (auto simp: x reply_fields_def rbind_eq_Inr decode_reply_eq_Inr valid_reply_def encode_reply_def
        validate_bytes_eq_Inr handshake_sizes)
qed

section \<open>Transcripts bind the messages\<close>

lemma lp_eq_Inr [result_simps]: "lp v = Inr b \<longleftrightarrow> length v < 256 ^ 2 \<and> b = prefix16 v"
  using length_prefixed_eq_Inr [of v b] by (cases "length_prefixed v") (simp_all add: lp_def)

lemma hash_input_one [result_simps]:
  "hash_input prefix [v] = Inr d \<longleftrightarrow> length v < 256 ^ 2 \<and> d = prefix @ prefix16 v"
  by (auto simp: hash_input_def result_simps)

lemma hash_input_two [result_simps]:
  "hash_input prefix [v, w] = Inr d \<longleftrightarrow>
     length v < 256 ^ 2 \<and> length w < 256 ^ 2 \<and> d = prefix @ prefix16 v @ prefix16 w"
  by (auto simp: hash_input_def result_simps)

lemma hash_input_one_inject:
  assumes "hash_input p [v] = Inr d" "hash_input p' [v'] = Inr d" "length p = length p'"
  shows "p = p' \<and> v = v'"
  using assms prefix16_cancel [of v "[]" v' "[]"] by (auto simp: result_simps)

lemma hash_input_two_inject:
  assumes "hash_input p [v, w] = Inr d" "hash_input p' [v', w'] = Inr d" "length p = length p'"
  shows "p = p' \<and> v = v' \<and> w = w'"
  using assms prefix16_cancel [of v "prefix16 w" v' "prefix16 w'"] prefix16_cancel [of w "[]" w' "[]"]
  by (auto simp: result_simps)

lemma hash_parts_eq_Inr: "hash_parts h p ps = Inr t \<longleftrightarrow> (\<exists>d. hash_input p ps = Inr d \<and> t = h d)"
  by (auto simp: hash_parts_def result_simps)

text \<open>The chain from the first message to the final transcript, as both ends compute it.\<close>

definition transcript_chain ::
  "(bytes \<Rightarrow> bytes) \<Rightarrow> bytes \<Rightarrow> bytes \<Rightarrow> bytes \<Rightarrow> bytes \<Rightarrow> bytes \<Rightarrow> bytes \<Rightarrow> bytes result" where
  "transcript_chain sha256 m1 m2body sig_r mac_r sig_i mac_i =
     rbind (transcript_t2 sha256 m1 m2body) (\<lambda>t2.
     rbind (transcript_t2s sha256 t2 sig_r) (\<lambda>t2s.
     rbind (transcript_t3 sha256 t2s mac_r) (\<lambda>t3.
     rbind (transcript_t3s sha256 t3 sig_i) (\<lambda>t3s.
     transcript_final sha256 t3s mac_i))))"

definition collision :: "(bytes \<Rightarrow> bytes) \<Rightarrow> bool" where
  "collision h \<longleftrightarrow> (\<exists>x y. x \<noteq> y \<and> h x = h y)"

lemma hash_one_agree:
  assumes "hash_parts h p [v] = Inr t" "hash_parts h p' [v'] = Inr t" "length p = length p'" "\<not> collision h"
  shows "p = p' \<and> v = v'"
  using assms hash_input_one_inject unfolding hash_parts_eq_Inr collision_def by metis

lemma hash_two_agree:
  assumes "hash_parts h p [v, w] = Inr t" "hash_parts h p' [v', w'] = Inr t" "length p = length p'" "\<not> collision h"
  shows "p = p' \<and> v = v' \<and> w = w'"
  using assms hash_input_two_inject unfolding hash_parts_eq_Inr collision_def by metis

lemma hash_parts_length: "\<forall>x. length (h x) = 32 \<Longrightarrow> hash_parts h p ps = Inr t \<Longrightarrow> length t = 32"
  by (auto simp: hash_parts_eq_Inr)

section \<open>Properties\<close>

text \<open>
  HELLO and REPLY have exactly one encoding. Decoding what was encoded returns the same fields;
  and whenever a decoder accepts bytes, the fields satisfy every validation rule (sizes, ports in
  1..65535, a device id of 1 to 64 bytes of UTF-8 without control characters, an ephemeral key that is not a
  low-order point), the version is 3, the retained raw bytes are the input, for REPLY the body is
  what the responder signs, and encoding the fields again gives back the very same bytes.
\<close>

theorem handshake_message_canonical:
  "(valid_party p \<longrightarrow> encode_hello p = Inr bs \<longrightarrow> decode_hello bs = Inr \<lparr>hm_version = 3, hm_party = p, hm_raw = bs\<rparr>) \<and>
   (decode_hello bs = Inr m \<longrightarrow> valid_party (hm_party m) \<and> encode_hello (hm_party m) = Inr bs \<and>
      hm_version m = 3 \<and> hm_raw m = bs) \<and>
   (valid_reply (p, sig, mac) \<longrightarrow> encode_reply p sig mac = Inr bs \<longrightarrow> reply_fields bs = Inr (p, sig, mac)) \<and>
   (decode_reply bs = Inr r \<longrightarrow> valid_party (rm_party r) \<and>
      encode_reply (rm_party r) (rm_sig_r r) (rm_mac_r r) = Inr bs \<and>
      encode_reply_body (rm_party r) = Inr (rm_body r) \<and> rm_version r = 3 \<and> rm_raw r = bs)"
  using decode_hello_eq_Inr [of bs "\<lparr>hm_version = 3, hm_party = p, hm_raw = bs\<rparr>"] decode_hello_eq_Inr [of bs m]
    reply_codec.decode_encode [of "(p, sig, mac)" bs] decode_reply_eq_Inr [of bs r]
  by simp

definition sample_party :: party where
  "sample_party = \<lparr>pa_ephemeral = replicate 32 9, pa_nonce = replicate 32 1, pa_device_id = codes ''alice'',
     pa_identity_public_key = replicate 32 2, pa_transfer_port = 7001, pa_manifest_port = 7002\<rparr>"

lemma last_be_bytes: "0 < n \<Longrightarrow> last (be_bytes n v) = word_of_nat (v mod 256)"
  by (cases n) simp_all

lemma low_order_last: "x \<in> set LOW_ORDER_POINTS \<Longrightarrow> last x \<in> {0, 0x57, 0x7f}"
  by (auto simp: LOW_ORDER_POINTS_def last_be_bytes simp del: be_bytes.simps)

lemma valid_sample_party: "valid_party sample_party"
proof -
  have w: "wf_party sample_party (byte_lit ''alice'')"
    by (simp add: wf_party_def sample_party_def validate_device_id_def utf8_encode_def codes_def byte_lit_def
        scalar_def utf8_char_def is_control_def handshake_sizes)
  have "replicate 32 (9 :: byte) \<notin> set LOW_ORDER_POINTS"
    using low_order_last [of "replicate 32 9"] by auto
  then have "check_public_key (pa_ephemeral sample_party) = Inr ()"
    by (simp add: check_public_key_def sample_party_def X25519_KEY_SIZE_def)
  then show ?thesis using w by (auto simp: valid_party_def valid_ports_def sample_party_def)
qed

theorem handshake_message_canonical_witness:
  "\<exists>bs. encode_hello sample_party = Inr bs \<and>
     decode_hello bs = Inr \<lparr>hm_version = 3, hm_party = sample_party, hm_raw = bs\<rparr>"
proof -
  obtain bs where "encode_hello sample_party = Inr bs" using hello_codec.encode_total [OF valid_sample_party] by blast
  then show ?thesis
    using handshake_message_canonical [of sample_party bs undefined "[]" "[]" undefined] valid_sample_party by blast
qed



end
