(* ===== verification/Handshake_Keys.thy ===== *)
theory Handshake_Keys
  imports Handshake_Messages
begin

text \<open>
  \<^verbatim>\<open>networking/handshake_keys.py\<close>: the handshake's secrets and the key-confirmation MACs. HKDF-SHA256 and
  HMAC-SHA256 are the arguments \<open>hkdf\<close> and \<open>hmac\<close>; \<^verbatim>\<open>hmac.compare_digest\<close> is equality.
\<close>

definition SECRET_SIZE :: nat where "SECRET_SIZE = 32"
definition TRANSCRIPT_SIZE :: nat where "TRANSCRIPT_SIZE = 32"
definition HS_MASTER_INFO :: bytes where "HS_MASTER_INFO = byte_lit ''securesync-1e-master''"
definition RESPONDER_CONFIRM_INFO :: bytes where "RESPONDER_CONFIRM_INFO = byte_lit ''securesync-1e-kr''"
definition INITIATOR_CONFIRM_INFO :: bytes where "INITIATOR_CONFIRM_INFO = byte_lit ''securesync-1e-ki''"
definition HS_SESSION_ID_INFO :: bytes where "HS_SESSION_ID_INFO = byte_lit ''securesync-1e-sid''"

record handshake_secrets =
  hs_master :: bytes
  hs_responder_confirmation_key :: bytes
  hs_initiator_confirmation_key :: bytes
  hs_session_id :: bytes
  hs_i2r_key :: bytes
  hs_r2i_key :: bytes

definition require_size :: "bytes \<Rightarrow> nat \<Rightarrow> unit result" where
  "require_size value n = raise_if (length value \<noteq> n) (Protocol HandshakeKeyError) (Inr ())"

text \<open>Of the two messages the code reads the nonces, device ids and ephemeral keys.\<close>

definition derive_handshake_secrets ::
  "hkdf \<Rightarrow> bytes \<Rightarrow> party \<Rightarrow> party \<Rightarrow> bytes \<Rightarrow> handshake_secrets result" where
  "derive_handshake_secrets hkdf shared_secret hello reply t2 =
     rbind (require_size shared_secret X25519_KEY_SIZE) (\<lambda>_.
     rbind (check_shared_secret shared_secret) (\<lambda>_.
     rbind (require_size t2 TRANSCRIPT_SIZE) (\<lambda>_.
     rbind (require_size (pa_nonce hello) HS_NONCE_SIZE) (\<lambda>_.
     rbind (require_size (pa_nonce reply) HS_NONCE_SIZE) (\<lambda>_.
     rbind (length_prefixed (pa_nonce hello)) (\<lambda>ni.
     rbind (length_prefixed (pa_nonce reply)) (\<lambda>nr.
     rbind (length_prefixed HS_MASTER_INFO) (\<lambda>lm.
     (let master = hkdf shared_secret (ni @ nr) (lm @ t2) SECRET_SIZE in
     rbind (length_prefixed RESPONDER_CONFIRM_INFO) (\<lambda>lr.
     rbind (length_prefixed INITIATOR_CONFIRM_INFO) (\<lambda>li.
     rbind (length_prefixed HS_SESSION_ID_INFO) (\<lambda>ls.
     (let responder_confirmation_key = hkdf master [] lr SECRET_SIZE;
          initiator_confirmation_key = hkdf master [] li SECRET_SIZE;
          session_id = hkdf master [] ls SESSION_ID_SIZE in
     rbind (derive_directional_keys hkdf master (pa_device_id hello) (pa_device_id reply) session_id
              (pa_ephemeral hello) (pa_ephemeral reply)) (\<lambda>(i2r, r2i).
     Inr \<lparr>hs_master = master, hs_responder_confirmation_key = responder_confirmation_key,
          hs_initiator_confirmation_key = initiator_confirmation_key, hs_session_id = session_id,
          hs_i2r_key = i2r, hs_r2i_key = r2i\<rparr>))))))))))))))"

definition keys_for_role :: "handshake_secrets \<Rightarrow> int \<Rightarrow> session_keys result" where
  "keys_for_role secrets role =
     rbind (require_size (hs_session_id secrets) SESSION_ID_SIZE) (\<lambda>_.
     if role = ROLE_INITIATOR then
       Inr \<lparr>sk_session_id = hs_session_id secrets, sk_send_key = hs_i2r_key secrets,
            sk_receive_key = hs_r2i_key secrets, sk_role = role\<rparr>
     else if role = ROLE_RESPONDER then
       Inr \<lparr>sk_session_id = hs_session_id secrets, sk_send_key = hs_r2i_key secrets,
            sk_receive_key = hs_i2r_key secrets, sk_role = role\<rparr>
     else Inl (Protocol HandshakeKeyError))"

type_synonym hmac = "bytes \<Rightarrow> bytes \<Rightarrow> bytes"

definition confirmation_mac :: "hmac \<Rightarrow> bytes \<Rightarrow> bytes \<Rightarrow> bytes result" where
  "confirmation_mac hmac key transcript =
     rbind (require_size key KEY_SIZE) (\<lambda>_.
     rbind (require_size transcript TRANSCRIPT_SIZE) (\<lambda>_.
     Inr (hmac key transcript)))"

definition verify_confirmation_mac :: "hmac \<Rightarrow> bytes \<Rightarrow> bytes \<Rightarrow> bytes \<Rightarrow> unit result" where
  "verify_confirmation_mac hmac key transcript received =
     rbind (require_size received MAC_SIZE) (\<lambda>_.
     rbind (confirmation_mac hmac key transcript) (\<lambda>expected.
     raise_if (expected \<noteq> received) (Protocol KeyConfirmationError) (Inr ())))"

section \<open>Lemmas\<close>

lemma require_size_eq_Inr [result_simps]: "require_size v n = Inr u \<longleftrightarrow> length v = n"
  by (auto simp: require_size_def result_simps)

lemma confirmation_mac_eq_Inr [result_simps]:
  "confirmation_mac hmac key t = Inr m \<longleftrightarrow> length key = KEY_SIZE \<and> length t = TRANSCRIPT_SIZE \<and> m = hmac key t"
  by (auto simp: confirmation_mac_def rbind_eq_Inr require_size_eq_Inr)

lemma verify_confirmation_mac_eq_Inr [result_simps]:
  "verify_confirmation_mac hmac key t r = Inr u \<longleftrightarrow>
     length r = MAC_SIZE \<and> length key = KEY_SIZE \<and> length t = TRANSCRIPT_SIZE \<and> r = hmac key t"
  by (auto simp: verify_confirmation_mac_def rbind_eq_Inr require_size_eq_Inr confirmation_mac_eq_Inr raise_if_eq_Inr)

lemma handshake_label_lengths [simp]:
  "length HS_MASTER_INFO = 20" "length RESPONDER_CONFIRM_INFO = 16" "length INITIATOR_CONFIRM_INFO = 16"
  "length HS_SESSION_ID_INFO = 17"
  by (simp_all add: HS_MASTER_INFO_def RESPONDER_CONFIRM_INFO_def INITIATOR_CONFIRM_INFO_def HS_SESSION_ID_INFO_def)

lemma length_prefixed_Inr: "length x < 65536 \<Longrightarrow> length_prefixed x = Inr (prefix16 x)"
  using length_prefixed_eq_Inr [of x "prefix16 x"] by simp

lemma wf_party_facts:
  assumes "wf_party p idb"
  shows "utf8_encode (pa_device_id p) = Inr idb" "length idb < 65536" "length (pa_ephemeral p) = 32" "length (pa_nonce p) = 32"
    "length (pa_identity_public_key p) = 32"
  using assms by (auto simp: wf_party_def validate_device_id_eq_Inr handshake_sizes)

text \<open>With a full-length secret and valid messages the derivation succeeds, and its parts have their sizes.\<close>

lemma derive_handshake_secrets_total:
  assumes "hkdf_length hkdf" "length z = 32" "z \<noteq> replicate 32 0" "length t2 = 32"
    and h: "wf_party h hb" and r: "wf_party r rb"
  shows "\<exists>s. derive_handshake_secrets hkdf z h r t2 = Inr s \<and> length (hs_session_id s) = SESSION_ID_SIZE \<and>
    length (hs_responder_confirmation_key s) = KEY_SIZE \<and> length (hs_initiator_confirmation_key s) = KEY_SIZE \<and>
    length (hs_i2r_key s) = KEY_SIZE \<and> length (hs_r2i_key s) = KEY_SIZE"
  using assms(1-4) wf_party_facts [OF h] wf_party_facts [OF r]
  by (simp add: derive_handshake_secrets_def require_size_def check_shared_secret_def handshake_sizes
      TRANSCRIPT_SIZE_def length_prefixed_Inr derive_directional_keys_def common_info_def lp_str_def
      hkdf_length_def Let_def SECRET_SIZE_def KEY_SIZE_def)

lemma keys_for_role_Inr:
  "length (hs_session_id s) = SESSION_ID_SIZE \<Longrightarrow>
   keys_for_role s ROLE_INITIATOR = Inr \<lparr>sk_session_id = hs_session_id s, sk_send_key = hs_i2r_key s,
      sk_receive_key = hs_r2i_key s, sk_role = ROLE_INITIATOR\<rparr> \<and>
   keys_for_role s ROLE_RESPONDER = Inr \<lparr>sk_session_id = hs_session_id s, sk_send_key = hs_r2i_key s,
      sk_receive_key = hs_i2r_key s, sk_role = ROLE_RESPONDER\<rparr>"
  by (simp add: keys_for_role_def require_size_def role_defs)

end
