(* ===== verification/Rate_Limit.thy ===== *)
theory Rate_Limit
  imports Prelude
begin

text \<open>
  \<^verbatim>\<open>networking/handshake_rate_limit.py\<close>: the sliding-window limiter per source address and the
  process-wide token bucket. The clocks are arguments; times and token counts are reals.
\<close>

section \<open>Sliding window per source\<close>

definition MAX_HANDSHAKES_PER_IP :: int where "MAX_HANDSHAKES_PER_IP = 30"
definition HANDSHAKE_RATE_WINDOW_S :: real where "HANDSHAKE_RATE_WINDOW_S = 60"

record ip_limiter =
  il_max :: int
  il_window :: real
  il_attempts :: "(pystr, real list) dict"

definition mk_SourceIpRateLimiter :: "int \<Rightarrow> real \<Rightarrow> ip_limiter result" where
  "mk_SourceIpRateLimiter max_attempts window_s =
     raise_if (max_attempts \<le> 0) (Py ValueError)
    (raise_if (window_s \<le> 0) (Py ValueError)
    (Inr \<lparr>il_max = max_attempts, il_window = window_s, il_attempts = []\<rparr>))"

definition attempts_of :: "ip_limiter \<Rightarrow> pystr \<Rightarrow> real list" where
  "attempts_of l ip = (case dict_get (il_attempts l) ip of None \<Rightarrow> [] | Some ts \<Rightarrow> ts)"

definition ip_allow :: "real \<Rightarrow> pystr \<Rightarrow> ip_limiter \<Rightarrow> bool \<times> ip_limiter" where
  "ip_allow now source_ip l =
     (let cutoff = now - il_window l;
          times = filter (\<lambda>t. t > cutoff) (attempts_of l source_ip)
      in if int (length times) \<ge> il_max l
         then (False, l\<lparr>il_attempts := dict_set source_ip times (il_attempts l)\<rparr>)
         else (True, l\<lparr>il_attempts := dict_set source_ip (times @ [now]) (il_attempts l)\<rparr>))"

definition ip_reset :: "pystr option \<Rightarrow> ip_limiter \<Rightarrow> ip_limiter" where
  "ip_reset source_ip l =
     (case source_ip of
        None \<Rightarrow> l\<lparr>il_attempts := []\<rparr>
      | Some ip \<Rightarrow> l\<lparr>il_attempts := dict_pop ip (il_attempts l)\<rparr>)"

definition ip_prune :: "real \<Rightarrow> ip_limiter \<Rightarrow> nat \<times> ip_limiter" where
  "ip_prune now l =
     (let cutoff = now - il_window l;
          stale = map fst (filter (\<lambda>(ip, times). \<not> list_ex (\<lambda>t. t > cutoff) times) (il_attempts l))
      in (length stale, l\<lparr>il_attempts := fold dict_pop stale (il_attempts l)\<rparr>))"

section \<open>Token bucket\<close>

definition MAX_HANDSHAKES_GLOBAL_PER_S :: real where "MAX_HANDSHAKES_GLOBAL_PER_S = 200"
definition GLOBAL_HANDSHAKE_BURST :: real where "GLOBAL_HANDSHAKE_BURST = 400"

record token_bucket =
  tb_rate :: real
  tb_burst :: real
  tb_tokens :: real
  tb_last :: real

definition mk_GlobalHandshakeLimiter :: "real \<Rightarrow> real \<Rightarrow> real \<Rightarrow> token_bucket result" where
  "mk_GlobalHandshakeLimiter rate_per_s burst now =
     raise_if (rate_per_s \<le> 0) (Py ValueError)
    (raise_if (burst \<le> 0) (Py ValueError)
    (Inr \<lparr>tb_rate = rate_per_s, tb_burst = burst, tb_tokens = burst, tb_last = now\<rparr>))"

definition refill :: "real \<Rightarrow> token_bucket \<Rightarrow> token_bucket" where
  "refill now b =
     (let elapsed = max 0 (now - tb_last b)
      in b\<lparr>tb_last := now, tb_tokens := min (tb_burst b) (tb_tokens b + elapsed * tb_rate b)\<rparr>)"

definition bucket_tokens :: "real \<Rightarrow> token_bucket \<Rightarrow> real \<times> token_bucket" where
  "bucket_tokens now b = (let b1 = refill now b in (tb_tokens b1, b1))"

definition bucket_allow :: "real \<Rightarrow> token_bucket \<Rightarrow> bool \<times> token_bucket" where
  "bucket_allow now b =
     (let b1 = refill now b
      in if tb_tokens b1 < 1 then (False, b1) else (True, b1\<lparr>tb_tokens := tb_tokens b1 - 1\<rparr>))"

section \<open>Runs of the sliding window\<close>

text \<open>A sequence of calls, each with the clock reading and the source; the admitted calls.\<close>

fun ip_run :: "(real \<times> pystr) list \<Rightarrow> ip_limiter \<Rightarrow> (real \<times> pystr) list \<times> ip_limiter" where
  "ip_run [] l = ([], l)"
| "ip_run ((now, ip) # cs) l =
     (let (ok, l1) = ip_allow now ip l; (oks, l2) = ip_run cs l1
      in (if ok then (now, ip) # oks else oks, l2))"

abbreviation times_for :: "pystr \<Rightarrow> (real \<times> pystr) list \<Rightarrow> real list" where
  "times_for ip cs \<equiv> map fst (filter (\<lambda>c. snd c = ip) cs)"

text \<open>
  What the limiter holds of a history \<open>h\<close> of admitted calls: for every source the admission times
  of the last window, seen from the latest clock reading.
\<close>

definition holds_recent :: "real \<Rightarrow> (real \<times> pystr) list \<Rightarrow> ip_limiter \<Rightarrow> bool" where
  "holds_recent newest h l \<longleftrightarrow>
     (\<forall>ip. \<exists>c \<le> newest - il_window l. attempts_of l ip = filter (\<lambda>t. t > c) (times_for ip h)) \<and>
     (\<forall>t\<in>set (map fst h). t \<le> newest)"

lemma attempts_of_set: "attempts_of (l\<lparr>il_attempts := dict_set ip ts (il_attempts l)\<rparr>) k =
    (if k = ip then ts else attempts_of l k)"
  by (simp add: attempts_of_def)

lemma filter_recent: "c \<le> c' \<Longrightarrow> filter (\<lambda>t. t > c') (filter (\<lambda>t. t > c) ts) = filter (\<lambda>t. t > c') (ts :: real list)"
  by (auto intro: filter_cong)

lemma ip_allow_window [simp]: "il_window (snd (ip_allow now ip l)) = il_window l"
    "il_max (snd (ip_allow now ip l)) = il_max l"
  by (simp_all add: ip_allow_def Let_def)

lemma ip_allow_step:
  assumes "holds_recent newest h l" "newest \<le> now" "0 < il_window l"
  shows "fst (ip_allow now ip l) \<longleftrightarrow> int (length (filter (\<lambda>t. t > now - il_window l) (times_for ip h))) < il_max l"
    and "holds_recent now (if fst (ip_allow now ip l) then h @ [(now, ip)] else h) (snd (ip_allow now ip l))"
proof -
  obtain c where c: "c \<le> newest - il_window l" "attempts_of l ip = filter (\<lambda>t. t > c) (times_for ip h)"
    using assms(1) unfolding holds_recent_def by blast
  have f: "filter (\<lambda>t. t > now - il_window l) (attempts_of l ip) = filter (\<lambda>t. t > now - il_window l) (times_for ip h)"
    unfolding c(2) by (rule filter_recent) (use c(1) assms(2) in linarith)
  show "fst (ip_allow now ip l) \<longleftrightarrow> int (length (filter (\<lambda>t. t > now - il_window l) (times_for ip h))) < il_max l"
    by (simp add: ip_allow_def Let_def f)
  have le: "\<forall>t\<in>set (map fst h). t \<le> now" using assms(1,2) unfolding holds_recent_def by force
  have others: "\<exists>c \<le> now - il_window l. attempts_of l k = filter (\<lambda>t. t > c) (times_for k h)" for k
    using assms(1,2) unfolding holds_recent_def by (meson diff_right_mono order_trans)
  show "holds_recent now (if fst (ip_allow now ip l) then h @ [(now, ip)] else h) (snd (ip_allow now ip l))"
  proof (cases "int (length (filter (\<lambda>t. t > now - il_window l) (attempts_of l ip))) \<ge> il_max l")
    case True
    then show ?thesis
      using others le f by (auto simp: holds_recent_def ip_allow_def Let_def attempts_of_set)
  next
    case False
    then show ?thesis
      using others le f assms(3) by (auto simp: holds_recent_def ip_allow_def Let_def attempts_of_set)
  qed
qed

text \<open>Every stretch of one window length contains at most the maximum of admissions of one source.\<close>

definition within_rate :: "int \<Rightarrow> real \<Rightarrow> (real \<times> pystr) list \<Rightarrow> bool" where
  "within_rate m w h \<longleftrightarrow>
     (\<forall>ip x. int (length (filter (\<lambda>(t, k). k = ip \<and> x < t \<and> t \<le> x + w) h)) \<le> m)"

lemma length_times_for:
  "length (filter (\<lambda>(t, k). k = ip \<and> x < t \<and> t \<le> x + w) h) \<le> length (filter (\<lambda>t. t > c) (times_for ip h))"
  if "c \<le> x" for x c w :: real
  using that by (induction h) auto

lemma within_rate_snoc:
  assumes "within_rate m w h" "int (length (filter (\<lambda>t. t > now - w) (times_for ip h))) < m"
  shows "within_rate m w (h @ [(now, ip)])"
  unfolding within_rate_def
proof (intro allI)
  fix k x
  show "int (length (filter (\<lambda>(t, k'). k' = k \<and> x < t \<and> t \<le> x + w) (h @ [(now, ip)]))) \<le> m"
  proof (cases "k = ip \<and> x < now \<and> now \<le> x + w")
    case True
    then show ?thesis using assms(2) length_times_for [of "now - w" x ip w h] by simp
  next
    case False
    then show ?thesis using assms(1) unfolding within_rate_def by auto
  qed
qed

lemma ip_run_within:
  assumes "holds_recent latest h l" "within_rate (il_max l) (il_window l) h" "0 < il_window l"
    and "sorted (latest # map fst cs)"
  shows "within_rate (il_max l) (il_window l) (h @ fst (ip_run cs l)) \<and>
    (\<exists>now. holds_recent now (h @ fst (ip_run cs l)) (snd (ip_run cs l)) \<and> now = List.last (latest # map fst cs)) \<and>
    il_window (snd (ip_run cs l)) = il_window l \<and> il_max (snd (ip_run cs l)) = il_max l"
  using assms
proof (induction cs arbitrary: latest h l)
  case (Cons c cs)
  obtain now ip where c: "c = (now, ip)" by (cases c)
  have le: "latest \<le> now" using Cons.prems(4) by (simp add: c)
  note step = ip_allow_step [OF Cons.prems(1) le Cons.prems(3), of ip]
  obtain ok l1 where a: "ip_allow now ip l = (ok, l1)" by (cases "ip_allow now ip l")
  have l1: "il_window l1 = il_window l" "il_max l1 = il_max l" using ip_allow_window [of now ip l] a by simp_all
  let ?h = "if ok then h @ [(now, ip)] else h"
  have "within_rate (il_max l1) (il_window l1) ?h"
    using step(1) a Cons.prems(2) within_rate_snoc l1 by simp
  moreover have "holds_recent now ?h l1" using step(2) a by simp
  ultimately have IH: "within_rate (il_max l1) (il_window l1) (?h @ fst (ip_run cs l1)) \<and>
      (\<exists>n. holds_recent n (?h @ fst (ip_run cs l1)) (snd (ip_run cs l1)) \<and> n = List.last (now # map fst cs)) \<and>
      il_window (snd (ip_run cs l1)) = il_window l1 \<and> il_max (snd (ip_run cs l1)) = il_max l1"
    using Cons.IH [of now ?h l1] Cons.prems(3,4) l1 by (simp add: c)
  have "h @ fst (ip_run (c # cs) l) = ?h @ fst (ip_run cs l1)" "snd (ip_run (c # cs) l) = snd (ip_run cs l1)"
    by (simp_all add: c a case_prod_unfold Let_def)
  then show ?case using IH l1 by (simp add: c)
qed (auto simp: within_rate_def)

lemma new_limiter:
  assumes "mk_SourceIpRateLimiter m w = Inr l"
  shows "holds_recent latest [] l" "within_rate (il_max l) (il_window l) []" "0 < il_window l" "0 < il_max l"
    "il_max l = m" "il_window l = w"
  using assms by (auto simp: mk_SourceIpRateLimiter_def result_simps holds_recent_def within_rate_def attempts_of_def)

section \<open>Runs of the bucket\<close>

fun bucket_run :: "real list \<Rightarrow> token_bucket \<Rightarrow> nat \<times> token_bucket" where
  "bucket_run [] b = (0, b)"
| "bucket_run (now # ns) b =
     (let (ok, b1) = bucket_allow now b; (n, b2) = bucket_run ns b1 in (if ok then Suc n else n, b2))"

lemma refill_facts:
  assumes "0 \<le> tb_tokens b" "0 < tb_rate b" "0 < tb_burst b"
  shows "0 \<le> tb_tokens (refill now b)" "tb_tokens (refill now b) \<le> tb_burst b"
    "tb_last b \<le> now \<Longrightarrow> tb_tokens (refill now b) \<le> tb_tokens b + (now - tb_last b) * tb_rate b"
    "tb_last (refill now b) = now" "tb_rate (refill now b) = tb_rate b" "tb_burst (refill now b) = tb_burst b"
  using assms by (auto simp: refill_def Let_def min_def max_def)

lemma bucket_run_bound:
  assumes "0 \<le> tb_tokens b" "0 < tb_rate b" "0 < tb_burst b" "sorted (tb_last b # ns)"
  shows "real (fst (bucket_run ns b)) + tb_tokens (snd (bucket_run ns b))
      \<le> tb_tokens b + (List.last (tb_last b # ns) - tb_last b) * tb_rate b \<and>
    0 \<le> tb_tokens (snd (bucket_run ns b))"
  using assms
proof (induction ns arbitrary: b)
  case (Cons now ns)
  have le: "tb_last b \<le> now" using Cons.prems(4) by simp
  note rf = refill_facts [OF Cons.prems(1-3), of now]
  obtain ok b1 where a: "bucket_allow now b = (ok, b1)" by (cases "bucket_allow now b")
  have b1: "tb_last b1 = now" "tb_rate b1 = tb_rate b" "tb_burst b1 = tb_burst b" "0 \<le> tb_tokens b1"
      "(if ok then 1 else 0) + tb_tokens b1 \<le> tb_tokens b + (now - tb_last b) * tb_rate b"
    using a rf le by (auto simp: bucket_allow_def Let_def split: if_splits)
  have IH: "real (fst (bucket_run ns b1)) + tb_tokens (snd (bucket_run ns b1))
      \<le> tb_tokens b1 + (List.last (now # ns) - now) * tb_rate b" "0 \<le> tb_tokens (snd (bucket_run ns b1))"
    using Cons.IH [of b1] Cons.prems b1 by simp_all
  have "(List.last (now # ns) - now) * tb_rate b + (now - tb_last b) * tb_rate b = (List.last (now # ns) - tb_last b) * tb_rate b"
    by (simp add: algebra_simps)
  then show ?case using IH b1(5) a by (auto simp: case_prod_unfold Let_def split: if_splits)
qed simp

section \<open>Properties\<close>

text \<open>
  C21: The per-source limiter enforces its rate exactly. With a clock that does not run backwards, over any
  sequence of calls from any sources, no stretch of one window contains more than the maximum of admitted
  calls of one source; and the next call of a source is refused only if the source had the
  maximum of admissions within the last window.
\<close>

theorem ip_rate_enforced:
  assumes "mk_SourceIpRateLimiter m w = Inr l" and "ip_run cs l = (oks, l')" and "sorted (map fst cs)"
  shows "int (length (filter (\<lambda>(t, k). k = ip \<and> x < t \<and> t \<le> x + w) oks)) \<le> m \<and>
    ((\<forall>t\<in>set (map fst cs). t \<le> now) \<longrightarrow>
       (fst (ip_allow now ip l') \<longleftrightarrow> int (length (filter (\<lambda>(t, k). k = ip \<and> now - w < t) oks)) < m))"
proof -
  note new = new_limiter [OF assms(1)]
  define latest where "latest = (case cs of [] \<Rightarrow> now | c # _ \<Rightarrow> fst c)"
  have "sorted (latest # map fst cs)" using assms(3) by (cases cs) (auto simp: latest_def)
  note run = ip_run_within [OF new(1-3) this]
  have wr: "within_rate m w oks" using run assms(2) new(5,6) by simp
  have "int (length (filter (\<lambda>(t, k). k = ip \<and> x < t \<and> t \<le> x + w) oks)) \<le> m"
    using wr unfolding within_rate_def by blast
  moreover have "fst (ip_allow now ip l') \<longleftrightarrow> int (length (filter (\<lambda>(t, k). k = ip \<and> now - w < t) oks)) < m"
    if later: "\<forall>t\<in>set (map fst cs). t \<le> now"
  proof -
    have "List.last (latest # map fst cs) \<in> set (latest # map fst cs)" by (rule last_in_set) simp
    moreover have "\<forall>t\<in>set (latest # map fst cs). t \<le> now" using later by (cases cs) (auto simp: latest_def)
    ultimately have last: "List.last (latest # map fst cs) \<le> now" by blast
    have hr: "holds_recent (List.last (latest # map fst cs)) oks l'" using run assms(2) by auto
    have "fst (ip_allow now ip l') \<longleftrightarrow> int (length (filter (\<lambda>t. t > now - w) (times_for ip oks))) < m"
      using ip_allow_step(1) [OF hr last, of ip] run assms(2) new by simp
    moreover have "length (filter (\<lambda>t. t > now - w) (times_for ip oks)) =
        length (filter (\<lambda>(t, k). k = ip \<and> now - w < t) oks)" by (induction oks) auto
    ultimately show ?thesis by simp
  qed
  ultimately show ?thesis by blast
qed

theorem ip_rate_enforced_witness:
  "\<exists>l oks l'. mk_SourceIpRateLimiter 2 60 = Inr l \<and> ip_run [(0, []), (1, []), (2, [])] l = (oks, l') \<and>
     length (filter (\<lambda>(t, k). k = [] \<and> - 1 < t \<and> t \<le> - 1 + 60) oks) \<le> 2 \<and> \<not> fst (ip_allow 3 [] l')"
proof -
  obtain l where l: "mk_SourceIpRateLimiter 2 60 = Inr l" by (simp add: mk_SourceIpRateLimiter_def)
  obtain oks l' where r: "ip_run [(0, []), (1, []), (2, [])] l = (oks, l')" by (cases "ip_run [(0, []), (1, []), (2, [])] l")
  have "oks = [(0, []), (1, [])]"
    using r l by (auto simp: mk_SourceIpRateLimiter_def ip_allow_def Let_def attempts_of_def)
  with ip_rate_enforced [OF l r, of "[]" "- 1" 3] l r show ?thesis by simp
qed

text \<open>
  The token bucket bounds the admissions of a whole run: from \<open>b\<close> tokens at time \<open>t0\<close>, with a
  clock that does not run backwards, at most \<open>b + rate * (t - t0)\<close> calls are admitted up to time \<open>t\<close>, the
  tokens never become negative and never exceed the burst.
\<close>

theorem bucket_rate_enforced:
  assumes "mk_GlobalHandshakeLimiter rate burst t0 = Inr b" and "bucket_run ns b = (n, b')"
    and "sorted (t0 # ns)"
  shows "real n \<le> burst + rate * (List.last (t0 # ns) - t0) \<and> 0 \<le> tb_tokens b' \<and> tb_tokens b' \<le> burst"
proof -
  have b: "0 < rate" "0 < burst" "b = \<lparr>tb_rate = rate, tb_burst = burst, tb_tokens = burst, tb_last = t0\<rparr>"
    using assms(1) by (auto simp: mk_GlobalHandshakeLimiter_def result_simps)
  have "tb_tokens (snd (bucket_run ns c)) \<le> tb_burst c" if "tb_tokens c \<le> tb_burst c" for c
    using that
  proof (induction ns arbitrary: c)
    case (Cons now ns)
    have "tb_tokens (snd (bucket_allow now c)) \<le> tb_burst (snd (bucket_allow now c))"
      by (auto simp: bucket_allow_def refill_def Let_def)
    from Cons.IH [OF this] show ?case
      by (simp add: case_prod_unfold Let_def bucket_allow_def refill_def split: if_splits)
  qed simp
  then have "tb_tokens b' \<le> burst" using assms(2) b(3) by (metis order_refl snd_conv token_bucket.select_convs(2,3))
  then show ?thesis
    using bucket_run_bound [of b ns] assms(2,3) b by (simp add: mult.commute)
qed

theorem bucket_rate_enforced_witness:
  "\<exists>b n b'. mk_GlobalHandshakeLimiter 200 400 0 = Inr b \<and> bucket_run [0, 1] b = (n, b') \<and> real n \<le> 600"
proof -
  obtain b where b: "mk_GlobalHandshakeLimiter 200 400 0 = Inr b" by (simp add: mk_GlobalHandshakeLimiter_def)
  obtain n b' where r: "bucket_run [0, 1] b = (n, b')" by (cases "bucket_run [0, 1] b")
  from bucket_rate_enforced [OF b r] b r show ?thesis by auto
qed

end
