(* ===== verification/Handshake_V3.thy ===== *)
theory Handshake_V3
  imports Handshake_Keys Rate_Limit
begin

text \<open>
  \<^verbatim>\<open>networking/handshake_v3.py\<close>: the four-message handshake, both halves, as step functions over
  the owner's state (trust store, half-open counter, whatever the caller's \<^verbatim>\<open>on_confirmed\<close> callback
  records). The socket is the argument \<open>io\<close>: what each awaited read and write yields, a message or an
  exception. Key exchange, signatures and hashes are third-party code and are fields of \<open>hs_crypto\<close>.
  The trust store (\<^verbatim>\<open>domain/identity.py\<close>) is a dictionary from device id to identity key.
\<close>

section \<open>The owner and its environment\<close>

record hs_crypto =
  hc_sha256 :: "bytes \<Rightarrow> bytes"
  hc_hkdf :: hkdf
  hc_hmac :: hmac
  hc_sign :: "bytes \<Rightarrow> bytes \<Rightarrow> bytes" \<comment> \<open>private key, message\<close>
  hc_verify :: "bytes \<Rightarrow> bytes \<Rightarrow> bytes \<Rightarrow> bool" \<comment> \<open>public key, message, signature\<close>
  hc_dh :: "bytes \<Rightarrow> bytes \<Rightarrow> bytes result" \<comment> \<open>private key, peer public key\<close>

record hs_owner =
  ho_device_id :: pystr
  ho_transfer_port :: int
  ho_manifest_port :: int
  ho_private_key :: bytes
  ho_public_key :: bytes
  ho_max_half_open :: int

type_synonym trust_store = "(pystr, bytes) dict"

definition get_trusted_key :: "trust_store \<Rightarrow> pystr \<Rightarrow> bytes option" where
  "get_trusted_key ts device_id = dict_get ts device_id"

definition trust :: "pystr \<Rightarrow> bytes \<Rightarrow> trust_store \<Rightarrow> trust_store" where
  "trust device_id public_key ts = dict_set device_id public_key ts"

record handshake_result =
  hr_peer_device_id :: pystr
  hr_session_id :: bytes
  hr_role :: int
  hr_send_key :: bytes
  hr_receive_key :: bytes
  hr_peer_transfer_port :: int
  hr_peer_manifest_port :: int

definition HANDSHAKE_DEADLINE_S :: real where "HANDSHAKE_DEADLINE_S = 10"
definition MAX_HALF_OPEN :: int where "MAX_HALF_OPEN = 64"

datatype handshake_state = IDLE | SENT_HELLO | SENT_CONFIRM | CONFIRMED | FAILED
datatype responder_state = WAIT_HELLO | SENT_REPLY | R_CONFIRMED | R_FAILED

section \<open>Deadline-bounded I/O\<close>

text \<open>
  \<open>remaining\<close> is the time left when the call starts; \<open>outcome\<close> is what the socket yields within it.
\<close>

definition deadline_err :: exn where
  "deadline_err = Protocol (HandshakeError HandshakeDeadlineError)"

definition check_remaining :: "real \<Rightarrow> unit result" where
  "check_remaining remaining = raise_if (remaining \<le> 0) deadline_err (Inr ())"

definition exchange_read :: "real \<Rightarrow> bytes result \<Rightarrow> bytes result" where
  "exchange_read remaining outcome =
     rbind (check_remaining remaining) (\<lambda>_.
     case outcome of
       Inl e \<Rightarrow> Inl (if e = Py TimeoutError \<or> e = Protocol MessageReadTimeoutError then deadline_err else e)
     | Inr m \<Rightarrow> Inr m)"

definition exchange_write :: "real \<Rightarrow> unit result \<Rightarrow> bytes \<Rightarrow> unit result" where
  "exchange_write remaining outcome payload =
     rbind (check_remaining remaining) (\<lambda>_.
     rbind (pack_uint 4 (int (length payload))) (\<lambda>_.
     case outcome of
       Inl e \<Rightarrow> Inl (if e = Py TimeoutError then deadline_err else e)
     | Inr _ \<Rightarrow> Inr ()))"

definition generate_nonce :: "bytes \<Rightarrow> bytes result" where
  "generate_nonce nonce =
     raise_if (length nonce \<noteq> HS_NONCE_SIZE) (Protocol (HandshakeError HandshakeStateError)) (Inr nonce)"

definition own_party :: "hs_owner \<Rightarrow> bytes \<Rightarrow> bytes \<Rightarrow> party" where
  "own_party owner ephemeral_public nonce =
     \<lparr>pa_ephemeral = ephemeral_public, pa_nonce = nonce, pa_device_id = ho_device_id owner,
      pa_identity_public_key = ho_public_key owner, pa_transfer_port = ho_transfer_port owner,
      pa_manifest_port = ho_manifest_port owner\<rparr>"

definition check_pin :: "trust_store \<Rightarrow> party \<Rightarrow> unit result" where
  "check_pin ts p =
     (case get_trusted_key ts (pa_device_id p) of
        None \<Rightarrow> Inr ()
      | Some k \<Rightarrow> raise_if (k \<noteq> pa_identity_public_key p) (Domain PeerIdentityMismatchError) (Inr ()))"

definition result_for :: "party \<Rightarrow> session_keys \<Rightarrow> int \<Rightarrow> handshake_result" where
  "result_for p keys role =
     \<lparr>hr_peer_device_id = pa_device_id p, hr_session_id = sk_session_id keys, hr_role = role,
      hr_send_key = sk_send_key keys, hr_receive_key = sk_receive_key keys,
      hr_peer_transfer_port = pa_transfer_port p, hr_peer_manifest_port = pa_manifest_port p\<rparr>"

section \<open>Initiator\<close>

text \<open>From the reply to message 3: everything between \<open>SENT_HELLO\<close> and \<open>SENT_CONFIRM\<close> except the I/O.\<close>

record pending =
  pd_reply :: reply_message
  pd_secrets :: handshake_secrets
  pd_t2s :: bytes
  pd_t3s :: bytes
  pd_mac_i :: bytes
  pd_confirm :: bytes

definition initiator_hello :: "hs_owner \<Rightarrow> bytes \<times> bytes \<Rightarrow> bytes \<Rightarrow> bytes result" where
  "initiator_hello owner eph nonce =
     rbind (generate_nonce nonce) (\<lambda>n. encode_hello (own_party owner (snd eph) n))"

definition initiator_confirm ::
  "hs_crypto \<Rightarrow> hs_owner \<Rightarrow> trust_store \<Rightarrow> bytes \<Rightarrow> bytes \<Rightarrow> bytes \<Rightarrow> pending result" where
  "initiator_confirm c owner ts ephemeral_private hello_bytes reply_bytes =
     rbind (decode_reply reply_bytes) (\<lambda>reply.
     rbind (check_not_self (pa_device_id (rm_party reply)) (pa_identity_public_key (rm_party reply))
              (ho_device_id owner) (ho_public_key owner)) (\<lambda>_.
     rbind (decode_hello hello_bytes) (\<lambda>hello.
     rbind (transcript_t2 (hc_sha256 c) hello_bytes (rm_body reply)) (\<lambda>t2.
     rbind (signed_responder t2) (\<lambda>signed.
     raise_if (\<not> hc_verify c (pa_identity_public_key (rm_party reply)) signed (rm_sig_r reply))
       (Domain InvalidHandshakeSignatureError)
    (rbind (check_pin ts (rm_party reply)) (\<lambda>_.
     rbind (hc_dh c ephemeral_private (pa_ephemeral (rm_party reply))) (\<lambda>shared_secret.
     rbind (derive_handshake_secrets (hc_hkdf c) shared_secret (hm_party hello) (rm_party reply) t2) (\<lambda>secrets.
     rbind (transcript_t2s (hc_sha256 c) t2 (rm_sig_r reply)) (\<lambda>t2s.
     rbind (verify_confirmation_mac (hc_hmac c) (hs_responder_confirmation_key secrets) t2s (rm_mac_r reply)) (\<lambda>_.
     rbind (transcript_t3 (hc_sha256 c) t2s (rm_mac_r reply)) (\<lambda>t3.
     rbind (signed_initiator t2s) (\<lambda>to_sign.
     (let sig_i = hc_sign c (ho_private_key owner) to_sign in
     rbind (transcript_t3s (hc_sha256 c) t3 sig_i) (\<lambda>t3s.
     rbind (confirmation_mac (hc_hmac c) (hs_initiator_confirmation_key secrets) t3s) (\<lambda>mac_i.
     rbind (encode_confirm sig_i mac_i) (\<lambda>confirm.
     Inr \<lparr>pd_reply = reply, pd_secrets = secrets, pd_t2s = t2s, pd_t3s = t3s, pd_mac_i = mac_i,
          pd_confirm = confirm\<rparr>)))))))))))))))))"

definition require_authenticated_reject :: "hs_crypto \<Rightarrow> final_message \<Rightarrow> pending \<Rightarrow> unit result" where
  "require_authenticated_reject c final pd =
     rbind (transcript_m4_reject (hc_sha256 c) (pd_t2s pd) (pd_confirm pd)) (\<lambda>t.
     rbind (confirmation_mac (hc_hmac c) (hs_responder_confirmation_key (pd_secrets pd)) t) (\<lambda>expected.
     raise_if (expected \<noteq> fm_mac_f final) (Protocol (HandshakeError HandshakeRejectionUnverifiedError)) (Inr ())))"

text \<open>
  \<^verbatim>\<open>except HandshakeMessageError\<close> around the read and the decoding of message 4: the two subclasses
  become an unverified rejection, everything else passes through.
\<close>

definition final_outcome :: "bytes result \<Rightarrow> final_message result" where
  "final_outcome m4 =
     (case rbind m4 decode_final of
        Inl e \<Rightarrow> Inl (if e = decode_err \<or> e = validation_err
                      then Protocol (HandshakeError HandshakeRejectionUnverifiedError) else e)
      | Inr f \<Rightarrow> Inr f)"

definition verify_final :: "hs_crypto \<Rightarrow> pending \<Rightarrow> bytes result \<Rightarrow> unit result" where
  "verify_final c pd m4 =
     rbind (final_outcome m4) (\<lambda>final.
     if fm_status final \<noteq> STATUS_ACCEPT then
       rbind (require_authenticated_reject c final pd) (\<lambda>_.
       Inl (Protocol (HandshakeError HandshakeRejectedError)))
     else
       rbind (transcript_final (hc_sha256 c) (pd_t3s pd) (pd_mac_i pd)) (\<lambda>t_final.
       rbind (transcript_m4_accept (hc_sha256 c) t_final) (\<lambda>t.
       verify_confirmation_mac (hc_hmac c) (hs_responder_confirmation_key (pd_secrets pd)) t (fm_mac_f final))))"

text \<open>
  The network as the initiator sees it: the outcome of each write and each read, and the time that
  was left of the one deadline when it started.
\<close>

record initiator_io =
  ii_write1 :: "real \<times> unit result"
  ii_read2 :: "real \<times> bytes result"
  ii_write3 :: "real \<times> unit result"
  ii_read4 :: "real \<times> bytes result"

definition io_write :: "real \<times> unit result \<Rightarrow> bytes \<Rightarrow> unit result" where
  "io_write w payload = exchange_write (fst w) (snd w) payload"

definition io_read :: "real \<times> bytes result \<Rightarrow> bytes result" where
  "io_read r = exchange_read (fst r) (snd r)"

definition initiator_exchange ::
  "hs_crypto \<Rightarrow> hs_owner \<Rightarrow> trust_store \<Rightarrow> bytes \<times> bytes \<Rightarrow> bytes \<Rightarrow> initiator_io \<Rightarrow>
   handshake_result result \<times> trust_store" where
  "initiator_exchange c owner ts eph nonce io =
     (case rbind (initiator_hello owner eph nonce) (\<lambda>hello_bytes.
           rbind (io_write (ii_write1 io) hello_bytes) (\<lambda>_.
           rbind (io_read (ii_read2 io)) (\<lambda>reply_bytes.
           rbind (initiator_confirm c owner ts (fst eph) hello_bytes reply_bytes) (\<lambda>pd.
           rbind (io_write (ii_write3 io) (pd_confirm pd)) (\<lambda>_.
           rbind (verify_final c pd (io_read (ii_read4 io))) (\<lambda>_. Inr pd)))))) of
        Inl e \<Rightarrow> (Inl e, ts)
      | Inr pd \<Rightarrow>
          let p = rm_party (pd_reply pd) in
          (rbind (keys_for_role (pd_secrets pd) ROLE_INITIATOR) (\<lambda>keys. Inr (result_for p keys ROLE_INITIATOR)),
           trust (pa_device_id p) (pa_identity_public_key p) ts))"

definition initiator_run ::
  "hs_crypto \<Rightarrow> hs_owner \<Rightarrow> trust_store \<Rightarrow> bytes \<times> bytes \<Rightarrow> bytes \<Rightarrow> initiator_io \<Rightarrow>
   handshake_result result \<times> handshake_state \<times> trust_store" where
  "initiator_run c owner ts eph nonce io =
     (case initiator_exchange c owner ts eph nonce io of
        (Inl e, ts') \<Rightarrow> (Inl e, FAILED, ts')
      | (Inr r, ts') \<Rightarrow> (Inr r, CONFIRMED, ts'))"

section \<open>Responder\<close>

text \<open>
  Besides the state, the world keeps the order of what has happened: bytes handed to the socket, a pin written, the
  callback called with a result.
\<close>

datatype responder_effect = HandedOver bytes | Pinned pystr bytes | Confirmed handshake_result

record 's responder_world =
  rw_trusted :: trust_store
  rw_half_open :: int
  rw_sessions :: 's
  rw_effects :: "responder_effect list"

definition begin_half_open :: "hs_owner \<Rightarrow> 's responder_world \<Rightarrow> unit result \<times> 's responder_world" where
  "begin_half_open owner w =
     (if rw_half_open w \<ge> ho_max_half_open owner
      then (Inl (Protocol (HandshakeError HandshakeBusyError)), w)
      else (Inr (), w\<lparr>rw_half_open := rw_half_open w + 1\<rparr>))"

definition end_half_open :: "'s responder_world \<Rightarrow> 's responder_world" where
  "end_half_open w = (if rw_half_open w > 0 then w\<lparr>rw_half_open := rw_half_open w - 1\<rparr> else w)"

definition responder_hello :: "hs_owner \<Rightarrow> bytes \<Rightarrow> hello_message result" where
  "responder_hello owner m1 =
     rbind (decode_hello m1) (\<lambda>hello.
     rbind (check_not_self (pa_device_id (hm_party hello)) (pa_identity_public_key (hm_party hello))
              (ho_device_id owner) (ho_public_key owner)) (\<lambda>_. Inr hello))"

record reply_state =
  rs_secrets :: handshake_secrets
  rs_t2s :: bytes
  rs_mac_r :: bytes
  rs_reply :: bytes

definition responder_reply ::
  "hs_crypto \<Rightarrow> hs_owner \<Rightarrow> hello_message \<Rightarrow> bytes \<Rightarrow> bytes \<times> bytes \<Rightarrow> bytes \<Rightarrow> reply_state result" where
  "responder_reply c owner hello m1 eph nonce0 =
     rbind (generate_nonce nonce0) (\<lambda>nonce.
     (let me = own_party owner (snd eph) nonce in
     rbind (encode_reply_body me) (\<lambda>body.
     rbind (transcript_t2 (hc_sha256 c) m1 body) (\<lambda>t2.
     rbind (signed_responder t2) (\<lambda>to_sign.
     (let sig_r = hc_sign c (ho_private_key owner) to_sign in
     rbind (hc_dh c (fst eph) (pa_ephemeral (hm_party hello))) (\<lambda>shared_secret.
     rbind (derive_handshake_secrets (hc_hkdf c) shared_secret (hm_party hello) me t2) (\<lambda>secrets.
     rbind (transcript_t2s (hc_sha256 c) t2 sig_r) (\<lambda>t2s.
     rbind (confirmation_mac (hc_hmac c) (hs_responder_confirmation_key secrets) t2s) (\<lambda>mac_r.
     rbind (encode_reply me sig_r mac_r) (\<lambda>reply.
     Inr \<lparr>rs_secrets = secrets, rs_t2s = t2s, rs_mac_r = mac_r, rs_reply = reply\<rparr>)))))))))))"

text \<open>Message 3 up to the pin; the callback and what follows are in \<open>verify_message_3\<close>.\<close>

definition check_message_3 ::
  "hs_crypto \<Rightarrow> trust_store \<Rightarrow> bytes \<Rightarrow> hello_message \<Rightarrow> reply_state \<Rightarrow> (confirm_message \<times> bytes) result" where
  "check_message_3 c ts m3 hello rs =
     rbind (decode_confirm m3) (\<lambda>confirm.
     rbind (transcript_t3 (hc_sha256 c) (rs_t2s rs) (rs_mac_r rs)) (\<lambda>t3.
     rbind (transcript_t3s (hc_sha256 c) t3 (cm_sig_i confirm)) (\<lambda>t3s.
     rbind (signed_initiator (rs_t2s rs)) (\<lambda>signed.
     raise_if (\<not> hc_verify c (pa_identity_public_key (hm_party hello)) signed (cm_sig_i confirm))
       (Domain InvalidHandshakeSignatureError)
    (rbind (check_pin ts (hm_party hello)) (\<lambda>_.
     rbind (verify_confirmation_mac (hc_hmac c) (hs_initiator_confirmation_key (rs_secrets rs)) t3s
              (cm_mac_i confirm)) (\<lambda>_.
     Inr (confirm, t3s))))))))"

definition verify_message_3 ::
  "hs_crypto \<Rightarrow> (handshake_result \<Rightarrow> 's \<Rightarrow> unit result \<times> 's) \<Rightarrow> bytes \<Rightarrow> hello_message \<Rightarrow> reply_state \<Rightarrow>
   's responder_world \<Rightarrow> (confirm_message \<times> bytes \<times> handshake_result) result \<times> 's responder_world" where
  "verify_message_3 c on_confirmed m3 hello rs w =
     (case check_message_3 c (rw_trusted w) m3 hello rs of
        Inl e \<Rightarrow> (Inl e, w)
      | Inr (confirm, t3s) \<Rightarrow>
          let p = hm_party hello;
              w1 = w\<lparr>rw_trusted := trust (pa_device_id p) (pa_identity_public_key p) (rw_trusted w),
                     rw_effects := rw_effects w @ [Pinned (pa_device_id p) (pa_identity_public_key p)]\<rparr>
          in (case keys_for_role (rs_secrets rs) ROLE_RESPONDER of
                Inl e \<Rightarrow> (Inl e, w1)
              | Inr keys \<Rightarrow>
                  let res = result_for p keys ROLE_RESPONDER in
                  (case on_confirmed res (rw_sessions w1) of
                     (Inl e, s) \<Rightarrow> (Inl e, w1\<lparr>rw_sessions := s, rw_effects := rw_effects w1 @ [Confirmed res]\<rparr>)
                   | (Inr _, s) \<Rightarrow>
                       (Inr (confirm, t3s, res), w1\<lparr>rw_sessions := s, rw_effects := rw_effects w1 @ [Confirmed res]\<rparr>))))"

definition final_accept :: "hs_crypto \<Rightarrow> reply_state \<Rightarrow> bytes \<Rightarrow> confirm_message \<Rightarrow> bytes result" where
  "final_accept c rs t3s confirm =
     rbind (transcript_final (hc_sha256 c) t3s (cm_mac_i confirm)) (\<lambda>t_final.
     rbind (transcript_m4_accept (hc_sha256 c) t_final) (\<lambda>t.
     rbind (confirmation_mac (hc_hmac c) (hs_responder_confirmation_key (rs_secrets rs)) t) (\<lambda>mac_f.
     encode_final STATUS_ACCEPT mac_f)))"

text \<open>The best-effort reject, with every exception suppressed: the bytes sent, if any.\<close>

definition reject_bytes :: "hs_crypto \<Rightarrow> reply_state \<Rightarrow> bytes \<Rightarrow> bytes option" where
  "reject_bytes c rs m3 =
     (case rbind (transcript_m4_reject (hc_sha256 c) (rs_t2s rs) m3) (\<lambda>t.
           rbind (confirmation_mac (hc_hmac c) (hs_responder_confirmation_key (rs_secrets rs)) t) (\<lambda>mac_f.
           encode_final STATUS_REJECT mac_f)) of
        Inl _ \<Rightarrow> None | Inr b \<Rightarrow> Some b)"

record responder_io =
  ri_read1 :: "real \<times> bytes result"
  ri_write2 :: "real \<times> unit result"
  ri_read3 :: "real \<times> bytes result"
  ri_write4 :: "real \<times> unit result"

text \<open>
  A payload reaches the socket when the deadline has not passed and its length fits the prefix, even if draining it then fails.
\<close>

definition hand_over :: "real \<times> unit result \<Rightarrow> bytes option \<Rightarrow> 's responder_world \<Rightarrow> 's responder_world" where
  "hand_over wr payload w =
     (case payload of
        None \<Rightarrow> w
      | Some m \<Rightarrow> if fst wr \<le> 0 \<or> length m \<ge> 256 ^ 4 then w else w\<lparr>rw_effects := rw_effects w @ [HandedOver m]\<rparr>)"

text \<open>Inside the \<^verbatim>\<open>try ... finally\<close>.\<close>

definition responder_half_open ::
  "hs_crypto \<Rightarrow> hs_owner \<Rightarrow> (handshake_result \<Rightarrow> 's \<Rightarrow> unit result \<times> 's) \<Rightarrow> hello_message \<Rightarrow> bytes \<Rightarrow>
   bytes \<times> bytes \<Rightarrow> bytes \<Rightarrow> responder_io \<Rightarrow> 's responder_world \<Rightarrow>
   handshake_result result \<times> 's responder_world" where
  "responder_half_open c owner on_confirmed hello m1 eph nonce io w =
     (case responder_reply c owner hello m1 eph nonce of
        Inl e \<Rightarrow> (Inl e, w)
      | Inr rs \<Rightarrow>
          let w0 = hand_over (ri_write2 io) (Some (rs_reply rs)) w in
          (case rbind (io_write (ri_write2 io) (rs_reply rs)) (\<lambda>_. io_read (ri_read3 io)) of
             Inl e \<Rightarrow> (Inl e, w0)
           | Inr m3 \<Rightarrow>
               (case verify_message_3 c on_confirmed m3 hello rs w0 of
                  (Inl e, w1) \<Rightarrow> (Inl e, hand_over (ri_write4 io) (reject_bytes c rs m3) w1)
                | (Inr (confirm, t3s, res), w1) \<Rightarrow>
                    (case final_accept c rs t3s confirm of
                       Inl e \<Rightarrow> (Inl e, w1)
                     | Inr m4 \<Rightarrow> (rbind (io_write (ri_write4 io) m4) (\<lambda>_. Inr res),
                                  hand_over (ri_write4 io) (Some m4) w1)))))"

definition responder_exchange ::
  "hs_crypto \<Rightarrow> hs_owner \<Rightarrow> (handshake_result \<Rightarrow> 's \<Rightarrow> unit result \<times> 's) \<Rightarrow>
   bytes \<times> bytes \<Rightarrow> bytes \<Rightarrow> responder_io \<Rightarrow> 's responder_world \<Rightarrow> handshake_result result \<times> 's responder_world" where
  "responder_exchange c owner on_confirmed eph nonce io w =
     (case rbind (io_read (ri_read1 io)) (\<lambda>m1. rbind (responder_hello owner m1) (\<lambda>h. Inr (m1, h))) of
        Inl e \<Rightarrow> (Inl e, w)
      | Inr (m1, hello) \<Rightarrow>
          (case begin_half_open owner w of
             (Inl e, w1) \<Rightarrow> (Inl e, w1)
           | (Inr _, w1) \<Rightarrow>
               let (res, w2) = responder_half_open c owner on_confirmed hello m1 eph nonce io w1
               in (res, end_half_open w2)))"

definition responder_run ::
  "hs_crypto \<Rightarrow> hs_owner \<Rightarrow> (handshake_result \<Rightarrow> 's \<Rightarrow> unit result \<times> 's) \<Rightarrow>
   bytes \<times> bytes \<Rightarrow> bytes \<Rightarrow> responder_io \<Rightarrow> 's responder_world \<Rightarrow>
   handshake_result result \<times> responder_state \<times> 's responder_world" where
  "responder_run c owner on_confirmed eph nonce io w =
     (case responder_exchange c owner on_confirmed eph nonce io w of
        (Inl e, w') \<Rightarrow> (Inl e, R_FAILED, w')
      | (Inr r, w') \<Rightarrow> (Inr r, R_CONFIRMED, w'))"

text \<open>\<^verbatim>\<open>HandshakeV3.accept\<close>: the global bucket first, then the responder; the bucket is part of the state.\<close>

definition handshake_accept ::
  "hs_crypto \<Rightarrow> hs_owner \<Rightarrow> (handshake_result \<Rightarrow> 's \<Rightarrow> unit result \<times> 's) \<Rightarrow>
   bytes \<times> bytes \<Rightarrow> bytes \<Rightarrow> real \<Rightarrow> responder_io \<Rightarrow> token_bucket \<Rightarrow> 's responder_world \<Rightarrow>
   handshake_result result \<times> token_bucket \<times> 's responder_world" where
  "handshake_accept c owner on_confirmed eph nonce now io b w =
     (case bucket_allow now b of
        (False, b') \<Rightarrow> (Inl (Protocol (HandshakeError HandshakeRateLimitedError)), b', w)
      | (True, b') \<Rightarrow>
          let (res, _, w') = responder_run c owner on_confirmed eph nonce io w in (res, b', w'))"

section \<open>What a completed run has verified\<close>

lemma derive_secrets_session_id:
  "derive_handshake_secrets hkdf z h r t2 = Inr s \<Longrightarrow> length (hs_session_id s) = SESSION_ID_SIZE"
  by (auto simp: derive_handshake_secrets_def rbind_eq_Inr Let_def derive_directional_keys_def raise_if_eq_Inr)

text \<open>
  What the initiator has checked of the responder: the reply decodes and is not from itself, its
  signature covers the HELLO sent and the reply body, a pin for that device id agrees, and the reply's MAC and the MAC of an
  accepting message 4 are under the confirmation key of the secrets that HKDF derives from this run's key exchange, the two
  announcements and the transcript. The MAC of message 4 covers the transcript up to message 3, which is the one
  the initiator signed and sent.
\<close>

definition responder_proved ::
  "hs_crypto \<Rightarrow> hs_owner \<Rightarrow> trust_store \<Rightarrow> bytes \<Rightarrow> bytes \<Rightarrow> bytes \<Rightarrow> bytes \<Rightarrow> bytes \<Rightarrow> reply_message \<Rightarrow>
   handshake_secrets \<Rightarrow> bool" where
  "responder_proved c owner ts ephemeral_private hello_bytes reply_bytes m3 m4 reply secrets \<longleftrightarrow>
     decode_reply reply_bytes = Inr reply \<and>
     pa_device_id (rm_party reply) \<noteq> ho_device_id owner \<and> pa_identity_public_key (rm_party reply) \<noteq> ho_public_key owner \<and>
     get_trusted_key ts (pa_device_id (rm_party reply)) \<in> {None, Some (pa_identity_public_key (rm_party reply))} \<and>
     (\<exists>(hello :: hello_message) t2 signed z t2s t3 to_sign sig_i t3s mac_i t_final t4 final.
        decode_hello hello_bytes = Inr hello \<and>
        transcript_t2 (hc_sha256 c) hello_bytes (rm_body reply) = Inr t2 \<and> signed_responder t2 = Inr signed \<and>
        hc_verify c (pa_identity_public_key (rm_party reply)) signed (rm_sig_r reply) \<and>
        hc_dh c ephemeral_private (pa_ephemeral (rm_party reply)) = Inr z \<and>
        derive_handshake_secrets (hc_hkdf c) z (hm_party hello) (rm_party reply) t2 = Inr secrets \<and>
        transcript_t2s (hc_sha256 c) t2 (rm_sig_r reply) = Inr t2s \<and>
        rm_mac_r reply = hc_hmac c (hs_responder_confirmation_key secrets) t2s \<and>
        transcript_t3 (hc_sha256 c) t2s (rm_mac_r reply) = Inr t3 \<and>
        signed_initiator t2s = Inr to_sign \<and> sig_i = hc_sign c (ho_private_key owner) to_sign \<and>
        transcript_t3s (hc_sha256 c) t3 sig_i = Inr t3s \<and>
        mac_i = hc_hmac c (hs_initiator_confirmation_key secrets) t3s \<and> encode_confirm sig_i mac_i = Inr m3 \<and>
        transcript_final (hc_sha256 c) t3s mac_i = Inr t_final \<and>
        transcript_m4_accept (hc_sha256 c) t_final = Inr t4 \<and>
        decode_final m4 = Inr final \<and> fm_status final = STATUS_ACCEPT \<and>
        fm_mac_f final = hc_hmac c (hs_responder_confirmation_key secrets) t4)"

lemma check_not_self_eq_Inr: "check_not_self d k od ok = Inr u \<longleftrightarrow> d \<noteq> od \<and> k \<noteq> ok"
  by (auto simp: check_not_self_def raise_if_eq_Inr)

lemma check_pin_eq_Inr:
  "check_pin ts p = Inr u \<longleftrightarrow> get_trusted_key ts (pa_device_id p) \<in> {None, Some (pa_identity_public_key p)}"
  by (auto simp: check_pin_def raise_if_eq_Inr split: option.splits)

lemma io_read_eq_Inr: "io_read r = Inr m \<longleftrightarrow> 0 < fst r \<and> snd r = Inr m"
  by (cases "snd r") (auto simp: io_read_def exchange_read_def check_remaining_def rbind_eq_Inr raise_if_eq_Inr)

lemma io_write_eq_Inr: "io_write w p = Inr u \<longleftrightarrow> 0 < fst w \<and> snd w = Inr () \<and> length p < 256 ^ 4"
  by (cases "snd w") (auto simp: io_write_def exchange_write_def check_remaining_def rbind_eq_Inr
      raise_if_eq_Inr pack_uint_eq_Inr)

lemma initiator_verified:
  assumes conf: "initiator_confirm c owner ts priv hello_bytes reply_bytes = Inr pd"
    and fin: "verify_final c pd (Inr m4) = Inr ()"
  shows "responder_proved c owner ts priv hello_bytes reply_bytes (pd_confirm pd) m4 (pd_reply pd) (pd_secrets pd) \<and>
    length (hs_session_id (pd_secrets pd)) = SESSION_ID_SIZE"
proof -
  let ?R = "pd_reply pd" and ?S = "pd_secrets pd"
  have "\<exists>(hello :: hello_message) t2 signed z t3 to_sign.
        decode_reply reply_bytes = Inr ?R \<and>
        pa_device_id (rm_party ?R) \<noteq> ho_device_id owner \<and>
        pa_identity_public_key (rm_party ?R) \<noteq> ho_public_key owner \<and>
        decode_hello hello_bytes = Inr hello \<and>
        transcript_t2 (hc_sha256 c) hello_bytes (rm_body ?R) = Inr t2 \<and>
        signed_responder t2 = Inr signed \<and>
        hc_verify c (pa_identity_public_key (rm_party ?R)) signed (rm_sig_r ?R) \<and>
        check_pin ts (rm_party ?R) = Inr () \<and>
        hc_dh c priv (pa_ephemeral (rm_party ?R)) = Inr z \<and>
        derive_handshake_secrets (hc_hkdf c) z (hm_party hello) (rm_party ?R) t2 = Inr ?S \<and>
        transcript_t2s (hc_sha256 c) t2 (rm_sig_r ?R) = Inr (pd_t2s pd) \<and>
        rm_mac_r ?R = hc_hmac c (hs_responder_confirmation_key ?S) (pd_t2s pd) \<and>
        transcript_t3 (hc_sha256 c) (pd_t2s pd) (rm_mac_r ?R) = Inr t3 \<and>
        signed_initiator (pd_t2s pd) = Inr to_sign \<and>
        transcript_t3s (hc_sha256 c) t3 (hc_sign c (ho_private_key owner) to_sign) = Inr (pd_t3s pd) \<and>
        confirmation_mac (hc_hmac c) (hs_initiator_confirmation_key ?S) (pd_t3s pd) = Inr (pd_mac_i pd) \<and>
        encode_confirm (hc_sign c (ho_private_key owner) to_sign) (pd_mac_i pd) = Inr (pd_confirm pd)"
    using conf unfolding initiator_confirm_def
    by (clarsimp simp: rbind_eq_Inr raise_if_eq_Inr check_not_self_eq_Inr verify_confirmation_mac_eq_Inr Let_def)
  then obtain hello :: hello_message and t2 signed z t3 to_sign where
    f: "decode_reply reply_bytes = Inr ?R"
      "pa_device_id (rm_party ?R) \<noteq> ho_device_id owner"
      "pa_identity_public_key (rm_party ?R) \<noteq> ho_public_key owner"
      "decode_hello hello_bytes = Inr hello"
      "transcript_t2 (hc_sha256 c) hello_bytes (rm_body ?R) = Inr t2"
      "signed_responder t2 = Inr signed"
      "hc_verify c (pa_identity_public_key (rm_party ?R)) signed (rm_sig_r ?R)"
      "check_pin ts (rm_party ?R) = Inr ()"
      "hc_dh c priv (pa_ephemeral (rm_party ?R)) = Inr z"
      "derive_handshake_secrets (hc_hkdf c) z (hm_party hello) (rm_party ?R) t2 = Inr ?S"
      "transcript_t2s (hc_sha256 c) t2 (rm_sig_r ?R) = Inr (pd_t2s pd)"
      "rm_mac_r ?R = hc_hmac c (hs_responder_confirmation_key ?S) (pd_t2s pd)"
      "transcript_t3 (hc_sha256 c) (pd_t2s pd) (rm_mac_r ?R) = Inr t3"
      "signed_initiator (pd_t2s pd) = Inr to_sign"
      "transcript_t3s (hc_sha256 c) t3 (hc_sign c (ho_private_key owner) to_sign) = Inr (pd_t3s pd)"
      "pd_mac_i pd = hc_hmac c (hs_initiator_confirmation_key ?S) (pd_t3s pd)"
      "encode_confirm (hc_sign c (ho_private_key owner) to_sign) (pd_mac_i pd) = Inr (pd_confirm pd)"
    using confirmation_mac_eq_Inr by blast
  obtain final t_final t4 where
    g: "decode_final m4 = Inr final" "fm_status final = STATUS_ACCEPT"
      "transcript_final (hc_sha256 c) (pd_t3s pd) (pd_mac_i pd) = Inr t_final"
      "transcript_m4_accept (hc_sha256 c) t_final = Inr t4"
      "fm_mac_f final = hc_hmac c (hs_responder_confirmation_key ?S) t4"
    using fin by (auto simp: verify_final_def final_outcome_def rbind_eq_Inr verify_confirmation_mac_eq_Inr
        split: sum.splits if_splits)
  have pin: "get_trusted_key ts (pa_device_id (rm_party ?R)) \<in> {None, Some (pa_identity_public_key (rm_party ?R))}"
    using f(8) by (simp add: check_pin_eq_Inr)
  have "responder_proved c owner ts priv hello_bytes reply_bytes (pd_confirm pd) m4 ?R ?S"
    unfolding responder_proved_def
    by (intro conjI, rule f(1), rule f(2), rule f(3), rule pin, rule exI [of _ hello], rule exI [of _ t2], rule exI [of _ signed],
        rule exI [of _ z], rule exI [of _ "pd_t2s pd"], rule exI [of _ t3], rule exI [of _ to_sign],
        rule exI [of _ "hc_sign c (ho_private_key owner) to_sign"], rule exI [of _ "pd_t3s pd"], rule exI [of _ "pd_mac_i pd"],
        rule exI [of _ t_final], rule exI [of _ t4], rule exI [of _ final], intro conjI) (rule f g refl)+
  then show ?thesis using derive_secrets_session_id [OF f(10)] by simp
qed

lemma initiator_exchange_cases:
  assumes "initiator_exchange c owner ts eph nonce io = (res, ts')"
  obtains (failed) e where "res = Inl e" "ts' = ts"
  | (completed) hello_bytes reply_bytes m4 pd where "initiator_hello owner eph nonce = Inr hello_bytes"
      "snd (ii_read2 io) = Inr reply_bytes" "snd (ii_read4 io) = Inr m4"
      "initiator_confirm c owner ts (fst eph) hello_bytes reply_bytes = Inr pd" "verify_final c pd (Inr m4) = Inr ()"
      "res = rbind (keys_for_role (pd_secrets pd) ROLE_INITIATOR) (\<lambda>keys. Inr (result_for (rm_party (pd_reply pd)) keys ROLE_INITIATOR))"
      "ts' = trust (pa_device_id (rm_party (pd_reply pd))) (pa_identity_public_key (rm_party (pd_reply pd))) ts"
proof -
  let ?r = "rbind (initiator_hello owner eph nonce) (\<lambda>hello_bytes.
           rbind (io_write (ii_write1 io) hello_bytes) (\<lambda>_.
           rbind (io_read (ii_read2 io)) (\<lambda>reply_bytes.
           rbind (initiator_confirm c owner ts (fst eph) hello_bytes reply_bytes) (\<lambda>pd.
           rbind (io_write (ii_write3 io) (pd_confirm pd)) (\<lambda>_.
           rbind (verify_final c pd (io_read (ii_read4 io))) (\<lambda>_. Inr pd))))))"
  show thesis
  proof (cases ?r)
    case (Inl e)
    then show thesis using assms failed [of e] by (auto simp: initiator_exchange_def)
  next
    case (Inr pd)
    obtain hello_bytes reply_bytes where
      "initiator_hello owner eph nonce = Inr hello_bytes" "io_read (ii_read2 io) = Inr reply_bytes"
      "initiator_confirm c owner ts (fst eph) hello_bytes reply_bytes = Inr pd"
      "verify_final c pd (io_read (ii_read4 io)) = Inr ()"
      using Inr unfolding rbind_eq_Inr by auto
    moreover from this(4) obtain m4 where "io_read (ii_read4 io) = Inr m4"
      by (cases "io_read (ii_read4 io)") (auto simp: verify_final_def final_outcome_def)
    ultimately show thesis
      using assms Inr completed [of hello_bytes reply_bytes m4 pd]
      by (simp add: initiator_exchange_def Let_def io_read_eq_Inr)
  qed
qed

text \<open>The trust store as a keyed store; nothing in the handshake removes a pin.\<close>

interpretation trust_store: kv_store get_trusted_key "\<lambda>ts device_id key. trust device_id key ts"
    "\<lambda>ts device_id. dict_pop device_id ts"
  by unfold_locales (simp_all add: get_trusted_key_def trust_def)

lemma trust_matching_pin:
  "get_trusted_key ts d \<in> {None, Some k} \<Longrightarrow>
   get_trusted_key (trust d k ts) d' = (if d' = d then Some k else get_trusted_key ts d') \<and>
   (get_trusted_key ts d' = Some k' \<longrightarrow> get_trusted_key (trust d k ts) d' = Some k')"
  by (auto simp: trust_store.get_put)

end
