(* ===== verification/Handshake_Run.thy ===== *)
theory Handshake_Run
  imports Handshake_V3
begin

text \<open>
  What whole runs of the handshake of \<^verbatim>\<open>networking/handshake_v3.py\<close> achieve: the initiator's run, the
  responder's run, the two composed over a faithful network, and many half-open exchanges interleaved under
  the counter of \<^verbatim>\<open>begin_half_open\<close> and \<^verbatim>\<open>end_half_open\<close>.
\<close>

section \<open>The responder's side of the proof obligations\<close>

text \<open>
  What the responder has checked of the initiator before it pins a key or records a session.
\<close>

definition initiator_proved ::
  "hs_crypto \<Rightarrow> hs_owner \<Rightarrow> trust_store \<Rightarrow> bytes \<Rightarrow> bytes \<Rightarrow> hello_message \<Rightarrow> reply_state \<Rightarrow> bool" where
  "initiator_proved c owner ts m1 m3 hello rs \<longleftrightarrow>
     decode_hello m1 = Inr hello \<and>
     pa_device_id (hm_party hello) \<noteq> ho_device_id owner \<and> pa_identity_public_key (hm_party hello) \<noteq> ho_public_key owner \<and>
     get_trusted_key ts (pa_device_id (hm_party hello)) \<in> {None, Some (pa_identity_public_key (hm_party hello))} \<and>
     (\<exists>confirm signed t3 t3s.
        decode_confirm m3 = Inr confirm \<and> signed_initiator (rs_t2s rs) = Inr signed \<and>
        hc_verify c (pa_identity_public_key (hm_party hello)) signed (cm_sig_i confirm) \<and>
        transcript_t3 (hc_sha256 c) (rs_t2s rs) (rs_mac_r rs) = Inr t3 \<and>
        transcript_t3s (hc_sha256 c) t3 (cm_sig_i confirm) = Inr t3s \<and>
        cm_mac_i confirm = hc_hmac c (hs_initiator_confirmation_key (rs_secrets rs)) t3s)"

lemma check_message_3_proved:
  assumes "check_message_3 c ts m3 hello rs = Inr (confirm, t3s)" "responder_hello owner m1 = Inr hello"
  shows "initiator_proved c owner ts m1 m3 hello rs"
  using assms
  by (auto simp: check_message_3_def responder_hello_def initiator_proved_def rbind_eq_Inr raise_if_eq_Inr
      check_not_self_eq_Inr check_pin_eq_Inr verify_confirmation_mac_eq_Inr)

lemma responder_reply_sizes:
  "responder_reply c owner hello m1 eph nonce = Inr rs \<Longrightarrow> length (hs_session_id (rs_secrets rs)) = SESSION_ID_SIZE"
  by (auto simp: responder_reply_def rbind_eq_Inr Let_def dest: derive_secrets_session_id)

text \<open>
  The only two ways message 3 can end: nothing has changed, or everything was proved, the pin is
  written and the callback has run.
\<close>

definition confirmed_effects ::
  "(handshake_result \<Rightarrow> 's \<Rightarrow> unit result \<times> 's) \<Rightarrow> hello_message \<Rightarrow> handshake_result \<Rightarrow>
   's responder_world \<Rightarrow> 's responder_world \<Rightarrow> bool" where
  "confirmed_effects cb hello r w w' \<longleftrightarrow>
     rw_trusted w' = trust (pa_device_id (hm_party hello)) (pa_identity_public_key (hm_party hello)) (rw_trusted w) \<and>
     rw_sessions w' = snd (cb r (rw_sessions w))"

lemma verify_message_3_cases:
  assumes "verify_message_3 c cb m3 hello rs w = (res, w1)" "responder_hello owner m1 = Inr hello"
    and "length (hs_session_id (rs_secrets rs)) = SESSION_ID_SIZE"
  obtains (refused) e where "res = Inl e" "w1 = w"
  | (proved) r where "initiator_proved c owner (rw_trusted w) m1 m3 hello rs" "confirmed_effects cb hello r w w1"
      "rw_half_open w1 = rw_half_open w"
      "rw_effects w1 = rw_effects w @ [Pinned (pa_device_id (hm_party hello)) (pa_identity_public_key (hm_party hello)), Confirmed r]"
      "hr_peer_device_id r = pa_device_id (hm_party hello)" "hr_session_id r = hs_session_id (rs_secrets rs)"
      "hr_send_key r = hs_r2i_key (rs_secrets rs)" "hr_receive_key r = hs_i2r_key (rs_secrets rs)"
      "(\<exists>e. fst (cb r (rw_sessions w)) = Inl e \<and> res = Inl e) \<or>
       (fst (cb r (rw_sessions w)) = Inr () \<and>
        (\<exists>confirm t3s. check_message_3 c (rw_trusted w) m3 hello rs = Inr (confirm, t3s) \<and> res = Inr (confirm, t3s, r)))"
proof (cases "check_message_3 c (rw_trusted w) m3 hello rs")
  case (Inl e)
  then show thesis using assms(1) refused [of e] by (simp add: verify_message_3_def)
next
  case (Inr ct)
  obtain confirm t3s where ct: "ct = (confirm, t3s)" by (cases ct)
  note ini = check_message_3_proved [OF Inr [unfolded ct] assms(2)]
  have k: "keys_for_role (rs_secrets rs) ROLE_RESPONDER = Inr \<lparr>sk_session_id = hs_session_id (rs_secrets rs),
      sk_send_key = hs_r2i_key (rs_secrets rs), sk_receive_key = hs_i2r_key (rs_secrets rs), sk_role = ROLE_RESPONDER\<rparr>"
    using keys_for_role_Inr [OF assms(3)] by blast
  define r where "r = result_for (hm_party hello) \<lparr>sk_session_id = hs_session_id (rs_secrets rs),
      sk_send_key = hs_r2i_key (rs_secrets rs), sk_receive_key = hs_i2r_key (rs_secrets rs), sk_role = ROLE_RESPONDER\<rparr> ROLE_RESPONDER"
  show thesis
    using assms(1) k Inr ct
    by (intro proved [of r, OF ini])
      (auto simp: verify_message_3_def Let_def confirmed_effects_def result_for_def r_def split: prod.splits sum.splits)
qed

text \<open>
  What has happened, in order, when message 3 was verified: the reply was handed to the socket, the pin written, the callback
  called; then, if the callback raised, at most the reject; if it returned, at most the accepting message 4, and the run
  returns only when that was handed over.
\<close>

definition committed_in_order ::
  "hs_crypto \<Rightarrow> (handshake_result \<Rightarrow> 's \<Rightarrow> unit result \<times> 's) \<Rightarrow> hello_message \<Rightarrow> bytes \<Rightarrow> reply_state \<Rightarrow> handshake_result \<Rightarrow>
   handshake_result result \<Rightarrow> 's responder_world \<Rightarrow> 's responder_world \<Rightarrow> bool" where
  "committed_in_order c cb hello m3 rs r res w w' \<longleftrightarrow>
     (\<exists>rest. rw_effects w' = rw_effects w @ [HandedOver (rs_reply rs),
          Pinned (pa_device_id (hm_party hello)) (pa_identity_public_key (hm_party hello)), Confirmed r] @ rest \<and>
        (case fst (cb r (rw_sessions w)) of
           Inl e \<Rightarrow> res = Inl e \<and> (rest = [] \<or> (\<exists>m. reject_bytes c rs m3 = Some m \<and> rest = [HandedOver m]))
         | Inr _ \<Rightarrow> (\<exists>confirm t3s. check_message_3 c (rw_trusted w) m3 hello rs = Inr (confirm, t3s) \<and>
             ((\<exists>e. res = Inl e) \<and> rest = [] \<or>
              (\<exists>m4. final_accept c rs t3s confirm = Inr m4 \<and> rest = [HandedOver m4] \<and> (res = Inr r \<or> (\<exists>e. res = Inl e)))))))"

text \<open>Before that nothing but the reply and the reject is handed over.\<close>

definition only_refused ::
  "hs_crypto \<Rightarrow> hs_owner \<Rightarrow> bytes \<times> bytes \<Rightarrow> bytes \<Rightarrow> 's responder_world \<Rightarrow> 's responder_world \<Rightarrow> bool" where
  "only_refused c owner eph nonce w w' \<longleftrightarrow>
     (\<exists>sent. rw_effects w' = rw_effects w @ map HandedOver sent \<and>
        (\<forall>m \<in> set sent. \<exists>m1 (hello :: hello_message) rs. responder_reply c owner hello m1 eph nonce = Inr rs \<and>
           (m = rs_reply rs \<or> (\<exists>m3. reject_bytes c rs m3 = Some m))))"

lemma hand_over_cases:
  "hand_over wr x w = w \<or> (\<exists>m. x = Some m \<and> hand_over wr x w = w\<lparr>rw_effects := rw_effects w @ [HandedOver m]\<rparr>)"
  by (simp add: hand_over_def split: option.split)

lemma hand_over_written: "io_write wr m = Inr u \<Longrightarrow> hand_over wr (Some m) w = w\<lparr>rw_effects := rw_effects w @ [HandedOver m]\<rparr>"
  by (auto simp: hand_over_def io_write_eq_Inr)

lemma hand_over_sel [simp]:
  "rw_trusted (hand_over wr x w) = rw_trusted w" "rw_half_open (hand_over wr x w) = rw_half_open w"
  "rw_sessions (hand_over wr x w) = rw_sessions w"
  by (simp_all add: hand_over_def split: option.split)

lemma only_refused_refl: "rw_effects w' = rw_effects w \<Longrightarrow> only_refused c owner eph nonce w w'"
  unfolding only_refused_def by (intro exI [of _ "[]"]) simp

lemma only_refused_step:
  assumes "only_refused c owner eph nonce w w1" "responder_reply c owner hello m1 eph nonce = Inr rs"
    and "\<And>m. x = Some m \<Longrightarrow> m = rs_reply rs \<or> (\<exists>m3. reject_bytes c rs m3 = Some m)"
  shows "only_refused c owner eph nonce w (hand_over wr x w1)"
proof -
  obtain sent where s: "rw_effects w1 = rw_effects w @ map HandedOver sent"
      "\<forall>m \<in> set sent. \<exists>m1 (hello :: hello_message) rs. responder_reply c owner hello m1 eph nonce = Inr rs \<and>
           (m = rs_reply rs \<or> (\<exists>m3. reject_bytes c rs m3 = Some m))"
    using assms(1) by (auto simp: only_refused_def)
  show ?thesis
    using hand_over_cases [of wr x w1]
  proof
    assume "\<exists>m. x = Some m \<and> hand_over wr x w1 = w1\<lparr>rw_effects := rw_effects w1 @ [HandedOver m]\<rparr>"
    then obtain m where m: "x = Some m" "hand_over wr x w1 = w1\<lparr>rw_effects := rw_effects w1 @ [HandedOver m]\<rparr>" by blast
    show ?thesis
      unfolding only_refused_def m(2)
      by (intro exI [of _ "sent @ [m]"]) (use s assms(2) assms(3) [OF m(1)] in auto)
  qed (use assms(1) in simp)
qed

text \<open>The body of the \<^verbatim>\<open>try\<close>: the counter is untouched, and what else can have happened.\<close>

lemma responder_half_open_cases:
  assumes "responder_half_open c owner cb hello m1 eph nonce io w = (res, w')" "responder_hello owner m1 = Inr hello"
  shows "rw_half_open w' = rw_half_open w \<and>
    ((\<exists>e. res = Inl e) \<and> rw_trusted w' = rw_trusted w \<and> rw_sessions w' = rw_sessions w \<and> only_refused c owner eph nonce w w' \<or>
     (\<exists>m3 rs r. snd (ri_read3 io) = Inr m3 \<and> responder_reply c owner hello m1 eph nonce = Inr rs \<and>
        initiator_proved c owner (rw_trusted w) m1 m3 hello rs \<and> confirmed_effects cb hello r w w' \<and>
        hr_peer_device_id r = pa_device_id (hm_party hello) \<and> hr_session_id r = hs_session_id (rs_secrets rs) \<and>
        hr_send_key r = hs_r2i_key (rs_secrets rs) \<and> hr_receive_key r = hs_i2r_key (rs_secrets rs) \<and>
        committed_in_order c cb hello m3 rs r res w w'))"
proof (cases "responder_reply c owner hello m1 eph nonce")
  case (Inl e)
  then show ?thesis using assms(1) only_refused_refl [of w w] by (auto simp: responder_half_open_def)
next
  case rs: (Inr rs)
  let ?w0 = "hand_over (ri_write2 io) (Some (rs_reply rs)) w"
  have sent: "only_refused c owner eph nonce w ?w0"
    by (rule only_refused_step [OF only_refused_refl [OF refl] rs]) simp
  show ?thesis
  proof (cases "rbind (io_write (ri_write2 io) (rs_reply rs)) (\<lambda>_. io_read (ri_read3 io))")
    case (Inl e)
    then show ?thesis using assms(1) rs sent by (auto simp: responder_half_open_def Let_def)
  next
    case (Inr m3)
    from Inr have m3: "snd (ri_read3 io) = Inr m3" and w2: "io_write (ri_write2 io) (rs_reply rs) = Inr ()"
      by (auto simp: rbind_eq_Inr io_read_eq_Inr)
    have w0: "rw_effects ?w0 = rw_effects w @ [HandedOver (rs_reply rs)]" using hand_over_written [OF w2, of w] by simp
    obtain v w1 where v: "verify_message_3 c cb m3 hello rs ?w0 = (v, w1)" by (cases "verify_message_3 c cb m3 hello rs ?w0")
    have run: "(res, w') =
        (case v of Inl e \<Rightarrow> (Inl e, hand_over (ri_write4 io) (reject_bytes c rs m3) w1)
         | Inr (confirm, t3s, res) \<Rightarrow> (case final_accept c rs t3s confirm of
              Inl e \<Rightarrow> (Inl e, w1)
            | Inr m4 \<Rightarrow> (rbind (io_write (ri_write4 io) m4) (\<lambda>_. Inr res), hand_over (ri_write4 io) (Some m4) w1)))"
      using assms(1) Inr rs v by (simp add: responder_half_open_def Let_def)
    show ?thesis
      using v assms(2) responder_reply_sizes [OF rs]
    proof (cases rule: verify_message_3_cases)
      case (refused e)
      then have "res = Inl e" "w' = hand_over (ri_write4 io) (reject_bytes c rs m3) ?w0" using run by simp_all
      moreover have "only_refused c owner eph nonce w (hand_over (ri_write4 io) (reject_bytes c rs m3) ?w0)"
        by (rule only_refused_step [OF sent rs]) auto
      ultimately show ?thesis by simp
    next
      case (proved r)
      have e1: "rw_effects w1 = rw_effects w @ [HandedOver (rs_reply rs),
          Pinned (pa_device_id (hm_party hello)) (pa_identity_public_key (hm_party hello)), Confirmed r]"
        using proved(4) w0 by simp
      have eff: "confirmed_effects cb hello r w w1" "rw_half_open w1 = rw_half_open w"
        using proved(2,3) by (simp_all add: confirmed_effects_def)
      have same: "confirmed_effects cb hello r w (hand_over wr x w1)" for wr x
        using eff(1) by (simp add: confirmed_effects_def)
      have cb_of: "rw_sessions ?w0 = rw_sessions w" by simp
      have "committed_in_order c cb hello m3 rs r res w w' \<and> confirmed_effects cb hello r w w' \<and> rw_half_open w' = rw_half_open w"
      proof (cases "fst (cb r (rw_sessions w))")
        case (Inl e)
        then have "v = Inl e" using proved(9) cb_of by auto
        then have x: "res = Inl e" "w' = hand_over (ri_write4 io) (reject_bytes c rs m3) w1" using run by simp_all
        show ?thesis
          using hand_over_cases [of "ri_write4 io" "reject_bytes c rs m3" w1] Inl e1 same eff
          unfolding x committed_in_order_def by auto
      next
        case ok: (Inr u)
        then obtain confirm t3s where f: "v = Inr (confirm, t3s, r)" "check_message_3 c (rw_trusted w) m3 hello rs = Inr (confirm, t3s)"
          using proved(9) cb_of by auto
        show ?thesis
        proof (cases "final_accept c rs t3s confirm")
          case (Inl e)
          then have x: "res = Inl e" "w' = w1" using run f by simp_all
          show ?thesis using ok f(2) e1 eff unfolding x committed_in_order_def by auto
        next
          case m4: (Inr m4)
          then have x: "res = rbind (io_write (ri_write4 io) m4) (\<lambda>_. Inr r)" "w' = hand_over (ri_write4 io) (Some m4) w1"
            using run f by simp_all
          have "res = Inr r \<and> rw_effects w' = rw_effects w1 @ [HandedOver m4] \<or> (\<exists>e. res = Inl e)"
            using hand_over_written [of "ri_write4 io" m4 _ w1] x by (cases "io_write (ri_write4 io) m4") auto
          moreover have "rw_effects w' = rw_effects w1 \<or> rw_effects w' = rw_effects w1 @ [HandedOver m4]"
            using hand_over_cases [of "ri_write4 io" "Some m4" w1] x(2) by auto
          ultimately have "committed_in_order c cb hello m3 rs r res w w'"
            using ok f(2) e1 m4 unfolding committed_in_order_def by auto
          then show ?thesis using same eff x(2) by simp
        qed
      qed
      then show ?thesis using proved rs m3 by auto
    qed
  qed
qed

section \<open>Properties of a single run\<close>


text \<open>
  C6: The responder commits nothing before the initiator is verified, and always gives its half-open
  slot back. Whatever the network does, the counter after the run is the one before. Either the run fails with
  trust store and sessions untouched and nothing handed to the socket but a reply and a reject; or message 3 carried a signature over
  this exchange under the key that HELLO announced, which agrees with any pin, and a MAC under this exchange's confirmation key, and then
  the pin and the callback's effect are both there, in this order: reply handed to the socket, pin written, callback called, and
  only after the callback has returned the accepting message 4. If the callback raises, no message 4 but the reject follows and
  the run fails; a run that returns has handed message 4 over. A run of \<open>accept\<close> beyond the global rate changes nothing at all.
\<close>

theorem responder_commits_only_verified:
  assumes "responder_run c owner cb eph nonce io w = (res, st, w')" and "0 \<le> rw_half_open w"
  shows "rw_half_open w' = rw_half_open w \<and> (st = R_CONFIRMED \<longleftrightarrow> (\<exists>r. res = Inr r)) \<and>
    ((\<exists>e. res = Inl e) \<and> rw_trusted w' = rw_trusted w \<and> rw_sessions w' = rw_sessions w \<and> only_refused c owner eph nonce w w' \<or>
     (\<exists>m1 m3 (hello :: hello_message) rs r. snd (ri_read1 io) = Inr m1 \<and> snd (ri_read3 io) = Inr m3 \<and>
        rw_half_open w < ho_max_half_open owner \<and>
        responder_reply c owner hello m1 eph nonce = Inr rs \<and>
        initiator_proved c owner (rw_trusted w) m1 m3 hello rs \<and> confirmed_effects cb hello r w w' \<and>
        hr_peer_device_id r = pa_device_id (hm_party hello) \<and> hr_session_id r = hs_session_id (rs_secrets rs) \<and>
        hr_send_key r = hs_r2i_key (rs_secrets rs) \<and> hr_receive_key r = hs_i2r_key (rs_secrets rs) \<and>
        committed_in_order c cb hello m3 rs r res w w')) \<and>
    (\<not> fst (bucket_allow now b) \<longrightarrow> snd (snd (handshake_accept c owner cb eph nonce now io b w)) = w)"
proof -
  have acc: "\<not> fst (bucket_allow now b) \<longrightarrow> snd (snd (handshake_accept c owner cb eph nonce now io b w)) = w"
    by (auto simp: handshake_accept_def split: prod.splits bool.splits)
  have x: "responder_exchange c owner cb eph nonce io w = (res, w')" and st: "st = R_CONFIRMED \<longleftrightarrow> (\<exists>r. res = Inr r)"
    using assms(1) by (auto simp: responder_run_def split: prod.splits sum.splits)
  show ?thesis
  proof (cases "rbind (io_read (ri_read1 io)) (\<lambda>m1. rbind (responder_hello owner m1) (\<lambda>h. Inr (m1, h)))")
    case (Inl e)
    then show ?thesis using x st acc only_refused_refl [of w w] by (auto simp: responder_exchange_def)
  next
    case (Inr p)
    obtain m1 and hello :: hello_message where p: "p = (m1, hello)" by (cases p)
    from Inr p have m1: "snd (ri_read1 io) = Inr m1" and hello: "responder_hello owner m1 = Inr hello"
      by (auto simp: rbind_eq_Inr io_read_eq_Inr)
    show ?thesis
    proof (cases "rw_half_open w \<ge> ho_max_half_open owner")
      case True
      then show ?thesis using x Inr p st acc only_refused_refl [of w w] by (auto simp: responder_exchange_def begin_half_open_def)
    next
      case False
      let ?w = "w\<lparr>rw_half_open := rw_half_open w + 1\<rparr>"
      obtain w2 where h: "responder_half_open c owner cb hello m1 eph nonce io ?w = (res, w2)" and w': "w' = end_half_open w2"
        using x Inr p False
        by (cases "responder_half_open c owner cb hello m1 eph nonce io ?w")
          (auto simp: responder_exchange_def begin_half_open_def)
      note cs = responder_half_open_cases [OF h hello]
      have restored: "w' = w2\<lparr>rw_half_open := rw_half_open w\<rparr>"
        using cs assms(2) w' by (simp add: end_half_open_def)
      have eff: "confirmed_effects cb hello r ?w w2 \<longleftrightarrow> confirmed_effects cb hello r w w'" for r
        by (simp add: confirmed_effects_def restored)
      have eff': "committed_in_order c cb hello m3 rs r res ?w w2 = committed_in_order c cb hello m3 rs r res w w'"
          "only_refused c owner eph nonce ?w w2 = only_refused c owner eph nonce w w'" for m3 rs r
        by (simp_all add: committed_in_order_def only_refused_def restored cong: sum.case_cong)
      show ?thesis using cs m1 False st acc unfolding eff eff' by (auto simp: restored)
    qed
  qed
qed

section \<open>Two honest ends\<close>

text \<open>
  The documented behaviour of the primitives: output sizes, a signature verifies under the signer's
  public key, and both ends of X25519 compute the same secret, which is not zero.
\<close>

definition crypto_sizes :: "hs_crypto \<Rightarrow> bool" where
  "crypto_sizes c \<longleftrightarrow> (\<forall>x. length (hc_sha256 c x) = 32) \<and> hkdf_length (hc_hkdf c) \<and>
     (\<forall>k m. length (hc_hmac c k m) = 32) \<and> (\<forall>k m. length (hc_sign c k m) = 64)"

definition signs_for :: "hs_crypto \<Rightarrow> hs_owner \<Rightarrow> bool" where
  "signs_for c owner \<longleftrightarrow> (\<forall>m. hc_verify c (ho_public_key owner) m (hc_sign c (ho_private_key owner) m))"

definition dh_agrees :: "hs_crypto \<Rightarrow> bytes \<times> bytes \<Rightarrow> bytes \<times> bytes \<Rightarrow> bool" where
  "dh_agrees c x y \<longleftrightarrow> hc_dh c (fst x) (snd y) = hc_dh c (fst y) (snd x) \<and>
     (case hc_dh c (fst x) (snd y) of Inl _ \<Rightarrow> False | Inr z \<Rightarrow> length z = 32 \<and> z \<noteq> replicate 32 0)"

lemma hash_one_total: "length v < 65536 \<Longrightarrow> hash_parts h p [v] = Inr (h (p @ prefix16 v))"
  using hash_input_one [of p v] by (auto simp: hash_parts_eq_Inr)

lemma hash_two_total:
  "length v < 65536 \<Longrightarrow> length w < 65536 \<Longrightarrow> hash_parts h p [v, w] = Inr (h (p @ prefix16 v @ prefix16 w))"
  using hash_input_two [of p v w] by (auto simp: hash_parts_eq_Inr)

lemma signed_total: "signed_responder t = Inr (prefix16 RESPONDER_SIG_LABEL @ t)"
    "signed_initiator t = Inr (prefix16 INITIATOR_SIG_LABEL @ t)"
proof -
  have "length RESPONDER_SIG_LABEL < 256 ^ 2" "length INITIATOR_SIG_LABEL < 256 ^ 2"
    by (simp_all add: RESPONDER_SIG_LABEL_def INITIATOR_SIG_LABEL_def byte_lit_def)
  then show "signed_responder t = Inr (prefix16 RESPONDER_SIG_LABEL @ t)"
    "signed_initiator t = Inr (prefix16 INITIATOR_SIG_LABEL @ t)"
    using lp_eq_Inr [of RESPONDER_SIG_LABEL] lp_eq_Inr [of INITIATOR_SIG_LABEL]
    by (auto simp: signed_responder_def signed_initiator_def rbind_eq_Inr)
qed

lemma m4_label_length [simp]: "length M4_ACCEPT_LABEL = 23"
  by (simp add: M4_ACCEPT_LABEL_def byte_lit_def)

lemmas transcript_totals = transcript_t2_def transcript_t2s_def transcript_t3_def transcript_t3s_def
  transcript_final_def transcript_m4_accept_def hash_one_total hash_two_total signed_total

lemma party_bytes_length: "wf_party p idb \<Longrightarrow> length (party_bytes mt p idb) < 65536 - 96"
  by (auto simp: party_bytes_def wf_party_def validate_device_id_eq_Inr handshake_sizes simp del: be_bytes.simps)

lemma encode_party_bytes:
  assumes "valid_party p" "0 \<le> mt" "mt < 256"
  shows "\<exists>bs. encode_party mt p = Inr bs \<and> length bs < 65536 - 96"
  using assms encode_party_eq_Inr [OF assms(2,3), of p] party_bytes_length by (auto simp: valid_party_def)

text \<open>Message 1.\<close>

lemma honest_hello:
  assumes "valid_party (own_party a (snd eph) nonce)"
  obtains m1 where "initiator_hello a eph nonce = Inr m1" "length m1 < 65536"
    "decode_hello m1 = Inr \<lparr>hm_version = 3, hm_party = own_party a (snd eph) nonce, hm_raw = m1\<rparr>"
proof -
  have n: "generate_nonce nonce = Inr nonce"
    using assms by (auto simp: valid_party_def wf_party_def own_party_def generate_nonce_def handshake_sizes)
  obtain m1 where m1: "encode_hello (own_party a (snd eph) nonce) = Inr m1" "length m1 < 65536"
    using encode_party_bytes [OF assms, of MSG_HELLO] by (auto simp: encode_hello_def MSG_HELLO_def)
  show thesis
    using that [of m1] n m1 assms decode_hello_eq_Inr [of m1 "\<lparr>hm_version = 3, hm_party = own_party a (snd eph) nonce, hm_raw = m1\<rparr>"]
    by (simp add: initiator_hello_def)
qed

text \<open>Message 2, with what the initiator will read from it.\<close>

lemma honest_reply:
  fixes hello :: hello_message
  assumes c: "crypto_sizes c" and h: "valid_party (hm_party hello)" and b: "valid_party (own_party b (snd eph) nonce)"
    and m1: "length m1 < 65536"
    and z: "hc_dh c (fst eph) (pa_ephemeral (hm_party hello)) = Inr z" "length z = 32" "z \<noteq> replicate 32 0"
  obtains rs body t2 sig_r where "responder_reply c b hello m1 eph nonce = Inr rs"
    "transcript_t2 (hc_sha256 c) m1 body = Inr t2"
    "sig_r = hc_sign c (ho_private_key b) (prefix16 RESPONDER_SIG_LABEL @ t2)"
    "derive_handshake_secrets (hc_hkdf c) z (hm_party hello) (own_party b (snd eph) nonce) t2 = Inr (rs_secrets rs)"
    "transcript_t2s (hc_sha256 c) t2 sig_r = Inr (rs_t2s rs)" "length (rs_t2s rs) = 32"
    "rs_mac_r rs = hc_hmac c (hs_responder_confirmation_key (rs_secrets rs)) (rs_t2s rs)"
    "length (hs_session_id (rs_secrets rs)) = SESSION_ID_SIZE"
    "length (hs_responder_confirmation_key (rs_secrets rs)) = KEY_SIZE"
    "length (hs_initiator_confirmation_key (rs_secrets rs)) = KEY_SIZE" "length (rs_reply rs) < 65536"
    "decode_reply (rs_reply rs) = Inr \<lparr>rm_version = 3, rm_party = own_party b (snd eph) nonce, rm_sig_r = sig_r,
       rm_mac_r = rs_mac_r rs, rm_body = body, rm_raw = rs_reply rs\<rparr>"
proof -
  let ?me = "own_party b (snd eph) nonce"
  note sizes = c [unfolded crypto_sizes_def]
  have n: "generate_nonce nonce = Inr nonce"
    using b by (auto simp: valid_party_def wf_party_def own_party_def generate_nonce_def handshake_sizes)
  obtain body where body: "encode_reply_body ?me = Inr body" "length body < 65536 - 96"
    using encode_party_bytes [OF b, of MSG_REPLY] by (auto simp: encode_reply_body_def MSG_REPLY_def)
  define t2 where "t2 = hc_sha256 c (T1 @ prefix16 m1 @ prefix16 body)"
  define sig_r where "sig_r = hc_sign c (ho_private_key b) (prefix16 RESPONDER_SIG_LABEL @ t2)"
  define t2s where "t2s = hc_sha256 c (t2 @ prefix16 sig_r)"
  have t2: "transcript_t2 (hc_sha256 c) m1 body = Inr t2" using m1 body by (simp add: transcript_totals t2_def)
  have t2s: "transcript_t2s (hc_sha256 c) t2 sig_r = Inr t2s" using sizes by (simp add: transcript_totals t2s_def sig_r_def)
  have len: "length t2 = 32" "length t2s = 32" "length sig_r = 64" using sizes by (simp_all add: t2_def t2s_def sig_r_def)
  obtain hb rb where wf: "wf_party (hm_party hello) hb" "wf_party ?me rb" using h b by (auto simp: valid_party_def)
  obtain s where s: "derive_handshake_secrets (hc_hkdf c) z (hm_party hello) ?me t2 = Inr s"
      "length (hs_session_id s) = SESSION_ID_SIZE" "length (hs_responder_confirmation_key s) = KEY_SIZE"
      "length (hs_initiator_confirmation_key s) = KEY_SIZE"
    using derive_handshake_secrets_total [OF _ z(2,3) len(1) wf, of "hc_hkdf c"] sizes by blast
  define mac_r where "mac_r = hc_hmac c (hs_responder_confirmation_key s) t2s"
  have enc: "encode_reply ?me sig_r mac_r = Inr (body @ sig_r @ mac_r)"
    using body len sizes by (simp add: encode_reply_def validate_bytes_def handshake_sizes mac_r_def)
  define rs where "rs = \<lparr>rs_secrets = s, rs_t2s = t2s, rs_mac_r = mac_r, rs_reply = body @ sig_r @ mac_r\<rparr>"
  have rs: "responder_reply c b hello m1 eph nonce = Inr rs"
    using n body t2 t2s s z enc len
    by (simp add: responder_reply_def Let_def signed_total sig_r_def [symmetric] rs_def confirmation_mac_def require_size_def
        TRANSCRIPT_SIZE_def mac_r_def)
  show thesis
    by (rule that [OF rs t2 sig_r_def])
      (use s t2s len body enc b sizes decode_reply_eq_Inr [of "body @ sig_r @ mac_r"
          "\<lparr>rm_version = 3, rm_party = ?me, rm_sig_r = sig_r, rm_mac_r = mac_r, rm_body = body, rm_raw = body @ sig_r @ mac_r\<rparr>"]
        in \<open>simp_all add: rs_def mac_r_def\<close>)
qed

text \<open>Messages 3 and 4.\<close>

lemma encode_confirm_total:
  assumes "length sig = 64" "length mac = 32"
  obtains m3 where "encode_confirm sig mac = Inr m3" "length m3 < 65536"
    "decode_confirm m3 = Inr \<lparr>cm_version = 3, cm_sig_i = sig, cm_mac_i = mac, cm_raw = m3\<rparr>"
proof -
  obtain m3 where "encode_confirm sig mac = Inr m3" "length m3 < 65536"
    using assms by (simp add: encode_confirm_def validate_version_def validate_bytes_def handshake_sizes handshake_codes
        pack_uint_def)
  with that [of m3] show thesis
    using decode_confirm_eq_Inr [of m3 "\<lparr>cm_version = 3, cm_sig_i = sig, cm_mac_i = mac, cm_raw = m3\<rparr>"] by simp
qed

lemma encode_accept_total:
  assumes "length mac = 32"
  obtains m4 where "encode_final STATUS_ACCEPT mac = Inr m4" "length m4 < 65536"
    "decode_final m4 = Inr \<lparr>fm_version = 3, fm_status = STATUS_ACCEPT, fm_mac_f = mac, fm_raw = m4\<rparr>"
proof -
  obtain m4 where "encode_final STATUS_ACCEPT mac = Inr m4" "length m4 < 65536"
    using assms by (simp add: encode_final_def validate_version_def validate_bytes_def handshake_sizes handshake_codes
        pack_uint_def)
  with that [of m4] show thesis
    using decode_final_eq_Inr [of m4 "\<lparr>fm_version = 3, fm_status = STATUS_ACCEPT, fm_mac_f = mac, fm_raw = m4\<rparr>"] by simp
qed

lemma honest_confirm:
  fixes reply :: reply_message
  assumes c: "crypto_sizes c" and sb: "signs_for c b"
    and reply: "decode_reply m2 = Inr reply" and hello: "decode_hello m1 = Inr hello"
    and ids: "pa_device_id (rm_party reply) \<noteq> ho_device_id a" "pa_identity_public_key (rm_party reply) \<noteq> ho_public_key a"
    and key: "pa_identity_public_key (rm_party reply) = ho_public_key b"
    and pin: "check_pin ts (rm_party reply) = Inr ()"
    and z: "hc_dh c priv (pa_ephemeral (rm_party reply)) = Inr z"
    and t2: "transcript_t2 (hc_sha256 c) m1 (rm_body reply) = Inr t2"
    and sig: "rm_sig_r reply = hc_sign c (ho_private_key b) (prefix16 RESPONDER_SIG_LABEL @ t2)"
    and s: "derive_handshake_secrets (hc_hkdf c) z (hm_party hello) (rm_party reply) t2 = Inr s"
      "length (hs_responder_confirmation_key s) = KEY_SIZE" "length (hs_initiator_confirmation_key s) = KEY_SIZE"
    and t2s: "transcript_t2s (hc_sha256 c) t2 (rm_sig_r reply) = Inr t2s" "length t2s = 32"
    and mac: "rm_mac_r reply = hc_hmac c (hs_responder_confirmation_key s) t2s"
  obtains pd t3 sig_i where "initiator_confirm c a ts priv m1 m2 = Inr pd"
    "pd_reply pd = reply" "pd_secrets pd = s" "transcript_t3 (hc_sha256 c) t2s (rm_mac_r reply) = Inr t3"
    "sig_i = hc_sign c (ho_private_key a) (prefix16 INITIATOR_SIG_LABEL @ t2s)"
    "transcript_t3s (hc_sha256 c) t3 sig_i = Inr (pd_t3s pd)" "length (pd_t3s pd) = 32"
    "pd_mac_i pd = hc_hmac c (hs_initiator_confirmation_key s) (pd_t3s pd)" "length (pd_confirm pd) < 65536"
    "decode_confirm (pd_confirm pd) = Inr \<lparr>cm_version = 3, cm_sig_i = sig_i, cm_mac_i = pd_mac_i pd, cm_raw = pd_confirm pd\<rparr>"
proof -
  note sizes = c [unfolded crypto_sizes_def]
  have not_self: "check_not_self (pa_device_id (rm_party reply)) (pa_identity_public_key (rm_party reply))
      (ho_device_id a) (ho_public_key a) = Inr ()"
    using ids check_not_self_eq_Inr by blast
  have mac_ok: "verify_confirmation_mac (hc_hmac c) (hs_responder_confirmation_key s) t2s (rm_mac_r reply) = Inr ()"
    using verify_confirmation_mac_eq_Inr mac s t2s sizes by (simp add: MAC_SIZE_def TRANSCRIPT_SIZE_def)
  define t3 where "t3 = hc_sha256 c (t2s @ prefix16 (rm_mac_r reply))"
  define sig_i where "sig_i = hc_sign c (ho_private_key a) (prefix16 INITIATOR_SIG_LABEL @ t2s)"
  define t3s where "t3s = hc_sha256 c (t3 @ prefix16 sig_i)"
  define mac_i where "mac_i = hc_hmac c (hs_initiator_confirmation_key s) t3s"
  have t3: "transcript_t3 (hc_sha256 c) t2s (rm_mac_r reply) = Inr t3" and t3s: "transcript_t3s (hc_sha256 c) t3 sig_i = Inr t3s"
    using sizes mac by (simp_all add: transcript_totals t3_def t3s_def sig_i_def)
  have mi: "confirmation_mac (hc_hmac c) (hs_initiator_confirmation_key s) t3s = Inr mac_i" "length t3s = 32"
    using sizes s by (simp_all add: confirmation_mac_def require_size_def TRANSCRIPT_SIZE_def mac_i_def t3s_def)
  obtain m3 where m3: "encode_confirm sig_i mac_i = Inr m3" "length m3 < 65536"
      "decode_confirm m3 = Inr \<lparr>cm_version = 3, cm_sig_i = sig_i, cm_mac_i = mac_i, cm_raw = m3\<rparr>"
    using encode_confirm_total [of sig_i mac_i] sizes by (auto simp: sig_i_def mac_i_def)
  have "initiator_confirm c a ts priv m1 m2 = Inr \<lparr>pd_reply = reply, pd_secrets = s, pd_t2s = t2s, pd_t3s = t3s,
      pd_mac_i = mac_i, pd_confirm = m3\<rparr>"
    using sb key by (simp add: initiator_confirm_def reply hello not_self [unfolded key] t2 sig signed_total signs_for_def pin z s
        t2s [unfolded sig] mac_ok t3 sig_i_def [symmetric] t3s mi m3 Let_def)
  from that [OF this, of t3 sig_i] show thesis using t3 sig_i_def t3s mi m3 mac_i_def by simp
qed

lemma honest_final:
  assumes c: "crypto_sizes c" and s: "pd_secrets pd = rs_secrets rs"
    and key: "length (hs_responder_confirmation_key (rs_secrets rs)) = KEY_SIZE"
    and mac: "cm_mac_i confirm = pd_mac_i pd" "length (pd_mac_i pd) = 32"
  obtains m4 where "final_accept c rs (pd_t3s pd) confirm = Inr m4" "length m4 < 65536" "verify_final c pd (Inr m4) = Inr ()"
proof -
  note sizes = c [unfolded crypto_sizes_def]
  define mac_f where "mac_f = hc_hmac c (hs_responder_confirmation_key (rs_secrets rs))
      (hc_sha256 c (hc_sha256 c (pd_t3s pd @ prefix16 (pd_mac_i pd)) @ prefix16 M4_ACCEPT_LABEL))"
  have mac_len: "length mac_f = 32" using sizes by (simp add: mac_f_def)
  obtain m4 where m4: "encode_final STATUS_ACCEPT mac_f = Inr m4" "length m4 < 65536"
      "decode_final m4 = Inr \<lparr>fm_version = 3, fm_status = STATUS_ACCEPT, fm_mac_f = mac_f, fm_raw = m4\<rparr>"
    using encode_accept_total [OF mac_len] by metis
  note mac_simps = transcript_totals confirmation_mac_def require_size_def TRANSCRIPT_SIZE_def MAC_SIZE_def
  have "final_accept c rs (pd_t3s pd) confirm = Inr m4"
    using sizes mac key m4 by (simp add: final_accept_def mac_simps mac_f_def [symmetric])
  moreover have "verify_final c pd (Inr m4) = Inr ()"
    using sizes mac mac_len key m4 s
    by (simp add: verify_final_def final_outcome_def verify_confirmation_mac_def mac_simps mac_f_def)
  ultimately show thesis using that m4(2) by blast
qed

lemma honest_runs:
  fixes w :: "'s responder_world"
  assumes c: "crypto_sizes c" "signs_for c a" "signs_for c b" "dh_agrees c ea eb"
    and valid: "valid_party (own_party a (snd ea) na)" "valid_party (own_party b (snd eb) nb)"
    and ids: "ho_device_id a \<noteq> ho_device_id b" "ho_public_key a \<noteq> ho_public_key b"
    and pins: "get_trusted_key ts (ho_device_id b) \<in> {None, Some (ho_public_key b)}"
      "get_trusted_key (rw_trusted w) (ho_device_id a) \<in> {None, Some (ho_public_key a)}"
    and env: "0 < left" "0 \<le> rw_half_open w" "rw_half_open w < ho_max_half_open b" "\<forall>r s. fst (cb r s) = Inr ()"
  shows "\<exists>m1 m2 m3 m4 ra rb ts' w'.
     initiator_hello a ea na = Inr m1 \<and>
     (\<exists>hello rs. decode_hello m1 = Inr hello \<and> responder_reply c b hello m1 eb nb = Inr rs \<and> m2 = rs_reply rs) \<and>
     (\<exists>pd. initiator_confirm c a ts (fst ea) m1 m2 = Inr pd \<and> m3 = pd_confirm pd) \<and>
     initiator_run c a ts ea na \<lparr>ii_write1 = (left, Inr ()), ii_read2 = (left, Inr m2),
       ii_write3 = (left, Inr ()), ii_read4 = (left, Inr m4)\<rparr> = (Inr ra, CONFIRMED, ts') \<and>
     responder_run c b cb eb nb \<lparr>ri_read1 = (left, Inr m1), ri_write2 = (left, Inr ()),
       ri_read3 = (left, Inr m3), ri_write4 = (left, Inr ())\<rparr> w = (Inr rb, R_CONFIRMED, w') \<and>
     rw_effects w' = rw_effects w @ [HandedOver m2, Pinned (ho_device_id a) (ho_public_key a), Confirmed rb, HandedOver m4] \<and>
     rw_sessions w' = snd (cb rb (rw_sessions w)) \<and>
     hr_session_id ra = hr_session_id rb \<and> hr_send_key ra = hr_receive_key rb \<and> hr_receive_key ra = hr_send_key rb \<and>
     hr_peer_device_id ra = ho_device_id b \<and> hr_peer_device_id rb = ho_device_id a \<and>
     get_trusted_key ts' (ho_device_id b) = Some (ho_public_key b) \<and>
     get_trusted_key (rw_trusted w') (ho_device_id a) = Some (ho_public_key a)"
proof -
  let ?pa = "own_party a (snd ea) na" and ?pb = "own_party b (snd eb) nb"
  note sizes = c(1) [unfolded crypto_sizes_def]
  obtain z where z: "hc_dh c (fst ea) (snd eb) = Inr z" "hc_dh c (fst eb) (snd ea) = Inr z" "length z = 32" "z \<noteq> replicate 32 0"
    using c(4) by (auto simp: dh_agrees_def split: sum.splits)
  obtain m1 where m1: "initiator_hello a ea na = Inr m1" "length m1 < 65536"
      "decode_hello m1 = Inr \<lparr>hm_version = 3, hm_party = ?pa, hm_raw = m1\<rparr>"
    using honest_hello [OF valid(1)] by metis
  let ?hello = "\<lparr>hm_version = 3, hm_party = ?pa, hm_raw = m1\<rparr>"
  have zb: "hc_dh c (fst eb) (pa_ephemeral (hm_party ?hello)) = Inr z" using z by (simp add: own_party_def)
  have va: "valid_party (hm_party ?hello)" using valid by simp
  obtain rs body t2 sig_r where rs: "responder_reply c b ?hello m1 eb nb = Inr rs"
      "transcript_t2 (hc_sha256 c) m1 body = Inr t2"
      "sig_r = hc_sign c (ho_private_key b) (prefix16 RESPONDER_SIG_LABEL @ t2)"
      "derive_handshake_secrets (hc_hkdf c) z ?pa ?pb t2 = Inr (rs_secrets rs)"
      "transcript_t2s (hc_sha256 c) t2 sig_r = Inr (rs_t2s rs)" "length (rs_t2s rs) = 32"
      "rs_mac_r rs = hc_hmac c (hs_responder_confirmation_key (rs_secrets rs)) (rs_t2s rs)"
      "length (hs_session_id (rs_secrets rs)) = SESSION_ID_SIZE"
      "length (hs_responder_confirmation_key (rs_secrets rs)) = KEY_SIZE"
      "length (hs_initiator_confirmation_key (rs_secrets rs)) = KEY_SIZE" "length (rs_reply rs) < 65536"
      "decode_reply (rs_reply rs) = Inr \<lparr>rm_version = 3, rm_party = ?pb, rm_sig_r = sig_r,
         rm_mac_r = rs_mac_r rs, rm_body = body, rm_raw = rs_reply rs\<rparr>"
    by (rule honest_reply [OF c(1) va valid(2) m1(2) zb z(3,4), unfolded hello_message.simps])
  let ?reply = "\<lparr>rm_version = 3, rm_party = ?pb, rm_sig_r = sig_r,
         rm_mac_r = rs_mac_r rs, rm_body = body, rm_raw = rs_reply rs\<rparr>"
  have own: "pa_device_id ?pb = ho_device_id b" "pa_identity_public_key ?pb = ho_public_key b"
      "pa_device_id ?pa = ho_device_id a" "pa_identity_public_key ?pa = ho_public_key a" "pa_ephemeral ?pb = snd eb"
    by (simp_all add: own_party_def)
  have pin_a: "check_pin ts ?pb = Inr ()" and pin_b: "check_pin (rw_trusted w) ?pa = Inr ()"
    using pins check_pin_eq_Inr own by auto
  obtain pd t3 sig_i where pd: "initiator_confirm c a ts (fst ea) m1 (rs_reply rs) = Inr pd"
      "pd_reply pd = ?reply" "pd_secrets pd = rs_secrets rs" "transcript_t3 (hc_sha256 c) (rs_t2s rs) (rm_mac_r ?reply) = Inr t3"
      "sig_i = hc_sign c (ho_private_key a) (prefix16 INITIATOR_SIG_LABEL @ rs_t2s rs)"
      "transcript_t3s (hc_sha256 c) t3 sig_i = Inr (pd_t3s pd)" "length (pd_t3s pd) = 32"
      "pd_mac_i pd = hc_hmac c (hs_initiator_confirmation_key (rs_secrets rs)) (pd_t3s pd)" "length (pd_confirm pd) < 65536"
      "decode_confirm (pd_confirm pd) = Inr \<lparr>cm_version = 3, cm_sig_i = sig_i, cm_mac_i = pd_mac_i pd, cm_raw = pd_confirm pd\<rparr>"
    by (rule honest_confirm [OF c(1) c(3) rs(12) m1(3), of a ts "fst ea" z t2 "rs_secrets rs" "rs_t2s rs"])
      (use rs ids own pin_a z(1) in \<open>simp_all add: eq_commute\<close>)
  have check3: "check_message_3 c (rw_trusted w) (pd_confirm pd) ?hello rs =
      Inr (\<lparr>cm_version = 3, cm_sig_i = sig_i, cm_mac_i = pd_mac_i pd, cm_raw = pd_confirm pd\<rparr>, pd_t3s pd)"
    using c(2) pd rs sizes own pin_b
    by (simp add: check_message_3_def signed_total signs_for_def verify_confirmation_mac_def confirmation_mac_def
        require_size_def MAC_SIZE_def TRANSCRIPT_SIZE_def)
  obtain m4 where m4: "final_accept c rs (pd_t3s pd) \<lparr>cm_version = 3, cm_sig_i = sig_i, cm_mac_i = pd_mac_i pd, cm_raw = pd_confirm pd\<rparr> = Inr m4"
      "length m4 < 65536" "verify_final c pd (Inr m4) = Inr ()"
    by (rule honest_final [OF c(1) pd(3) rs(9), of "\<lparr>cm_version = 3, cm_sig_i = sig_i, cm_mac_i = pd_mac_i pd, cm_raw = pd_confirm pd\<rparr>"])
      (use pd sizes in simp_all)
  note keys = keys_for_role_Inr [OF rs(8)]
  define ra where "ra = result_for ?pb \<lparr>sk_session_id = hs_session_id (rs_secrets rs), sk_send_key = hs_i2r_key (rs_secrets rs),
      sk_receive_key = hs_r2i_key (rs_secrets rs), sk_role = ROLE_INITIATOR\<rparr> ROLE_INITIATOR"
  define rb where "rb = result_for ?pa \<lparr>sk_session_id = hs_session_id (rs_secrets rs), sk_send_key = hs_r2i_key (rs_secrets rs),
      sk_receive_key = hs_i2r_key (rs_secrets rs), sk_role = ROLE_RESPONDER\<rparr> ROLE_RESPONDER"
  have io: "io_write (left, Inr ()) m = Inr ()" "io_read (left, Inr m) = Inr m" if "length m < 65536" for m
    using that env(1) io_write_eq_Inr [of "(left, Inr ())" m] io_read_eq_Inr [of "(left, Inr m)" m] by simp_all
  have runa: "initiator_run c a ts ea na \<lparr>ii_write1 = (left, Inr ()), ii_read2 = (left, Inr (rs_reply rs)),
       ii_write3 = (left, Inr ()), ii_read4 = (left, Inr m4)\<rparr> =
      (Inr ra, CONFIRMED, trust (ho_device_id b) (ho_public_key b) ts)"
    using m1 m4 rs pd own keys
    by (simp add: initiator_run_def initiator_exchange_def io ra_def)
  obtain u where u: "cb rb (rw_sessions w) = (Inr (), u)" using env(4) by (metis prod.collapse)
  have not_self: "responder_hello b m1 = Inr ?hello"
    using m1 ids own by (simp add: responder_hello_def check_not_self_def)
  have runb: "responder_run c b cb eb nb \<lparr>ri_read1 = (left, Inr m1), ri_write2 = (left, Inr ()),
       ri_read3 = (left, Inr (pd_confirm pd)), ri_write4 = (left, Inr ())\<rparr> w =
      (Inr rb, R_CONFIRMED, w\<lparr>rw_trusted := trust (ho_device_id a) (ho_public_key a) (rw_trusted w), rw_sessions := u,
        rw_effects := rw_effects w @ [HandedOver (rs_reply rs), Pinned (ho_device_id a) (ho_public_key a), Confirmed rb, HandedOver m4]\<rparr>)"
    using m1 m4 rs pd own keys not_self check3 u env
    by (simp add: responder_run_def responder_exchange_def begin_half_open_def end_half_open_def responder_half_open_def
        verify_message_3_def io hand_over_def rb_def [symmetric])
  show ?thesis
    by (rule exI [of _ m1], rule exI [of _ "rs_reply rs"], rule exI [of _ "pd_confirm pd"], rule exI [of _ m4],
        rule exI [of _ ra], rule exI [of _ rb], (rule exI)+, intro conjI, rule m1(1))
      (use m1 rs pd runa runb u own in \<open>auto simp: ra_def rb_def result_for_def trust_store.get_put\<close>)
qed

text \<open>
  C4: Two honest ends over a faithful network complete the handshake and agree. Under the documented
  behaviour of the primitives, with valid announcements, different ids and identity keys, no contradicting
  pin, time left at every step, a free half-open slot and a callback that succeeds, there are four messages, each
  produced by one side from what it has received, such that both runs return, in the states \<open>CONFIRMED\<close>: they
  have the same session id, each one's send key is the other's receive key, each names and has pinned
  the other, and the responder handed message 2 to the socket, then pinned and called back, and then handed message 4 over.
\<close>

theorem honest_handshake_agrees:
  fixes w :: "'s responder_world"
  assumes c: "crypto_sizes c" "signs_for c a" "signs_for c b" "dh_agrees c ea eb"
    and valid: "valid_party (own_party a (snd ea) na)" "valid_party (own_party b (snd eb) nb)"
    and ids: "ho_device_id a \<noteq> ho_device_id b" "ho_public_key a \<noteq> ho_public_key b"
    and pins: "get_trusted_key ts (ho_device_id b) \<in> {None, Some (ho_public_key b)}"
      "get_trusted_key (rw_trusted w) (ho_device_id a) \<in> {None, Some (ho_public_key a)}"
    and env: "0 < left" "0 \<le> rw_half_open w" "rw_half_open w < ho_max_half_open b" "\<forall>r s. fst (cb r s) = Inr ()"
  shows "\<exists>m1 m2 m3 m4 ra rb ts' w'.
     initiator_hello a ea na = Inr m1 \<and>
     (\<exists>hello rs. decode_hello m1 = Inr hello \<and> responder_reply c b hello m1 eb nb = Inr rs \<and> m2 = rs_reply rs) \<and>
     (\<exists>pd. initiator_confirm c a ts (fst ea) m1 m2 = Inr pd \<and> m3 = pd_confirm pd) \<and>
     initiator_run c a ts ea na \<lparr>ii_write1 = (left, Inr ()), ii_read2 = (left, Inr m2),
       ii_write3 = (left, Inr ()), ii_read4 = (left, Inr m4)\<rparr> = (Inr ra, CONFIRMED, ts') \<and>
     responder_run c b cb eb nb \<lparr>ri_read1 = (left, Inr m1), ri_write2 = (left, Inr ()),
       ri_read3 = (left, Inr m3), ri_write4 = (left, Inr ())\<rparr> w = (Inr rb, R_CONFIRMED, w') \<and>
     rw_effects w' = rw_effects w @ [HandedOver m2, Pinned (ho_device_id a) (ho_public_key a), Confirmed rb, HandedOver m4] \<and>
     rw_sessions w' = snd (cb rb (rw_sessions w)) \<and>
     hr_session_id ra = hr_session_id rb \<and> hr_send_key ra = hr_receive_key rb \<and> hr_receive_key ra = hr_send_key rb \<and>
     hr_peer_device_id ra = ho_device_id b \<and> hr_peer_device_id rb = ho_device_id a \<and>
     get_trusted_key ts' (ho_device_id b) = Some (ho_public_key b) \<and>
     get_trusted_key (rw_trusted w') (ho_device_id a) = Some (ho_public_key a)"
  using assms by (rule honest_runs)

text \<open>A concrete pair of devices and primitives with the documented sizes.\<close>

definition sample_owner :: "string \<Rightarrow> byte \<Rightarrow> hs_owner" where
  "sample_owner name k = \<lparr>ho_device_id = codes name, ho_transfer_port = 7001, ho_manifest_port = 7002,
     ho_private_key = [k], ho_public_key = replicate 32 k, ho_max_half_open = MAX_HALF_OPEN\<rparr>"

definition sample_crypto :: hs_crypto where
  "sample_crypto = \<lparr>hc_sha256 = (\<lambda>x. replicate 32 (x ! 0)), hc_hkdf = (\<lambda>s x i n. replicate n 7),
     hc_hmac = (\<lambda>k m. replicate 32 (k ! 0)), hc_sign = (\<lambda>k m. replicate 64 (k ! 0)),
     hc_verify = (\<lambda>k m s. s = replicate 64 (k ! 0)), hc_dh = (\<lambda>x y. Inr (replicate 32 1))\<rparr>"

definition sample_world :: "handshake_result list responder_world" where
  "sample_world = \<lparr>rw_trusted = [], rw_half_open = 0, rw_sessions = [], rw_effects = []\<rparr>"

lemma sample_owner_valid:
  assumes "name = ''alice'' \<or> name = ''bob''"
  shows "valid_party (own_party (sample_owner name k) (replicate 32 9) (replicate 32 1))"
proof -
  have "\<exists>idb. wf_party (own_party (sample_owner name k) (replicate 32 9) (replicate 32 1)) idb"
    using assms by (auto simp: wf_party_def own_party_def sample_owner_def validate_device_id_def utf8_encode_def codes_def
        scalar_def utf8_char_def is_control_def handshake_sizes)
  moreover have "check_public_key (replicate 32 9) = Inr ()"
    using valid_sample_party by (simp add: valid_party_def sample_party_def)
  ultimately show ?thesis by (auto simp: valid_party_def valid_ports_def own_party_def sample_owner_def)
qed

lemma sample_pair:
  "crypto_sizes sample_crypto" "signs_for sample_crypto (sample_owner ''alice'' 2)" "signs_for sample_crypto (sample_owner ''bob'' 3)"
  "dh_agrees sample_crypto ([], replicate 32 9) ([], replicate 32 9)"
  "valid_party (own_party (sample_owner ''alice'' 2) (snd ([] :: bytes, replicate 32 9)) (replicate 32 1))"
  "valid_party (own_party (sample_owner ''bob'' 3) (snd ([] :: bytes, replicate 32 9)) (replicate 32 1))"
  "ho_device_id (sample_owner ''alice'' 2) \<noteq> ho_device_id (sample_owner ''bob'' 3)"
  "ho_public_key (sample_owner ''alice'' 2) \<noteq> ho_public_key (sample_owner ''bob'' 3)"
proof -
  show "crypto_sizes sample_crypto" "signs_for sample_crypto (sample_owner ''alice'' 2)" "signs_for sample_crypto (sample_owner ''bob'' 3)"
    "dh_agrees sample_crypto ([], replicate 32 9) ([], replicate 32 9)"
    "ho_device_id (sample_owner ''alice'' 2) \<noteq> ho_device_id (sample_owner ''bob'' 3)"
    "ho_public_key (sample_owner ''alice'' 2) \<noteq> ho_public_key (sample_owner ''bob'' 3)"
    by (simp_all add: sample_crypto_def crypto_sizes_def signs_for_def dh_agrees_def hkdf_length_def sample_owner_def codes_def)
qed (use sample_owner_valid in simp_all)

theorem honest_handshake_agrees_witness:
  "\<exists>m1 m2 m3 m4 ra rb ts' w'.
     initiator_run sample_crypto (sample_owner ''alice'' 2) [] ([], replicate 32 9) (replicate 32 1)
       \<lparr>ii_write1 = (10, Inr ()), ii_read2 = (10, Inr m2), ii_write3 = (10, Inr ()), ii_read4 = (10, Inr m4)\<rparr> =
       (Inr ra, CONFIRMED, ts') \<and>
     responder_run sample_crypto (sample_owner ''bob'' 3) (\<lambda>r s. (Inr (), r # s)) ([], replicate 32 9) (replicate 32 1)
       \<lparr>ri_read1 = (10, Inr m1), ri_write2 = (10, Inr ()), ri_read3 = (10, Inr m3), ri_write4 = (10, Inr ())\<rparr> sample_world =
       (Inr rb, R_CONFIRMED, w') \<and>
     hr_session_id ra = hr_session_id rb \<and> rw_sessions w' = [rb]"
proof -
  let ?a = "sample_owner ''alice'' 2" and ?b = "sample_owner ''bob'' 3" and ?e = "([] :: bytes, replicate 32 9 :: bytes)"
  from honest_handshake_agrees [OF sample_pair, where ts = "[]" and w = sample_world and left = 10 and cb = "\<lambda>r s. (Inr (), r # s)"]
  show ?thesis by (force simp: get_trusted_key_def sample_world_def sample_owner_def MAX_HALF_OPEN_def)
qed

text \<open>A run that commits.\<close>

theorem responder_commits_only_verified_witness:
  "\<exists>m1 m2 m3 m4 rb w'. responder_run sample_crypto (sample_owner ''bob'' 3) (\<lambda>r s. (Inr (), r # s)) ([], replicate 32 9) (replicate 32 1)
       \<lparr>ri_read1 = (10, Inr m1), ri_write2 = (10, Inr ()), ri_read3 = (10, Inr m3), ri_write4 = (10, Inr ())\<rparr> sample_world =
       (Inr rb, R_CONFIRMED, w') \<and> rw_half_open w' = 0 \<and> rw_sessions w' = [rb] \<and>
     rw_effects w' = [HandedOver m2, Pinned (codes ''alice'') (replicate 32 2), Confirmed rb, HandedOver m4]"
proof -
  let ?a = "sample_owner ''alice'' 2" and ?b = "sample_owner ''bob'' 3" and ?e = "([] :: bytes, replicate 32 9 :: bytes)"
  from honest_runs [OF sample_pair, where ts = "[]" and w = sample_world and left = 10 and cb = "\<lambda>r s. (Inr (), r # s)"]
  obtain m1 m2 m3 m4 rb w' where r: "responder_run sample_crypto ?b (\<lambda>r s. (Inr (), r # s)) ?e (replicate 32 1)
       \<lparr>ri_read1 = (10, Inr m1), ri_write2 = (10, Inr ()), ri_read3 = (10, Inr m3), ri_write4 = (10, Inr ())\<rparr> sample_world =
       (Inr rb, R_CONFIRMED, w')" "rw_sessions w' = [rb]"
       "rw_effects w' = [HandedOver m2, Pinned (codes ''alice'') (replicate 32 2), Confirmed rb, HandedOver m4]"
    by (force simp: get_trusted_key_def sample_world_def sample_owner_def MAX_HALF_OPEN_def)
  moreover have "rw_half_open w' = 0"
    using responder_commits_only_verified [OF r(1)] by (simp add: sample_world_def)
  ultimately show ?thesis by blast
qed

section \<open>Many half-open exchanges at once\<close>

text \<open>
  Each responder coroutine runs between two awaits without interruption, so \<^verbatim>\<open>begin_half_open\<close> and
  \<^verbatim>\<open>end_half_open\<close> are atomic. The state is the owner's world and the exchanges that are inside the
  \<^verbatim>\<open>try ... finally\<close>; other steps may change anything except the counter.
\<close>

inductive half_open_step ::
  "hs_owner \<Rightarrow> 's responder_world \<times> nat list \<Rightarrow> 's responder_world \<times> nat list \<Rightarrow> bool" for owner where
  enter: "begin_half_open owner w = (Inr (), w') \<Longrightarrow> i \<notin> set inside \<Longrightarrow> half_open_step owner (w, inside) (w', i # inside)"
| refuse: "begin_half_open owner w = (Inl e, w') \<Longrightarrow> half_open_step owner (w, inside) (w', inside)"
| leave: "i \<in> set inside \<Longrightarrow> half_open_step owner (w, inside) (end_half_open w, remove1 i inside)"
| work: "half_open_step owner (w, inside) (w\<lparr>rw_trusted := ts, rw_sessions := s, rw_effects := es\<rparr>, inside)"

inductive_cases half_open_stepE: "half_open_step owner (w, inside) st"

definition half_open_exact :: "hs_owner \<Rightarrow> 's responder_world \<times> nat list \<Rightarrow> bool" where
  "half_open_exact owner st \<longleftrightarrow> rw_half_open (fst st) = int (length (snd st)) \<and> distinct (snd st) \<and>
     int (length (snd st)) \<le> max 0 (ho_max_half_open owner)"

lemma half_open_step_exact:
  assumes "half_open_step owner st st'" "half_open_exact owner st"
  shows "half_open_exact owner st'"
  using assms
proof (induction rule: half_open_step.induct)
  case (enter w w' i inside)
  then show ?case by (auto simp: half_open_exact_def begin_half_open_def split: if_splits)
next
  case (refuse w e w' inside)
  then show ?case by (auto simp: half_open_exact_def begin_half_open_def split: if_splits)
next
  case (leave i inside w)
  then obtain n where n: "length inside = Suc n" "length (remove1 i inside) = n"
    by (cases "length inside") (simp_all add: length_remove1)
  with leave show ?case by (simp add: half_open_exact_def end_half_open_def)
qed (simp add: half_open_exact_def)

text \<open>
  However the responder's exchanges interleave, the half-open counter is exactly the number of
  exchanges inside the guarded section and never exceeds the configured maximum: no path leaks a slot or
  frees one twice. A new exchange is refused as busy only when that maximum is reached.
\<close>

theorem half_open_counts_exchanges:
  assumes "(half_open_step owner)\<^sup>*\<^sup>* (w, []) (w', inside)" and "rw_half_open w = 0"
  shows "rw_half_open w' = int (length inside) \<and> distinct inside \<and> int (length inside) \<le> max 0 (ho_max_half_open owner) \<and>
    (fst (begin_half_open owner w') = Inl (Protocol (HandshakeError HandshakeBusyError)) \<longleftrightarrow>
       ho_max_half_open owner \<le> int (length inside)) \<and> (inside = [] \<longrightarrow> rw_half_open w' = 0)"
proof -
  have "half_open_exact owner (w', inside)"
    using assms(1)
  proof (induction rule: rtranclp_induct)
    case base
    then show ?case using assms(2) by (simp add: half_open_exact_def)
  next
    case (step y z)
    then show ?case by (blast intro: half_open_step_exact)
  qed
  then show ?thesis by (auto simp: half_open_exact_def begin_half_open_def)
qed

theorem half_open_counts_exchanges_witness:
  "\<exists>w'. (half_open_step (sample_owner ''bob'' 3))\<^sup>*\<^sup>* (sample_world, []) (w', [1]) \<and> rw_half_open w' = 1"
proof -
  let ?o = "sample_owner ''bob'' 3"
  obtain w1 where 1: "half_open_step ?o (sample_world, []) (w1, [0])"
    using half_open_step.enter [of ?o sample_world _ 0 "[]"]
    by (auto simp: begin_half_open_def sample_world_def sample_owner_def MAX_HALF_OPEN_def)
  then have h1: "rw_half_open w1 = 1"
    by (auto elim!: half_open_stepE simp: begin_half_open_def sample_world_def split: if_splits)
  obtain w2 where 2: "half_open_step ?o (w1, [0]) (w2, [1, 0])"
    using half_open_step.enter [of ?o w1 _ 1 "[0]"] h1 by (auto simp: begin_half_open_def sample_owner_def MAX_HALF_OPEN_def)
  have 3: "half_open_step ?o (w2, [1, 0]) (end_half_open w2, [1])"
    using half_open_step.leave [of 0 "[1, 0]" ?o w2] by simp
  have r: "(half_open_step ?o)\<^sup>*\<^sup>* (sample_world, []) (end_half_open w2, [1])" 
    by (rule rtranclp.rtrancl_into_rtrancl, rule rtranclp.rtrancl_into_rtrancl, rule rtranclp.rtrancl_into_rtrancl,
        rule rtranclp.rtrancl_refl, rule 1, rule 2, rule 3)
  with half_open_counts_exchanges [OF r] show ?thesis by (auto simp: sample_world_def)
qed

end
