(* ===== verification/File_Store.thy ===== *)
theory File_Store
  imports Chunks
begin

text \<open>
  Files on disk as the chunk engine writes them: \<^verbatim>\<open>chunking/local_file_reconstructor.py\<close>,
  \<^verbatim>\<open>chunking/_atomic_write.py\<close> and \<^verbatim>\<open>chunking/chunk_file_writer.py\<close>. The file system is a
  map from resolved paths to files and directories. What the operating system refuses is an argument of
  each operation: where an \<^verbatim>\<open>OSError\<close> strikes and what the interrupted call has already done.
\<close>

section \<open>The file system\<close>

datatype node = FileNode bytes | DirNode

type_synonym fs = "pure_path \<Rightarrow> node option"

text \<open>\<^verbatim>\<open>path.parent\<close>, \<^verbatim>\<open>path.name\<close> and \<^verbatim>\<open>path.with_name\<close>.\<close>

definition path_parent :: "pure_path \<Rightarrow> pure_path" where
  "path_parent p = PurePath (pp_root p) (butlast (pp_parts p))"

definition path_name :: "pure_path \<Rightarrow> pystr" where
  "path_name p = (if pp_parts p = [] then [] else List.last (pp_parts p))"

definition sibling :: "pure_path \<Rightarrow> pystr \<Rightarrow> pure_path" where
  "sibling p n = PurePath (pp_root p) (butlast (pp_parts p) @ [n])"

definition with_name :: "pure_path \<Rightarrow> pystr \<Rightarrow> pure_path result" where
  "with_name p n =
     raise_if (pp_parts p = [] \<or> n = [] \<or> n = dot \<or> slash \<in> set n) (Py ValueError) (Inr (sibling p n))"

text \<open>\<^verbatim>\<open>dir.mkdir(parents=True, exist_ok=True)\<close>: a file on the way is an error.\<close>

definition on_the_way :: "pure_path \<Rightarrow> pure_path \<Rightarrow> bool" where
  "on_the_way p dir \<longleftrightarrow> pp_root p = pp_root dir \<and> prefix (pp_parts p) (pp_parts dir)"

definition is_file :: "node option \<Rightarrow> bool" where
  "is_file n = (case n of Some (FileNode _) \<Rightarrow> True | _ \<Rightarrow> False)"

definition mkdir_parents :: "pure_path \<Rightarrow> fs \<Rightarrow> fs result" where
  "mkdir_parents dir f =
     (if list_ex (\<lambda>ps. is_file (f (PurePath (pp_root dir) ps))) (prefixes (pp_parts dir)) then Inl (Py OSError)
      else Inr (\<lambda>p. if f p = None \<and> on_the_way p dir then Some DirNode else f p))"

text \<open>
  The operating system may refuse a directory part-way: \<open>mkdir\<close> works from the outermost missing ancestor inwards,
  so the first \<open>k\<close> of them have been made when it fails. \<open>make_dirs None\<close> is the call without a refusal; a file on
  the way is found before anything is made.
\<close>

definition mkdir_some :: "nat \<Rightarrow> pure_path \<Rightarrow> fs \<Rightarrow> fs" where
  "mkdir_some k dir f =
     (let made = take k (filter (\<lambda>ps. f (PurePath (pp_root dir) ps) = None) (prefixes (pp_parts dir)))
      in (\<lambda>p. if pp_root p = pp_root dir \<and> pp_parts p \<in> set made then Some DirNode else f p))"

definition make_dirs :: "nat option \<Rightarrow> pure_path \<Rightarrow> fs \<Rightarrow> unit result \<times> fs" where
  "make_dirs refused dir f =
     (case mkdir_parents dir f of
        Inl e \<Rightarrow> (Inl e, f)
      | Inr f1 \<Rightarrow>
          (case refused of
             None \<Rightarrow> (Inr (), f1)
           | Some k \<Rightarrow> (Inl (Py OSError), mkdir_some k dir f)))"

text \<open>\<^verbatim>\<open>seek(offset); write(data)\<close>: a gap past the end is filled with zeros, an empty write does nothing.\<close>

definition write_at :: "nat \<Rightarrow> bytes \<Rightarrow> bytes \<Rightarrow> bytes" where
  "write_at off data old =
     (if data = [] then old
      else take off (old @ replicate (off - length old) 0) @ data @ drop (off + length data) old)"

section \<open>Writing a chunk into a file\<close>

text \<open>
  Where the write fails: not at all, while making the parents, before the file is touched, or after some
  bytes are on disk.
\<close>

datatype write_fault = WriteOk | WriteNoDir nat | WriteRefused | WriteCut nat

definition write_no_dir :: "write_fault \<Rightarrow> nat option" where
  "write_no_dir fault = (case fault of WriteNoDir k \<Rightarrow> Some k | _ \<Rightarrow> None)"

definition engine_err :: exn where "engine_err = Sync ChunkEngineError"

definition file_bytes :: "node option \<Rightarrow> bytes" where
  "file_bytes n = (case n of Some (FileNode b) \<Rightarrow> b | _ \<Rightarrow> [])"

text \<open>\<^verbatim>\<open>f.seek\<close> takes an offset of at most 63 bits; the file is open, so created, by then.\<close>

definition write_chunk_at_offset :: "write_fault \<Rightarrow> pure_path \<Rightarrow> chunk \<Rightarrow> fs \<Rightarrow> unit result \<times> fs" where
  "write_chunk_at_offset fault destination c f =
     (case make_dirs (write_no_dir fault) (path_parent destination) f of
        (Inl _, f1) \<Rightarrow> (Inl engine_err, f1)
      | (Inr _, f1) \<Rightarrow>
          let old = file_bytes (f1 destination); off = nat (cm_offset (ck_metadata c)) in
          if f1 destination = Some DirNode \<or> fault = WriteRefused then (Inl engine_err, f1)
          else if cm_offset (ck_metadata c) \<ge> 2 ^ 63 then (Inl (Py OverflowError), f1(destination \<mapsto> FileNode old))
          else (case fault of
                  WriteCut k \<Rightarrow> (Inl engine_err, f1(destination \<mapsto> FileNode (write_at off (take k (ck_data c)) old)))
                | _ \<Rightarrow> (Inr (), f1(destination \<mapsto> FileNode (write_at off (ck_data c) old)))))"

section \<open>Partial files\<close>

text \<open>
  \<^verbatim>\<open>mkstemp\<close> picks the name; \<open>rnd\<close> are its random characters, and an existing name is never reused.
  \<open>BeginCopyCut\<close>: the temporary file was made, then closing it, looking at the destination or copying the
  current file failed and left that much of it.
\<close>

datatype begin_fault = BeginOk | BeginNoDir nat | BeginRefused | BeginCopyCut nat

definition begin_no_dir :: "begin_fault \<Rightarrow> nat option" where
  "begin_no_dir fault = (case fault of BeginNoDir k \<Rightarrow> Some k | _ \<Rightarrow> None)"

definition temp_path :: "pure_path \<Rightarrow> pystr \<Rightarrow> pure_path" where
  "temp_path destination rnd = sibling destination (codes ''.'' @ path_name destination @ codes ''.'' @ rnd @ codes ''.part'')"

definition begin_partial :: "begin_fault \<Rightarrow> pystr \<Rightarrow> pure_path \<Rightarrow> fs \<Rightarrow> pure_path result \<times> fs" where
  "begin_partial fault rnd destination f =
     (case make_dirs (begin_no_dir fault) (path_parent destination) f of
        (Inl _, f1) \<Rightarrow> (Inl engine_err, f1)
      | (Inr _, f1) \<Rightarrow>
          let partial = temp_path destination rnd in
          if fault = BeginRefused \<or> f1 partial \<noteq> None then (Inl engine_err, f1)
          else
            let f2 = f1(partial \<mapsto> FileNode []) in
            (case f2 destination of
               None \<Rightarrow> (case fault of BeginCopyCut k \<Rightarrow> (Inl engine_err, f2) | _ \<Rightarrow> (Inr partial, f2))
             | Some DirNode \<Rightarrow> (Inl engine_err, f2)
             | Some (FileNode b) \<Rightarrow>
                 (case fault of
                    BeginCopyCut k \<Rightarrow> (Inl engine_err, f2(partial \<mapsto> FileNode (take k b)))
                  | _ \<Rightarrow> (Inr partial, f2(partial \<mapsto> FileNode b)))))"

text \<open>\<^verbatim>\<open>os.replace\<close> of a file onto a path that is not a directory.\<close>

definition os_replace :: "bool \<Rightarrow> pure_path \<Rightarrow> pure_path \<Rightarrow> fs \<Rightarrow> unit result \<times> fs" where
  "os_replace refused src dst f =
     (case f src of
        Some (FileNode b) \<Rightarrow>
          if refused \<or> f dst = Some DirNode then (Inl (Py OSError), f)
          else if src = dst then (Inr (), f)
          else (Inr (), f(src := None, dst \<mapsto> FileNode b))
      | _ \<Rightarrow> (Inl (Py OSError), f))"

definition commit_partial :: "bool \<Rightarrow> pure_path \<Rightarrow> pure_path \<Rightarrow> fs \<Rightarrow> unit result \<times> fs" where
  "commit_partial refused destination partial f =
     (case os_replace refused partial destination f of
        (Inl _, f1) \<Rightarrow> (Inl engine_err, f1)
      | (Inr _, f1) \<Rightarrow> (Inr (), f1))"

text \<open>\<^verbatim>\<open>unlink(missing_ok=True)\<close>, whose failure is only logged.\<close>

definition abort_partial :: "bool \<Rightarrow> pure_path \<Rightarrow> fs \<Rightarrow> fs" where
  "abort_partial refused partial f = (if refused \<or> f partial = Some DirNode then f else f(partial := None))"

section \<open>Atomic writes\<close>

datatype atomic_fault = AtomicOk | AtomicNoDir nat | OpenRefused | AtomicCut nat | ReplaceRefused

definition atomic_no_dir :: "atomic_fault \<Rightarrow> nat option" where
  "atomic_no_dir fault = (case fault of AtomicNoDir k \<Rightarrow> Some k | _ \<Rightarrow> None)"

text \<open>Writing a temporary file and renaming it; an \<^verbatim>\<open>OSError\<close> removes the temporary file and is raised again.\<close>

definition write_via ::
  "atomic_fault \<Rightarrow> bool \<Rightarrow> pure_path \<Rightarrow> pure_path \<Rightarrow> bytes \<Rightarrow> fs \<Rightarrow> unit result \<times> fs" where
  "write_via fault unlink_refused tmp_path destination data f =
     (if fault = OpenRefused \<or> f tmp_path = Some DirNode
      then (Inl (Py OSError), abort_partial unlink_refused tmp_path f)
      else (case fault of
              AtomicCut k \<Rightarrow> (Inl (Py OSError), abort_partial unlink_refused tmp_path (f(tmp_path \<mapsto> FileNode (take k data))))
            | _ \<Rightarrow>
                (case os_replace (fault = ReplaceRefused) tmp_path destination (f(tmp_path \<mapsto> FileNode data)) of
                   (Inl e, f2) \<Rightarrow> (Inl e, abort_partial unlink_refused tmp_path f2)
                 | (Inr _, f2) \<Rightarrow> (Inr (), f2))))"

definition atomic_write_bytes ::
  "atomic_fault \<Rightarrow> bool \<Rightarrow> pure_path \<Rightarrow> bytes \<Rightarrow> pystr \<Rightarrow> fs \<Rightarrow> unit result \<times> fs" where
  "atomic_write_bytes fault unlink_refused destination data temp_suffix f =
     (case make_dirs (atomic_no_dir fault) (path_parent destination) f of
        (Inl e, f1) \<Rightarrow> (Inl e, f1)
      | (Inr _, f1) \<Rightarrow>
          (case with_name destination (codes ''.'' @ path_name destination @ codes ''.tmp-'' @ temp_suffix) of
             Inl e \<Rightarrow> (Inl e, f1)
           | Inr tmp_path \<Rightarrow> write_via fault unlink_refused tmp_path destination data f1))"

text \<open>\<^verbatim>\<open>ChunkFileWriter.write_chunk\<close>: only an \<^verbatim>\<open>OSError\<close> is wrapped.\<close>

definition write_chunk :: "atomic_fault \<Rightarrow> bool \<Rightarrow> pure_path \<Rightarrow> chunk \<Rightarrow> fs \<Rightarrow> unit result \<times> fs" where
  "write_chunk fault unlink_refused destination c f =
     (case atomic_write_bytes fault unlink_refused destination (ck_data c) (chunk_id (ck_metadata c)) f of
        (Inl e, f1) \<Rightarrow> (Inl (if e = Py OSError then engine_err else e), f1)
      | (Inr _, f1) \<Rightarrow> (Inr (), f1))"

section \<open>Lemmas\<close>

lemma path_eq_iff: "p = q \<longleftrightarrow> pp_root p = pp_root q \<and> pp_parts p = pp_parts q"
  by (cases p; cases q) simp

text \<open>The only effect of making directories is directories where nothing was.\<close>

lemma mkdir_parents_Inr:
  assumes "mkdir_parents d f = Inr f1"
  shows "f1 p = f p \<or> (f p = None \<and> f1 p = Some DirNode \<and> on_the_way p d)"
  using assms by (auto simp: mkdir_parents_def split: if_splits)

lemma mkdir_parents_file: "mkdir_parents d f = Inr f1 \<Longrightarrow> f1 p = Some (FileNode b) \<longleftrightarrow> f p = Some (FileNode b)"
  using mkdir_parents_Inr [of d f f1 p] by auto

lemma mkdir_parents_dir: "mkdir_parents d f = Inr f1 \<Longrightarrow> f1 d = Some DirNode"
proof -
  assume a: "mkdir_parents d f = Inr f1"
  then have "\<not> is_file (f d)" by (cases d) (auto simp: mkdir_parents_def list_ex_iff split: if_splits)
  then show ?thesis using a
    by (auto simp: mkdir_parents_def on_the_way_def is_file_def split: if_splits option.splits node.splits)
qed

text \<open>A refusal too only leaves directories where nothing was.\<close>

lemma mkdir_some_cases: "mkdir_some k d f p = f p \<or> (f p = None \<and> mkdir_some k d f p = Some DirNode \<and> on_the_way p d)"
  by (cases p) (auto simp: mkdir_some_def Let_def on_the_way_def dest!: in_set_takeD)

lemma make_dirs_cases:
  assumes "make_dirs refused d f = (r, g)"
  shows "g p = f p \<or> (f p = None \<and> g p = Some DirNode \<and> on_the_way p d)"
  using assms mkdir_some_cases [of _ d f p] mkdir_parents_Inr [of d f g p]
  by (auto simp: make_dirs_def split: sum.splits option.splits)

lemma make_dirs_Inr: "make_dirs refused d f = (Inr u, g) \<longleftrightarrow> refused = None \<and> mkdir_parents d f = Inr g"
  by (auto simp: make_dirs_def split: sum.splits option.splits)

lemma make_dirs_calm [simp]: "mkdir_parents d f = Inr g \<Longrightarrow> make_dirs None d f = (Inr (), g)"
  by (simp add: make_dirs_Inr)

lemma make_dirs_Inl_file: "make_dirs refused d f = (Inl e, g) \<Longrightarrow> g p = Some (FileNode b) \<longleftrightarrow> f p = Some (FileNode b)"
  using make_dirs_cases [of refused d f "Inl e" g p] by auto

lemma no_dir_simps [simp]:
  "write_no_dir WriteOk = None" "write_no_dir WriteRefused = None" "write_no_dir (WriteCut k) = None"
  "write_no_dir (WriteNoDir k) = Some k" "begin_no_dir BeginOk = None" "begin_no_dir BeginRefused = None"
  "begin_no_dir (BeginCopyCut k) = None" "begin_no_dir (BeginNoDir k) = Some k" "atomic_no_dir AtomicOk = None"
  "atomic_no_dir OpenRefused = None" "atomic_no_dir (AtomicCut k) = None" "atomic_no_dir ReplaceRefused = None"
  "atomic_no_dir (AtomicNoDir k) = Some k"
  by (simp_all add: write_no_dir_def begin_no_dir_def atomic_no_dir_def)

lemma no_dir_None [simp]:
  "write_no_dir w = None \<longleftrightarrow> (\<forall>k. w \<noteq> WriteNoDir k)" "begin_no_dir b = None \<longleftrightarrow> (\<forall>k. b \<noteq> BeginNoDir k)"
  "atomic_no_dir a = None \<longleftrightarrow> (\<forall>k. a \<noteq> AtomicNoDir k)"
  by (auto simp: write_no_dir_def begin_no_dir_def atomic_no_dir_def split: write_fault.splits begin_fault.splits atomic_fault.splits)

text \<open>A name with the temporary pattern is not the destination's own name.\<close>

lemma sibling_neq: "pp_parts p \<noteq> [] \<Longrightarrow> n \<noteq> path_name p \<Longrightarrow> sibling p n \<noteq> p"
  by (auto simp: sibling_def path_eq_iff path_name_def) (metis append_butlast_last_id last_snoc)

lemma temp_path_neq: "temp_path d rnd \<noteq> d"
proof (cases "pp_parts d = []")
  case True
  then show ?thesis by (auto simp: temp_path_def sibling_def path_eq_iff)
next
  case False
  have "length (codes ''.'' @ path_name d @ codes ''.'' @ rnd @ codes ''.part'') > length (path_name d)"
    by (simp add: codes_def)
  then have "codes ''.'' @ path_name d @ codes ''.'' @ rnd @ codes ''.part'' \<noteq> path_name d" by (metis less_irrefl)
  with False show ?thesis unfolding temp_path_def by (rule sibling_neq)
qed

lemma length_write_at: "length (write_at off data old) = (if data = [] then length old else max (length old) (off + length data))"
  by (auto simp: write_at_def max_def)

lemma nth_write_at:
  assumes "i < length (write_at off data old)"
  shows "write_at off data old ! i =
    (if off \<le> i \<and> i < off + length data then data ! (i - off) else if i < length old then old ! i else 0)"
proof (cases "data = []")
  case True
  then show ?thesis using assms by (auto simp: write_at_def)
next
  case False
  define pre where "pre = take off (old @ replicate (off - length old) (0 :: byte))"
  have len: "length pre = off" by (auto simp: pre_def min_def)
  have pre: "pre ! j = (if j < length old then old ! j else 0)" if "j < off" for j
    using that by (simp add: pre_def nth_append)
  have w: "write_at off data old = pre @ data @ drop (off + length data) old"
    using False by (simp add: write_at_def pre_def)
  consider "i < off" | "off \<le> i" "i < off + length data" | "off + length data \<le> i" by linarith
  then show ?thesis
  proof cases
    case 1
    then show ?thesis by (simp add: w nth_append len pre)
  next
    case 2
    then show ?thesis by (auto simp: w nth_append len)
  next
    case 3
    then have "i < length old" using assms False by (auto simp: length_write_at split: if_splits)
    with 3 show ?thesis by (simp add: w nth_append len add.commute less_diff_conv2)
  qed
qed

text \<open>A path is never on the way to its own parent, except where it has no name.\<close>

lemma on_the_way_parent: "pp_parts d \<noteq> [] \<Longrightarrow> \<not> on_the_way d (path_parent d)"
  by (cases "pp_parts d" rule: rev_cases) (auto simp: on_the_way_def path_parent_def dest!: prefix_length_le)

lemma make_dirs_here: "make_dirs refused (path_parent d) f = (r, f1) \<Longrightarrow> pp_parts d \<noteq> [] \<Longrightarrow> f1 d = f d"
  using make_dirs_cases [of refused "path_parent d" f r f1 d] on_the_way_parent by blast

lemma mkdir_parents_here: "mkdir_parents (path_parent d) f = Inr f1 \<Longrightarrow> pp_parts d \<noteq> [] \<Longrightarrow> f1 d = f d"
  using mkdir_parents_Inr [of "path_parent d" f f1 d] on_the_way_parent by blast

lemma atomic_tmp_neq: "with_name d (codes ''.'' @ path_name d @ rest) = Inr t \<Longrightarrow> t \<noteq> d \<and> pp_parts d \<noteq> []"
proof -
  assume a: "with_name d (codes ''.'' @ path_name d @ rest) = Inr t"
  then have t: "t = sibling d (codes ''.'' @ path_name d @ rest)" "pp_parts d \<noteq> []"
    by (auto simp: with_name_def result_simps)
  have "length (codes ''.'' @ path_name d @ rest) > length (path_name d)" by (simp add: codes_def)
  then have "codes ''.'' @ path_name d @ rest \<noteq> path_name d" by (metis less_irrefl)
  with t(2) have "sibling d (codes ''.'' @ path_name d @ rest) \<noteq> d" by (rule sibling_neq)
  with t show ?thesis by simp
qed

section \<open>What an operation may touch\<close>

text \<open>
  \<open>fs_step d S f f'\<close>: from \<open>f\<close> to \<open>f'\<close> only the paths in \<open>S\<close> changed, none of them a directory, and directories
  may have appeared on the way to \<open>d\<close>.
\<close>

definition fs_step :: "pure_path \<Rightarrow> pure_path set \<Rightarrow> fs \<Rightarrow> fs \<Rightarrow> bool" where
  "fs_step d S f f' \<longleftrightarrow>
     (\<forall>p. f' p = f p \<or> (f p \<noteq> Some DirNode \<and> p \<in> S) \<or> (f p = None \<and> f' p = Some DirNode \<and> on_the_way p d))"

lemma fs_step_refl [simp]: "fs_step d S f f"
  by (simp add: fs_step_def)

lemma fs_step_trans: "fs_step d S f g \<Longrightarrow> fs_step d S g h \<Longrightarrow> fs_step d S f h"
  unfolding fs_step_def by metis

lemma fs_step_mono: "fs_step d S f g \<Longrightarrow> S \<subseteq> T \<Longrightarrow> fs_step d T f g"
  unfolding fs_step_def by blast

lemma fs_step_dir: "fs_step d S f g \<Longrightarrow> f p = Some DirNode \<Longrightarrow> g p = Some DirNode"
  unfolding fs_step_def by (metis option.distinct(1))

lemma fs_step_file: "fs_step d S f g \<Longrightarrow> p \<notin> S \<Longrightarrow> f p = Some n \<Longrightarrow> g p = Some n"
  unfolding fs_step_def by (metis option.distinct(1))

lemma fs_step_upd: "f p \<noteq> Some DirNode \<Longrightarrow> p \<in> S \<Longrightarrow> fs_step d S f (f(p := x))"
  by (simp add: fs_step_def)

lemma mkdir_step: "mkdir_parents d f = Inr g \<Longrightarrow> fs_step d S f g"
  using mkdir_parents_Inr [of d f g] unfolding fs_step_def by blast

lemma make_dirs_step: "make_dirs refused d f = (r, g) \<Longrightarrow> fs_step d S f g"
  using make_dirs_cases [of refused d f r g] unfolding fs_step_def by blast

lemma write_chunk_step: "fs_step (path_parent d) {d} f (snd (write_chunk_at_offset fault d c f))"
proof -
  obtain r g where m: "make_dirs (write_no_dir fault) (path_parent d) f = (r, g)" by (metis surj_pair)
  note s = make_dirs_step [OF m, of "{d}"]
  have u: "g d \<noteq> Some DirNode \<Longrightarrow> fs_step (path_parent d) {d} f (g(d := x))" for x
    using fs_step_trans [OF s fs_step_upd] by simp
  show ?thesis using m s u by (cases r) (auto simp: write_chunk_at_offset_def Let_def split: write_fault.splits)
qed

lemma begin_partial_step: "fs_step (path_parent d) {temp_path d rnd} f (snd (begin_partial fault rnd d f))"
proof -
  obtain r g where m: "make_dirs (begin_no_dir fault) (path_parent d) f = (r, g)" by (metis surj_pair)
  note s = make_dirs_step [OF m, of "{temp_path d rnd}"]
  have u: "g (temp_path d rnd) = None \<Longrightarrow> fs_step (path_parent d) {temp_path d rnd} f (g(temp_path d rnd := x))" for x
    using fs_step_trans [OF s fs_step_upd] by simp
  show ?thesis
    using m s u by (cases r) (auto simp: begin_partial_def Let_def split: option.splits node.splits begin_fault.splits)
qed

lemma begin_partial_Inr:
  assumes "begin_partial fault rnd d f = (Inr p, g)"
  shows "p = temp_path d rnd" "f p = None" "is_file (g p)" "f d \<noteq> Some DirNode"
proof -
  obtain r f1 where m: "make_dirs (begin_no_dir fault) (path_parent d) f = (r, f1)" by (metis surj_pair)
  then have m: "make_dirs (begin_no_dir fault) (path_parent d) f = (Inr (), f1)"
    using assms by (cases r) (simp_all add: begin_partial_def)
  then have f1: "mkdir_parents (path_parent d) f = Inr f1" by (simp add: make_dirs_Inr)
  show "p = temp_path d rnd" "is_file (g p)"
    using assms m by (auto simp: begin_partial_def Let_def is_file_def split: if_splits option.splits node.splits begin_fault.splits)
  have "f1 (temp_path d rnd) = None" "f1 d \<noteq> Some DirNode" "p = temp_path d rnd"
    using assms m temp_path_neq [of d rnd]
    by (auto simp: begin_partial_def Let_def split: if_splits option.splits node.splits begin_fault.splits)
  then show "f p = None" "f d \<noteq> Some DirNode"
    using mkdir_parents_Inr [OF f1, of p] mkdir_parents_Inr [OF f1, of d] by auto
qed

text \<open>A partial file starts as a copy of the destination, and a chunk written into a file replaces its bytes.\<close>

lemma begin_partial_copies:
  assumes "begin_partial fault rnd d f = (Inr p, g)"
  shows "file_bytes (g p) = file_bytes (f d)"
proof -
  obtain r f1 where "make_dirs (begin_no_dir fault) (path_parent d) f = (r, f1)" by (metis surj_pair)
  then have m: "make_dirs (begin_no_dir fault) (path_parent d) f = (Inr (), f1)"
    using assms by (cases r) (simp_all add: begin_partial_def)
  have "file_bytes (f1 d) = file_bytes (f d)" using make_dirs_cases [OF m, of d] by (auto simp: file_bytes_def)
  then show ?thesis
    using assms m temp_path_neq [of d rnd]
    by (auto simp: begin_partial_def Let_def file_bytes_def split: if_splits option.splits node.splits begin_fault.splits)
qed

lemma write_chunk_content:
  assumes "write_chunk_at_offset fault d c f = (Inr (), g)" "is_file (f d)"
  shows "g d = Some (FileNode (write_at (nat (cm_offset (ck_metadata c))) (ck_data c) (file_bytes (f d))))"
proof -
  obtain r f1 where "make_dirs (write_no_dir fault) (path_parent d) f = (r, f1)" by (metis surj_pair)
  then have m: "make_dirs (write_no_dir fault) (path_parent d) f = (Inr (), f1)"
    using assms by (cases r) (simp_all add: write_chunk_at_offset_def)
  have "f1 d = f d" using make_dirs_cases [OF m, of d] assms(2) by (auto simp: is_file_def)
  then show ?thesis
    using assms(1) m by (auto simp: write_chunk_at_offset_def Let_def split: if_splits write_fault.splits)
qed

lemma commit_step: "fs_step e {partial, d} f (snd (commit_partial refused d partial f))"
  by (auto simp: commit_partial_def os_replace_def fs_step_def split: option.splits node.splits)

lemma abort_step: "fs_step e {partial} f (abort_partial refused partial f)"
  by (auto simp: abort_partial_def fs_step_def)

lemma write_chunk_is_file:
  assumes "is_file (f d)"
  shows "is_file (snd (write_chunk_at_offset fault d c f) d)"
proof -
  obtain r g where m: "make_dirs (write_no_dir fault) (path_parent d) f = (r, g)" by (metis surj_pair)
  obtain b where "f d = Some (FileNode b)" using assms by (auto simp: is_file_def split: option.splits node.splits)
  then have "g d = Some (FileNode b)" using make_dirs_cases [OF m, of d] by simp
  then show ?thesis using m by (cases r) (auto simp: write_chunk_at_offset_def Let_def is_file_def split: write_fault.splits)
qed

lemma parent_temp [simp]: "path_parent (temp_path d rnd) = path_parent d"
  by (simp add: path_parent_def temp_path_def sibling_def)

text \<open>Paths inside a root.\<close>

lemma way_inside: "on_the_way p d \<Longrightarrow> is_relative_to d base \<Longrightarrow> on_the_way p base \<or> is_relative_to p base"
  by (auto simp: on_the_way_def is_relative_to_def) (meson prefix_same_cases)

lemma inside_parent: "is_relative_to d base \<Longrightarrow> d \<noteq> base \<Longrightarrow> is_relative_to (path_parent d) base"
  by (cases "pp_parts d" rule: rev_cases)
    (auto simp: is_relative_to_def path_parent_def path_eq_iff prefix_order.less_le)

lemma temp_inside: "is_relative_to d base \<Longrightarrow> d \<noteq> base \<Longrightarrow> is_relative_to (temp_path d rnd) base"
  using inside_parent [of d base] by (auto simp: is_relative_to_def path_parent_def temp_path_def sibling_def)

lemma temp_outside: "pp_parts base \<noteq> [] \<Longrightarrow> \<not> is_relative_to (temp_path base rnd) base"
  by (cases "pp_parts base" rule: rev_cases)
    (auto simp: is_relative_to_def temp_path_def sibling_def path_name_def codes_def dest: prefix_length_le)

section \<open>What an atomic write does\<close>

abbreviation atomic_tmp :: "pure_path \<Rightarrow> pystr \<Rightarrow> pure_path" where
  "atomic_tmp d sfx \<equiv> sibling d (codes ''.'' @ path_name d @ codes ''.tmp-'' @ sfx)"

lemma write_via_spec:
  assumes "write_via fault unlink_refused t d data f1 = (r, f')" "t \<noteq> d"
  shows "(case r of Inr _ \<Rightarrow> f' d = Some (FileNode data) | Inl _ \<Rightarrow> f' d = f1 d) \<and> (p = d \<or> p = t \<or> f' p = f1 p)"
  using assms by (cases fault) (auto simp: write_via_def abort_partial_def os_replace_def split: if_splits)

text \<open>
  A destination without a name, like \<^verbatim>\<open>/\<close>, is its own parent, so it may be made a directory before the name of the
  temporary file is refused.
\<close>

abbreviation left_alone :: "pure_path \<Rightarrow> fs \<Rightarrow> fs \<Rightarrow> bool" where
  "left_alone d f f' \<equiv> f' d = f d \<or> (pp_parts d = [] \<and> f d = None \<and> f' d = Some DirNode)"

lemma atomic_write_spec:
  assumes "atomic_write_bytes fault unlink_refused d data sfx f = (r, f')"
  shows "case r of Inr _ \<Rightarrow> f' d = Some (FileNode data) | Inl _ \<Rightarrow> left_alone d f f'"
    and "p = d \<or> p = atomic_tmp d sfx \<or> f' p = f p \<or> (f p = None \<and> f' p = Some DirNode \<and> on_the_way p (path_parent d))"
proof (atomize (full))
  obtain q f1 where m: "make_dirs (atomic_no_dir fault) (path_parent d) f = (q, f1)" by (metis surj_pair)
  let ?n = "with_name d (codes ''.'' @ path_name d @ codes ''.tmp-'' @ sfx)"
  note p = make_dirs_cases [OF m, of p] and d = make_dirs_cases [OF m, of d] and here = make_dirs_here [OF m]
  show "(case r of Inr _ \<Rightarrow> f' d = Some (FileNode data) | Inl _ \<Rightarrow> left_alone d f f') \<and>
      (p = d \<or> p = atomic_tmp d sfx \<or> f' p = f p \<or> (f p = None \<and> f' p = Some DirNode \<and> on_the_way p (path_parent d)))"
  proof (cases "\<exists>t. q = Inr () \<and> ?n = Inr t")
    case False
    then have "(\<exists>e. r = Inl e) \<and> f' = f1"
      using assms m by (cases q; cases ?n) (auto simp: atomic_write_bytes_def)
    then show ?thesis using p d here by (cases "pp_parts d = []") auto
  next
    case True
    then obtain t where q: "q = Inr ()" and n: "?n = Inr t" by blast
    then have t: "t = atomic_tmp d sfx" by (auto simp: with_name_def result_simps)
    have ne: "t \<noteq> d" "pp_parts d \<noteq> []" using atomic_tmp_neq [OF n] by simp_all
    have "write_via fault unlink_refused t d data f1 = (r, f')"
      using assms m q n by (simp add: atomic_write_bytes_def)
    from write_via_spec [OF this ne(1), of p] show ?thesis
      using p t here [OF ne(2)] by (auto split: sum.splits)
  qed
qed

section \<open>Property\<close>

text \<open>
  C17: A chunk file is replaced as a whole or not at all. Wherever the operating system fails (part-way through
  making the directories, opening, part-way through the data, renaming, even deleting the temporary file), the
  destination afterwards holds either exactly the new bytes, and then the call has returned normally, or
  exactly what it held before, and then the call has raised; besides the destination and the temporary file
  beside it nothing changes except that missing parent directories may have been made. A destination without a
  name (\<^verbatim>\<open>/\<close> or \<^verbatim>\<open>.\<close>), which is its own parent, always raises, and is at most made a directory when it was missing.
\<close>

theorem atomic_write_all_or_nothing:
  "let (r, f') = write_chunk fault unlink_refused d c f;
       tmp = sibling d (codes ''.'' @ path_name d @ codes ''.tmp-'' @ chunk_id (ck_metadata c))
   in (case r of Inr _ \<Rightarrow> f' d = Some (FileNode (ck_data c)) \<and> pp_parts d \<noteq> []
       | Inl _ \<Rightarrow> f' d = f d \<or> (pp_parts d = [] \<and> f d = None \<and> f' d = Some DirNode)) \<and>
      (p = d \<or> p = tmp \<or> f' p = f p \<or> (f p = None \<and> f' p = Some DirNode \<and> on_the_way p (path_parent d)))"
proof -
  obtain r f' where a: "atomic_write_bytes fault unlink_refused d (ck_data c) (chunk_id (ck_metadata c)) f = (r, f')"
    by (metis surj_pair)
  have "pp_parts d \<noteq> []" if "r = Inr u" for u
    using a that by (auto simp: atomic_write_bytes_def with_name_def result_simps split: prod.splits sum.splits)
  then show ?thesis
    using a atomic_write_spec(1) [OF a] atomic_write_spec(2) [OF a, of p] by (auto simp: write_chunk_def Let_def split: sum.splits)
qed

end
