(* ===== verification/Receive_Push.thy ===== *)
theory Receive_Push
  imports File_Store Version_Vectors
begin

text \<open>
  \<^verbatim>\<open>application/use_cases/receive_pushed_files.py\<close>: the receiver of pushed chunks. Its state is the table of
  partially received files, the file system and the metadata store (\<^verbatim>\<open>domain/metadata.py\<close>, a dictionary by
  relative path). One call of \<^verbatim>\<open>_handle_push\<close> is \<open>handle_push\<close>; the environment of the call (clock,
  \<^verbatim>\<open>mkstemp\<close>'s random characters, the faults of the operating system) is an argument. \<^verbatim>\<open>Path.resolve\<close> and the
  hash function are third-party code and fields of the configuration.
\<close>

section \<open>Data\<close>

abbreviation MIB :: int where "MIB \<equiv> 1024 * 1024"

record push_limits =
  pl_max_chunk_size :: int
  pl_max_file_size :: int
  pl_max_total_chunks :: int
  pl_max_pending_files :: int
  pl_partial_timeout :: real
  pl_sweep_interval :: real

definition default_limits :: push_limits where
  "default_limits = \<lparr>pl_max_chunk_size = 64 * MIB, pl_max_file_size = 64 * 1024 * MIB, pl_max_total_chunks = 100000,
     pl_max_pending_files = 64, pl_partial_timeout = 300, pl_sweep_interval = 30\<rparr>"

record pending_file =
  pf_partial :: pure_path
  pf_received :: "int list" \<comment> \<open>a set: distinct\<close>
  pf_version :: "version_vector option"
  pf_last_activity :: real

record incoming_push =
  in_path :: pystr
  in_total :: int
  in_chunk :: chunk
  in_version :: "version_vector option"

record file_metadata =
  fm_path :: pystr
  fm_version_vector :: version_vector
  fm_last_modified :: int
  fm_is_deleted :: bool
  fm_chunks :: "chunk_metadata list"

type_synonym metadata_store = "(pystr, file_metadata) dict"

definition get_file_metadata :: "metadata_store \<Rightarrow> pystr \<Rightarrow> file_metadata option" where
  "get_file_metadata ms path = dict_get ms path"

definition save_file_metadata :: "metadata_store \<Rightarrow> file_metadata \<Rightarrow> metadata_store" where
  "save_file_metadata ms m = dict_set (fm_path m) m ms"

definition delete_file_metadata :: "metadata_store \<Rightarrow> pystr \<Rightarrow> metadata_store" where
  "delete_file_metadata ms path = dict_pop path ms"

record receiver_config =
  rc_resolve :: "pure_path \<Rightarrow> pure_path result"
  rc_hash :: "bytes \<Rightarrow> chunk_hash"
  rc_sync_root :: pure_path
  rc_own_device_id :: pystr
  rc_limits :: push_limits

text \<open>
  What the metadata repository does during \<^verbatim>\<open>_finalize\<close>: it answers and saves, the read raises, or the save
  raises (and has taken effect or not).
\<close>

datatype metadata_fault = MetadataOk | GetFails exn | SaveFails exn bool

record push_env =
  ev_now :: real
  ev_rnd :: pystr
  ev_begin :: begin_fault
  ev_write :: write_fault
  ev_commit_refused :: bool
  ev_metadata :: metadata_fault
  ev_modified :: int

record push_state =
  rp_pending :: "(pystr, pending_file) dict"
  rp_fs :: fs
  rp_metadata :: metadata_store

section \<open>Operations\<close>

definition rejected :: exn where "rejected = Sync PushRejectedError"

definition validate_push :: "receiver_config \<Rightarrow> incoming_push \<Rightarrow> unit result" where
  "validate_push rc incoming =
     (let m = ck_metadata (in_chunk incoming); l = rc_limits rc in
     raise_if (in_total incoming < 1) rejected
    (raise_if (in_total incoming > pl_max_total_chunks l) rejected
    (raise_if (cm_size m > pl_max_chunk_size l) rejected
    (raise_if (cm_offset m + cm_size m > pl_max_file_size l) rejected
    (case cm_hash m of
       None \<Rightarrow> Inl rejected
     | Some declared \<Rightarrow>
         let actual = rc_hash rc (ck_data (in_chunk incoming)) in
         raise_if (algorithm actual \<noteq> algorithm declared \<or> digest actual \<noteq> digest declared) rejected (Inr ()))))))"

text \<open>\<^verbatim>\<open>_finalize\<close>: the file first, then the version.\<close>

definition final_version :: "pystr \<Rightarrow> file_metadata option \<Rightarrow> version_vector option \<Rightarrow> version_vector" where
  "final_version own existing received =
     (case received of
        None \<Rightarrow> vv_increment (case existing of None \<Rightarrow> empty_vector | Some m \<Rightarrow> fm_version_vector m) own
      | Some v \<Rightarrow> (case existing of None \<Rightarrow> v | Some m \<Rightarrow> vv_merge v (fm_version_vector m)))"

definition finalize ::
  "receiver_config \<Rightarrow> push_env \<Rightarrow> pystr \<Rightarrow> pure_path \<Rightarrow> pending_file \<Rightarrow> push_state \<Rightarrow> unit result \<times> push_state" where
  "finalize rc ev relative_path destination pending st =
     (case commit_partial (ev_commit_refused ev) destination (pf_partial pending) (rp_fs st) of
        (Inl e, f) \<Rightarrow> (Inl e, st\<lparr>rp_fs := f\<rparr>)
      | (Inr _, f) \<Rightarrow>
          let st1 = st\<lparr>rp_fs := f, rp_pending := dict_pop relative_path (rp_pending st)\<rparr>;
              existing = get_file_metadata (rp_metadata st1) relative_path;
              version = final_version (rc_own_device_id rc) existing (pf_version pending);
              saved = st1\<lparr>rp_metadata := save_file_metadata (rp_metadata st1)
                \<lparr>fm_path = relative_path, fm_version_vector = version, fm_last_modified = ev_modified ev,
                 fm_is_deleted = False, fm_chunks = []\<rparr>\<rparr>
          in (case ev_metadata ev of
                MetadataOk \<Rightarrow> (Inr (), saved)
              | GetFails e \<Rightarrow> (Inl e, st1)
              | SaveFails e effect \<Rightarrow> (Inl e, if effect then saved else st1)))"

text \<open>The pending file of a path, begun if there is none.\<close>

definition pending_for ::
  "receiver_config \<Rightarrow> push_env \<Rightarrow> pystr \<Rightarrow> pure_path \<Rightarrow> push_state \<Rightarrow> pending_file result \<times> push_state" where
  "pending_for rc ev relative_path destination st =
     (case dict_get (rp_pending st) relative_path of
        Some pending \<Rightarrow> (Inr pending, st)
      | None \<Rightarrow>
          if int (length (rp_pending st)) \<ge> pl_max_pending_files (rc_limits rc) then (Inl rejected, st)
          else (case begin_partial (ev_begin ev) (ev_rnd ev) destination (rp_fs st) of
                  (Inl e, f) \<Rightarrow> (Inl e, st\<lparr>rp_fs := f\<rparr>)
                | (Inr partial, f) \<Rightarrow>
                    let pending = \<lparr>pf_partial = partial, pf_received = [], pf_version = None, pf_last_activity = ev_now ev\<rparr>
                    in (Inr pending, st\<lparr>rp_fs := f, rp_pending := dict_set relative_path pending (rp_pending st)\<rparr>)))"

definition add_version :: "version_vector option \<Rightarrow> version_vector option \<Rightarrow> version_vector option" where
  "add_version old received =
     (case received of
        None \<Rightarrow> old
      | Some v \<Rightarrow> (case old of None \<Rightarrow> Some v | Some o' \<Rightarrow> Some (vv_merge o' v)))"

definition store_chunk :: "push_env \<Rightarrow> incoming_push \<Rightarrow> pending_file \<Rightarrow> push_state \<Rightarrow> pending_file result \<times> push_state" where
  "store_chunk ev incoming pending0 st =
     (let pending1 = pending0\<lparr>pf_last_activity := ev_now ev\<rparr>;
          st1 = st\<lparr>rp_pending := dict_set (in_path incoming) pending1 (rp_pending st)\<rparr> in
      case write_chunk_at_offset (ev_write ev) (pf_partial pending1) (in_chunk incoming) (rp_fs st1) of
        (Inl e, f) \<Rightarrow> (Inl e, st1\<lparr>rp_fs := f\<rparr>)
      | (Inr _, f) \<Rightarrow>
          let pending2 = pending1\<lparr>pf_received := List.insert (cm_index (ck_metadata (in_chunk incoming))) (pf_received pending1),
                                  pf_version := add_version (pf_version pending1) (in_version incoming)\<rparr>
          in (Inr pending2, st1\<lparr>rp_fs := f, rp_pending := dict_set (in_path incoming) pending2 (rp_pending st1)\<rparr>))"

definition handle_push :: "receiver_config \<Rightarrow> push_env \<Rightarrow> incoming_push \<Rightarrow> push_state \<Rightarrow> unit result \<times> push_state" where
  "handle_push rc ev incoming st =
     (case rbind (resolve_within (rc_resolve rc) (rc_sync_root rc) (in_path incoming)) (\<lambda>destination.
           rbind (validate_push rc incoming) (\<lambda>_. Inr destination)) of
        Inl e \<Rightarrow> (Inl e, st)
      | Inr destination \<Rightarrow>
          (case pending_for rc ev (in_path incoming) destination st of
             (Inl e, st1) \<Rightarrow> (Inl e, st1)
           | (Inr pending, st1) \<Rightarrow>
               (case store_chunk ev incoming pending st1 of
                  (Inl e, st2) \<Rightarrow> (Inl e, st2)
                | (Inr pending', st2) \<Rightarrow>
                    if int (length (pf_received pending')) \<ge> in_total incoming
                    then finalize rc ev (in_path incoming) destination pending' st2
                    else (Inr (), st2))))"

text \<open>\<^verbatim>\<open>_abort_expired_partials\<close> and \<^verbatim>\<open>_abort_all_partials\<close>; \<open>refused\<close> says which deletions fail.\<close>

definition abort_one :: "(pure_path \<Rightarrow> bool) \<Rightarrow> pystr \<Rightarrow> push_state \<Rightarrow> push_state" where
  "abort_one refused relative_path st =
     (case dict_get (rp_pending st) relative_path of
        None \<Rightarrow> st
      | Some pending \<Rightarrow>
          st\<lparr>rp_pending := dict_pop relative_path (rp_pending st),
             rp_fs := abort_partial (refused (pf_partial pending)) (pf_partial pending) (rp_fs st)\<rparr>)"

definition abort_expired :: "receiver_config \<Rightarrow> real \<Rightarrow> (pure_path \<Rightarrow> bool) \<Rightarrow> push_state \<Rightarrow> push_state" where
  "abort_expired rc now refused st =
     fold (abort_one refused)
       (map fst (filter (\<lambda>(_, pending). now - pf_last_activity pending > pl_partial_timeout (rc_limits rc)) (rp_pending st))) st"

definition abort_all :: "(pure_path \<Rightarrow> bool) \<Rightarrow> push_state \<Rightarrow> push_state" where
  "abort_all refused st = fold (abort_one refused) (dict_keys (rp_pending st)) st"

text \<open>
  \<^verbatim>\<open>run_forever\<close>: pushes and sweeps in the order the event loop runs them. The listed exceptions
  are logged, any other ends the loop; in every case the partial files are aborted at the end.
\<close>

datatype push_event = Push push_env incoming_push | Sweep real

definition caught :: "exn \<Rightarrow> bool" where
  "caught e \<longleftrightarrow> e \<in> {Sync UnsafePathError, Sync PushRejectedError, Sync ChunkEngineError,
     Py OSError, Py TimeoutError, Py ConnectionError,
     Py ValueError, Py UnicodeDecodeError, Py UnicodeEncodeError, Py KeyError}"

fun run_events :: "receiver_config \<Rightarrow> (pure_path \<Rightarrow> bool) \<Rightarrow> push_event list \<Rightarrow> push_state \<Rightarrow> unit result \<times> push_state" where
  "run_events rc refused [] st = (Inr (), st)"
| "run_events rc refused (Sweep now # evs) st = run_events rc refused evs (abort_expired rc now refused st)"
| "run_events rc refused (Push ev incoming # evs) st =
     (case handle_push rc ev incoming st of
        (Inl e, st1) \<Rightarrow> if caught e then run_events rc refused evs st1 else (Inl e, st1)
      | (Inr _, st1) \<Rightarrow> run_events rc refused evs st1)"

definition run_forever :: "receiver_config \<Rightarrow> (pure_path \<Rightarrow> bool) \<Rightarrow> push_event list \<Rightarrow> push_state \<Rightarrow> unit result \<times> push_state" where
  "run_forever rc refused evs st = (let (r, st1) = run_events rc refused evs st in (r, abort_all refused st1))"

section \<open>The invariant\<close>

text \<open>
  \<open>base\<close> is the resolved sync root: it and what leads to it are directories. The pending table has no
  duplicate path and stays within its limit; every partial file exists, no two are the same, and each stands
  beside a destination inside the root that is not the root.
\<close>

definition root_ready :: "fs \<Rightarrow> pure_path \<Rightarrow> bool" where
  "root_ready f base \<longleftrightarrow> (\<forall>p. on_the_way p base \<longrightarrow> f p = Some DirNode)"

definition pending_ok :: "receiver_config \<Rightarrow> pure_path \<Rightarrow> fs \<Rightarrow> pystr \<times> pending_file \<Rightarrow> bool" where
  "pending_ok rc base f e \<longleftrightarrow>
     is_file (f (pf_partial (snd e))) \<and> distinct (pf_received (snd e)) \<and>
     (\<exists>d rnd. resolve_within (rc_resolve rc) (rc_sync_root rc) (fst e) = Inr d \<and> is_relative_to d base \<and> d \<noteq> base \<and>
        pf_partial (snd e) = temp_path d rnd)"

definition push_inv :: "receiver_config \<Rightarrow> pure_path \<Rightarrow> push_state \<Rightarrow> bool" where
  "push_inv rc base st \<longleftrightarrow>
     wf_dict (rp_pending st) \<and> int (length (rp_pending st)) \<le> max 0 (pl_max_pending_files (rc_limits rc)) \<and>
     root_ready (rp_fs st) base \<and> distinct (map (\<lambda>e. pf_partial (snd e)) (rp_pending st)) \<and>
     list_all (pending_ok rc base (rp_fs st)) (rp_pending st)"

lemma root_ready_step: "root_ready f base \<Longrightarrow> fs_step d S f g \<Longrightarrow> root_ready g base"
  unfolding root_ready_def using fs_step_dir by blast

lemma set_dict_set_iff: "wf_dict d \<Longrightarrow> e \<in> set (dict_set k v d) \<longleftrightarrow> e = (k, v) \<or> (e \<in> set d \<and> fst e \<noteq> k)"
  by (induction d) auto

lemma set_dict_pop_iff: "e \<in> set (dict_pop k d) \<longleftrightarrow> e \<in> set d \<and> fst e \<noteq> k"
  by (induction d) auto

lemma dict_set_twice: "dict_set k v (dict_set k v' d) = dict_set k v d"
  by (induction d) auto

lemma dict_get_mem: "dict_get d k = Some v \<Longrightarrow> (k, v) \<in> set d"
  by (rule map_of_SomeD)

text \<open>Distinct partial files, said of two entries at a time.\<close>

definition partials_apart :: "(pystr, pending_file) dict \<Rightarrow> bool" where
  "partials_apart d \<longleftrightarrow> (\<forall>e\<in>set d. \<forall>e'\<in>set d. pf_partial (snd e) = pf_partial (snd e') \<longrightarrow> fst e = fst e')"

lemma partials_apart_iff: "wf_dict d \<Longrightarrow> distinct (map (\<lambda>e. pf_partial (snd e)) d) \<longleftrightarrow> partials_apart d"
  unfolding distinct_map partials_apart_def inj_on_def by blast

lemma partials_apart_set:
  assumes "wf_dict d" "partials_apart d" and other: "\<And>e. e \<in> set d \<Longrightarrow> fst e \<noteq> k \<Longrightarrow> pf_partial (snd e) \<noteq> pf_partial v"
  shows "partials_apart (dict_set k v d)"
  unfolding partials_apart_def
proof (intro ballI impI)
  fix e e' assume a: "e \<in> set (dict_set k v d)" "e' \<in> set (dict_set k v d)" "pf_partial (snd e) = pf_partial (snd e')"
  note m = iffD1 [OF set_dict_set_iff [OF assms(1)] a(1)] iffD1 [OF set_dict_set_iff [OF assms(1)] a(2)]
  from m show "fst e = fst e'"
  proof (elim disjE conjE)
    assume "e = (k, v)" "e' \<in> set d" "fst e' \<noteq> k"
    then show ?thesis using other [of e'] a(3) by simp
  next
    assume "e' = (k, v)" "e \<in> set d" "fst e \<noteq> k"
    then show ?thesis using other [of e] a(3) by simp
  next
    assume "e \<in> set d" "e' \<in> set d"
    then show ?thesis using assms(2) a(3) unfolding partials_apart_def by blast
  qed simp
qed

lemma pending_ok_exists: "pending_ok rc base f e \<Longrightarrow> f (pf_partial (snd e)) \<noteq> None"
  unfolding pending_ok_def is_file_def by (metis option.simps(4))

lemma push_invD:
  assumes "push_inv rc base st"
  shows "wf_dict (rp_pending st)" "root_ready (rp_fs st) base" "partials_apart (rp_pending st)"
    "\<And>e. e \<in> set (rp_pending st) \<Longrightarrow> pending_ok rc base (rp_fs st) e"
    "int (length (rp_pending st)) \<le> max 0 (pl_max_pending_files (rc_limits rc))"
  using assms partials_apart_iff [of "rp_pending st"] by (auto simp: push_inv_def list_all_iff)

lemma push_invI:
  assumes "wf_dict (rp_pending st)" "root_ready (rp_fs st) base" "partials_apart (rp_pending st)"
    "\<And>e. e \<in> set (rp_pending st) \<Longrightarrow> pending_ok rc base (rp_fs st) e"
    "int (length (rp_pending st)) \<le> max 0 (pl_max_pending_files (rc_limits rc))"
  shows "push_inv rc base st"
  using assms partials_apart_iff [of "rp_pending st"] by (auto simp: push_inv_def list_all_iff)

text \<open>An entry whose partial file is not among the touched paths stays good.\<close>

lemma pending_ok_step:
  assumes "pending_ok rc base f e" "fs_step d S f g" "pf_partial (snd e) \<notin> S"
  shows "pending_ok rc base g e"
proof -
  obtain n where "f (pf_partial (snd e)) = Some n" "is_file (Some n)"
    using assms(1) by (auto simp: pending_ok_def is_file_def split: option.splits)
  then have "is_file (g (pf_partial (snd e)))" using fs_step_file [OF assms(2,3)] by simp
  with assms(1) show ?thesis by (simp add: pending_ok_def)
qed

section \<open>One push\<close>

lemma pending_for_inv:
  assumes inv: "push_inv rc base st" and d: "resolve_within (rc_resolve rc) (rc_sync_root rc) path = Inr d" "is_relative_to d base"
    and r: "pending_for rc ev path d st = (res, st1)"
  shows "push_inv rc base st1" "fs_step (path_parent d) {temp_path d (ev_rnd ev)} (rp_fs st) (rp_fs st1)"
    "\<And>pd. res = Inr pd \<Longrightarrow> dict_get (rp_pending st1) path = Some pd \<and> rp_metadata st1 = rp_metadata st"
proof -
  note I = push_invD [OF inv]
  show "fs_step (path_parent d) {temp_path d (ev_rnd ev)} (rp_fs st) (rp_fs st1)"
    using r begin_partial_step [of d "ev_rnd ev" "rp_fs st" "ev_begin ev"]
    by (auto simp: pending_for_def Let_def split: option.splits if_splits prod.splits sum.splits)
  show "\<And>pd. res = Inr pd \<Longrightarrow> dict_get (rp_pending st1) path = Some pd \<and> rp_metadata st1 = rp_metadata st"
    using r by (auto simp: pending_for_def Let_def split: option.splits if_splits prod.splits sum.splits)
  show "push_inv rc base st1"
  proof (cases "dict_get (rp_pending st) path = None \<and> int (length (rp_pending st)) < pl_max_pending_files (rc_limits rc)")
    case False
    then show ?thesis using r inv by (auto simp: pending_for_def split: option.splits)
  next
    case True
    obtain b f where b: "begin_partial (ev_begin ev) (ev_rnd ev) d (rp_fs st) = (b, f)" by (metis surj_pair)
    have s: "fs_step (path_parent d) {temp_path d (ev_rnd ev)} (rp_fs st) f" using begin_partial_step b by (metis snd_conv)
    note ready = root_ready_step [OF I(2) s]
    show ?thesis
    proof (cases b)
      case (Inl e)
      have st1: "st1 = st\<lparr>rp_fs := f\<rparr>" using r True b Inl by (simp add: pending_for_def)
      have "pending_ok rc base f e" if e: "e \<in> set (rp_pending st)" for e
      proof (cases "rp_fs st (temp_path d (ev_rnd ev)) = None")
        case True
        then have "pf_partial (snd e) \<notin> {temp_path d (ev_rnd ev)}" using pending_ok_exists [OF I(4) [OF e]] by auto
        with I(4) [OF e] s show ?thesis by (rule pending_ok_step)
      next
        case False
        have same: "f p = rp_fs st p \<or> (rp_fs st p = None)" for p
        proof -
          obtain r f1 where m: "make_dirs (begin_no_dir (ev_begin ev)) (path_parent d) (rp_fs st) = (r, f1)" by (metis surj_pair)
          have "f1 (temp_path d (ev_rnd ev)) \<noteq> None" using False make_dirs_cases [OF m, of "temp_path d (ev_rnd ev)"] by auto
          then have "f = f1" using b m by (cases r) (auto simp: begin_partial_def)
          then show ?thesis using make_dirs_cases [OF m, of p] by auto
        qed
        have "rp_fs st (pf_partial (snd e)) \<noteq> None" by (rule pending_ok_exists [OF I(4) [OF e]])
        then have "f (pf_partial (snd e)) = rp_fs st (pf_partial (snd e))" using same by metis
        with I(4) [OF e] show ?thesis by (simp add: pending_ok_def)
      qed
      then show ?thesis using I ready by (intro push_invI) (simp_all add: st1)
    next
      case (Inr partial)
      let ?pf = "\<lparr>pf_partial = partial, pf_received = [], pf_version = None, pf_last_activity = ev_now ev\<rparr>"
      have st1_fields: "rp_fs st1 = f" "rp_pending st1 = dict_set path ?pf (rp_pending st)"
        using r True b Inr by (auto simp: pending_for_def Let_def)
      note bp = begin_partial_Inr [OF b [unfolded Inr]]
      have new: "path \<notin> set (dict_keys (rp_pending st))" using True dict_get_None [of "rp_pending st" path] by simp
      have root: "d \<noteq> base" using bp(4) I(2) by (auto simp: root_ready_def on_the_way_def)
      have apart: "pf_partial (snd e) \<noteq> partial" if "e \<in> set (rp_pending st)" for e
        using pending_ok_exists [OF I(4) [OF that]] bp(2) by auto
      have old: "pending_ok rc base f e" if "e \<in> set (rp_pending st)" for e
        using pending_ok_step [OF I(4) [OF that] s] apart [OF that] bp(1) by simp
      have "pending_ok rc base f (path, ?pf)" using bp d root by (auto simp: pending_ok_def)
      then have ok: "pending_ok rc base f e" if "e \<in> set (dict_set path ?pf (rp_pending st))" for e
        using iffD1 [OF set_dict_set_iff [OF I(1)] that] old [of e] by (elim disjE conjE) simp_all
      have apart': "partials_apart (dict_set path ?pf (rp_pending st))"
        by (rule partials_apart_set [OF I(1,3)]) (use apart in simp)
      show ?thesis
      proof (rule push_invI; unfold st1_fields)
        show "int (length (dict_set path ?pf (rp_pending st))) \<le> max 0 (pl_max_pending_files (rc_limits rc))"
          using I(5) True new length_dict_set [of path ?pf "rp_pending st"] by simp
      qed (fact wf_dict_set [OF I(1)] ready apart' ok)+
    qed
  qed
qed

text \<open>Replacing an entry by one with the same partial file.\<close>

lemma push_inv_update:
  assumes inv: "push_inv rc base st" and pd: "dict_get (rp_pending st) path = Some pd" and same: "pf_partial pd' = pf_partial pd"
    and rec: "distinct (pf_received pd')" and s: "fs_step d {pf_partial pd} (rp_fs st) f" and isf: "is_file (f (pf_partial pd))"
    and st': "rp_pending st' = dict_set path pd' (rp_pending st)" "rp_fs st' = f"
  shows "push_inv rc base st'"
proof -
  note I = push_invD [OF inv]
  have m: "(path, pd) \<in> set (rp_pending st)" using dict_get_mem [OF pd] .
  then have k: "path \<in> set (dict_keys (rp_pending st))" by force
  have apart: "pf_partial (snd e) \<noteq> pf_partial pd" if "e \<in> set (rp_pending st)" "fst e \<noteq> path" for e
    using I(3) that m unfolding partials_apart_def by (metis fst_conv snd_conv)
  have old: "pending_ok rc base f e" if "e \<in> set (rp_pending st)" "fst e \<noteq> path" for e
    using pending_ok_step [OF I(4) [OF that(1)] s] apart [OF that] by simp
  have new: "pending_ok rc base f (path, pd')" using I(4) [OF m] same rec isf by (simp add: pending_ok_def)
  note mem = set_dict_set_iff [OF I(1), of _ path pd']
  show ?thesis
  proof (rule push_invI; unfold st')
    show "partials_apart (dict_set path pd' (rp_pending st))"
      by (rule partials_apart_set [OF I(1,3)]) (use apart same in simp)
    show "pending_ok rc base f e" if "e \<in> set (dict_set path pd' (rp_pending st))" for e
      using iffD1 [OF mem that] old [of e] new by (elim disjE conjE) simp_all
    show "int (length (dict_set path pd' (rp_pending st))) \<le> max 0 (pl_max_pending_files (rc_limits rc))"
      using length_dict_set [of path pd' "rp_pending st"] k I(5) by simp
  qed (fact wf_dict_set [OF I(1)] root_ready_step [OF I(2) s])+
qed

text \<open>Dropping an entry together with its partial file.\<close>

lemma push_inv_drop:
  assumes inv: "push_inv rc base st" and pd: "dict_get (rp_pending st) path = Some pd" and s: "fs_step d S (rp_fs st) f"
    and S: "\<And>e. e \<in> set (rp_pending st) \<Longrightarrow> fst e \<noteq> path \<Longrightarrow> pf_partial (snd e) \<in> S \<Longrightarrow> is_file (f (pf_partial (snd e)))"
    and st': "rp_pending st' = dict_pop path (rp_pending st)" "rp_fs st' = f"
  shows "push_inv rc base st'"
proof -
  note I = push_invD [OF inv]
  have ok: "pending_ok rc base f e" if "e \<in> set (rp_pending st)" "fst e \<noteq> path" for e
    using pending_ok_step [OF I(4) [OF that(1)] s] S [OF that] I(4) [OF that(1)]
    by (cases "pf_partial (snd e) \<in> S") (simp_all add: pending_ok_def)
  show ?thesis
  proof (rule push_invI; unfold st')
    show "partials_apart (dict_pop path (rp_pending st))"
      using I(3) unfolding partials_apart_def set_dict_pop_iff Ball_def by blast
    show "pending_ok rc base f e" if "e \<in> set (dict_pop path (rp_pending st))" for e
      using iffD1 [OF set_dict_pop_iff that] ok [of e] by simp
    show "int (length (dict_pop path (rp_pending st))) \<le> max 0 (pl_max_pending_files (rc_limits rc))"
      using length_dict_pop_le [of path "rp_pending st"] I(5) by linarith
  qed (fact wf_dict_pop [OF I(1)] root_ready_step [OF I(2) s])+
qed

lemma store_chunk_inv:
  assumes inv: "push_inv rc base st" and pd: "dict_get (rp_pending st) (in_path i) = Some pd"
    and r: "store_chunk ev i pd st = (res, st1)"
  shows "push_inv rc base st1" "fs_step (path_parent (pf_partial pd)) {pf_partial pd} (rp_fs st) (rp_fs st1)"
    "\<And>pd'. res = Inr pd' \<Longrightarrow> dict_get (rp_pending st1) (in_path i) = Some pd' \<and> pf_partial pd' = pf_partial pd \<and>
       rp_metadata st1 = rp_metadata st"
proof -
  obtain w f where w: "write_chunk_at_offset (ev_write ev) (pf_partial pd) (in_chunk i) (rp_fs st) = (w, f)" by (metis surj_pair)
  have s: "fs_step (path_parent (pf_partial pd)) {pf_partial pd} (rp_fs st) f"
    using write_chunk_step w by (metis snd_conv)
  have ok: "pending_ok rc base (rp_fs st) (in_path i, pd)" using push_invD(4) [OF inv dict_get_mem [OF pd]] .
  have isf: "is_file (f (pf_partial pd))"
    using write_chunk_is_file [of "rp_fs st" "pf_partial pd" "ev_write ev" "in_chunk i"] ok w by (simp add: pending_ok_def)
  have dist: "distinct (pf_received pd)" using ok by (simp add: pending_ok_def)
  obtain pd' where pd': "rp_pending st1 = dict_set (in_path i) pd' (rp_pending st) \<and> rp_fs st1 = f \<and> rp_metadata st1 = rp_metadata st"
      "pf_partial pd' = pf_partial pd" "distinct (pf_received pd')" "\<And>q. res = Inr q \<Longrightarrow> q = pd'"
  proof (cases w)
    case (Inl e)
    show thesis
      by (rule that [of "pd\<lparr>pf_last_activity := ev_now ev\<rparr>"]) (use r w Inl dist in \<open>auto simp: store_chunk_def Let_def\<close>)
  next
    case (Inr u)
    let ?q = "pd\<lparr>pf_last_activity := ev_now ev, pf_received := List.insert (cm_index (ck_metadata (in_chunk i))) (pf_received pd),
        pf_version := add_version (pf_version pd) (in_version i)\<rparr>"
    show thesis
      by (rule that [of ?q]) (use r w Inr dist in \<open>auto simp: store_chunk_def Let_def dict_set_twice distinct_insert\<close>)
  qed
  show "push_inv rc base st1" by (rule push_inv_update [OF inv pd pd'(2,3) s isf]) (simp_all add: pd'(1))
  show "fs_step (path_parent (pf_partial pd)) {pf_partial pd} (rp_fs st) (rp_fs st1)" using s pd'(1) by simp
  show "\<And>q. res = Inr q \<Longrightarrow> dict_get (rp_pending st1) (in_path i) = Some q \<and> pf_partial q = pf_partial pd \<and>
       rp_metadata st1 = rp_metadata st"
    using pd' by auto
qed

lemma commit_partial_cases:
  assumes "commit_partial refused d p f = (r, f')" "p \<noteq> d"
  obtains (kept) e where "r = Inl e" "f' = f"
  | (moved) b where "r = Inr ()" "f p = Some (FileNode b)" "f d \<noteq> Some DirNode" "f' = f(p := None, d \<mapsto> FileNode b)"
proof (cases "\<exists>b. f p = Some (FileNode b) \<and> \<not> refused \<and> f d \<noteq> Some DirNode")
  case True
  then obtain b where "f p = Some (FileNode b)" "\<not> refused" "f d \<noteq> Some DirNode" by blast
  with assms moved [of b] show thesis by (simp add: commit_partial_def os_replace_def)
next
  case False
  with assms kept [of engine_err] show thesis
    by (auto simp: commit_partial_def os_replace_def split: option.splits node.splits)
qed

lemma finalize_inv:
  assumes inv: "push_inv rc base st" and pd: "dict_get (rp_pending st) path = Some pd" and d: "pf_partial pd \<noteq> d"
    and r: "finalize rc ev path d pd st = (res, st1)"
  shows "push_inv rc base st1" "fs_step e {pf_partial pd, d} (rp_fs st) (rp_fs st1)"
proof -
  obtain w f where w: "commit_partial (ev_commit_refused ev) d (pf_partial pd) (rp_fs st) = (w, f)" by (metis surj_pair)
  have s: "fs_step e {pf_partial pd, d} (rp_fs st) f" using commit_step w by (metis snd_conv)
  have fs: "rp_fs st1 = f" using r w by (auto simp: finalize_def Let_def split: sum.splits metadata_fault.splits if_splits)
  show "fs_step e {pf_partial pd, d} (rp_fs st) (rp_fs st1)" using s fs by simp
  from w d show "push_inv rc base st1"
  proof (cases rule: commit_partial_cases)
    case (kept e)
    then show ?thesis using r w inv by (simp add: finalize_def)
  next
    case (moved b)
    have "is_file (f (pf_partial (snd e)))" if "e \<in> set (rp_pending st)" "fst e \<noteq> path" "pf_partial (snd e) \<in> {pf_partial pd, d}" for e
    proof -
      have "pf_partial (snd e) \<noteq> pf_partial pd"
        using push_invD(3) [OF inv] that dict_get_mem [OF pd] unfolding partials_apart_def by (metis fst_conv snd_conv)
      then show ?thesis using that moved by (simp add: is_file_def)
    qed
    then show ?thesis
      by (rule push_inv_drop [OF inv pd s]) (use r w moved in \<open>auto simp: finalize_def Let_def split: metadata_fault.splits if_splits\<close>)
  qed
qed

section \<open>Confinement\<close>

text \<open>
  Nothing outside the root changes, with the one exception of temporary files beside the root itself
  (see \<open>push_to_root_leaves_file_outside\<close>).
\<close>

definition confined :: "pure_path \<Rightarrow> fs \<Rightarrow> fs \<Rightarrow> bool" where
  "confined base f f' \<longleftrightarrow> (\<forall>p. f' p = f p \<or> is_relative_to p base \<or> (\<exists>rnd. p = temp_path base rnd))"

lemma confined_refl [simp]: "confined base f f"
  by (simp add: confined_def)

lemma confined_trans: "confined base f g \<Longrightarrow> confined base g h \<Longrightarrow> confined base f h"
  unfolding confined_def by metis

lemma on_the_way_up: "on_the_way p (path_parent d) \<Longrightarrow> on_the_way p d"
  by (cases "pp_parts d" rule: rev_cases) (auto simp: on_the_way_def path_parent_def)

lemma fs_step_confined:
  assumes "fs_step (path_parent d) S f g" "is_relative_to d base" "root_ready f base"
    and S: "\<And>p. p \<in> S \<Longrightarrow> is_relative_to p base \<or> (\<exists>rnd. p = temp_path base rnd)"
  shows "confined base f g"
  unfolding confined_def
proof
  fix p
  have "is_relative_to p base" if "f p = None" "on_the_way p (path_parent d)"
    using way_inside [OF on_the_way_up [OF that(2)] assms(2)] that(1) assms(3) by (auto simp: root_ready_def)
  then show "g p = f p \<or> is_relative_to p base \<or> (\<exists>rnd. p = temp_path base rnd)"
    using assms(1) S [of p] unfolding fs_step_def by metis
qed

lemma resolved_inside:
  "resolve_within res dir s = Inr d \<Longrightarrow> res dir = Inr base \<Longrightarrow> is_relative_to d base"
  by (auto simp: resolve_within_eq_Inr)

text \<open>
  What a push that completes its file has done, said of the state before it: the indices counted, the bytes the
  destination now holds, and the outcome of the two calls of the metadata repository.
\<close>

definition received_so_far :: "push_state \<Rightarrow> pystr \<Rightarrow> int list" where
  "received_so_far st path = (case dict_get (rp_pending st) path of None \<Rightarrow> [] | Some pd \<Rightarrow> pf_received pd)"

definition version_so_far :: "push_state \<Rightarrow> pystr \<Rightarrow> version_vector option" where
  "version_so_far st path = (case dict_get (rp_pending st) path of None \<Rightarrow> None | Some pd \<Rightarrow> pf_version pd)"

definition content_so_far :: "push_state \<Rightarrow> pystr \<Rightarrow> pure_path \<Rightarrow> bytes" where
  "content_so_far st path d =
     file_bytes (rp_fs st (case dict_get (rp_pending st) path of None \<Rightarrow> d | Some pd \<Rightarrow> pf_partial pd))"

definition recorded_entry :: "receiver_config \<Rightarrow> push_env \<Rightarrow> incoming_push \<Rightarrow> push_state \<Rightarrow> file_metadata" where
  "recorded_entry rc ev i st =
     \<lparr>fm_path = in_path i,
      fm_version_vector = final_version (rc_own_device_id rc) (get_file_metadata (rp_metadata st) (in_path i))
        (add_version (version_so_far st (in_path i)) (in_version i)),
      fm_last_modified = ev_modified ev, fm_is_deleted = False, fm_chunks = []\<rparr>"

definition completed_push ::
  "receiver_config \<Rightarrow> push_env \<Rightarrow> incoming_push \<Rightarrow> pure_path \<Rightarrow> push_state \<Rightarrow> unit result \<Rightarrow> push_state \<Rightarrow> bool" where
  "completed_push rc ev i d st res st' \<longleftrightarrow>
     in_total i \<le> int (length (List.insert (cm_index (ck_metadata (in_chunk i))) (received_so_far st (in_path i)))) \<and>
     rp_fs st' d = Some (FileNode (write_at (nat (cm_offset (ck_metadata (in_chunk i)))) (ck_data (in_chunk i))
       (content_so_far st (in_path i) d))) \<and>
     dict_get (rp_pending st') (in_path i) = None \<and>
     (case ev_metadata ev of
        MetadataOk \<Rightarrow> res = Inr () \<and> rp_metadata st' = save_file_metadata (rp_metadata st) (recorded_entry rc ev i st)
      | GetFails e \<Rightarrow> res = Inl e \<and> rp_metadata st' = rp_metadata st
      | SaveFails e effect \<Rightarrow> res = Inl e \<and> rp_metadata st' =
          (if effect then save_file_metadata (rp_metadata st) (recorded_entry rc ev i st) else rp_metadata st))"

lemma pending_for_Inr:
  assumes "pending_for rc ev path d st = (Inr pd, st1)"
  shows "pf_received pd = received_so_far st path \<and> pf_version pd = version_so_far st path \<and>
    file_bytes (rp_fs st1 (pf_partial pd)) = content_so_far st path d \<and> rp_metadata st1 = rp_metadata st"
proof (cases "dict_get (rp_pending st) path")
  case None
  then obtain partial f where b: "begin_partial (ev_begin ev) (ev_rnd ev) d (rp_fs st) = (Inr partial, f)"
      "pd = \<lparr>pf_partial = partial, pf_received = [], pf_version = None, pf_last_activity = ev_now ev\<rparr>" "rp_fs st1 = f"
      "rp_metadata st1 = rp_metadata st"
    using assms by (auto simp: pending_for_def Let_def split: if_splits prod.splits sum.splits)
  have "file_bytes (f partial) = file_bytes (rp_fs st d)" by (rule begin_partial_copies [OF b(1)])
  with b None show ?thesis
    by (simp add: received_so_far_def version_so_far_def content_so_far_def)
next
  case (Some q)
  then show ?thesis
    using assms by (simp add: pending_for_def received_so_far_def version_so_far_def content_so_far_def)
qed

lemma store_chunk_Inr:
  assumes "store_chunk ev i pd st = (Inr pd', st1)" "is_file (rp_fs st (pf_partial pd))"
  shows "pf_partial pd' = pf_partial pd" "pf_received pd' = List.insert (cm_index (ck_metadata (in_chunk i))) (pf_received pd)"
    "pf_version pd' = add_version (pf_version pd) (in_version i)" "rp_metadata st1 = rp_metadata st"
    "rp_fs st1 (pf_partial pd) = Some (FileNode (write_at (nat (cm_offset (ck_metadata (in_chunk i)))) (ck_data (in_chunk i))
       (file_bytes (rp_fs st (pf_partial pd)))))"
proof -
  obtain f where w: "write_chunk_at_offset (ev_write ev) (pf_partial pd) (in_chunk i) (rp_fs st) = (Inr (), f)" "rp_fs st1 = f"
    using assms(1) by (auto simp: store_chunk_def Let_def split: prod.splits sum.splits)
  show "rp_fs st1 (pf_partial pd) = Some (FileNode (write_at (nat (cm_offset (ck_metadata (in_chunk i)))) (ck_data (in_chunk i))
       (file_bytes (rp_fs st (pf_partial pd)))))"
    using write_chunk_content [OF w(1) assms(2)] w(2) by simp
qed (use assms(1) in \<open>auto simp: store_chunk_def Let_def split: prod.splits sum.splits\<close>)

text \<open>
  One push: the invariant is kept and changes are confined; either nothing has changed at all, or only the partial
  file of this path, or the push completed the file.
\<close>

lemma handle_push_step:
  assumes base: "rc_resolve rc (rc_sync_root rc) = Inr base" and inv: "push_inv rc base st"
    and r: "handle_push rc ev i st = (res, st')"
  shows "push_inv rc base st' \<and> confined base (rp_fs st) (rp_fs st') \<and>
    ((st' = st \<and> (\<exists>e. res = Inl e)) \<or>
     (\<exists>d rnd. resolve_within (rc_resolve rc) (rc_sync_root rc) (in_path i) = Inr d \<and> validate_push rc i = Inr () \<and>
        (fs_step (path_parent d) {temp_path d rnd} (rp_fs st) (rp_fs st') \<and> rp_metadata st' = rp_metadata st \<or>
         fs_step (path_parent d) {temp_path d rnd, d} (rp_fs st) (rp_fs st') \<and> completed_push rc ev i d st res st')))"
proof (cases "rbind (resolve_within (rc_resolve rc) (rc_sync_root rc) (in_path i)) (\<lambda>d.
           rbind (validate_push rc i) (\<lambda>_. Inr d))")
  case (Inl e)
  then show ?thesis using r inv by (auto simp: handle_push_def)
next
  case (Inr d)
  then have d: "resolve_within (rc_resolve rc) (rc_sync_root rc) (in_path i) = Inr d" and v: "validate_push rc i = Inr ()"
    by (auto simp: rbind_eq_Inr)
  note inside = resolved_inside [OF d base]
  obtain p st1 where p: "pending_for rc ev (in_path i) d st = (p, st1)" by (metis surj_pair)
  note P = pending_for_inv [OF inv d inside p]
  have ready: "root_ready (rp_fs st) base" by (rule push_invD(2) [OF inv])
  have "is_relative_to (temp_path d rnd) base \<or> (\<exists>rnd'. temp_path d rnd = temp_path base rnd')" for rnd
    using temp_inside [OF inside] by blast
  then have conf: "confined base (rp_fs st) (rp_fs s)" if "fs_step (path_parent d) {temp_path d rnd, d} (rp_fs st) (rp_fs s)" for s rnd
    by (rule_tac fs_step_confined [OF that inside ready]) (use inside in auto)
  have weak: "fs_step (path_parent d) {temp_path d rnd} f g \<Longrightarrow> fs_step (path_parent d) {temp_path d rnd, d} f g" for rnd f g
    by (erule fs_step_mono) blast
  show ?thesis
  proof (cases p)
    case (Inl e)
    have "st' = st1" "res = Inl e" using r Inr p Inl by (simp_all add: handle_push_def)
    moreover have "rp_metadata st1 = rp_metadata st"
      using p by (auto simp: pending_for_def Let_def split: option.splits if_splits prod.splits sum.splits)
    ultimately show ?thesis using P d v conf [OF weak [OF P(2)]] by blast
  next
    case p': (Inr pd)
    note pd = P(3) [OF p']
    note PB = pending_for_Inr [OF p [unfolded p']]
    obtain c st2 where c: "store_chunk ev i pd st1 = (c, st2)" by (metis surj_pair)
    note S = store_chunk_inv [OF P(1) conjunct1 [OF pd] c]
    have ok: "pending_ok rc base (rp_fs st1) (in_path i, pd)" by (rule push_invD(4) [OF P(1) dict_get_mem [OF conjunct1 [OF pd]]])
    then obtain rnd where rnd: "pf_partial pd = temp_path d rnd" using d by (auto simp: pending_ok_def)
    have isf: "is_file (rp_fs st1 (pf_partial pd))" using ok by (simp add: pending_ok_def)
    have P2: "fs_step (path_parent d) {temp_path d rnd} (rp_fs st) (rp_fs st1)"
    proof (cases "dict_get (rp_pending st) (in_path i)")
      case None
      then have "rnd = ev_rnd ev \<or> temp_path d (ev_rnd ev) = temp_path d rnd"
        using p p' rnd by (auto simp: pending_for_def Let_def dest: begin_partial_Inr split: if_splits prod.splits sum.splits)
      then show ?thesis using P(2) by auto
    next
      case (Some q)
      then show ?thesis using p by (simp add: pending_for_def)
    qed
    have S2: "fs_step (path_parent d) {temp_path d rnd} (rp_fs st1) (rp_fs st2)" using S(2) rnd by simp
    note PS = fs_step_trans [OF P2 S2]
    have m2: "rp_metadata st2 = rp_metadata st"
      using c pd by (auto simp: store_chunk_def Let_def split: prod.splits sum.splits)
    show ?thesis
    proof (cases "\<exists>pd'. c = Inr pd' \<and> in_total i \<le> int (length (pf_received pd'))")
      case False
      have "st' = st2" using r Inr p p' c False by (auto simp: handle_push_def split: sum.splits)
      then show ?thesis using S(1) d v PS m2 conf [OF weak [OF PS]] by blast
    next
      case True
      then obtain pd' where c': "c = Inr pd'" "in_total i \<le> int (length (pf_received pd'))" by blast
      note SB = store_chunk_Inr [OF c [unfolded c'(1)] isf]
      have f: "finalize rc ev (in_path i) d pd' st2 = (res, st')" using r Inr p p' c c' by (simp add: handle_push_def)
      have pd': "dict_get (rp_pending st2) (in_path i) = Some pd'" "pf_partial pd' = temp_path d rnd"
        using S(3) [OF c'(1)] rnd by simp_all
      have ne: "pf_partial pd' \<noteq> d" using pd'(2) temp_path_neq by simp
      note F = finalize_inv [OF S(1) pd'(1) ne f]
      have FS: "fs_step (path_parent d) {temp_path d rnd, d} (rp_fs st) (rp_fs st')"
        using fs_step_trans [OF weak [OF PS]] F(2) pd'(2) by simp
      have "fs_step (path_parent d) {temp_path d rnd} (rp_fs st) (rp_fs st') \<and> rp_metadata st' = rp_metadata st \<or>
          completed_push rc ev i d st res st'"
      proof -
        obtain w f' where w: "commit_partial (ev_commit_refused ev) d (pf_partial pd') (rp_fs st2) = (w, f')" by (metis surj_pair)
        from w ne show ?thesis
        proof (cases rule: commit_partial_cases)
          case (kept e)
          then show ?thesis using f w PS m2 by (auto simp: finalize_def)
        next
          case (moved b)
          then have b: "b = write_at (nat (cm_offset (ck_metadata (in_chunk i)))) (ck_data (in_chunk i)) (content_so_far st (in_path i) d)"
            using SB(1,5) PB by simp
          have "completed_push rc ev i d st res st'"
            using f w moved c'(2) m2
            by (auto simp: finalize_def Let_def completed_push_def recorded_entry_def b SB(2,3) PB
                split: metadata_fault.splits if_splits)
          then show ?thesis ..
        qed
      qed
      then show ?thesis using F(1) d v FS conf [OF FS] by blast
    qed
  qed
qed

text \<open>A step towards a destination that does not name it leaves it alone: it may be the root, which is a directory.\<close>

lemma step_keeps_destination:
  assumes "fs_step (path_parent d) {temp_path d rnd} f g" "is_relative_to d base" "root_ready f base"
  shows "g d = f d"
proof (cases "pp_parts d = []")
  case True
  then have "on_the_way d base" using assms(2) by (auto simp: is_relative_to_def on_the_way_def)
  then have "f d = Some DirNode" using assms(3) by (simp add: root_ready_def)
  then show ?thesis using fs_step_dir [OF assms(1)] by simp
next
  case False
  then show ?thesis using assms(1) on_the_way_parent [OF False] temp_path_neq unfolding fs_step_def by (metis singletonD)
qed

section \<open>Runs\<close>

lemma abort_one_inv:
  assumes "push_inv rc base st"
  shows "push_inv rc base (abort_one refused path st) \<and> confined base (rp_fs st) (rp_fs (abort_one refused path st))"
proof (cases "dict_get (rp_pending st) path")
  case None
  then show ?thesis using assms by (simp add: abort_one_def)
next
  case (Some pd)
  let ?f = "abort_partial (refused (pf_partial pd)) (pf_partial pd) (rp_fs st)"
  have m: "(path, pd) \<in> set (rp_pending st)" using dict_get_mem [OF Some] .
  have s: "fs_step d {pf_partial pd} (rp_fs st) ?f" for d by (rule abort_step)
  have "pf_partial (snd e) \<notin> {pf_partial pd}" if "e \<in> set (rp_pending st)" "fst e \<noteq> path" for e
    using push_invD(3) [OF assms] m that unfolding partials_apart_def by (metis fst_conv singletonD snd_conv)
  then have "push_inv rc base (abort_one refused path st)"
    by (intro push_inv_drop [OF assms Some s]) (simp_all add: abort_one_def Some)
  moreover have "is_relative_to (pf_partial pd) base"
    using push_invD(4) [OF assms m] temp_inside by (auto simp: pending_ok_def)
  then have "confined base (rp_fs st) ?f"
    by (auto simp: confined_def abort_partial_def)
  ultimately show ?thesis by (simp add: abort_one_def Some)
qed

lemma abort_fold_inv:
  "push_inv rc base st \<Longrightarrow>
   push_inv rc base (fold (abort_one refused) paths st) \<and> confined base (rp_fs st) (rp_fs (fold (abort_one refused) paths st))"
proof (induction paths arbitrary: st)
  case (Cons path paths)
  show ?case using Cons.IH abort_one_inv [OF Cons.prems, of refused path] confined_trans by fastforce
qed simp

lemma dict_pop_absent: "k \<notin> set (dict_keys d) \<Longrightarrow> dict_pop k d = d"
  by (induction d) auto

lemma abort_one_pending: "rp_pending (abort_one refused path st) = dict_pop path (rp_pending st)"
proof (cases "dict_get (rp_pending st) path")
  case None
  then have "dict_pop path (rp_pending st) = rp_pending st" by (intro dict_pop_absent) (simp add: dict_get_None)
  then show ?thesis using None by (simp add: abort_one_def)
qed (simp add: abort_one_def)

lemma abort_fold_pending: "rp_pending (fold (abort_one refused) paths st) = fold dict_pop paths (rp_pending st)"
  by (induction paths arbitrary: st) (simp_all add: abort_one_pending)

lemma fold_pop_all: "set (dict_keys d) \<subseteq> set ks \<Longrightarrow> fold dict_pop ks d = []"
proof (induction ks arbitrary: d)
  case (Cons k ks)
  have "set (dict_keys (dict_pop k d)) \<subseteq> set ks" using Cons.prems by (auto simp: keys_dict_pop)
  then show ?case using Cons.IH by simp
qed simp

lemma run_events_inv:
  assumes base: "rc_resolve rc (rc_sync_root rc) = Inr base" and "push_inv rc base st"
  shows "push_inv rc base (snd (run_events rc refused evs st)) \<and>
    confined base (rp_fs st) (rp_fs (snd (run_events rc refused evs st)))"
  using assms(2)
proof (induction evs arbitrary: st)
  case (Cons e evs)
  show ?case
  proof (cases e)
    case (Push ev i)
    obtain res st1 where h: "handle_push rc ev i st = (res, st1)" by (metis surj_pair)
    note H = handle_push_step [OF base Cons.prems h]
    have "run_events rc refused (e # evs) st = run_events rc refused evs st1 \<or> snd (run_events rc refused (e # evs) st) = st1"
      using h Push by (cases res) auto
    then show ?thesis using Cons.IH [of st1] H confined_trans by metis
  next
    case (Sweep now)
    note a = abort_fold_inv [OF Cons.prems]
    have "snd (run_events rc refused (e # evs) st) = snd (run_events rc refused evs (abort_expired rc now refused st))"
      using Sweep by simp
    then show ?thesis using Cons.IH [of "abort_expired rc now refused st"] a confined_trans unfolding abort_expired_def by metis
  qed
qed simp

section \<open>Which exceptions escape\<close>

text \<open>Chunks as their constructor makes them, and an offset the platform can seek to.\<close>

fun wf_event :: "push_event \<Rightarrow> bool" where
  "wf_event (Push ev i) = wf_chunk (in_chunk i)"
| "wf_event (Sweep now) = True"

fun metadata_error :: "metadata_fault \<Rightarrow> exn option" where
  "metadata_error MetadataOk = None"
| "metadata_error (GetFails e) = Some e"
| "metadata_error (SaveFails e effect) = Some e"

fun repository_error :: "push_event \<Rightarrow> exn option" where
  "repository_error (Push ev i) = metadata_error (ev_metadata ev)"
| "repository_error (Sweep now) = None"

lemma begin_partial_Inl: "begin_partial fault rnd d f = (Inl x, f') \<Longrightarrow> x = engine_err"
  by (auto simp: begin_partial_def Let_def split: prod.splits sum.splits if_splits option.splits node.splits begin_fault.splits)

lemma write_chunk_Inl:
  "write_chunk_at_offset fault d c f = (Inl x, f') \<Longrightarrow> cm_offset (ck_metadata c) < 2 ^ 63 \<Longrightarrow> x = engine_err"
  by (auto simp: write_chunk_at_offset_def Let_def split: prod.splits sum.splits if_splits write_fault.splits)

lemma handle_push_caught:
  assumes "\<forall>p e. rc_resolve rc p = Inl e \<longrightarrow> caught e" "pl_max_file_size (rc_limits rc) < 2 ^ 63" "wf_chunk (in_chunk i)"
    and "handle_push rc ev i st = (Inl e, st')"
  shows "caught e \<or> metadata_error (ev_metadata ev) = Some e"
proof -
  have engine: "caught engine_err" and rej: "caught rejected" by (simp_all add: caught_def engine_err_def rejected_def)
  have v: "validate_push rc i = Inl x \<Longrightarrow> x = rejected" for x
    by (auto simp: validate_push_def Let_def raise_if_eq_Inl split: option.splits)
  have off: "validate_push rc i = Inr () \<Longrightarrow> cm_offset (ck_metadata (in_chunk i)) < 2 ^ 63"
    using assms(2,3) by (auto simp: validate_push_def Let_def raise_if_eq_Inr wf_chunk_def wf_metadata_def)
  have res: "resolve_within (rc_resolve rc) (rc_sync_root rc) s = Inl x \<Longrightarrow> caught x" for s x
    using assms(1) resolve_within_eq_Inl [of "rc_resolve rc" "rc_sync_root rc" s x]
    by (auto simp: caught_def)
  have c: "commit_partial cr d p f = (Inl x, f') \<Longrightarrow> x = engine_err" for cr d p f x f'
    by (auto simp: commit_partial_def split: prod.splits sum.splits)
  have pf: "pending_for rc ev (in_path i) d st = (Inl x, s) \<Longrightarrow> caught x" for d x s
    using engine rej by (auto dest!: begin_partial_Inl simp: pending_for_def Let_def split: option.splits if_splits prod.splits sum.splits)
  have sc: "store_chunk ev i pd s0 = (Inl x, s) \<Longrightarrow> validate_push rc i = Inr () \<Longrightarrow> caught x" for pd s0 x s
    using engine off by (auto dest!: write_chunk_Inl simp: store_chunk_def Let_def split: prod.splits sum.splits)
  have fi: "finalize rc ev (in_path i) d pd s0 = (Inl x, s) \<Longrightarrow> caught x \<or> metadata_error (ev_metadata ev) = Some x" for d pd s0 x s
    using engine by (auto dest!: c simp: finalize_def Let_def split: prod.splits sum.splits metadata_fault.splits)
  show ?thesis
  proof (cases "rbind (resolve_within (rc_resolve rc) (rc_sync_root rc) (in_path i)) (\<lambda>d. rbind (validate_push rc i) (\<lambda>_. Inr d))")
    case (Inl x)
    then have "caught x" using res v rej by (auto simp: rbind_eq_Inl)
    with Inl assms(4) show ?thesis by (simp add: handle_push_def)
  next
    case (Inr d)
    then have ok: "validate_push rc i = Inr ()" by (auto simp: rbind_eq_Inr)
    show ?thesis
      using assms(4) Inr by (auto dest: pf sc [OF _ ok] fi simp: handle_push_def split: prod.splits sum.splits if_splits)
  qed
qed

section \<open>Chunks in any order rebuild the file\<close>

definition written :: "chunk list \<Rightarrow> bytes \<Rightarrow> bytes" where
  "written cs b = fold (\<lambda>c. write_at (nat (cm_offset (ck_metadata c))) (ck_data c)) cs b"

text \<open>The chunk carries the bytes of \<open>data\<close> at its offset.\<close>

definition chunk_of :: "bytes \<Rightarrow> chunk \<Rightarrow> bool" where
  "chunk_of data c \<longleftrightarrow> wf_chunk c \<and> nat (cm_offset (ck_metadata c)) + length (ck_data c) \<le> length data \<and>
     ck_data c = take (length (ck_data c)) (drop (nat (cm_offset (ck_metadata c))) data)"

definition covers :: "chunk list \<Rightarrow> nat \<Rightarrow> bool" where
  "covers cs n \<longleftrightarrow> (\<forall>i<n. list_ex (\<lambda>c. nat (cm_offset (ck_metadata c)) \<le> i \<and>
     i < nat (cm_offset (ck_metadata c)) + length (ck_data c)) cs)"

lemma written_snoc: "written (cs @ [c]) b = write_at (nat (cm_offset (ck_metadata c))) (ck_data c) (written cs b)"
  by (simp add: written_def)

lemma written_partial:
  assumes "list_all (chunk_of data) cs"
  shows "length (written cs old) \<le> max (length old) (length data) \<and> length old \<le> length (written cs old) \<and>
    (\<forall>i < length (written cs old). written cs old ! i =
      (if list_ex (\<lambda>c. nat (cm_offset (ck_metadata c)) \<le> i \<and> i < nat (cm_offset (ck_metadata c)) + length (ck_data c)) cs
       then data ! i else if i < length old then old ! i else 0)) \<and>
    (\<forall>i. list_ex (\<lambda>c. nat (cm_offset (ck_metadata c)) \<le> i \<and> i < nat (cm_offset (ck_metadata c)) + length (ck_data c)) cs \<longrightarrow>
      i < length (written cs old))"
  using assms
proof (induction cs rule: rev_induct)
  case Nil
  then show ?case by (simp add: written_def)
next
  case (snoc c cs)
  let ?o = "nat (cm_offset (ck_metadata c))"
  have c: "?o + length (ck_data c) \<le> length data" "ck_data c = take (length (ck_data c)) (drop ?o data)"
    using snoc.prems by (simp_all add: chunk_of_def)
  have nth: "ck_data c ! (i - ?o) = data ! i" if "?o \<le> i" "i < ?o + length (ck_data c)" for i
  proof -
    have "ck_data c ! (i - ?o) = take (length (ck_data c)) (drop ?o data) ! (i - ?o)" using c(2) by simp
    also have "\<dots> = data ! i" using that c(1) by (subst nth_take) simp_all
    finally show ?thesis .
  qed
  have IH: "length (written cs old) \<le> max (length old) (length data)" "length old \<le> length (written cs old)"
    "\<And>i. i < length (written cs old) \<Longrightarrow> written cs old ! i =
      (if list_ex (\<lambda>c. nat (cm_offset (ck_metadata c)) \<le> i \<and> i < nat (cm_offset (ck_metadata c)) + length (ck_data c)) cs
       then data ! i else if i < length old then old ! i else 0)"
    "\<And>i. list_ex (\<lambda>c. nat (cm_offset (ck_metadata c)) \<le> i \<and> i < nat (cm_offset (ck_metadata c)) + length (ck_data c)) cs \<Longrightarrow>
      i < length (written cs old)"
    using snoc by simp_all
  have len: "length (written (cs @ [c]) old) =
      (if ck_data c = [] then length (written cs old) else max (length (written cs old)) (?o + length (ck_data c)))"
    by (simp add: written_snoc length_write_at)
  have "written (cs @ [c]) old ! i =
      (if list_ex (\<lambda>c. nat (cm_offset (ck_metadata c)) \<le> i \<and> i < nat (cm_offset (ck_metadata c)) + length (ck_data c)) (cs @ [c])
       then data ! i else if i < length old then old ! i else 0)" if i: "i < length (written (cs @ [c]) old)" for i
  proof -
    have w: "written (cs @ [c]) old ! i = (if ?o \<le> i \<and> i < ?o + length (ck_data c) then ck_data c ! (i - ?o)
        else if i < length (written cs old) then written cs old ! i else 0)"
      using nth_write_at i unfolding written_snoc by blast
    show ?thesis
    proof (cases "?o \<le> i \<and> i < ?o + length (ck_data c)")
      case True
      then show ?thesis using w nth by simp
    next
      case False
      then show ?thesis using w IH(3) [of i] IH(2) IH(4) [of i] by auto
    qed
  qed
  moreover have "i < length (written (cs @ [c]) old)"
    if "list_ex (\<lambda>c. nat (cm_offset (ck_metadata c)) \<le> i \<and> i < nat (cm_offset (ck_metadata c)) + length (ck_data c)) (cs @ [c])" for i
    using that IH(4) [of i] len by auto
  ultimately show ?case using IH(1,2) len c(1) by auto
qed

lemma written_all:
  assumes "list_all (chunk_of data) cs" "covers cs (length data)"
  shows "written cs old = data @ drop (length data) old"
proof (rule nth_equalityI)
  note W = written_partial [OF assms(1), of old]
  have cov: "list_ex (\<lambda>c. nat (cm_offset (ck_metadata c)) \<le> i \<and> i < nat (cm_offset (ck_metadata c)) + length (ck_data c)) cs" if "i < length data" for i
    using assms(2) that by (simp add: covers_def)
  have "length data \<le> length (written cs old)"
  proof (cases "length data")
    case (Suc n)
    then show ?thesis using W cov [of n] by auto
  qed simp
  then show len: "length (written cs old) = length (data @ drop (length data) old)" using W by (auto simp: max_def split: if_splits)
  fix i assume i: "i < length (written cs old)"
  have out: "\<not> list_ex (\<lambda>c. nat (cm_offset (ck_metadata c)) \<le> i \<and> i < nat (cm_offset (ck_metadata c)) + length (ck_data c)) cs" if "length data \<le> i"
    using assms(1) that by (auto simp: list_ex_iff list_all_iff chunk_of_def)
  show "written cs old ! i = (data @ drop (length data) old) ! i"
  proof (cases "i < length data")
    case True
    then show ?thesis using W i cov [OF True] by (simp add: nth_append)
  next
    case False
    then show ?thesis using W i out len by (auto simp: nth_append)
  qed
qed

text \<open>Making directories a second time, and after a file beside them has changed, does nothing.\<close>

lemma mkdir_parents_again: "mkdir_parents dir f = Inr g \<Longrightarrow> mkdir_parents dir g = Inr g"
proof -
  assume a: "mkdir_parents dir f = Inr g"
  then have g: "g = (\<lambda>p. if f p = None \<and> on_the_way p dir then Some DirNode else f p)"
    and n: "\<not> list_ex (\<lambda>ps. is_file (f (PurePath (pp_root dir) ps))) (prefixes (pp_parts dir))"
    by (auto simp: mkdir_parents_def split: if_splits)
  have "is_file (g p) \<longleftrightarrow> is_file (f p)" for p by (simp add: g is_file_def)
  with n show ?thesis by (auto simp: mkdir_parents_def g)
qed

lemma mkdir_parents_upd:
  assumes "mkdir_parents dir f = Inr f" "\<not> on_the_way q dir"
  shows "mkdir_parents dir (f(q := x)) = Inr (f(q := x))"
proof -
  have same: "(f(q := x)) p = f p" if "on_the_way p dir" for p using that assms(2) by auto
  have "list_ex (\<lambda>ps. is_file ((f(q := x)) (PurePath (pp_root dir) ps))) (prefixes (pp_parts dir)) =
      list_ex (\<lambda>ps. is_file (f (PurePath (pp_root dir) ps))) (prefixes (pp_parts dir))"
    unfolding list_ex_iff using same by (auto simp: on_the_way_def)
  moreover have dirs: "f p \<noteq> None" if "on_the_way p dir" for p
    using assms(1) that by (auto simp: mkdir_parents_def split: if_splits dest: fun_cong [of _ _ p])
  moreover have "(\<lambda>p. if (f(q := x)) p = None \<and> on_the_way p dir then Some DirNode else (f(q := x)) p) = f(q := x)"
  proof
    fix p
    show "(if (f(q := x)) p = None \<and> on_the_way p dir then Some DirNode else (f(q := x)) p) = (f(q := x)) p"
      using dirs [of p] same [of p] by (cases "on_the_way p dir") simp_all
  qed
  ultimately show ?thesis using assms(1) unfolding mkdir_parents_def by (auto split: if_splits)
qed

text \<open>Neither the operating system nor the metadata repository fails.\<close>

definition calm :: "push_env \<Rightarrow> bool" where
  "calm ev \<longleftrightarrow> ev_begin ev = BeginOk \<and> ev_write ev = WriteOk \<and> \<not> ev_commit_refused ev \<and> ev_metadata ev = MetadataOk"

abbreviation index_of :: "incoming_push \<Rightarrow> int" where
  "index_of i \<equiv> cm_index (ck_metadata (in_chunk i))"

definition versions_of :: "incoming_push list \<Rightarrow> version_vector option" where
  "versions_of is = fold (\<lambda>i v. add_version v (in_version i)) is None"

text \<open>
  A file being received: \<open>f0\<close> is the file system without the partial file \<open>P\<close>, \<open>sofar\<close> the pushes stored.
\<close>

definition in_progress ::
  "pystr \<Rightarrow> pure_path \<Rightarrow> fs \<Rightarrow> bytes \<Rightarrow> metadata_store \<Rightarrow> incoming_push list \<Rightarrow> pending_file \<Rightarrow> push_state \<Rightarrow> bool" where
  "in_progress path P f0 old m0 sofar pd st \<longleftrightarrow>
     dict_get (rp_pending st) path = Some pd \<and> pf_partial pd = P \<and> set (pf_received pd) = index_of ` set sofar \<and>
     distinct (pf_received pd) \<and> pf_version pd = versions_of sofar \<and>
     rp_fs st = f0(P \<mapsto> FileNode (written (map in_chunk sofar) old)) \<and> rp_metadata st = m0"

definition good_push :: "receiver_config \<Rightarrow> pystr \<Rightarrow> bytes \<Rightarrow> int \<Rightarrow> push_env \<times> incoming_push \<Rightarrow> bool" where
  "good_push rc path data n p \<longleftrightarrow> calm (fst p) \<and> in_path (snd p) = path \<and> in_total (snd p) = n \<and>
     validate_push rc (snd p) = Inr () \<and> chunk_of data (in_chunk (snd p))"

lemma store_in_progress:
  assumes prog: "in_progress path P f0 old m0 sofar pd st" and good: "good_push rc path data n (ev, i)"
    and f0: "mkdir_parents (path_parent P) f0 = Inr f0" "pp_parts P \<noteq> []"
    and off: "cm_offset (ck_metadata (in_chunk i)) < 2 ^ 63"
  shows "\<exists>pd' st'. store_chunk ev i pd st = (Inr pd', st') \<and> in_progress path P f0 old m0 (sofar @ [i]) pd' st'"
proof -
  have mk: "mkdir_parents (path_parent P) (rp_fs st) = Inr (rp_fs st)"
    using mkdir_parents_upd [OF f0(1) on_the_way_parent [OF f0(2)]] prog by (simp add: in_progress_def)
  have w: "write_chunk_at_offset WriteOk P (in_chunk i) (rp_fs st) =
      (Inr (), f0(P \<mapsto> FileNode (written (map in_chunk (sofar @ [i])) old)))"
    using mk off prog by (simp add: write_chunk_at_offset_def in_progress_def file_bytes_def written_snoc)
  show ?thesis
    using w prog good
    by (auto simp: store_chunk_def Let_def good_push_def calm_def in_progress_def dict_set_twice distinct_insert
        versions_of_def)
qed

lemma finalize_in_progress:
  assumes prog: "in_progress path P f0 old m0 sofar pd st" and "calm ev" "P \<noteq> d" "f0 d \<noteq> Some DirNode"
  shows "\<exists>st'. finalize rc ev path d pd st = (Inr (), st') \<and> dict_get (rp_pending st') path = None \<and>
    rp_fs st' = f0(P := None, d \<mapsto> FileNode (written (map in_chunk sofar) old)) \<and>
    (\<exists>m. get_file_metadata (rp_metadata st') path = Some m \<and> \<not> fm_is_deleted m \<and>
       fm_version_vector m = final_version (rc_own_device_id rc) (get_file_metadata m0 path) (versions_of sofar))"
  using assms by (auto simp: finalize_def in_progress_def commit_partial_def os_replace_def calm_def Let_def
      get_file_metadata_def save_file_metadata_def)

lemma push_in_progress:
  assumes pf: "pending_for rc ev path d st = (Inr pd, st1)" and prog: "in_progress path P f0 old m0 sofar pd st1"
    and good: "good_push rc path data n (ev, i)" and d: "resolve_within (rc_resolve rc) (rc_sync_root rc) path = Inr d"
    and f0: "mkdir_parents (path_parent P) f0 = Inr f0" "pp_parts P \<noteq> []" "P \<noteq> d" "f0 d \<noteq> Some DirNode"
    and off: "cm_offset (ck_metadata (in_chunk i)) < 2 ^ 63"
    and new: "index_of i \<notin> index_of ` set sofar" "distinct (map index_of sofar)"
  shows "if int (Suc (length sofar)) \<ge> n
    then \<exists>st'. handle_push rc ev i st = (Inr (), st') \<and> dict_get (rp_pending st') path = None \<and>
      rp_fs st' = f0(P := None, d \<mapsto> FileNode (written (map in_chunk (sofar @ [i])) old)) \<and>
      (\<exists>m. get_file_metadata (rp_metadata st') path = Some m \<and> \<not> fm_is_deleted m \<and>
         fm_version_vector m = final_version (rc_own_device_id rc) (get_file_metadata m0 path) (versions_of (sofar @ [i])))
    else \<exists>st' pd'. handle_push rc ev i st = (Inr (), st') \<and> in_progress path P f0 old m0 (sofar @ [i]) pd' st'"
proof -
  obtain pd' st2 where s: "store_chunk ev i pd st1 = (Inr pd', st2)" "in_progress path P f0 old m0 (sofar @ [i]) pd' st2"
    using store_in_progress [OF prog good f0(1,2) off] by blast
  have "length (pf_received pd') = card (index_of ` set (sofar @ [i]))"
    using s(2) by (metis distinct_card in_progress_def)
  also have "\<dots> = length (map index_of (sofar @ [i]))"
    using new by (subst distinct_card [symmetric]) simp_all
  finally have len: "length (pf_received pd') = Suc (length sofar)" by simp
  have h: "handle_push rc ev i st = (if int (Suc (length sofar)) \<ge> n then finalize rc ev path d pd' st2 else (Inr (), st2))"
    using pf s(1) d good len by (simp add: handle_push_def good_push_def)
  show ?thesis
  proof (cases "int (Suc (length sofar)) \<ge> n")
    case True
    then show ?thesis
      using h finalize_in_progress [OF s(2) _ f0(3,4), of ev rc] good by (simp add: good_push_def)
  next
    case False
    then show ?thesis using h s(2) by auto
  qed
qed

lemma run_in_progress:
  assumes d: "resolve_within (rc_resolve rc) (rc_sync_root rc) path = Inr d"
    and f0: "mkdir_parents (path_parent P) f0 = Inr f0" "pp_parts P \<noteq> []" "P \<noteq> d" "f0 d \<noteq> Some DirNode"
  shows "in_progress path P f0 old m0 sofar pd st \<Longrightarrow> ps \<noteq> [] \<Longrightarrow> list_all (good_push rc path data n) ps \<Longrightarrow>
    n = int (length sofar + length ps) \<Longrightarrow> distinct (map index_of (sofar @ map snd ps)) \<Longrightarrow>
    list_all (\<lambda>p. cm_offset (ck_metadata (in_chunk (snd p))) < 2 ^ 63) ps \<Longrightarrow>
    \<exists>st'. run_events rc refused (map (\<lambda>(ev, i). Push ev i) ps) st = (Inr (), st') \<and> dict_get (rp_pending st') path = None \<and>
      rp_fs st' = f0(P := None, d \<mapsto> FileNode (written (map in_chunk (sofar @ map snd ps)) old)) \<and>
      (\<exists>m. get_file_metadata (rp_metadata st') path = Some m \<and> \<not> fm_is_deleted m \<and>
         fm_version_vector m = final_version (rc_own_device_id rc) (get_file_metadata m0 path) (versions_of (sofar @ map snd ps)))"
proof (induction ps arbitrary: sofar pd st)
  case (Cons p ps)
  obtain ev i where p: "p = (ev, i)" by (cases p)
  have pf: "pending_for rc ev path d st = (Inr pd, st)"
    using Cons.prems(1) by (simp add: in_progress_def pending_for_def)
  have new: "index_of i \<notin> index_of ` set sofar" "distinct (map index_of sofar)" using Cons.prems(5) p by auto
  have good: "good_push rc path data n (ev, i)" "cm_offset (ck_metadata (in_chunk i)) < 2 ^ 63"
    using Cons.prems(3,6) p by simp_all
  note step = push_in_progress [OF pf Cons.prems(1) good(1) d f0 good(2) new]
  show ?case
  proof (cases "ps = []")
    case True
    then have "int (Suc (length sofar)) \<ge> n" using Cons.prems(4) by simp
    with step show ?thesis using p True by (auto simp: fun_upd_def)
  next
    case False
    then have "\<not> int (Suc (length sofar)) \<ge> n" using Cons.prems(4) by (cases ps) simp_all
    with step obtain st' pd' where s: "handle_push rc ev i st = (Inr (), st')" "in_progress path P f0 old m0 (sofar @ [i]) pd' st'"
      by auto
    have "list_all (good_push rc path data n) ps" "n = int (length (sofar @ [i]) + length ps)"
      "distinct (map index_of ((sofar @ [i]) @ map snd ps))" "list_all (\<lambda>p. cm_offset (ck_metadata (in_chunk (snd p))) < 2 ^ 63) ps"
      using Cons.prems p by simp_all
    from Cons.IH [OF s(2) False this] show ?thesis using s(1) p by simp
  qed
qed simp

text \<open>The first push of a file begins its partial file.\<close>

lemma begin_in_progress:
  assumes "pp_parts d \<noteq> []" "dict_get (rp_pending st) path = None"
    "int (length (rp_pending st)) < pl_max_pending_files (rc_limits rc)" "mkdir_parents (path_parent d) (rp_fs st) = Inr f0"
    "rp_fs st d \<noteq> Some DirNode" "f0 (temp_path d (ev_rnd ev)) = None" "calm ev"
  obtains pd st1 where "pending_for rc ev path d st = (Inr pd, st1)"
    "in_progress path (temp_path d (ev_rnd ev)) f0 (file_bytes (rp_fs st d)) (rp_metadata st) [] pd st1"
    "mkdir_parents (path_parent (temp_path d (ev_rnd ev))) f0 = Inr f0" "pp_parts (temp_path d (ev_rnd ev)) \<noteq> []"
    "temp_path d (ev_rnd ev) \<noteq> d" "f0 d \<noteq> Some DirNode"
proof -
  let ?P = "temp_path d (ev_rnd ev)" and ?old = "file_bytes (rp_fs st d)"
  have f0d: "f0 d = rp_fs st d" by (rule mkdir_parents_here [OF assms(4,1)])
  have P: "mkdir_parents (path_parent ?P) f0 = Inr f0" "pp_parts ?P \<noteq> []" "?P \<noteq> d" "f0 d \<noteq> Some DirNode"
    using mkdir_parents_again [OF assms(4)] temp_path_neq f0d assms(5) by (simp_all) (simp add: temp_path_def sibling_def)
  let ?pd = "\<lparr>pf_partial = ?P, pf_received = [], pf_version = None, pf_last_activity = ev_now ev\<rparr>"
  let ?st1 = "st\<lparr>rp_fs := f0(?P \<mapsto> FileNode ?old), rp_pending := dict_set path ?pd (rp_pending st)\<rparr>"
  have "begin_partial BeginOk (ev_rnd ev) d (rp_fs st) = (Inr ?P, f0(?P \<mapsto> FileNode ?old))"
    using assms P(3) f0d by (auto simp: begin_partial_def Let_def file_bytes_def split: option.splits node.splits)
  then have "pending_for rc ev path d st = (Inr ?pd, ?st1)"
    using assms by (simp add: pending_for_def calm_def Let_def)
  moreover have "in_progress path ?P f0 ?old (rp_metadata st) [] ?pd ?st1"
    by (simp add: in_progress_def written_def versions_of_def)
  ultimately show thesis using that P by blast
qed

text \<open>All chunks of a file, in any order.\<close>

lemma pushes_rebuild:
  assumes d: "resolve_within (rc_resolve rc) (rc_sync_root rc) path = Inr d" "pp_parts d \<noteq> []"
    and idle: "dict_get (rp_pending st) path = None" "int (length (rp_pending st)) < pl_max_pending_files (rc_limits rc)"
    and disk: "mkdir_parents (path_parent d) (rp_fs st) = Inr f0" "rp_fs st d \<noteq> Some DirNode"
      "f0 (temp_path d (ev_rnd (fst (hd ps)))) = None"
    and ps: "ps \<noteq> []" "list_all (good_push rc path data (int (length ps))) ps" "distinct (map (\<lambda>p. index_of (snd p)) ps)"
      "list_all (\<lambda>p. cm_offset (ck_metadata (in_chunk (snd p))) < 2 ^ 63) ps" "covers (map (\<lambda>p. in_chunk (snd p)) ps) (length data)"
  shows "\<exists>st' m. run_events rc refused (map (\<lambda>(ev, i). Push ev i) ps) st = (Inr (), st') \<and>
    rp_fs st' = f0(d \<mapsto> FileNode (data @ drop (length data) (file_bytes (rp_fs st d)))) \<and>
    dict_get (rp_pending st') path = None \<and> get_file_metadata (rp_metadata st') path = Some m \<and>
    fm_version_vector m = final_version (rc_own_device_id rc) (get_file_metadata (rp_metadata st) path) (versions_of (map snd ps))"
proof -
  obtain ev i rest where hd: "ps = (ev, i) # rest" using ps(1) by (metis list.exhaust surj_pair)
  let ?P = "temp_path d (ev_rnd ev)" and ?old = "file_bytes (rp_fs st d)"
  have good: "good_push rc path data (int (length ps)) (ev, i)" and off: "cm_offset (ck_metadata (in_chunk i)) < 2 ^ 63"
    using ps(2,4) hd by simp_all
  have calm: "calm ev" and new: "f0 ?P = None" using good disk(3) hd by (simp_all add: good_push_def)
  obtain pd st1 where pf: "pending_for rc ev path d st = (Inr pd, st1)"
    and prog: "in_progress path ?P f0 ?old (rp_metadata st) [] pd st1"
    and P: "mkdir_parents (path_parent ?P) f0 = Inr f0" "pp_parts ?P \<noteq> []" "?P \<noteq> d" "f0 d \<noteq> Some DirNode"
    by (rule begin_in_progress [OF d(2) idle disk(1,2) new calm])
  have all: "written (map in_chunk (map snd ps)) ?old = data @ drop (length data) ?old"
    using written_all [of data "map in_chunk (map snd ps)" ?old] ps(2,5)
    by (simp add: list_all_iff good_push_def comp_def)
  have clean: "f0(?P := None, d \<mapsto> x) = f0(d \<mapsto> x)" for x using disk(3) hd by (auto simp: fun_eq_iff)
  note step = push_in_progress [OF pf prog good d(1) P off]
  show ?thesis
  proof (cases "rest = []")
    case True
    then show ?thesis using step hd all clean by auto
  next
    case False
    then have "\<not> int (Suc (length [])) \<ge> int (length ps)" using hd by simp
    with step obtain st' pd' where s: "handle_push rc ev i st = (Inr (), st')" "in_progress path ?P f0 ?old (rp_metadata st) [i] pd' st'"
      by auto
    have "list_all (good_push rc path data (int (length ps))) rest" "int (length ps) = int (length [i] + length rest)"
      "distinct (map index_of ([i] @ map snd rest))" "list_all (\<lambda>p. cm_offset (ck_metadata (in_chunk (snd p))) < 2 ^ 63) rest"
      using ps hd by (simp_all add: comp_def)
    from run_in_progress [OF d(1) P s(2) False this, of refused] show ?thesis
      using s(1) hd all clean by auto
  qed
qed

text \<open>Fewer pushes than announced only fill the partial file.\<close>

lemma run_unfinished:
  assumes d: "resolve_within (rc_resolve rc) (rc_sync_root rc) path = Inr d"
    and f0: "mkdir_parents (path_parent P) f0 = Inr f0" "pp_parts P \<noteq> []" "P \<noteq> d" "f0 d \<noteq> Some DirNode"
  shows "in_progress path P f0 old m0 sofar pd st \<Longrightarrow> list_all (good_push rc path data n) ps \<Longrightarrow>
    int (length sofar + length ps) < n \<Longrightarrow> distinct (map index_of (sofar @ map snd ps)) \<Longrightarrow>
    list_all (\<lambda>p. cm_offset (ck_metadata (in_chunk (snd p))) < 2 ^ 63) ps \<Longrightarrow>
    \<exists>st' pd'. run_events rc refused (map (\<lambda>(ev, i). Push ev i) ps) st = (Inr (), st') \<and>
      in_progress path P f0 old m0 (sofar @ map snd ps) pd' st'"
proof (induction ps arbitrary: sofar pd st)
  case (Cons p ps)
  obtain ev i where p: "p = (ev, i)" by (cases p)
  have pf: "pending_for rc ev path d st = (Inr pd, st)"
    using Cons.prems(1) by (simp add: in_progress_def pending_for_def)
  have new: "index_of i \<notin> index_of ` set sofar" "distinct (map index_of sofar)" using Cons.prems(4) p by auto
  have good: "good_push rc path data n (ev, i)" "cm_offset (ck_metadata (in_chunk i)) < 2 ^ 63"
    using Cons.prems(2,5) p by simp_all
  obtain st' pd' where s: "handle_push rc ev i st = (Inr (), st')" "in_progress path P f0 old m0 (sofar @ [i]) pd' st'"
    using push_in_progress [OF pf Cons.prems(1) good(1) d f0 good(2) new] Cons.prems(3) by auto
  have "list_all (good_push rc path data n) ps" "int (length (sofar @ [i]) + length ps) < n"
    "distinct (map index_of ((sofar @ [i]) @ map snd ps))" "list_all (\<lambda>p. cm_offset (ck_metadata (in_chunk (snd p))) < 2 ^ 63) ps"
    using Cons.prems p by simp_all
  from Cons.IH [OF s(2) this] show ?case using s(1) p by simp
qed auto

lemma pushes_unfinished:
  assumes d: "resolve_within (rc_resolve rc) (rc_sync_root rc) path = Inr d" "pp_parts d \<noteq> []"
    and idle: "dict_get (rp_pending st) path = None" "int (length (rp_pending st)) < pl_max_pending_files (rc_limits rc)"
    and disk: "mkdir_parents (path_parent d) (rp_fs st) = Inr f0" "rp_fs st d \<noteq> Some DirNode"
      "f0 (temp_path d (ev_rnd (fst (hd ps)))) = None"
    and ps: "ps \<noteq> []" "int (length ps) < n" "list_all (good_push rc path data n) ps" "distinct (map (\<lambda>p. index_of (snd p)) ps)"
      "list_all (\<lambda>p. cm_offset (ck_metadata (in_chunk (snd p))) < 2 ^ 63) ps"
  shows "\<exists>st' pd. run_events rc refused (map (\<lambda>(ev, i). Push ev i) ps) st = (Inr (), st') \<and>
    rp_fs st' d = rp_fs st d \<and> dict_get (rp_pending st') path = Some pd"
proof -
  obtain ev i rest where hd: "ps = (ev, i) # rest" using ps(1) by (metis list.exhaust surj_pair)
  let ?P = "temp_path d (ev_rnd ev)"
  have good: "good_push rc path data n (ev, i)" and off: "cm_offset (ck_metadata (in_chunk i)) < 2 ^ 63"
    using ps(3,5) hd by simp_all
  have calm: "calm ev" and new: "f0 ?P = None" using good disk(3) hd by (simp_all add: good_push_def)
  obtain pd st1 where pf: "pending_for rc ev path d st = (Inr pd, st1)"
    and prog: "in_progress path ?P f0 (file_bytes (rp_fs st d)) (rp_metadata st) [] pd st1"
    and P: "mkdir_parents (path_parent ?P) f0 = Inr f0" "pp_parts ?P \<noteq> []" "?P \<noteq> d" "f0 d \<noteq> Some DirNode"
    by (rule begin_in_progress [OF d(2) idle disk(1,2) new calm])
  obtain st2 pd2 where s: "handle_push rc ev i st = (Inr (), st2)"
      "in_progress path ?P f0 (file_bytes (rp_fs st d)) (rp_metadata st) [i] pd2 st2"
    using push_in_progress [OF pf prog good d(1) P off] ps(2) hd by auto
  have "list_all (good_push rc path data n) rest" "int (length [i] + length rest) < n" "distinct (map index_of ([i] @ map snd rest))"
    "list_all (\<lambda>p. cm_offset (ck_metadata (in_chunk (snd p))) < 2 ^ 63) rest"
    using ps hd by (simp_all add: comp_def)
  from run_unfinished [OF d(1) P s(2) this, of refused]
  show ?thesis using s(1) hd P(3) mkdir_parents_here [OF disk(1) d(2)] by (auto simp: in_progress_def)
qed

section \<open>Properties\<close>

text \<open>
  C9: Pushed files stay inside the sync root. Over any run of pushes and sweeps, whatever paths, chunks and
  totals the peers send and wherever the operating system fails, a path outside the resolved root is as it
  was before, except for temporary files beside the root; the root and the directories leading to it
  are still directories, at no moment are more than the configured number of files pending, and when the
  receiver stops none is.
\<close>

theorem pushes_confined:
  assumes "rc_resolve rc (rc_sync_root rc) = Inr base" and "push_inv rc base st"
    and "run_forever rc refused evs st = (r, st')"
  shows "(rp_fs st' p = rp_fs st p \<or> is_relative_to p base \<or> (\<exists>rnd. p = temp_path base rnd)) \<and>
    root_ready (rp_fs st') base \<and> rp_pending st' = [] \<and>
    int (length (rp_pending (snd (run_events rc refused evs st)))) \<le> max 0 (pl_max_pending_files (rc_limits rc))"
proof -
  obtain st1 where st1: "run_events rc refused evs st = (r, st1)" "st' = abort_all refused st1"
    using assms(3) by (cases "run_events rc refused evs st") (auto simp: run_forever_def)
  have R: "push_inv rc base st1" "confined base (rp_fs st) (rp_fs st1)"
    using run_events_inv [OF assms(1,2), of refused evs] st1(1) by simp_all
  note A = abort_fold_inv [OF R(1), of refused "dict_keys (rp_pending st1)"]
  have "rp_pending st' = []"
    unfolding st1(2) abort_all_def abort_fold_pending by (rule fold_pop_all) simp
  moreover have "confined base (rp_fs st) (rp_fs st')" "root_ready (rp_fs st') base"
    using A R(2) confined_trans push_invD(2) unfolding st1(2) abort_all_def by blast+
  ultimately show ?thesis
    using push_invD(5) [OF R(1)] st1(1) unfolding confined_def by auto
qed

text \<open>
  C10: A push never leaves a half-written destination. This is in any state that keeps the receiver's invariant, which the empty
  state has and every event keeps, and for a sync root that resolves. A push that is refused (unsafe path, limits, a missing or wrong hash)
  changes nothing at all. Otherwise only the partial file beside the destination, directories leading to it and the
  destination may change; and the destination, whether or not it existed before, changes only by a completed push: as
  many different chunk indices as announced have been counted, it then holds exactly what the partial file held with this
  chunk written into it, and the path is no longer pending. The push then returns with the version recorded if
  the metadata repository answers, and raises the repository's exception if that fails, with the file already
  in place. Without completion the metadata store is as before.
\<close>

theorem push_destination_atomic:
  assumes "rc_resolve rc (rc_sync_root rc) = Inr base" and "push_inv rc base st" and "handle_push rc ev i st = (res, st')"
  shows "(st' = st \<and> (\<exists>e. res = Inl e)) \<or>
    (\<exists>d rnd. resolve_within (rc_resolve rc) (rc_sync_root rc) (in_path i) = Inr d \<and> validate_push rc i = Inr () \<and>
       (\<forall>p. p = temp_path d rnd \<or> p = d \<or> rp_fs st' p = rp_fs st p \<or>
          (rp_fs st p = None \<and> rp_fs st' p = Some DirNode \<and> on_the_way p (path_parent d))) \<and>
       (rp_fs st' d = rp_fs st d \<and> rp_metadata st' = rp_metadata st \<or> completed_push rc ev i d st res st'))"
proof -
  have others: "\<forall>p. p = P \<or> p = d \<or> g p = f p \<or> (f p = None \<and> g p = Some DirNode \<and> on_the_way p (path_parent d))"
    if "fs_step (path_parent d) {P, d} f g" for P d f g
    using that unfolding fs_step_def by blast
  have weak: "fs_step (path_parent d) {P} f g \<Longrightarrow> fs_step (path_parent d) {P, d} f g" for P d f g
    by (erule fs_step_mono) blast
  have keeps: "rp_fs st' d = rp_fs st d"
    if "fs_step (path_parent d) {temp_path d rnd} (rp_fs st) (rp_fs st')" "resolve_within (rc_resolve rc) (rc_sync_root rc) (in_path i) = Inr d" for d rnd
    using step_keeps_destination [OF that(1) resolved_inside [OF that(2) assms(1)] push_invD(2) [OF assms(2)]] .
  from handle_push_step [OF assms] show ?thesis
  proof (elim conjE disjE exE)
    fix d rnd
    assume d: "resolve_within (rc_resolve rc) (rc_sync_root rc) (in_path i) = Inr d" "validate_push rc i = Inr ()"
      and s: "fs_step (path_parent d) {temp_path d rnd} (rp_fs st) (rp_fs st')" "rp_metadata st' = rp_metadata st"
    show ?thesis using d s(2) keeps [OF s(1) d(1)] others [OF weak [OF s(1)]] by blast
  next
    fix d rnd
    assume d: "resolve_within (rc_resolve rc) (rc_sync_root rc) (in_path i) = Inr d" "validate_push rc i = Inr ()"
      and s: "fs_step (path_parent d) {temp_path d rnd, d} (rp_fs st) (rp_fs st')" "completed_push rc ev i d st res st'"
    show ?thesis using d s(2) others [OF s(1)] by blast
  qed blast
qed


text \<open>
  C11: Chunks in any order rebuild the file. When chunks that cover a file arrive, each announcing their
  number, with different indices and offsets below \<open>2 ^ 63\<close>, in any order and over any existing file, then the last one commits: the
  destination holds the pushed bytes, followed by whatever the old file had beyond their length; the partial file
  is gone, the path is not pending, and the stored version is the merge of the received versions with the
  recorded one. This is for a quiet receiver: neither the operating system nor the metadata repository fails during these
  pushes (\<open>calm\<close>), every push passes the checks of hash and limits, the path is not pending yet and fewer than the limit of
  files are, no file stands where a directory must be made, the destination is not a directory, and the temporary name
  drawn is not in use. Pushes of other files and sweeps do not come in between. (The destination is not the root of the file system.)
\<close>

theorem push_reconstructs:
  assumes d: "resolve_within (rc_resolve rc) (rc_sync_root rc) path = Inr d" "pp_parts d \<noteq> []"
    and idle: "dict_get (rp_pending st) path = None" "int (length (rp_pending st)) < pl_max_pending_files (rc_limits rc)"
    and disk: "mkdir_parents (path_parent d) (rp_fs st) = Inr f0" "rp_fs st d \<noteq> Some DirNode"
      "f0 (temp_path d (ev_rnd (fst (hd ps)))) = None"
    and ps: "ps \<noteq> []" "list_all (good_push rc path data (int (length ps))) ps" "distinct (map (\<lambda>p. index_of (snd p)) ps)"
      "list_all (\<lambda>p. cm_offset (ck_metadata (in_chunk (snd p))) < 2 ^ 63) ps" "covers (map (\<lambda>p. in_chunk (snd p)) ps) (length data)"
  shows "\<exists>st' m. run_events rc refused (map (\<lambda>(ev, i). Push ev i) ps) st = (Inr (), st') \<and>
    rp_fs st' = f0(d \<mapsto> FileNode (data @ drop (length data) (file_bytes (rp_fs st d)))) \<and>
    dict_get (rp_pending st') path = None \<and> get_file_metadata (rp_metadata st') path = Some m \<and>
    fm_version_vector m = final_version (rc_own_device_id rc) (get_file_metadata (rp_metadata st) path) (versions_of (map snd ps))"
  using assms by (rule pushes_rebuild)

text \<open>A concrete receiver for \<^verbatim>\<open>/s\<close>, and a push of one chunk to \<^verbatim>\<open>f\<close>.\<close>

definition sample_root :: pure_path where "sample_root = PurePath 1 [codes ''s'']"

definition sample_receiver :: receiver_config where
  "sample_receiver = \<lparr>rc_resolve = Inr, rc_hash = (\<lambda>b. \<lparr>algorithm = SHA256, digest = replicate 64 48\<rparr>),
     rc_sync_root = sample_root, rc_own_device_id = codes ''me'', rc_limits = default_limits\<rparr>"

definition sample_disk :: fs where
  "sample_disk p = (if p = PurePath 1 [] \<or> p = sample_root then Some DirNode else None)"

definition sample_state :: push_state where
  "sample_state = \<lparr>rp_pending = [], rp_fs = sample_disk, rp_metadata = []\<rparr>"

definition sample_env :: push_env where
  "sample_env = \<lparr>ev_now = 0, ev_rnd = codes ''x'', ev_begin = BeginOk, ev_write = WriteOk, ev_commit_refused = False,
     ev_metadata = MetadataOk, ev_modified = 0\<rparr>"

definition sample_push :: "pystr \<Rightarrow> incoming_push" where
  "sample_push path = \<lparr>in_path = path, in_total = 1,
     in_chunk = \<lparr>ck_metadata = \<lparr>chunk_id = codes ''c'', cm_index = 0, cm_size = 2, cm_offset = 0,
         cm_hash = Some \<lparr>algorithm = SHA256, digest = replicate 64 48\<rparr>, created_at = 0\<rparr>, ck_data = [7, 8]\<rparr>,
     in_version = None\<rparr>"

lemma sample_receiver_base: "rc_resolve sample_receiver (rc_sync_root sample_receiver) = Inr sample_root"
  by (simp add: sample_receiver_def)

lemma sample_state_inv: "push_inv sample_receiver sample_root sample_state"
proof -
  have "sample_disk p = Some DirNode" if "on_the_way p sample_root" for p
  proof -
    have "pp_parts p = [] \<or> pp_parts p = [codes ''s'']" "pp_root p = 1"
      using that by (auto simp: on_the_way_def sample_root_def prefix_Cons)
    then show ?thesis by (cases p) (auto simp: sample_disk_def sample_root_def)
  qed
  then show ?thesis by (simp add: push_inv_def sample_state_def root_ready_def)
qed

lemma sample_push_valid: "validate_push sample_receiver (sample_push path) = Inr ()"
  by (simp add: validate_push_def sample_receiver_def sample_push_def default_limits_def)

abbreviation sample_dest :: pure_path where
  "sample_dest \<equiv> PurePath 1 [codes ''s'', codes ''f'']"

lemma sample_join: "path_join sample_root (codes ''f'') = sample_dest"
  by (simp add: path_join_def PurePosixPath_def posix_root_def is_absolute_def sample_root_def codes_def)

lemma sample_resolve: "resolve_within (rc_resolve sample_receiver) (rc_sync_root sample_receiver) (codes ''f'') = Inr sample_dest"
  using sample_join
  by (simp_all add: resolve_within_eq_Inr sample_receiver_def is_relative_to_def)
    (simp_all add: reject_unsafe_spelling_iff nt_drive_def nt_splitroot_def replace_char_def codes_def sample_root_def)

lemma sample_idle:
  "dict_get (rp_pending sample_state) (codes ''f'') = None"
  "int (length (rp_pending sample_state)) < pl_max_pending_files (rc_limits sample_receiver)"
  by (simp_all add: sample_state_def sample_receiver_def default_limits_def)

lemma sample_mkdir: "mkdir_parents (path_parent sample_dest) (rp_fs sample_state) = Inr sample_disk"
proof -
  have par: "path_parent sample_dest = sample_root" by (simp add: path_parent_def sample_root_def)
  have ready: "root_ready sample_disk sample_root" using push_invD(2) [OF sample_state_inv] by (simp add: sample_state_def)
  then have "(\<lambda>p. if sample_disk p = None \<and> on_the_way p sample_root then Some DirNode else sample_disk p) = sample_disk"
    by (auto simp: root_ready_def fun_eq_iff)
  moreover have "\<not> is_file (sample_disk p)" for p by (simp add: sample_disk_def is_file_def)
  ultimately show ?thesis unfolding par by (simp add: mkdir_parents_def sample_state_def list_ex_iff)
qed

lemma sample_free: "rp_fs sample_state sample_dest = None" "sample_disk (temp_path sample_dest rnd) = None"
  by (simp_all add: sample_state_def sample_disk_def sample_root_def temp_path_def sibling_def)

theorem pushes_confined_witness:
  "\<exists>r st'. run_forever sample_receiver (\<lambda>_. False) [Push sample_env (sample_push (codes ''f''))] sample_state = (r, st') \<and>
     rp_pending st' = [] \<and> root_ready (rp_fs st') sample_root"
proof -
  obtain r st' where r: "run_forever sample_receiver (\<lambda>_. False) [Push sample_env (sample_push (codes ''f''))] sample_state = (r, st')"
    by (metis surj_pair)
  from pushes_confined [OF sample_receiver_base sample_state_inv r] r show ?thesis by blast
qed

text \<open>A receiver that already has the file; of the two chunks announced only one has arrived.\<close>

definition sample_older :: push_state where
  "sample_older = sample_state\<lparr>rp_fs := sample_disk(sample_dest \<mapsto> FileNode [1, 2, 3])\<rparr>"

lemma sample_older_inv: "push_inv sample_receiver sample_root sample_older"
proof -
  have ready: "root_ready sample_disk sample_root" using push_invD(2) [OF sample_state_inv] by (simp add: sample_state_def)
  have "\<not> on_the_way sample_dest sample_root" by (simp add: on_the_way_def sample_root_def)
  then have "root_ready (sample_disk(sample_dest \<mapsto> FileNode [1, 2, 3])) sample_root" using ready by (auto simp: root_ready_def)
  then show ?thesis by (simp add: push_inv_def sample_older_def sample_state_def)
qed

theorem push_destination_atomic_witness:
  "\<forall>ev. \<exists>res st'. handle_push sample_receiver ev (sample_push (codes ''f'')\<lparr>in_total := 2\<rparr>) sample_older = (res, st') \<and>
     rp_fs st' sample_dest = Some (FileNode [1, 2, 3]) \<and> rp_metadata st' = []"
proof
  fix ev
  let ?i = "sample_push (codes ''f'')\<lparr>in_total := 2\<rparr>"
  obtain res st' where r: "handle_push sample_receiver ev ?i sample_older = (res, st')"
    by (metis surj_pair)
  have "\<not> completed_push sample_receiver ev ?i d sample_older res st'" for d
    by (simp add: completed_push_def received_so_far_def sample_older_def sample_state_def sample_push_def)
  moreover have "rp_fs sample_older sample_dest = Some (FileNode [1, 2, 3])" "rp_metadata sample_older = []"
    by (simp_all add: sample_older_def sample_state_def)
  moreover have "resolve_within (rc_resolve sample_receiver) (rc_sync_root sample_receiver) (in_path ?i) = Inr sample_dest"
    using sample_resolve by (simp add: sample_push_def)
  ultimately have "rp_fs st' sample_dest = Some (FileNode [1, 2, 3]) \<and> rp_metadata st' = []"
    using push_destination_atomic [OF sample_receiver_base sample_older_inv r] by auto
  with r show "\<exists>res st'. handle_push sample_receiver ev ?i sample_older = (res, st') \<and>
      rp_fs st' sample_dest = Some (FileNode [1, 2, 3]) \<and> rp_metadata st' = []" by blast
qed


text \<open>
  The repository of the program raises \<^verbatim>\<open>sqlite3.OperationalError\<close> when the database is locked, which
  \<^verbatim>\<open>run_forever\<close> does not log: the loop ends, with the pushed file in place and no version recorded for it.
\<close>

lemma locked_database_ends_receiver:
  "\<exists>st'. run_forever sample_receiver (\<lambda>_. False)
      (Push (sample_env\<lparr>ev_metadata := GetFails (Py OperationalError)\<rparr>) (sample_push (codes ''f'')) # evs) sample_state
      = (Inl (Py OperationalError), st') \<and>
    rp_fs st' sample_dest = Some (FileNode [7, 8]) \<and> rp_metadata st' = []"
proof -
  let ?ev = "sample_env\<lparr>ev_metadata := GetFails (Py OperationalError)\<rparr>" and ?i = "sample_push (codes ''f'')"
  let ?P = "temp_path sample_dest (codes ''x'')"
  let ?pd = "\<lparr>pf_partial = ?P, pf_received = [], pf_version = None, pf_last_activity = 0\<rparr>"
  have P: "?P \<noteq> sample_dest" "path_parent ?P = path_parent sample_dest" using temp_path_neq by simp_all
  have mk: "mkdir_parents (path_parent sample_dest) sample_disk = Inr sample_disk"
    using sample_mkdir by (simp add: sample_state_def)
  have free: "sample_disk sample_dest = None" "sample_disk ?P = None" using sample_free by (simp_all add: sample_state_def)
  have mk': "mkdir_parents (path_parent sample_dest) (sample_disk(?P \<mapsto> x)) = Inr (sample_disk(?P \<mapsto> x))" for x
    using mkdir_parents_upd [OF mk, of ?P] on_the_way_parent [of ?P] P(2) by (simp add: temp_path_def sibling_def)
  have b: "begin_partial BeginOk (codes ''x'') sample_dest sample_disk = (Inr ?P, sample_disk(?P \<mapsto> FileNode []))"
    using mk free P(1) by (simp add: begin_partial_def Let_def)
  have pf: "pending_for sample_receiver ?ev (codes ''f'') sample_dest sample_state =
      (Inr ?pd, sample_state\<lparr>rp_fs := sample_disk(?P \<mapsto> FileNode []), rp_pending := [(codes ''f'', ?pd)]\<rparr>)"
    using b by (simp add: pending_for_def sample_state_def sample_receiver_def default_limits_def sample_env_def Let_def)
  have w: "write_chunk_at_offset WriteOk ?P (in_chunk ?i) (sample_disk(?P \<mapsto> FileNode [])) = (Inr (), sample_disk(?P \<mapsto> FileNode [7, 8]))"
    using mk' P(2) by (simp add: write_chunk_at_offset_def Let_def file_bytes_def sample_push_def write_at_def)
  have "\<exists>st'. handle_push sample_receiver ?ev ?i sample_state = (Inl (Py OperationalError), st') \<and> rp_pending st' = [] \<and>
      rp_fs st' sample_dest = Some (FileNode [7, 8]) \<and> rp_metadata st' = []"
    using sample_resolve sample_push_valid [of "codes ''f''"] pf w P(1) free
    by (simp add: handle_push_def store_chunk_def Let_def sample_env_def sample_state_def finalize_def commit_partial_def os_replace_def sample_push_def)
  then show ?thesis by (auto simp: run_forever_def caught_def abort_all_def)
qed

theorem push_reconstructs_witness:
  "\<exists>st'. run_events sample_receiver (\<lambda>_. False) [Push sample_env (sample_push (codes ''f''))] sample_state = (Inr (), st') \<and>
     rp_fs st' (PurePath 1 [codes ''s'', codes ''f'']) = Some (FileNode [7, 8])"
proof -
  let ?ps = "[(sample_env, sample_push (codes ''f''))]"
  have "good_push sample_receiver (codes ''f'') [7, 8] (int (length ?ps)) (sample_env, sample_push (codes ''f''))"
    using sample_push_valid by (simp add: good_push_def calm_def sample_env_def sample_push_def chunk_of_def wf_chunk_def wf_metadata_def codes_def)
  then have ps: "?ps \<noteq> []" "list_all (good_push sample_receiver (codes ''f'') [7, 8] (int (length ?ps))) ?ps"
    "distinct (map (\<lambda>p. index_of (snd p)) ?ps)" "list_all (\<lambda>p. cm_offset (ck_metadata (in_chunk (snd p))) < 2 ^ 63) ?ps"
    "covers (map (\<lambda>p. in_chunk (snd p)) ?ps) (length [7 :: byte, 8])"
    by (simp_all add: sample_push_def covers_def)
  have "rp_fs sample_state sample_dest \<noteq> Some DirNode" "pp_parts sample_dest \<noteq> []" using sample_free(1) by simp_all
  then obtain st' where st': "run_events sample_receiver (\<lambda>_. False) (map (\<lambda>(ev, i). Push ev i) ?ps) sample_state = (Inr (), st')"
      "rp_fs st' = sample_disk(sample_dest \<mapsto> FileNode ([7, 8] @ drop (length [7 :: byte, 8]) (file_bytes (rp_fs sample_state sample_dest))))"
    using push_reconstructs [OF sample_resolve _ sample_idle sample_mkdir _ sample_free(2) ps, of "\<lambda>_. False"] by blast
  then show ?thesis
    by (intro exI [of _ st']) (use st' sample_free in \<open>simp add: file_bytes_def del: run_events.simps\<close>)
qed

text \<open>
  A push to the sync root itself (the path \<^verbatim>\<open>"."\<close>, which passes every check of \<^verbatim>\<open>resolve_within\<close>)
  leaves a file outside the root: the temporary file is made beside the root, copying the directory fails, the push
  is refused and the temporary file stays, without being counted as pending.
\<close>

theorem push_to_root_leaves_file_outside:
  assumes "rc_resolve rc (rc_sync_root rc) = Inr base" "rc_resolve rc base = Inr base" "pp_parts base \<noteq> []"
    and inv: "push_inv rc base st" and valid: "validate_push rc i = Inr ()" "in_path i = dot"
    and room: "dict_get (rp_pending st) dot = None" "int (length (rp_pending st)) < pl_max_pending_files (rc_limits rc)"
    and env: "ev_begin ev = BeginOk" "rp_fs st (temp_path base (ev_rnd ev)) = None"
  shows "\<exists>st'. handle_push rc ev i st = (Inl (Sync ChunkEngineError), st') \<and> rp_pending st' = rp_pending st \<and>
    rp_fs st' (temp_path base (ev_rnd ev)) = Some (FileNode []) \<and> \<not> is_relative_to (temp_path base (ev_rnd ev)) base"
proof -
  have "reject_unsafe_spelling dot = Inr ()"
    by (simp add: reject_unsafe_spelling_iff nt_drive_def nt_splitroot_def replace_char_def)
  moreover have "path_join base dot = base"
    by (cases base) (simp add: path_join_def PurePosixPath_def posix_root_def is_absolute_def)
  ultimately have d: "resolve_within (rc_resolve rc) (rc_sync_root rc) dot = Inr base"
    using assms(1,2) by (simp add: resolve_within_eq_Inr is_relative_to_def)
  have ready: "root_ready (rp_fs st) base" by (rule push_invD(2) [OF inv])
  have dirs: "rp_fs st p = Some DirNode" if "on_the_way p (path_parent base)" for p
    using ready on_the_way_up [OF that] by (simp add: root_ready_def)
  have mk: "mkdir_parents (path_parent base) (rp_fs st) = Inr (rp_fs st)"
  proof -
    have "\<not> is_file (rp_fs st (PurePath (pp_root (path_parent base)) ps))" if "ps \<in> set (prefixes (pp_parts (path_parent base)))" for ps
      using dirs [of "PurePath (pp_root (path_parent base)) ps"] that by (simp add: on_the_way_def is_file_def)
    moreover have "(\<lambda>p. if rp_fs st p = None \<and> on_the_way p (path_parent base) then Some DirNode else rp_fs st p) = rp_fs st"
      using dirs by (auto simp: fun_eq_iff)
    ultimately show ?thesis by (auto simp: mkdir_parents_def list_ex_iff)
  qed
  have "rp_fs st base = Some DirNode" using ready by (auto simp: root_ready_def on_the_way_def)
  then have b: "begin_partial BeginOk (ev_rnd ev) base (rp_fs st) = (Inl engine_err, (rp_fs st)(temp_path base (ev_rnd ev) \<mapsto> FileNode []))"
    using mk env(2) temp_path_neq [of base "ev_rnd ev"] by (simp add: begin_partial_def Let_def)
  show ?thesis
    using d valid room b env temp_outside [OF assms(3)] by (simp add: handle_push_def pending_for_def engine_err_def)
qed

theorem push_to_root_leaves_file_outside_witness:
  "\<exists>st'. handle_push sample_receiver sample_env (sample_push dot) sample_state = (Inl (Sync ChunkEngineError), st') \<and>
     rp_fs st' (PurePath 1 [codes ''.s.x.part'']) = Some (FileNode [])"
proof -
  have t: "temp_path sample_root (ev_rnd sample_env) = PurePath 1 [codes ''.s.x.part'']"
    by (simp add: temp_path_def sibling_def sample_root_def sample_env_def path_name_def codes_def)
  have "\<exists>st'. handle_push sample_receiver sample_env (sample_push dot) sample_state = (Inl (Sync ChunkEngineError), st') \<and>
      rp_pending st' = rp_pending sample_state \<and>
      rp_fs st' (temp_path sample_root (ev_rnd sample_env)) = Some (FileNode []) \<and>
      \<not> is_relative_to (temp_path sample_root (ev_rnd sample_env)) sample_root"
    by (rule push_to_root_leaves_file_outside [OF sample_receiver_base _ _ sample_state_inv sample_push_valid])
      (simp_all add: t, simp_all add: sample_receiver_def sample_root_def sample_push_def sample_state_def default_limits_def sample_env_def sample_disk_def codes_def)
  then show ?thesis unfolding t by blast
qed

end
