(* ===== verification/Conflicts.thy ===== *)
theory Conflicts
  imports Version_Vectors
begin

text \<open>
  Conflicts: the records of \<^verbatim>\<open>domain/conflict.py\<close>, the store of
  \<^verbatim>\<open>networking/in_memory_conflict_repository.py\<close> and the use cases of
  \<^verbatim>\<open>application/use_cases/conflict_resolution.py\<close>. Datetimes are microseconds, \<^verbatim>\<open>uuid4\<close> is an argument.
\<close>

section \<open>Records\<close>

datatype conflict_type = CONCURRENT_MODIFICATION | MODIFY_DELETE | RENAME_CONFLICT | MOVE_CONFLICT

record conflict_metadata =
  cf_id :: pystr
  cf_file_path :: pystr
  cf_type :: conflict_type
  cf_local_version :: version_vector
  cf_remote_version :: version_vector
  cf_remote_device_id :: pystr
  cf_detected_at :: int

section \<open>The store\<close>

record conflict_repo =
  cr_conflicts :: "(pystr, conflict_metadata) dict"
  cr_resolved :: "pystr list" \<comment> \<open>a set\<close>

definition mk_conflict_repo :: conflict_repo where
  "mk_conflict_repo = \<lparr>cr_conflicts = [], cr_resolved = []\<rparr>"

definition conflict_save :: "conflict_metadata \<Rightarrow> conflict_repo \<Rightarrow> conflict_repo" where
  "conflict_save c r = r\<lparr>cr_conflicts := dict_set (cf_id c) c (cr_conflicts r)\<rparr>"

definition conflict_get :: "conflict_repo \<Rightarrow> pystr \<Rightarrow> conflict_metadata option" where
  "conflict_get r i = dict_get (cr_conflicts r) i"

definition conflict_list_all :: "conflict_repo \<Rightarrow> conflict_metadata list" where
  "conflict_list_all r = map snd (cr_conflicts r)"

definition conflict_list_active :: "conflict_repo \<Rightarrow> conflict_metadata list" where
  "conflict_list_active r = filter (\<lambda>c. cf_id c \<notin> set (cr_resolved r)) (map snd (cr_conflicts r))"

definition conflict_resolve :: "pystr \<Rightarrow> conflict_repo \<Rightarrow> conflict_repo" where
  "conflict_resolve i r =
     (if i \<in> set (dict_keys (cr_conflicts r)) then r\<lparr>cr_resolved := List.insert i (cr_resolved r)\<rparr> else r)"

section \<open>Use cases\<close>

definition last_writer_wins :: "conflict_metadata \<Rightarrow> conflict_metadata \<Rightarrow> bool" where
  "last_writer_wins local remote = (cf_detected_at remote > cf_detected_at local)"

definition detect_conflict ::
  "pystr \<Rightarrow> int \<Rightarrow> pystr \<Rightarrow> version_vector \<Rightarrow> version_vector \<Rightarrow> pystr \<Rightarrow> conflict_repo \<Rightarrow>
   conflict_metadata option \<times> conflict_repo" where
  "detect_conflict uuid now file_path local_version remote_version remote_device_id r =
     (if is_concurrent local_version remote_version then
        let c = \<lparr>cf_id = uuid, cf_file_path = file_path, cf_type = CONCURRENT_MODIFICATION,
                 cf_local_version = local_version, cf_remote_version = remote_version,
                 cf_remote_device_id = remote_device_id, cf_detected_at = now\<rparr>
        in (Some c, conflict_save c r)
      else (None, r))"

definition resolve_conflict ::
  "(conflict_metadata \<Rightarrow> conflict_metadata \<Rightarrow> bool) \<Rightarrow> pystr \<Rightarrow> conflict_metadata \<Rightarrow> conflict_repo \<Rightarrow>
   bool result \<times> conflict_repo" where
  "resolve_conflict merge conflict_id remote_metadata r =
     (case conflict_get r conflict_id of
        None \<Rightarrow> (Inl (Domain ConflictNotFoundError), r)
      | Some local_conflict \<Rightarrow> (Inr (merge local_conflict remote_metadata), conflict_resolve conflict_id r))"

section \<open>Life of a conflict\<close>

text \<open>Entries are stored under their own id, and only known ids are resolved.\<close>

definition conflict_repo_inv :: "conflict_repo \<Rightarrow> bool" where
  "conflict_repo_inv r \<longleftrightarrow> wf_dict (cr_conflicts r) \<and> list_all (\<lambda>(i, c). cf_id c = i) (cr_conflicts r) \<and>
     set (cr_resolved r) \<subseteq> set (dict_keys (cr_conflicts r))"

datatype conflict_op =
    Detect pystr int pystr version_vector version_vector pystr
  | Resolve pystr conflict_metadata

fun conflict_step :: "conflict_op \<Rightarrow> conflict_repo \<Rightarrow> conflict_repo" where
  "conflict_step (Detect uuid now path lv rv dev) r = snd (detect_conflict uuid now path lv rv dev r)"
| "conflict_step (Resolve i m) r = snd (resolve_conflict last_writer_wins i m r)"

lemma list_all_dict_set: "list_all (\<lambda>(i, c). P i c) d \<Longrightarrow> P k v \<Longrightarrow> list_all (\<lambda>(i, c). P i c) (dict_set k v d)"
  by (induction d) auto

lemma conflict_save_inv: "conflict_repo_inv r \<Longrightarrow> conflict_repo_inv (conflict_save c r)"
  using list_all_dict_set [of "\<lambda>i c. cf_id c = i" "cr_conflicts r" "cf_id c" c]
  by (auto simp: conflict_repo_inv_def conflict_save_def wf_dict_set keys_dict_set split: if_splits)

lemma conflict_resolve_inv: "conflict_repo_inv r \<Longrightarrow> conflict_repo_inv (conflict_resolve i r)"
  by (auto simp: conflict_repo_inv_def conflict_resolve_def)

interpretation conflict_machine: machine_inv conflict_step conflict_repo_inv
proof
  fix r :: conflict_repo and e :: conflict_op
  assume r: "conflict_repo_inv r"
  show "conflict_repo_inv (conflict_step e r)"
    using r conflict_save_inv [OF r] conflict_resolve_inv [OF r]
    by (cases e) (simp_all add: detect_conflict_def resolve_conflict_def Let_def split: option.splits)
qed

lemma active_ids:
  assumes "conflict_repo_inv r"
  shows "map cf_id (conflict_list_active r) = filter (\<lambda>i. i \<notin> set (cr_resolved r)) (dict_keys (cr_conflicts r))"
proof -
  have "map (\<lambda>c. cf_id c) (filter (\<lambda>c. cf_id c \<notin> S) (map snd d)) = filter (\<lambda>i. i \<notin> S) (dict_keys d)"
    if "list_all (\<lambda>(i, c). cf_id c = i) d" for S and d :: "(pystr, conflict_metadata) dict"
    using that by (induction d) auto
  then show ?thesis using assms by (simp add: conflict_repo_inv_def conflict_list_active_def)
qed

text \<open>
  The conflict store tells the truth about open conflicts. After any sequence of detections and
  resolutions from the empty store: concurrent edits are recorded as a new active conflict when their id is
  fresh and ordered edits are not recorded; resolving a known conflict removes exactly that id
  from the active list and keeps the record, resolving it again changes nothing, and resolving an
  unknown id is an error that changes nothing.
\<close>

theorem conflict_life_cycle:
  assumes r: "r = fold conflict_step ops mk_conflict_repo"
  shows "(is_concurrent lv rv \<and> uuid \<notin> set (dict_keys (cr_conflicts r)) \<longrightarrow>
      map cf_id (conflict_list_active (snd (detect_conflict uuid now path lv rv dev r))) =
        map cf_id (conflict_list_active r) @ [uuid]) \<and>
    (\<not> is_concurrent lv rv \<longrightarrow> detect_conflict uuid now path lv rv dev r = (None, r)) \<and>
    (case resolve_conflict merge i m r of
       (Inl e, r') \<Rightarrow> e = Domain ConflictNotFoundError \<and> r' = r \<and> i \<notin> set (map cf_id (conflict_list_all r))
     | (Inr b, r') \<Rightarrow>
         map cf_id (conflict_list_active r') = filter (\<lambda>j. j \<noteq> i) (map cf_id (conflict_list_active r)) \<and>
         conflict_list_all r' = conflict_list_all r \<and> snd (resolve_conflict merge i m r') = r')"
proof -
  have inv0: "conflict_repo_inv mk_conflict_repo" by (simp add: conflict_repo_inv_def mk_conflict_repo_def)
  have inv: "conflict_repo_inv r" unfolding r by (rule conflict_machine.run_inv [OF inv0])
  have ids: "map cf_id (conflict_list_all r) = dict_keys (cr_conflicts r)"
    using inv by (auto simp: conflict_repo_inv_def conflict_list_all_def list_all_iff)
  have new: "map cf_id (conflict_list_active (snd (detect_conflict uuid now path lv rv dev r))) =
        map cf_id (conflict_list_active r) @ [uuid]"
    if "is_concurrent lv rv" "uuid \<notin> set (dict_keys (cr_conflicts r))"
  proof -
    let ?r = "snd (detect_conflict uuid now path lv rv dev r)"
    have "conflict_repo_inv ?r" using conflict_machine.step_inv [OF inv, of "Detect uuid now path lv rv dev"] by simp
    moreover have "dict_keys (cr_conflicts ?r) = dict_keys (cr_conflicts r) @ [uuid]" "cr_resolved ?r = cr_resolved r"
      using that by (simp_all add: detect_conflict_def conflict_save_def keys_dict_set Let_def)
    moreover have "uuid \<notin> set (cr_resolved r)" using inv that(2) by (auto simp: conflict_repo_inv_def)
    ultimately show ?thesis using active_ids inv by simp
  qed
  have res: "case resolve_conflict merge i m r of
       (Inl e, r') \<Rightarrow> e = Domain ConflictNotFoundError \<and> r' = r \<and> i \<notin> set (map cf_id (conflict_list_all r))
     | (Inr b, r') \<Rightarrow>
         map cf_id (conflict_list_active r') = filter (\<lambda>j. j \<noteq> i) (map cf_id (conflict_list_active r)) \<and>
         conflict_list_all r' = conflict_list_all r \<and> snd (resolve_conflict merge i m r') = r'"
  proof (cases "conflict_get r i")
    case None
    then have "i \<notin> set (dict_keys (cr_conflicts r))" by (simp add: conflict_get_def dict_get_None)
    then show ?thesis unfolding ids using None by (simp add: resolve_conflict_def)
  next
    case (Some c)
    then have k: "i \<in> set (dict_keys (cr_conflicts r))" by (metis conflict_get_def dict_get_None option.distinct(1))
    let ?r = "conflict_resolve i r"
    have "map cf_id (conflict_list_active ?r) = filter (\<lambda>j. j \<noteq> i) (map cf_id (conflict_list_active r))"
      using active_ids [OF inv] active_ids [OF conflict_resolve_inv [OF inv], of i] k
      by (simp add: conflict_resolve_def) (rule filter_cong, auto)
    then show ?thesis using Some k
      by (simp add: resolve_conflict_def conflict_resolve_def conflict_list_all_def conflict_get_def)
  qed
  show ?thesis using new res by (simp add: detect_conflict_def)
qed

theorem conflict_life_cycle_witness:
  "\<exists>r. r = fold conflict_step [Detect [1] 0 [2] \<lparr>counters = [([10], 1)]\<rparr> \<lparr>counters = [([11], 1)]\<rparr> [11]] mk_conflict_repo \<and>
     map cf_id (conflict_list_active r) = [[1]] \<and>
     map cf_id (conflict_list_active (snd (resolve_conflict last_writer_wins [1] undefined r))) = []"
proof -
  let ?r = "fold conflict_step [Detect [1] 0 [2] \<lparr>counters = [([10], 1)]\<rparr> \<lparr>counters = [([11], 1)]\<rparr> [11]] mk_conflict_repo"
  have a: "map cf_id (conflict_list_active ?r) = [[1]]" "\<exists>c. conflict_get ?r [1] = Some c"
    by (simp_all add: detect_conflict_def conflict_save_def mk_conflict_repo_def conflict_list_active_def conflict_get_def
        is_concurrent_def vv_le_def counter_of_def Let_def)
  with conflict_life_cycle [OF refl [of ?r], where merge = last_writer_wins and i = "[1]" and m = undefined]
  show ?thesis by (auto simp: resolve_conflict_def)
qed

end
