(* ===== verification/Sync_File.thy ===== *)
theory Sync_File
  imports Receive_Push Chunk_Reader Delta Sync_Direction Conflicts "HOL-Library.Multiset"
begin

text \<open>
  \<^verbatim>\<open>application/use_cases/sync_file.py\<close> and the use cases it is built from (\<^verbatim>\<open>calculate_chunk_hashes.py\<close>,
  \<^verbatim>\<open>chunk_file.py\<close>, \<^verbatim>\<open>verify_chunk.py\<close>, \<^verbatim>\<open>compute_delta.py\<close>, \<^verbatim>\<open>transfer_chunks.py\<close>). The source file is
  read with the streaming reader, whose parameters are fields of \<open>sync_config\<close>. What the peer and the transport
  answer is the argument \<open>io\<close>: each manifest request, each send, the stream of requested chunks, the outcome
  of saving a manifest. The pushes that were handed to the transport are part of the state.
\<close>

section \<open>Hashing and manifests\<close>

record sync_config =
  sf_rd :: "nat \<Rightarrow> nat \<Rightarrow> nat"
  sf_next_cut :: "bytes \<Rightarrow> bool \<Rightarrow> int option"
  sf_pref :: int
  sf_cid :: "pure_path \<Rightarrow> int \<Rightarrow> pystr"
  sf_clk :: "int \<Rightarrow> int"
  sf_hash :: "bytes \<Rightarrow> chunk_hash"
  sf_root :: pure_path
  sf_chunk_size :: int

definition source_node :: "node option \<Rightarrow> fs_node" where
  "source_node n = (case n of None \<Rightarrow> Missing | Some DirNode \<Rightarrow> NotRegular | Some (FileNode b) \<Rightarrow> Regular b)"

definition read_source :: "sync_config \<Rightarrow> fs \<Rightarrow> pure_path \<Rightarrow> chunk_stream" where
  "read_source sf f path =
     read_chunks (sf_rd sf) (sf_next_cut sf) (sf_pref sf) (sf_cid sf path) (sf_clk sf) (source_node (f path))"

text \<open>\<^verbatim>\<open>CalculateChunkHashesUseCase\<close>: a manifest is built only when the whole file could be read.\<close>

definition hash_chunks :: "(bytes \<Rightarrow> chunk_hash) \<Rightarrow> chunk list \<Rightarrow> chunk_metadata list" where
  "hash_chunks hash cs = map (\<lambda>c. metadata_with_hash (ck_metadata c) (hash (ck_data c))) cs"

definition build_manifest :: "sync_config \<Rightarrow> fs \<Rightarrow> pure_path \<Rightarrow> chunk_collection result" where
  "build_manifest sf f path =
     (case read_source sf f path of
        (cs, Some e) \<Rightarrow> Inl e
      | (cs, None) \<Rightarrow>
          let collected = hash_chunks (sf_hash sf) cs
          in mk_ChunkCollection path (sf_chunk_size sf) (sum_list (map cm_size collected)) collected)"

text \<open>\<^verbatim>\<open>ChunkFileUseCase\<close>: the same chunks with their data.\<close>

definition chunk_file :: "sync_config \<Rightarrow> fs \<Rightarrow> pure_path \<Rightarrow> chunk_stream" where
  "chunk_file sf f path =
     (case read_source sf f path of (cs, e) \<Rightarrow> (map (\<lambda>c. chunk_with_hash c (sf_hash sf (ck_data c))) cs, e))"

definition verify_chunk :: "(bytes \<Rightarrow> chunk_hash) \<Rightarrow> chunk \<Rightarrow> bool result" where
  "verify_chunk hash c =
     (case cm_hash (ck_metadata c) of
        None \<Rightarrow> Inl (Domain ChunkVerificationError)
      | Some recorded \<Rightarrow> Inr (hash (ck_data c) = recorded))"

text \<open>\<^verbatim>\<open>ComputeDeltaUseCase\<close>; \<open>loaded\<close> is what the repository has for the path.\<close>

definition compute_delta_for :: "sync_config \<Rightarrow> fs \<Rightarrow> pure_path \<Rightarrow> chunk_collection option result \<Rightarrow> delta_plan result" where
  "compute_delta_for sf f path loaded =
     rbind loaded (\<lambda>baseline. rbind (build_manifest sf f path) (\<lambda>current. compute_delta baseline current))"

section \<open>Data\<close>

record sync_file_result =
  sr_transferred_count :: int
  sr_direction :: "sync_direction option"

record manifest_with_version =
  mv_collection :: chunk_collection
  mv_version :: "version_vector option"

record sync_io =
  io_manifest :: "manifest_with_version option result" \<comment> \<open>\<^verbatim>\<open>request_manifest\<close> of \<^verbatim>\<open>push\<close> and \<^verbatim>\<open>pull\<close>\<close>
  io_first_manifest :: "manifest_with_version option result" \<comment> \<open>the one of \<^verbatim>\<open>sync\<close>\<close>
  io_version :: "version_vector option result" \<comment> \<open>\<^verbatim>\<open>local_version_provider\<close>, \<open>Inr None\<close> without one\<close>
  io_send :: "nat \<Rightarrow> unit result" \<comment> \<open>the n-th \<^verbatim>\<open>send_chunk\<close>\<close>
  io_chunks :: "pystr list \<Rightarrow> chunk_stream" \<comment> \<open>\<^verbatim>\<open>request_chunks\<close>\<close>
  io_write :: "nat \<Rightarrow> write_fault"
  io_save :: "unit result"
  io_now :: "int \<times> int" \<comment> \<open>the two clock readings of the conflict records\<close>
  io_peer_id :: pystr
  io_peer_ip :: pystr

record sync_state =
  ss_fs :: fs
  ss_repo :: "(pure_path, chunk_collection) dict"
  ss_sent :: "incoming_push list"

section \<open>Push\<close>

definition normalized_peer_manifest :: "sync_io \<Rightarrow> pure_path \<Rightarrow> chunk_collection option result" where
  "normalized_peer_manifest io path =
     rbind (io_manifest io) (\<lambda>mv. case mv of
        None \<Rightarrow> Inr None
      | Some m \<Rightarrow>
          let c = mv_collection m in
          rbind (mk_ChunkCollection path (cc_chunk_size c) (total_size c) (cc_chunks c)) (\<lambda>c'. Inr (Some c')))"

definition digests :: "chunk_metadata list \<Rightarrow> pystr list" where
  "digests ms = List.map_filter (\<lambda>m. map_option digest (cm_hash m)) ms"

definition filter_chunks_to_upload :: "pystr set \<Rightarrow> chunk_stream \<Rightarrow> chunk_stream" where
  "filter_chunks_to_upload needed s =
     (filter (\<lambda>c. case cm_hash (ck_metadata c) of None \<Rightarrow> False | Some h \<Rightarrow> digest h \<in> needed) (fst s), snd s)"

text \<open>\<^verbatim>\<open>UploadChunksUseCase.execute\<close>: the chunks whose send returned, and how the loop ended.\<close>

fun upload_chunks :: "(nat \<Rightarrow> unit result) \<Rightarrow> nat \<Rightarrow> chunk list \<Rightarrow> exn option \<Rightarrow> chunk list \<times> unit result" where
  "upload_chunks send n [] e = ([], case e of None \<Rightarrow> Inr () | Some x \<Rightarrow> Inl x)"
| "upload_chunks send n (c # cs) e =
     (case send n of
        Inl x \<Rightarrow> ([], Inl x)
      | Inr _ \<Rightarrow> (case upload_chunks send (Suc n) cs e of (sent, r) \<Rightarrow> (c # sent, r)))"

definition save_manifest :: "sync_io \<Rightarrow> chunk_collection \<Rightarrow> sync_state \<Rightarrow> unit result \<times> sync_state" where
  "save_manifest io c st =
     (case io_save io of
        Inl e \<Rightarrow> (Inl e, st)
      | Inr _ \<Rightarrow> (Inr (), st\<lparr>ss_repo := dict_set (source_path c) c (ss_repo st)\<rparr>))"

definition push_plan ::
  "sync_config \<Rightarrow> sync_io \<Rightarrow> fs \<Rightarrow> pure_path \<Rightarrow> (chunk_collection \<times> version_vector option \<times> delta_plan) result" where
  "push_plan sf io f source =
     rbind (build_manifest sf f source) (\<lambda>current.
     rbind (normalized_peer_manifest io source) (\<lambda>peer_manifest.
     rbind (io_version io) (\<lambda>local_version.
     rbind (compute_delta peer_manifest current) (\<lambda>plan.
     Inr (current, local_version, plan)))))"

definition push_message :: "pystr \<Rightarrow> int \<Rightarrow> version_vector option \<Rightarrow> chunk \<Rightarrow> incoming_push" where
  "push_message relative_path n v c = \<lparr>in_path = relative_path, in_total = n, in_chunk = c, in_version = v\<rparr>"

definition push_uploads ::
  "sync_config \<Rightarrow> sync_io \<Rightarrow> pystr \<Rightarrow> pure_path \<Rightarrow> version_vector option \<Rightarrow> delta_plan \<Rightarrow> sync_state \<Rightarrow> unit result \<times> sync_state" where
  "push_uploads sf io relative_path source local_version plan st =
     (if transfer_count plan > 0 then
        let needed = digests (chunks_to_transfer plan);
            (cs, e) = filter_chunks_to_upload (set needed) (chunk_file sf (ss_fs st) source);
            (sent, r) = upload_chunks (io_send io) 0 cs e
        in (r, st\<lparr>ss_sent := ss_sent st @
             map (push_message relative_path (int (card (set needed))) local_version) sent\<rparr>)
      else (Inr (), st))"

definition push :: "sync_config \<Rightarrow> sync_io \<Rightarrow> pystr \<Rightarrow> sync_state \<Rightarrow> sync_file_result result \<times> sync_state" where
  "push sf io relative_path st =
     (let source = path_join (sf_root sf) relative_path in
      case push_plan sf io (ss_fs st) source of
        Inl e \<Rightarrow> (Inl e, st)
      | Inr (current, local_version, plan) \<Rightarrow>
          (case push_uploads sf io relative_path source local_version plan st of
             (Inl e, st1) \<Rightarrow> (Inl e, st1)
           | (Inr _, st1) \<Rightarrow>
               (case save_manifest io current st1 of
                  (Inl e, st2) \<Rightarrow> (Inl e, st2)
                | (Inr _, st2) \<Rightarrow>
                    (Inr \<lparr>sr_transferred_count = transfer_count plan, sr_direction = None\<rparr>, st2))))"

section \<open>Pull\<close>

definition local_manifest_or_empty :: "sync_config \<Rightarrow> fs \<Rightarrow> pure_path \<Rightarrow> chunk_collection result" where
  "local_manifest_or_empty sf f path =
     (case build_manifest sf f path of
        Inl e \<Rightarrow> if e = Domain ChunkSourceNotFoundError then mk_ChunkCollection path (sf_chunk_size sf) 0 [] else Inl e
      | Inr c \<Rightarrow> Inr c)"

fun write_chunks :: "(nat \<Rightarrow> write_fault) \<Rightarrow> nat \<Rightarrow> pure_path \<Rightarrow> chunk list \<Rightarrow> exn option \<Rightarrow> fs \<Rightarrow> nat result \<times> fs" where
  "write_chunks fault n path [] e f = ((case e of None \<Rightarrow> Inr n | Some x \<Rightarrow> Inl x), f)"
| "write_chunks fault n path (c # cs) e f =
     (case write_chunk_at_offset (fault n) path c f of
        (Inl x, f1) \<Rightarrow> (Inl x, f1)
      | (Inr _, f1) \<Rightarrow> write_chunks fault (Suc n) path cs e f1)"

definition pull_downloads :: "sync_io \<Rightarrow> pure_path \<Rightarrow> delta_plan \<Rightarrow> fs \<Rightarrow> nat result \<times> fs" where
  "pull_downloads io source plan f =
     (if transfer_count plan > 0 then
        let (cs, e) = io_chunks io (digests (chunks_to_transfer plan)) in write_chunks (io_write io) 0 source cs e f
      else (Inr 0, f))"

definition pull_plan ::
  "sync_config \<Rightarrow> sync_io \<Rightarrow> fs \<Rightarrow> pure_path \<Rightarrow> (chunk_collection \<times> delta_plan option) result" where
  "pull_plan sf io f source =
     rbind (local_manifest_or_empty sf f source) (\<lambda>current.
     rbind (normalized_peer_manifest io source) (\<lambda>peer_manifest.
     case peer_manifest of
       None \<Rightarrow> Inr (current, None)
     | Some p \<Rightarrow> rbind (compute_delta (Some current) p) (\<lambda>plan. Inr (current, Some plan))))"

definition pull :: "sync_config \<Rightarrow> sync_io \<Rightarrow> pystr \<Rightarrow> sync_state \<Rightarrow> sync_file_result result \<times> sync_state" where
  "pull sf io relative_path st =
     (let source = path_join (sf_root sf) relative_path in
      case pull_plan sf io (ss_fs st) source of
        Inl e \<Rightarrow> (Inl e, st)
      | Inr (current, None) \<Rightarrow> (Inr \<lparr>sr_transferred_count = 0, sr_direction = None\<rparr>, st)
      | Inr (current, Some plan) \<Rightarrow>
          (case pull_downloads io source plan (ss_fs st) of
             (Inl e, f1) \<Rightarrow> (Inl e, st\<lparr>ss_fs := f1\<rparr>)
           | (Inr n, f1) \<Rightarrow>
               (case (if n > 0 then build_manifest sf f1 source else Inr current) of
                  Inl e \<Rightarrow> (Inl e, st\<lparr>ss_fs := f1\<rparr>)
                | Inr final_manifest \<Rightarrow>
                    (case save_manifest io final_manifest (st\<lparr>ss_fs := f1\<rparr>) of
                       (Inl e, st2) \<Rightarrow> (Inl e, st2)
                     | (Inr _, st2) \<Rightarrow> (Inr \<lparr>sr_transferred_count = int n, sr_direction = None\<rparr>, st2)))))"

section \<open>Sync\<close>

definition sync_conflicts ::
  "sync_io \<Rightarrow> pystr \<Rightarrow> version_vector option \<Rightarrow> version_vector option \<Rightarrow> conflict_metadata \<times> conflict_metadata" where
  "sync_conflicts io relative_path lv rv =
     (let l = (case lv of None \<Rightarrow> empty_vector | Some v \<Rightarrow> v); r = (case rv of None \<Rightarrow> empty_vector | Some v \<Rightarrow> v) in
      (\<lparr>cf_id = codes ''sync-'' @ relative_path @ codes ''-'' @ io_peer_id io, cf_file_path = relative_path,
        cf_type = CONCURRENT_MODIFICATION, cf_local_version = l, cf_remote_version = r,
        cf_remote_device_id = io_peer_id io, cf_detected_at = fst (io_now io)\<rparr>,
       \<lparr>cf_id = codes ''sync-'' @ relative_path @ codes ''-local'', cf_file_path = relative_path,
        cf_type = CONCURRENT_MODIFICATION, cf_local_version = r, cf_remote_version = l,
        cf_remote_device_id = (if io_peer_ip io = [] then codes ''local'' else io_peer_ip io),
        cf_detected_at = snd (io_now io)\<rparr>))"

abbreviation noop_result :: sync_file_result where
  "noop_result \<equiv> \<lparr>sr_transferred_count = 0, sr_direction = Some NOOP\<rparr>"

definition sync_with ::
  "(conflict_metadata \<Rightarrow> conflict_metadata \<Rightarrow> bool) \<Rightarrow> sync_config \<Rightarrow> sync_io \<Rightarrow> pystr \<Rightarrow> sync_state \<Rightarrow>
   sync_file_result result \<times> sync_state" where
  "sync_with merge sf io relative_path st =
     (let source = path_join (sf_root sf) relative_path in
      case rbind (local_manifest_or_empty sf (ss_fs st) source) (\<lambda>local_collection.
           rbind (io_version io) (\<lambda>local_version.
           rbind (io_first_manifest io) (\<lambda>peer_mv. Inr (local_collection, local_version, peer_mv)))) of
        Inl e \<Rightarrow> (Inl e, st)
      | Inr (local_collection, local_version, None) \<Rightarrow>
          if chunk_count local_collection > 0 then push sf io relative_path st else (Inr noop_result, st)
      | Inr (local_collection, local_version, Some mv) \<Rightarrow>
          (case direction (resolve_direction (Some local_collection) local_version (Some (mv_collection mv)) (mv_version mv)) of
             PUSH \<Rightarrow> push sf io relative_path st
           | PULL \<Rightarrow> pull sf io relative_path st
           | NOOP \<Rightarrow> (Inr noop_result, st)
           | CONFLICT \<Rightarrow>
               let (l, r) = sync_conflicts io relative_path local_version (mv_version mv) in
               if merge l r then pull sf io relative_path st else (Inr noop_result, st)))"

definition sync :: "sync_config \<Rightarrow> sync_io \<Rightarrow> pystr \<Rightarrow> sync_state \<Rightarrow> sync_file_result result \<times> sync_state" where
  "sync = sync_with last_writer_wins"

section \<open>What the reader gives the use cases\<close>

text \<open>The strategy keeps its contract, reads deliver, ids are not empty and the configured size is positive.\<close>

definition reader_ok :: "sync_config \<Rightarrow> bool" where
  "reader_ok sf \<longleftrightarrow> chunking_strategy (sf_next_cut sf) \<and> delivers (sf_rd sf) \<and> (\<forall>p i. sf_cid sf p i \<noteq> []) \<and> 0 < sf_chunk_size sf"

abbreviation hashed :: "sync_config \<Rightarrow> chunk \<Rightarrow> chunk" where
  "hashed sf c \<equiv> chunk_with_hash c (sf_hash sf (ck_data c))"

lemma chunk_with_hash_sel [simp]:
  "ck_data (chunk_with_hash c h) = ck_data c" "ck_metadata (chunk_with_hash c h) = metadata_with_hash (ck_metadata c) h"
  by (simp_all add: chunk_with_hash_def)

lemma read_source_file:
  assumes "reader_ok sf" "f path = Some (FileNode data)"
  obtains cs where "read_source sf f path = (cs, None)" "concat (map ck_data cs) = data" "laid_out (sf_cid sf path) 0 0 cs"
proof -
  have "\<exists>cs. stream_chunks (sf_rd sf) (sf_next_cut sf) (sf_pref sf) (sf_cid sf path) (sf_clk sf) data = (cs, None) \<and>
      concat (map ck_data cs) = data \<and> laid_out (sf_cid sf path) 0 0 cs"
    using assms(1) by (intro chunking_strategy.stream_chunks_correct) (simp_all add: reader_ok_def)
  with assms(2) that show thesis by (auto simp: read_source_def read_chunks_def source_node_def)
qed

lemma read_source_missing: "f path = None \<Longrightarrow> read_source sf f path = ([], Some (Domain ChunkSourceNotFoundError))"
  by (simp add: read_source_def read_chunks_def source_node_def)

lemma laid_out_indices:
  assumes "laid_out cid 0 0 cs"
  shows "map (\<lambda>c. cm_index (ck_metadata c)) cs = map int [0 ..< length cs]"
  using laid_out_nth [OF assms] by (intro nth_equalityI) simp_all

lemma laid_out_chunk_of:
  assumes "laid_out cid 0 0 cs" "c \<in> set cs"
  shows "chunk_of (concat (map ck_data cs)) c"
proof -
  obtain j where j: "j < length cs" "c = cs ! j" using assms(2) by (metis in_set_conv_nth)
  note n = laid_out_nth [OF assms(1) j(1)]
  have "concat (map ck_data cs) = concat (map ck_data (take j cs)) @ ck_data c @ concat (map ck_data (drop (Suc j) cs))"
    using id_take_nth_drop [OF j(1)] j(2) by (metis concat.simps(2) concat_append list.simps(9) map_append)
  then show ?thesis using n j(2) by (simp add: chunk_of_def)
qed

lemma laid_out_covers:
  "laid_out cid i off cs \<Longrightarrow> 0 \<le> off \<Longrightarrow> nat off \<le> k \<Longrightarrow> k < nat off + length (concat (map ck_data cs)) \<Longrightarrow>
   list_ex (\<lambda>c. nat (cm_offset (ck_metadata c)) \<le> k \<and> k < nat (cm_offset (ck_metadata c)) + length (ck_data c)) cs"
proof (induction cs arbitrary: i off)
  case (Cons c cs)
  show ?case
  proof (cases "k < nat off + length (ck_data c)")
    case True
    then show ?thesis using Cons.prems by simp
  next
    case False
    then show ?thesis using Cons.IH [of "i + 1" "off + int (length (ck_data c))"] Cons.prems by (simp add: nat_add_distrib)
  qed
qed simp

lemma wf_chunk_size: "wf_chunk c \<Longrightarrow> cm_size (ck_metadata c) = int (length (ck_data c))"
  by (simp add: wf_chunk_def)

lemma laid_out_size:
  "laid_out cid i off cs \<Longrightarrow> sum_list (map (\<lambda>c. cm_size (ck_metadata c)) cs) = int (length (concat (map ck_data cs)))"
proof (induction cs arbitrary: i off)
  case (Cons c cs)
  then show ?case using Cons.IH [of "i + 1" "off + int (length (ck_data c))"] by (simp add: wf_chunk_size)
qed simp

lemma build_manifest_file:
  assumes ok: "reader_ok sf" and rs: "read_source sf f path = (cs, None)" "laid_out (sf_cid sf path) 0 0 cs"
  shows "build_manifest sf f path = Inr \<lparr>source_path = path, cc_chunk_size = sf_chunk_size sf,
    total_size = int (length (concat (map ck_data cs))), cc_chunks = hash_chunks (sf_hash sf) cs\<rparr>"
proof -
  have "map cm_size (hash_chunks (sf_hash sf) cs) = map (\<lambda>c. cm_size (ck_metadata c)) cs"
    "map cm_index (hash_chunks (sf_hash sf) cs) = map (\<lambda>c. cm_index (ck_metadata c)) cs"
    by (simp_all add: hash_chunks_def)
  moreover have "length (hash_chunks (sf_hash sf) cs) = length cs" by (simp add: hash_chunks_def)
  ultimately show ?thesis
    using ok laid_out_size [OF rs(2)] laid_out_indices [OF rs(2)] rs(1)
    by (simp add: build_manifest_def Let_def mk_ChunkCollection_eq_Inr wf_collection_def reader_ok_def)
qed

lemma digests_hash_chunks: "digests (hash_chunks h cs) = map (\<lambda>c. digest (h (ck_data c))) cs"
  by (induction cs) (simp_all add: digests_def hash_chunks_def List.map_filter_simps)

lemma upload_all: "\<forall>n. send n = Inr () \<Longrightarrow> upload_chunks send k cs None = (cs, Inr ())"
  by (induction cs arbitrary: k) simp_all

text \<open>The first push of a file sends every chunk, each announcing the number of different contents.\<close>

lemma first_push:
  assumes ok: "reader_ok sf" and src: "ss_fs st (path_join (sf_root sf) path) = Some (FileNode data)" "data \<noteq> []"
    and io: "io_manifest io = Inr None" "io_version io = Inr v" "\<forall>n. io_send io n = Inr ()" "io_save io = Inr ()"
  shows "\<exists>cs st'. read_source sf (ss_fs st) (path_join (sf_root sf) path) = (cs, None) \<and> cs \<noteq> [] \<and>
    concat (map ck_data cs) = data \<and> laid_out (sf_cid sf (path_join (sf_root sf) path)) 0 0 cs \<and>
    push sf io path st = (Inr \<lparr>sr_transferred_count = int (length cs), sr_direction = None\<rparr>, st') \<and>
    ss_fs st' = ss_fs st \<and>
    ss_sent st' = ss_sent st @ map (\<lambda>c. push_message path
      (int (card ((\<lambda>c. digest (sf_hash sf (ck_data c))) ` set cs))) v (hashed sf c)) cs \<and>
    (\<exists>m. build_manifest sf (ss_fs st) (path_join (sf_root sf) path) = Inr m \<and> total_size m = int (length data) \<and>
       ss_repo st' = dict_set (path_join (sf_root sf) path) m (ss_repo st))"
proof -
  let ?p = "path_join (sf_root sf) path"
  obtain cs where cs: "read_source sf (ss_fs st) ?p = (cs, None)" "concat (map ck_data cs) = data" "laid_out (sf_cid sf ?p) 0 0 cs"
    using read_source_file [where f = "ss_fs st" and path = ?p, OF ok src(1)] by blast
  let ?m = "\<lparr>source_path = ?p, cc_chunk_size = sf_chunk_size sf, total_size = int (length data), cc_chunks = hash_chunks (sf_hash sf) cs\<rparr>"
  have m: "build_manifest sf (ss_fs st) ?p = Inr ?m" using build_manifest_file [OF ok cs(1,3)] cs(2) by simp
  have hashes: "all_hashed ?m" by (auto simp: all_hashed_def hash_chunks_def)
  obtain p where p: "compute_delta None ?m = Inr p" using hashes by (simp add: compute_delta_eq compatible_def)
  have tr: "chunks_to_transfer p = hash_chunks (sf_hash sf) cs"
    using chunks_to_transfer_compute [OF p] by (simp add: known_hashes_def)
  have plan: "push_plan sf io (ss_fs st) ?p = Inr (?m, v, p)"
    using m io p by (simp add: push_plan_def normalized_peer_manifest_def)
  have ne: "cs \<noteq> []" using cs(2) src(2) by auto
  have "(digest (sf_hash sf (ck_data c)) \<in> set (digests (chunks_to_transfer p))) = True" if "c \<in> set cs" for c
    using that by (simp add: tr digests_hash_chunks)
  then have filt: "filter_chunks_to_upload (set (digests (chunks_to_transfer p))) (chunk_file sf (ss_fs st) ?p) = (map (hashed sf) cs, None)"
    using cs(1) by (simp add: filter_chunks_to_upload_def chunk_file_def filter_map o_def)
  have "length (hash_chunks (sf_hash sf) cs) = length cs" "hash_chunks (sf_hash sf) cs \<noteq> []"
    using ne by (simp_all add: hash_chunks_def)
  then have "push sf io path st = (Inr \<lparr>sr_transferred_count = int (length cs), sr_direction = None\<rparr>,
      st\<lparr>ss_sent := ss_sent st @ map (push_message path (int (card (set (digests (chunks_to_transfer p))))) v) (map (hashed sf) cs),
         ss_repo := dict_set ?p ?m (ss_repo st)\<rparr>)"
    using plan filt upload_all [OF io(3)] io(4) ne
    by (simp add: push_def Let_def push_uploads_def save_manifest_def transfer_count_def tr)
  then show ?thesis using cs ne m by (auto simp: tr digests_hash_chunks o_def)
qed

text \<open>What the receiver accepts: the chunks of a file within its limits, hashed with its own hash function.\<close>

definition within_limits :: "receiver_config \<Rightarrow> chunk list \<Rightarrow> bool" where
  "within_limits rc cs \<longleftrightarrow> int (length cs) \<le> pl_max_total_chunks (rc_limits rc) \<and>
     list_all (\<lambda>c. int (length (ck_data c)) \<le> pl_max_chunk_size (rc_limits rc)) cs \<and>
     int (length (concat (map ck_data cs))) \<le> pl_max_file_size (rc_limits rc) \<and> length (concat (map ck_data cs)) < 2 ^ 63"

lemma sent_chunk_good:
  assumes lo: "laid_out cid 0 0 cs" "c \<in> set cs" and lim: "within_limits rc cs" "rc_hash rc = sf_hash sf"
    and n: "1 \<le> n" "n \<le> int (length cs)" and "calm ev"
  shows "good_push rc path (concat (map ck_data cs)) n (ev, push_message path n v (hashed sf c))"
    and "cm_offset (ck_metadata c) < 2 ^ 63"
proof -
  note co = laid_out_chunk_of [OF lo]
  have wf: "wf_chunk c" "cm_size (ck_metadata c) = int (length (ck_data c))" "0 \<le> cm_offset (ck_metadata c)"
    using co by (simp_all add: chunk_of_def wf_chunk_size) (simp add: wf_chunk_def wf_metadata_def)
  have le: "cm_offset (ck_metadata c) + cm_size (ck_metadata c) \<le> int (length (concat (map ck_data cs)))"
    using co wf(2,3) unfolding chunk_of_def by linarith
  have size: "cm_size (ck_metadata c) \<le> pl_max_chunk_size (rc_limits rc)"
    using lim(1) lo(2) wf(2) by (simp add: within_limits_def list_all_iff)
  have big: "int (length (concat (map ck_data cs))) < 2 ^ 63" using lim(1) by (simp add: within_limits_def)
  show "cm_offset (ck_metadata c) < 2 ^ 63" using le big wf(2) by linarith
  have file_lim: "cm_offset (ck_metadata c) + cm_size (ck_metadata c) \<le> pl_max_file_size (rc_limits rc)"
    using le lim(1) unfolding within_limits_def by linarith
  have "validate_push rc (push_message path n v (hashed sf c)) = Inr ()"
    using size file_lim n lim by (simp add: validate_push_def push_message_def Let_def raise_if_def within_limits_def)
  moreover have "chunk_of (concat (map ck_data cs)) (hashed sf c)" using co by (simp add: chunk_of_def)
  ultimately show "good_push rc path (concat (map ck_data cs)) n (ev, push_message path n v (hashed sf c))"
    using assms(7) by (simp add: good_push_def push_message_def)
qed

lemma sent_chunks_cover:
  assumes lo: "laid_out cid 0 0 cs" and ms: "mset (map snd ps) = mset (map (\<lambda>c. push_message path n v (hashed sf c)) cs)"
  shows "covers (map (\<lambda>p. in_chunk (snd p)) ps) (length (concat (map ck_data cs)))"
  unfolding covers_def
proof (intro allI impI)
  fix k assume "k < length (concat (map ck_data cs))"
  then obtain c where c: "c \<in> set cs" "nat (cm_offset (ck_metadata c)) \<le> k" "k < nat (cm_offset (ck_metadata c)) + length (ck_data c)"
    using laid_out_covers [OF lo, of k] by (auto simp: list_ex_iff)
  have "push_message path n v (hashed sf c) \<in> set (map snd ps)"
    unfolding mset_eq_setD [OF ms] using c(1) by simp
  then obtain p where p: "p \<in> set ps" "push_message path n v (hashed sf c) = snd p" by auto
  then have pc: "in_chunk (snd p) = hashed sf c" by (metis incoming_push.select_convs(3) push_message_def)
  have "nat (cm_offset (ck_metadata (in_chunk (snd p)))) \<le> k \<and>
      k < nat (cm_offset (ck_metadata (in_chunk (snd p)))) + length (ck_data (in_chunk (snd p)))"
    using c(2,3) unfolding pc by simp
  then show "list_ex (\<lambda>c. nat (cm_offset (ck_metadata c)) \<le> k \<and> k < nat (cm_offset (ck_metadata c)) + length (ck_data c))
      (map (\<lambda>p. in_chunk (snd p)) ps)"
    using p(1) unfolding list_ex_iff by auto
qed

lemma laid_out_take: "laid_out cid i off cs \<Longrightarrow> laid_out cid i off (take n cs)"
proof (induction cs arbitrary: i off n)
  case (Cons c cs)
  then show ?case using Cons.IH [of "i + 1" "off + int (length (ck_data c))" "n - 1"] by (cases n) auto
qed simp

lemma within_limits_take: "within_limits rc cs \<Longrightarrow> within_limits rc (take n cs)"
proof -
  assume a: "within_limits rc cs"
  have "concat (map ck_data cs) = concat (map ck_data (take n cs)) @ concat (map ck_data (drop n cs))"
    by (metis append_take_drop_id concat_append map_append)
  moreover have "length (take n cs) \<le> length cs" by simp
  moreover have "set (take n cs) \<subseteq> set cs" by (rule set_take_subset)
  ultimately show ?thesis using a by (auto simp: within_limits_def list_all_iff dest: subsetD)
qed

lemma sent_in_order:
  assumes lo: "laid_out cid 0 0 cs" and lim: "within_limits rc cs" "rc_hash rc = sf_hash sf" and n: "1 \<le> n" "n \<le> int (length cs)"
    and ps: "map snd ps = map (\<lambda>c. push_message path n v (hashed sf c)) cs" "list_all (\<lambda>p. calm (fst p)) ps"
  shows "list_all (good_push rc path (concat (map ck_data cs)) n) ps"
    and "list_all (\<lambda>p. cm_offset (ck_metadata (in_chunk (snd p))) < 2 ^ 63) ps"
    and "distinct (map (\<lambda>p. index_of (snd p)) ps)"
    and "covers (map (\<lambda>p. in_chunk (snd p)) ps) (length (concat (map ck_data cs)))"
proof -
  have "good_push rc path (concat (map ck_data cs)) n p \<and> cm_offset (ck_metadata (in_chunk (snd p))) < 2 ^ 63" if p: "p \<in> set ps" for p
  proof -
    have "snd p \<in> set (map snd ps)" using p by simp
    then obtain c where c: "c \<in> set cs" "snd p = push_message path n v (hashed sf c)" unfolding ps(1) by auto
    have calm: "calm (fst p)" using ps(2) p by (simp add: list_all_iff)
    show ?thesis
      using sent_chunk_good(1) [OF lo c(1) lim n calm, of path v] sent_chunk_good(2) [OF lo c(1) lim n calm] c(2)
      by (cases p) (simp add: push_message_def)
  qed
  then show "list_all (good_push rc path (concat (map ck_data cs)) n) ps"
    "list_all (\<lambda>p. cm_offset (ck_metadata (in_chunk (snd p))) < 2 ^ 63) ps"
    by (simp_all add: list_all_iff)
  have "map (\<lambda>p. index_of (snd p)) ps = map index_of (map snd ps)" by simp
  also have "\<dots> = map int [0 ..< length cs]" unfolding ps using laid_out_indices [OF lo] by (simp add: push_message_def o_def)
  finally show "distinct (map (\<lambda>p. index_of (snd p)) ps)" by (simp only: distinct_map distinct_upt) (simp add: inj_on_def)
  show "covers (map (\<lambda>p. in_chunk (snd p)) ps) (length (concat (map ck_data cs)))"
    using sent_chunks_cover [OF lo, of ps path n v sf] ps(1) by simp
qed

lemma write_chunks_all:
  assumes "\<forall>k. fault k = WriteOk" "pp_parts path \<noteq> []"
  shows "mkdir_parents (path_parent path) f = Inr f \<Longrightarrow> f path = Some (FileNode b) \<Longrightarrow>
    list_all (\<lambda>c. cm_offset (ck_metadata c) < 2 ^ 63) cs \<Longrightarrow>
    write_chunks fault n path cs None f = (Inr (n + length cs), f(path \<mapsto> FileNode (written cs b)))"
proof (induction cs arbitrary: n f b)
  case Nil
  then show ?case by (simp add: written_def fun_upd_idem)
next
  case (Cons c cs)
  let ?b = "write_at (nat (cm_offset (ck_metadata c))) (ck_data c) b"
  have w: "write_chunk_at_offset (fault n) path c f = (Inr (), f(path \<mapsto> FileNode ?b))"
    using Cons.prems assms(1) by (simp add: write_chunk_at_offset_def file_bytes_def)
  have mk: "mkdir_parents (path_parent path) (f(path \<mapsto> FileNode ?b)) = Inr (f(path \<mapsto> FileNode ?b))"
    by (rule mkdir_parents_upd [OF Cons.prems(1) on_the_way_parent [OF assms(2)]])
  have rest: "write_chunks fault (Suc n) path cs None (f(path \<mapsto> FileNode ?b)) =
      (Inr (Suc n + length cs), (f(path \<mapsto> FileNode ?b))(path \<mapsto> FileNode (written cs ?b)))"
    by (rule Cons.IH [OF mk]) (use Cons.prems(3) in simp_all)
  have "written (c # cs) b = written cs ?b" by (simp add: written_def)
  then show ?case by (simp only: write_chunks.simps w rest prod.case sum.case fun_upd_upd) (simp add: fun_upd_def)
qed

lemma write_chunks_new:
  assumes "\<forall>k. fault k = WriteOk" "pp_parts path \<noteq> []" "mkdir_parents (path_parent path) f = Inr f0" "f path = None"
    "list_all (\<lambda>c. cm_offset (ck_metadata c) < 2 ^ 63) cs" "cs \<noteq> []"
  shows "write_chunks fault n path cs None f = (Inr (n + length cs), f0(path \<mapsto> FileNode (written cs [])))"
proof -
  obtain c cs' where cs: "cs = c # cs'" using assms(6) by (cases cs) auto
  let ?b = "write_at (nat (cm_offset (ck_metadata c))) (ck_data c) []"
  have "f0 path = None" using mkdir_parents_here [OF assms(3,2)] assms(4) by simp
  then have w: "write_chunk_at_offset (fault n) path c f = (Inr (), f0(path \<mapsto> FileNode ?b))"
    using assms cs by (simp add: write_chunk_at_offset_def file_bytes_def)
  have mk: "mkdir_parents (path_parent path) (f0(path \<mapsto> FileNode ?b)) = Inr (f0(path \<mapsto> FileNode ?b))"
    by (rule mkdir_parents_upd [OF mkdir_parents_again [OF assms(3)] on_the_way_parent [OF assms(2)]])
  have rest: "write_chunks fault (Suc n) path cs' None (f0(path \<mapsto> FileNode ?b)) =
      (Inr (Suc n + length cs'), (f0(path \<mapsto> FileNode ?b))(path \<mapsto> FileNode (written cs' ?b)))"
    by (rule write_chunks_all [OF assms(1,2) mk]) (use assms(5) cs in simp_all)
  have "written cs [] = written cs' ?b" by (simp add: written_def cs)
  then show ?thesis unfolding cs by (simp only: write_chunks.simps w rest prod.case sum.case fun_upd_upd) (simp add: fun_upd_def)
qed

section \<open>Properties\<close>

text \<open>
  C7: A pushed file arrives. When the sender pushes a non-empty file whose chunks have different digests to
  a peer without a manifest for it, every send succeeds and the receiver, which uses the same hash function and
  whose limits the file respects, gets the sent pushes in any order, then the receiver's file at that path
  is the sender's file (followed by what an older, longer file had beyond it), the path is not pending any more,
  the sender reports the number of chunks, and its repository has gained exactly the manifest of the file as it is on its
  disk. On the sender the strategy keeps its contract and saving the manifest succeeds. The receiver is quiet: neither
  the operating system nor the metadata repository fails while it handles these pushes, the path is safe, does not resolve to the root of the file system and is not
  pending before, fewer files than the limit are pending, no file stands where a directory must be made, the
  destination is not a directory, and the temporary name drawn is not in use; no sweep or other push comes in between.
\<close>

theorem push_delivers_file:
  assumes ok: "reader_ok sf" and src: "ss_fs st (path_join (sf_root sf) path) = Some (FileNode data)" "data \<noteq> []"
    and io: "io_manifest io = Inr None" "io_version io = Inr v" "\<forall>n. io_send io n = Inr ()" "io_save io = Inr ()"
    and different: "distinct (map (\<lambda>c. digest (sf_hash sf (ck_data c))) (fst (read_source sf (ss_fs st) (path_join (sf_root sf) path))))"
    and lim: "within_limits rc (fst (read_source sf (ss_fs st) (path_join (sf_root sf) path)))" "rc_hash rc = sf_hash sf"
    and d: "resolve_within (rc_resolve rc) (rc_sync_root rc) path = Inr d" "pp_parts d \<noteq> []"
    and idle: "dict_get (rp_pending rst) path = None" "int (length (rp_pending rst)) < pl_max_pending_files (rc_limits rc)"
    and disk: "mkdir_parents (path_parent d) (rp_fs rst) = Inr f0" "rp_fs rst d \<noteq> Some DirNode"
      "f0 (temp_path d (ev_rnd (fst (hd ps)))) = None"
    and delivered: "mset (map snd ps) = mset (drop (length (ss_sent st)) (ss_sent (snd (push sf io path st))))"
      "list_all (\<lambda>p. calm (fst p)) ps"
  shows "\<exists>rst'. run_events rc refused (map (\<lambda>(ev, i). Push ev i) ps) rst = (Inr (), rst') \<and>
    rp_fs rst' = f0(d \<mapsto> FileNode (data @ drop (length data) (file_bytes (rp_fs rst d)))) \<and>
    dict_get (rp_pending rst') path = None \<and>
    fst (push sf io path st) = Inr \<lparr>sr_transferred_count = int (length ps), sr_direction = None\<rparr> \<and>
    (\<exists>m. build_manifest sf (ss_fs st) (path_join (sf_root sf) path) = Inr m \<and> total_size m = int (length data) \<and>
       ss_repo (snd (push sf io path st)) = dict_set (path_join (sf_root sf) path) m (ss_repo st))"
proof -
  let ?p = "path_join (sf_root sf) path"
  obtain cs st' where cs: "read_source sf (ss_fs st) ?p = (cs, None)" "cs \<noteq> []" "concat (map ck_data cs) = data"
      "laid_out (sf_cid sf ?p) 0 0 cs"
    and pu: "push sf io path st = (Inr \<lparr>sr_transferred_count = int (length cs), sr_direction = None\<rparr>, st')"
    and sent: "ss_sent st' = ss_sent st @ map (\<lambda>c. push_message path
      (int (card ((\<lambda>c. digest (sf_hash sf (ck_data c))) ` set cs))) v (hashed sf c)) cs"
    and saved: "\<exists>m. build_manifest sf (ss_fs st) ?p = Inr m \<and> total_size m = int (length data) \<and>
       ss_repo st' = dict_set ?p m (ss_repo st)"
    using first_push [OF ok src io] by blast
  have "card ((\<lambda>c. digest (sf_hash sf (ck_data c))) ` set cs) = length cs"
    using different distinct_card [of "map (\<lambda>c. digest (sf_hash sf (ck_data c))) cs"] by (simp add: cs(1))
  then have ms: "mset (map snd ps) = mset (map (\<lambda>c. push_message path (int (length cs)) v (hashed sf c)) cs)"
    using delivered(1) pu sent by simp
  then have len: "length ps = length cs" using mset_eq_length by fastforce
  have mem: "\<exists>c \<in> set cs. snd p = push_message path (int (length cs)) v (hashed sf c)" if "p \<in> set ps" for p
  proof -
    have "snd p \<in> set (map snd ps)" using that by simp
    then show ?thesis using mset_eq_setD [OF ms] by auto
  qed
  have n: "1 \<le> int (length cs)" using cs(2) by (cases cs) simp_all
  have lim': "within_limits rc cs" using lim(1) cs(1) by simp
  have good: "good_push rc path data (int (length ps)) p \<and> cm_offset (ck_metadata (in_chunk (snd p))) < 2 ^ 63" if p: "p \<in> set ps" for p
  proof -
    obtain c where c: "c \<in> set cs" "snd p = push_message path (int (length cs)) v (hashed sf c)" using mem [OF p] by blast
    have calm: "calm (fst p)" using delivered(2) p by (simp add: list_all_iff)
    show ?thesis
      using sent_chunk_good(1) [OF cs(4) c(1) lim' lim(2) n order_refl calm, of path v]
        sent_chunk_good(2) [OF cs(4) c(1) lim' lim(2) n order_refl calm] c(2) len cs(3)
      by (cases p) (simp add: push_message_def)
  qed
  have "mset (map (\<lambda>p. index_of (snd p)) ps) = mset (map (\<lambda>c. cm_index (ck_metadata c)) cs)"
    using arg_cong [OF ms, of "image_mset index_of"] by (simp add: push_message_def image_mset.compositionality o_def)
  then have dist: "distinct (map (\<lambda>p. index_of (snd p)) ps)"
    unfolding laid_out_indices [OF cs(4)] by (rule mset_eq_imp_distinct_iff [THEN iffD2]) (simp add: distinct_map inj_on_def)
  have "covers (map (\<lambda>p. in_chunk (snd p)) ps) (length data)"
    using sent_chunks_cover [OF cs(4) ms] cs(3) by simp
  moreover have "ps \<noteq> []" using len cs(2) by auto
  ultimately show ?thesis
    using pushes_rebuild [OF d idle disk _ _ dist, where data = data and refused = refused] good pu len saved
    by (auto simp: list_all_iff)
qed

text \<open>
  Repeated contents break a push. Every chunk of the file is sent, but each announces only the number \<open>n\<close>
  of different digests. When the pushes arrive in order, the receiver commits after the first \<open>n\<close> of them: the
  destination then ends after chunk \<open>n\<close> (or goes on with what the older file had there). When fewer than \<open>n\<close>
  pushes are left, they begin a new partial file that is never committed, so the file stays as it is.
\<close>

theorem repeated_chunks_lost:
  assumes ok: "reader_ok sf" and src: "ss_fs st (path_join (sf_root sf) path) = Some (FileNode data)" "data \<noteq> []"
    and io: "io_manifest io = Inr None" "io_version io = Inr v" "\<forall>n. io_send io n = Inr ()" "io_save io = Inr ()"
    and cs: "fst (read_source sf (ss_fs st) (path_join (sf_root sf) path)) = cs"
    and n: "n = card ((\<lambda>c. digest (sf_hash sf (ck_data c))) ` set cs)" "n < length cs" "length cs < 2 * n"
    and lim: "within_limits rc cs" "rc_hash rc = sf_hash sf"
    and d: "resolve_within (rc_resolve rc) (rc_sync_root rc) path = Inr d" "pp_parts d \<noteq> []"
    and idle: "dict_get (rp_pending rst) path = None" "int (length (rp_pending rst)) < pl_max_pending_files (rc_limits rc)"
    and disk: "mkdir_parents (path_parent d) (rp_fs rst) = Inr f0" "rp_fs rst d \<noteq> Some DirNode"
      "f0 (temp_path d (ev_rnd (fst (hd ps)))) = None" "f0 (temp_path d (ev_rnd (fst (ps ! n)))) = None"
    and delivered: "map snd ps = drop (length (ss_sent st)) (ss_sent (snd (push sf io path st)))" "list_all (\<lambda>p. calm (fst p)) ps"
  shows "\<exists>rst1. run_events rc refused (map (\<lambda>(ev, i). Push ev i) (take n ps)) rst = (Inr (), rst1) \<and>
    rp_fs rst1 d = Some (FileNode (concat (map ck_data (take n cs)) @
      drop (length (concat (map ck_data (take n cs)))) (file_bytes (rp_fs rst d)))) \<and>
    (int (length (rp_pending rst1)) < pl_max_pending_files (rc_limits rc) \<longrightarrow>
      (\<exists>rst2 pd. run_events rc refused (map (\<lambda>(ev, i). Push ev i) (drop n ps)) rst1 = (Inr (), rst2) \<and>
         rp_fs rst2 d = rp_fs rst1 d \<and> dict_get (rp_pending rst2) path = Some pd))"
proof -
  let ?data = "concat (map ck_data (take n cs))"
  have rs: "laid_out (sf_cid sf (path_join (sf_root sf) path)) 0 0 cs"
    and ps: "map snd ps = map (\<lambda>c. push_message path (int n) v (hashed sf c)) cs"
    using first_push [OF ok src io] delivered(1) cs n(1) by auto
  have len: "length ps = length cs" using arg_cong [OF ps, of length] by simp
  have n1: "1 \<le> int n" "int n \<le> int (length (take n cs))" "int n \<le> int (length cs)" using n by simp_all
  have first: "map snd (take n ps) = map (\<lambda>c. push_message path (int n) v (hashed sf c)) (take n cs)"
    "list_all (\<lambda>p. calm (fst p)) (take n ps)" "int (length (take n ps)) = int n" "take n ps \<noteq> []"
    "f0 (temp_path d (ev_rnd (fst (hd (take n ps))))) = None"
    using ps delivered(2) len n n1 disk(3) by (simp_all add: take_map [symmetric] list_all_iff) (auto dest: in_set_takeD)
  note F = sent_in_order [OF laid_out_take [OF rs] within_limits_take [OF lim(1)] lim(2) n1(1,2) first(1,2)]
  obtain rst1 where run1: "run_events rc refused (map (\<lambda>(ev, i). Push ev i) (take n ps)) rst = (Inr (), rst1)"
    and fs1: "rp_fs rst1 = f0(d \<mapsto> FileNode (?data @ drop (length ?data) (file_bytes (rp_fs rst d))))"
    and idle1: "dict_get (rp_pending rst1) path = None"
    using pushes_rebuild [OF d idle disk(1,2) first(5,4) _ F(3,2,4), of refused] F(1) first(3) by auto
  have mk: "mkdir_parents (path_parent d) (rp_fs rst1) = Inr (rp_fs rst1)"
    unfolding fs1 using mkdir_parents_upd [OF mkdir_parents_again [OF disk(1)] on_the_way_parent [OF d(2)]] by simp
  note R = sent_in_order [OF rs lim n1(1,3) ps delivered(2)]
  have rest: "drop n ps \<noteq> []" "int (length (drop n ps)) < int n" "list_all (good_push rc path (concat (map ck_data cs)) (int n)) (drop n ps)"
    "distinct (map (\<lambda>p. index_of (snd p)) (drop n ps))" "list_all (\<lambda>p. cm_offset (ck_metadata (in_chunk (snd p))) < 2 ^ 63) (drop n ps)"
    "rp_fs rst1 (temp_path d (ev_rnd (fst (hd (drop n ps))))) = None" "rp_fs rst1 d \<noteq> Some DirNode"
    using R n len disk(4) temp_path_neq fs1
    by (simp_all add: hd_drop_conv_nth list_all_iff drop_map [symmetric]) (auto dest: in_set_dropD)
  show ?thesis
    using run1 fs1 pushes_unfinished [OF d idle1 _ mk rest(7,6,1,2,3,4,5), of refused] by auto
qed

text \<open>
  A pulled file is what the peer sent. When this device has no such file and the peer has a manifest of
  at least one chunk, all its chunks are requested; the chunks that come are written at their offsets, the file
  then holds exactly their bytes and the new manifest is recorded for it. In particular the chunks of a file give
  that file. The hashes of the received chunks are not compared with the ones that were requested.
\<close>

theorem pull_writes_received:
  assumes ok: "reader_ok sf" and src: "path_join (sf_root sf) path = source" "pp_parts source \<noteq> []" "ss_fs st source = None"
      "mkdir_parents (path_parent source) (ss_fs st) = Inr f0"
    and mv: "io_manifest io = Inr (Some mv)" "wf_collection (mv_collection mv)" "all_hashed (mv_collection mv)" "cc_chunks (mv_collection mv) \<noteq> []"
    and received: "io_chunks io (digests (cc_chunks (mv_collection mv))) = (cs, None)" "cs \<noteq> []"
      "list_all (\<lambda>c. cm_offset (ck_metadata c) < 2 ^ 63) cs" "\<forall>k. io_write io k = WriteOk" "io_save io = Inr ()"
  shows "\<exists>st' m. pull sf io path st = (Inr \<lparr>sr_transferred_count = int (length cs), sr_direction = None\<rparr>, st') \<and>
    ss_fs st' = f0(source \<mapsto> FileNode (written cs [])) \<and> ss_sent st' = ss_sent st \<and>
    dict_get (ss_repo st') source = Some m \<and> build_manifest sf (ss_fs st') source = Inr m \<and>
    (list_all (chunk_of data) cs \<longrightarrow> covers cs (length data) \<longrightarrow> written cs [] = data)"
proof -
  let ?local = "\<lparr>source_path = source, cc_chunk_size = sf_chunk_size sf, total_size = 0, cc_chunks = []\<rparr>"
  let ?peer = "(mv_collection mv)\<lparr>source_path := source\<rparr>"
  have l: "local_manifest_or_empty sf (ss_fs st) source = Inr ?local"
    using ok read_source_missing [where f = "ss_fs st" and path = source, OF src(3)]
    by (simp add: local_manifest_or_empty_def build_manifest_def mk_ChunkCollection_eq_Inr wf_collection_def reader_ok_def)
  have p: "normalized_peer_manifest io source = Inr (Some ?peer)"
    using mv(1,2) by (simp add: normalized_peer_manifest_def Let_def rbind_eq_Inr mk_ChunkCollection_eq_Inr wf_collection_def)
  obtain plan where plan: "compute_delta (Some ?local) ?peer = Inr plan"
    using mv(3) by (simp add: compute_delta_eq compatible_def all_hashed_def)
  have tr: "chunks_to_transfer plan = cc_chunks (mv_collection mv)"
    using chunks_to_transfer_compute [OF plan] by (simp add: known_hashes_def List.map_filter_def)
  let ?f1 = "f0(source \<mapsto> FileNode (written cs []))"
  have dl: "pull_downloads io source plan (ss_fs st) = (Inr (length cs), ?f1)"
    using write_chunks_new [where f = "ss_fs st" and n = 0, OF received(4) src(2,4,3) received(3,2)] received(1) mv(4)
    by (simp add: pull_downloads_def transfer_count_def tr)
  obtain cs1 where cs1: "read_source sf ?f1 source = (cs1, None)" "laid_out (sf_cid sf source) 0 0 cs1"
    using read_source_file [OF ok, of ?f1 source "written cs []"] by auto
  obtain m where m: "build_manifest sf ?f1 source = Inr m" "source_path m = source"
    using build_manifest_file [OF ok cs1] by auto
  have "pull sf io path st = (Inr \<lparr>sr_transferred_count = int (length cs), sr_direction = None\<rparr>,
      st\<lparr>ss_fs := ?f1, ss_repo := dict_set source m (ss_repo st)\<rparr>)"
    using l p plan dl m received(2,5) src(1) by (simp add: pull_def pull_plan_def save_manifest_def)
  then show ?thesis using m written_all [of data cs "[]"] by auto
qed

text \<open>
  In a conflict the later clock reading decides. When the version vectors are not ordered and each side
  has a chunk the other lacks, \<^verbatim>\<open>sync\<close> replaces the local file by the peer's whenever the second of its two
  clock readings is later than the first, whichever side was changed last; otherwise it does nothing.
\<close>

theorem sync_conflict_by_clock:
  assumes "local_manifest_or_empty sf (ss_fs st) (path_join (sf_root sf) path) = Inr lc"
    and "io_version io = Inr (Some l)" "io_first_manifest io = Inr (Some mv)" "mv_version mv = Some r"
    and "\<not> vv_lt l r" "\<not> vv_lt r l"
    and "\<not> set (digests (cc_chunks lc)) \<subseteq> set (digests (cc_chunks (mv_collection mv)))"
      "\<not> set (digests (cc_chunks (mv_collection mv))) \<subseteq> set (digests (cc_chunks lc))"
  shows "sync sf io path st = (if fst (io_now io) < snd (io_now io) then pull sf io path st else (Inr noop_result, st))"
proof -
  have "direction (resolve_direction (Some lc) (Some l) (Some (mv_collection mv)) (Some r)) = CONFLICT"
    using assms(5-8) by (auto simp: resolve_direction_def resolve_with_versions_def diff_content_hashes_def content_digests_def
        digests_def [symmetric] Let_def filter_empty_conv)
  then show ?thesis
    using assms(1-4) by (simp add: sync_def sync_with_def Let_def sync_conflicts_def last_writer_wins_def)
qed

section \<open>Witnesses\<close>

definition sample_sync :: "int \<Rightarrow> sync_config" where
  "sample_sync n = \<lparr>sf_rd = (\<lambda>want avail. want), sf_next_cut = fixed_next_cut n, sf_pref = n, sf_cid = (\<lambda>p i. codes ''c''),
     sf_clk = (\<lambda>_. 0), sf_hash = rc_hash sample_receiver, sf_root = sample_root, sf_chunk_size = n\<rparr>"

definition sample_io :: sync_io where
  "sample_io = \<lparr>io_manifest = Inr None, io_first_manifest = Inr None, io_version = Inr None, io_send = (\<lambda>_. Inr ()),
     io_chunks = (\<lambda>_. ([], None)), io_write = (\<lambda>_. WriteOk), io_save = Inr (), io_now = (0, 1), io_peer_id = codes ''p'', io_peer_ip = []\<rparr>"

definition sample_source :: "bytes \<Rightarrow> sync_state" where
  "sample_source b = \<lparr>ss_fs = sample_disk(sample_dest \<mapsto> FileNode b), ss_repo = [], ss_sent = []\<rparr>"

lemma sample_reader_ok: "0 < n \<Longrightarrow> reader_ok (sample_sync n)"
  by (simp add: reader_ok_def sample_sync_def fixed_size_strategy delivers_def codes_def)

lemma sample_read: "read_source (sample_sync 4) (ss_fs (sample_source [7, 8])) sample_dest =
   ([chunk_at (\<lambda>_. codes ''c'') (\<lambda>_. 0) 0 0 [7, 8]], None)"
  by (simp add: read_source_def sample_sync_def sample_source_def source_node_def) code_simp

theorem push_delivers_file_witness:
  "\<exists>rst'. run_events sample_receiver (\<lambda>_. False) (map (Push sample_env)
     (ss_sent (snd (push (sample_sync 4) sample_io (codes ''f'') (sample_source [7, 8]))))) sample_state = (Inr (), rst') \<and>
   rp_fs rst' sample_dest = Some (FileNode [7, 8]) \<and>
   dict_get (ss_repo (snd (push (sample_sync 4) sample_io (codes ''f'') (sample_source [7, 8])))) sample_dest \<noteq> None"
proof -
  let ?sf = "sample_sync 4" and ?st = "sample_source [7, 8]"
  let ?ps = "map (Pair sample_env) (ss_sent (snd (push ?sf sample_io (codes ''f'') ?st)))"
  have root: "path_join (sf_root ?sf) (codes ''f'') = sample_dest" using sample_join by (simp add: sample_sync_def)
  have ok: "reader_ok ?sf" by (rule sample_reader_ok) simp
  have src: "ss_fs ?st (path_join (sf_root ?sf) (codes ''f'')) = Some (FileNode [7, 8])" "[7 :: byte, 8] \<noteq> []"
    unfolding root by (simp_all add: sample_source_def)
  have io: "io_manifest sample_io = Inr None" "io_version sample_io = Inr None" "\<forall>n. io_send sample_io n = Inr ()" "io_save sample_io = Inr ()"
    by (simp_all add: sample_io_def)
  have rd: "fst (read_source ?sf (ss_fs ?st) (path_join (sf_root ?sf) (codes ''f''))) = [chunk_at (\<lambda>_. codes ''c'') (\<lambda>_. 0) 0 0 [7, 8]]"
    unfolding root using sample_read by simp
  have diff: "distinct (map (\<lambda>c. digest (sf_hash ?sf (ck_data c))) (fst (read_source ?sf (ss_fs ?st) (path_join (sf_root ?sf) (codes ''f'')))))"
    unfolding rd by simp
  have lim: "within_limits sample_receiver (fst (read_source ?sf (ss_fs ?st) (path_join (sf_root ?sf) (codes ''f''))))" "rc_hash sample_receiver = sf_hash ?sf"
    unfolding rd by (simp_all add: within_limits_def sample_receiver_def default_limits_def sample_sync_def)
  have del: "mset (map snd ?ps) = mset (drop (length (ss_sent ?st)) (ss_sent (snd (push ?sf sample_io (codes ''f'') ?st))))"
    "list_all (\<lambda>p. calm (fst p)) ?ps"
    by (simp_all add: sample_source_def o_def list_all_iff calm_def sample_env_def)
  have free: "rp_fs sample_state sample_dest \<noteq> Some DirNode" "pp_parts sample_dest \<noteq> []" using sample_free(1) by simp_all
  obtain rst' where r: "run_events sample_receiver (\<lambda>_. False) (map (\<lambda>(ev, i). Push ev i) ?ps) sample_state = (Inr (), rst')"
    "rp_fs rst' = sample_disk(sample_dest \<mapsto> FileNode ([7, 8] @ drop (length [7 :: byte, 8]) (file_bytes (rp_fs sample_state sample_dest))))"
    and m: "\<exists>m. ss_repo (snd (push ?sf sample_io (codes ''f'') ?st)) = dict_set (path_join (sf_root ?sf) (codes ''f'')) m (ss_repo ?st)"
    using push_delivers_file [OF ok src io diff lim sample_resolve free(2) sample_idle sample_mkdir free(1) sample_free(2) del, of "\<lambda>_. False"]
    by blast
  have "dict_get (ss_repo (snd (push ?sf sample_io (codes ''f'') ?st))) sample_dest \<noteq> None"
    using m unfolding root by auto
  then show ?thesis using r sample_free(1) by (auto simp: o_def file_bytes_def)
qed

definition two_digests :: "bytes \<Rightarrow> chunk_hash" where
  "two_digests b = \<lparr>algorithm = SHA256, digest = replicate 64 (if b = [9] then 49 else 48)\<rparr>"

lemma sample_read_repeated: "read_source ((sample_sync 1)\<lparr>sf_hash := two_digests\<rparr>) (ss_fs (sample_source [7, 7, 9])) sample_dest =
   ([chunk_at (\<lambda>_. codes ''c'') (\<lambda>_. 0) 0 0 [7], chunk_at (\<lambda>_. codes ''c'') (\<lambda>_. 0) 1 1 [7], chunk_at (\<lambda>_. codes ''c'') (\<lambda>_. 0) 2 2 [9]], None)"
  by (simp add: read_source_def sample_sync_def sample_source_def source_node_def) code_simp

theorem repeated_chunks_lost_witness:
  "\<exists>rst1. run_events (sample_receiver\<lparr>rc_hash := two_digests\<rparr>) (\<lambda>_. False) (map (Push sample_env)
     (take 2 (ss_sent (snd (push ((sample_sync 1)\<lparr>sf_hash := two_digests\<rparr>) sample_io (codes ''f'') (sample_source [7, 7, 9])))))) sample_state
     = (Inr (), rst1) \<and> rp_fs rst1 sample_dest = Some (FileNode [7, 7])"
proof -
  let ?sf = "(sample_sync 1)\<lparr>sf_hash := two_digests\<rparr>" and ?st = "sample_source [7, 7, 9]" and ?rc = "sample_receiver\<lparr>rc_hash := two_digests\<rparr>"
  let ?cs = "[chunk_at (\<lambda>_. codes ''c'') (\<lambda>_. 0) 0 0 [7], chunk_at (\<lambda>_. codes ''c'') (\<lambda>_. 0) 1 1 [7], chunk_at (\<lambda>_. codes ''c'') (\<lambda>_. 0) 2 2 [9]]"
  let ?ps = "map (Pair sample_env) (ss_sent (snd (push ?sf sample_io (codes ''f'') ?st)))"
  have root: "path_join (sf_root ?sf) (codes ''f'') = sample_dest" using sample_join by (simp add: sample_sync_def)
  have ok: "reader_ok ?sf" using sample_reader_ok [of 1] by (simp add: reader_ok_def)
  have src: "ss_fs ?st (path_join (sf_root ?sf) (codes ''f'')) = Some (FileNode [7, 7, 9])" "[7 :: byte, 7, 9] \<noteq> []"
    unfolding root by (simp_all add: sample_source_def)
  have io: "io_manifest sample_io = Inr None" "io_version sample_io = Inr None" "\<forall>n. io_send sample_io n = Inr ()" "io_save sample_io = Inr ()"
    by (simp_all add: sample_io_def)
  have rd: "fst (read_source ?sf (ss_fs ?st) (path_join (sf_root ?sf) (codes ''f''))) = ?cs"
    unfolding root using sample_read_repeated by simp
  have n: "2 = card ((\<lambda>c. digest (sf_hash ?sf (ck_data c))) ` set ?cs)" "2 < length ?cs" "length ?cs < 2 * 2"
    by (simp_all add: two_digests_def)
  have lim: "within_limits ?rc ?cs" "rc_hash ?rc = sf_hash ?sf"
    by (simp_all add: within_limits_def sample_receiver_def default_limits_def)
  have d: "resolve_within (rc_resolve ?rc) (rc_sync_root ?rc) (codes ''f'') = Inr sample_dest" "pp_parts sample_dest \<noteq> []"
    "int (length (rp_pending sample_state)) < pl_max_pending_files (rc_limits ?rc)"
    using sample_resolve sample_idle(2) by simp_all
  have del: "map snd ?ps = drop (length (ss_sent ?st)) (ss_sent (snd (push ?sf sample_io (codes ''f'') ?st)))"
    "list_all (\<lambda>p. calm (fst p)) ?ps"
    by (simp_all add: sample_source_def o_def list_all_iff calm_def sample_env_def)
  have free: "rp_fs sample_state sample_dest \<noteq> Some DirNode" using sample_free(1) by simp
  obtain rst1 where "run_events ?rc (\<lambda>_. False) (map (\<lambda>(ev, i). Push ev i) (take 2 ?ps)) sample_state = (Inr (), rst1)"
    "rp_fs rst1 sample_dest = Some (FileNode (concat (map ck_data (take 2 ?cs)) @
      drop (length (concat (map ck_data (take 2 ?cs)))) (file_bytes (rp_fs sample_state sample_dest))))"
    using repeated_chunks_lost [OF ok src io rd n lim d(1,2) sample_idle(1) d(3) sample_mkdir free sample_free(2) sample_free(2) del, of "\<lambda>_. False"]
    by blast
  then show ?thesis using sample_free(1) by (auto simp: o_def file_bytes_def take_map)
qed

definition sample_manifest :: "nat \<Rightarrow> chunk_collection" where
  "sample_manifest k = \<lparr>source_path = PurePath 0 [codes ''f''], cc_chunk_size = 4, total_size = 2,
     cc_chunks = [\<lparr>chunk_id = codes ''c'', cm_index = 0, cm_size = 2, cm_offset = 0,
       cm_hash = Some \<lparr>algorithm = SHA256, digest = replicate 64 k\<rparr>, created_at = 0\<rparr>]\<rparr>"

definition sample_chunk :: chunk where
  "sample_chunk = chunk_at (\<lambda>_. codes ''c'') (\<lambda>_. 0) 0 0 [7, 8]"

theorem pull_writes_received_witness:
  "\<exists>st'. pull (sample_sync 4) (sample_io\<lparr>io_manifest := Inr (Some \<lparr>mv_collection = sample_manifest 48, mv_version = None\<rparr>),
       io_chunks := (\<lambda>_. ([sample_chunk], None))\<rparr>) (codes ''f'') \<lparr>ss_fs = sample_disk, ss_repo = [], ss_sent = []\<rparr> =
     (Inr \<lparr>sr_transferred_count = 1, sr_direction = None\<rparr>, st') \<and> ss_fs st' sample_dest = Some (FileNode [7, 8])"
proof -
  let ?mv = "\<lparr>mv_collection = sample_manifest 48, mv_version = None\<rparr>" and ?st = "\<lparr>ss_fs = sample_disk, ss_repo = [], ss_sent = []\<rparr>"
  let ?io = "sample_io\<lparr>io_manifest := Inr (Some ?mv), io_chunks := (\<lambda>_. ([sample_chunk], None))\<rparr>"
  have ok: "reader_ok (sample_sync 4)" by (rule sample_reader_ok) simp
  have src: "path_join (sf_root (sample_sync 4)) (codes ''f'') = sample_dest" "pp_parts sample_dest \<noteq> []" "ss_fs ?st sample_dest = None"
    "mkdir_parents (path_parent sample_dest) (ss_fs ?st) = Inr sample_disk"
    using sample_join sample_mkdir sample_free(1) by (simp_all add: sample_sync_def sample_state_def)
  have mv: "io_manifest ?io = Inr (Some ?mv)" "wf_collection (mv_collection ?mv)" "all_hashed (mv_collection ?mv)" "cc_chunks (mv_collection ?mv) \<noteq> []"
    by (simp_all add: sample_manifest_def wf_collection_def all_hashed_def)
  have rec: "io_chunks ?io (digests (cc_chunks (mv_collection ?mv))) = ([sample_chunk], None)" "[sample_chunk] \<noteq> []"
    "list_all (\<lambda>c. cm_offset (ck_metadata c) < 2 ^ 63) [sample_chunk]" "\<forall>k. io_write ?io k = WriteOk" "io_save ?io = Inr ()"
    by (simp_all add: sample_io_def sample_chunk_def)
  have "list_all (chunk_of [7, 8]) [sample_chunk]" "covers [sample_chunk] (length [7 :: byte, 8])"
    by (simp_all add: sample_chunk_def chunk_of_def covers_def wf_chunk_at codes_def)
  then show ?thesis
    using pull_writes_received [OF ok src mv rec, of "[7, 8]"] by auto
qed

theorem sync_conflict_by_clock_witness:
  "sync (sample_sync 4) (sample_io\<lparr>io_version := Inr (Some empty_vector),
      io_first_manifest := Inr (Some \<lparr>mv_collection = sample_manifest 50, mv_version = Some empty_vector\<rparr>), io_now := (5, 5)\<rparr>)
     (codes ''f'') (sample_source [7, 8]) = (Inr noop_result, sample_source [7, 8])"
proof -
  let ?sf = "sample_sync 4" and ?st = "sample_source [7, 8]" and ?mv = "\<lparr>mv_collection = sample_manifest 50, mv_version = Some empty_vector\<rparr>"
  let ?io = "sample_io\<lparr>io_version := Inr (Some empty_vector), io_first_manifest := Inr (Some ?mv), io_now := (5, 5)\<rparr>"
  have root: "path_join (sf_root ?sf) (codes ''f'') = sample_dest" using sample_join by (simp add: sample_sync_def)
  have cid: "sf_cid ?sf p = (\<lambda>_. codes ''c'')" for p by (simp add: sample_sync_def)
  have lo: "laid_out (sf_cid ?sf sample_dest) 0 0 [chunk_at (\<lambda>_. codes ''c'') (\<lambda>_. 0) 0 0 [7, 8]]"
    unfolding cid by (simp add: wf_chunk_at codes_def)
  have ok: "reader_ok ?sf" by (rule sample_reader_ok) simp
  obtain lc where lc: "local_manifest_or_empty ?sf (ss_fs ?st) (path_join (sf_root ?sf) (codes ''f'')) = Inr lc"
    "cc_chunks lc = hash_chunks (sf_hash ?sf) [chunk_at (\<lambda>_. codes ''c'') (\<lambda>_. 0) 0 0 [7, 8]]"
    unfolding root using build_manifest_file [OF ok sample_read lo] by (simp add: local_manifest_or_empty_def)
  have d: "digests (cc_chunks lc) = [replicate 64 48]" "digests (cc_chunks (mv_collection ?mv)) = [replicate 64 50]"
    unfolding lc(2) by (simp_all add: digests_hash_chunks sample_sync_def sample_receiver_def)
      (simp add: digests_def sample_manifest_def List.map_filter_simps)
  have vv: "\<not> vv_lt empty_vector empty_vector" by (simp add: vv_lt_def vv_eq_def)
  have n: "\<not> set (digests (cc_chunks lc)) \<subseteq> set (digests (cc_chunks (mv_collection ?mv)))"
    "\<not> set (digests (cc_chunks (mv_collection ?mv))) \<subseteq> set (digests (cc_chunks lc))"
    unfolding d by simp_all
  have io: "io_version ?io = Inr (Some empty_vector)" "io_first_manifest ?io = Inr (Some ?mv)" "mv_version ?mv = Some empty_vector"
    by simp_all
  show ?thesis using sync_conflict_by_clock [OF lc(1) io vv vv n] by simp
qed

end
