(* ===== verification/X25519_Handshake.thy ===== *)
theory X25519_Handshake
  imports Handshake_V3 Messages Session_Store Decimal
begin

text \<open>
  \<^verbatim>\<open>networking/x25519_handshake.py\<close>: the two-message handshake that \<^verbatim>\<open>main.py\<close> wires up, its server, the
  session coordinator (\<^verbatim>\<open>x25519_session_coordinator.py\<close>) and the task that stores inbound results
  (\<^verbatim>\<open>main._drain_inbound_handshakes\<close>). Messages are MessagePack dictionaries taken from the wire without
  a schema, so every field is looked up where the code looks it up. The socket is what each connect,
  read and write yields; key exchange, signatures, HKDF and MessagePack are fields of \<open>x_crypto\<close>. The device id is
  looked up and pinned by the trust file before anything needs it to be a text, so what the file does with other values is part of
  the model. A port that is not a number, which the code would keep in the session, is refused where it is read.
\<close>

section \<open>Environment\<close>

record x_crypto =
  xc_sign :: "bytes \<Rightarrow> bytes \<Rightarrow> bytes" \<comment> \<open>private key, message\<close>
  xc_verify :: "mval \<Rightarrow> mval \<Rightarrow> mval \<Rightarrow> bool result" \<comment> \<open>public key, message, signature\<close>
  xc_dh :: "bytes \<Rightarrow> bytes \<Rightarrow> bytes result" \<comment> \<open>private key, peer public key\<close>
  xc_hkdf :: hkdf
  xc_packb :: "mval \<Rightarrow> bytes result"
  xc_unpackb :: "bytes \<Rightarrow> mval result"
  xc_float_text :: "real \<Rightarrow> pystr" \<comment> \<open>what \<^verbatim>\<open>json\<close> writes for a float\<close>

record x_owner =
  xo_device_id :: pystr
  xo_transfer_port :: int
  xo_manifest_port :: int
  xo_private_key :: bytes
  xo_public_key :: bytes

record x_io =
  xi_connect :: "unit result"
  xi_write :: "unit result"
  xi_read :: "bytes result"

definition SALT_SIZE :: nat where "SALT_SIZE = 16"

text \<open>\<^verbatim>\<open>a + b\<close> on two values of the wire.\<close>

fun py_add :: "mval \<Rightarrow> mval \<Rightarrow> mval result" where
  "py_add (MBin a) (MBin b) = Inr (MBin (a @ b))"
| "py_add (MStr a) (MStr b) = Inr (MStr (a @ b))"
| "py_add (MList a) (MList b) = Inr (MList (a @ b))"
| "py_add (MInt a) (MInt b) = Inr (MInt (a + b))"
| "py_add (MInt a) (MBool b) = Inr (MInt (a + (if b then 1 else 0)))"
| "py_add (MBool a) (MInt b) = Inr (MInt ((if a then 1 else 0) + b))"
| "py_add (MBool a) (MBool b) = Inr (MInt ((if a then 1 else 0) + (if b then 1 else 0)))"
| "py_add (MFloat a) (MFloat b) = Inr (MFloat (a + b))"
| "py_add (MFloat a) (MInt b) = Inr (MFloat (a + of_int b))"
| "py_add (MInt a) (MFloat b) = Inr (MFloat (of_int a + b))"
| "py_add (MFloat a) (MBool b) = Inr (MFloat (a + (if b then 1 else 0)))"
| "py_add (MBool a) (MFloat b) = Inr (MFloat ((if a then 1 else 0) + b))"
| "py_add _ _ = Inl (Py TypeError)"

text \<open>\<^verbatim>\<open>v.encode\<close> exists for texts only.\<close>

definition as_text :: "mval \<Rightarrow> pystr result" where
  "as_text v = (case v of MStr s \<Rightarrow> Inr s | _ \<Rightarrow> Inl (Py AttributeError))"

definition as_port :: "mval \<Rightarrow> int result" where
  "as_port v = (case v of MInt n \<Rightarrow> Inr n | _ \<Rightarrow> Inl (Py TypeError))"

section \<open>The handshake\<close>

definition write_message :: "x_crypto \<Rightarrow> unit result \<Rightarrow> mval \<Rightarrow> unit result" where
  "write_message xc outcome message =
     rbind (xc_packb xc message) (\<lambda>data. rbind (write_length_prefixed data) (\<lambda>_. outcome))"

definition read_message :: "x_crypto \<Rightarrow> bytes result \<Rightarrow> mval result" where
  "read_message xc outcome = rbind outcome (xc_unpackb xc)"

text \<open>\<^verbatim>\<open>_verify_and_trust\<close>: the signature, then the pin, then the pin is written.\<close>

definition verify_message :: "x_crypto \<Rightarrow> mval \<Rightarrow> mval \<Rightarrow> mval result" where
  "verify_message xc message signed_data =
     rbind (getitem message ''identity_public_key'') (\<lambda>identity_public_key.
     rbind (getitem message ''signature'') (\<lambda>signature.
     rbind (xc_verify xc identity_public_key signed_data signature) (\<lambda>ok.
     if ok then Inr identity_public_key
     else rbind (getitem message ''device_id'') (\<lambda>_. Inl (Domain InvalidHandshakeSignatureError)))))"

text \<open>
  The id under which the trust file pins a key. No other value than a text is found in it. Writing one, \<^verbatim>\<open>json\<close> turns numbers,
  booleans and \<^verbatim>\<open>None\<close> into texts, but with \<^verbatim>\<open>sort_keys\<close> it cannot compare them with the texts that are there, so
  this works in an empty store only; a list or a dictionary is not a key at all and bytes cannot be written.
\<close>

definition json_name :: "x_crypto \<Rightarrow> mval \<Rightarrow> pystr result" where
  "json_name xc v =
     (case v of
        MNil \<Rightarrow> Inr (codes ''null'')
      | MBool b \<Rightarrow> Inr (if b then codes ''true'' else codes ''false'')
      | MInt n \<Rightarrow> Inr (if n < 0 then codes ''-'' @ decimal (nat (- n)) else decimal (nat n))
      | MFloat x \<Rightarrow> Inr (xc_float_text xc x)
      | _ \<Rightarrow> Inl (Py TypeError))"

definition pin_name :: "x_crypto \<Rightarrow> trust_store \<Rightarrow> mval \<Rightarrow> pystr result" where
  "pin_name xc ts v = (case v of MStr s \<Rightarrow> Inr s | _ \<Rightarrow> raise_if (ts \<noteq> []) (Py TypeError) (json_name xc v))"

definition presented_key :: "x_crypto \<Rightarrow> trust_store \<Rightarrow> mval \<Rightarrow> mval \<Rightarrow> (pystr \<times> bytes) result" where
  "presented_key xc ts message signed_data =
     rbind (verify_message xc message signed_data) (\<lambda>identity_public_key.
     rbind (getitem message ''device_id'') (\<lambda>d.
     rbind (pin_name xc ts d) (\<lambda>device_id.
     rbind (as_bytes identity_public_key) (\<lambda>key. Inr (device_id, key)))))"

definition verify_and_trust :: "x_crypto \<Rightarrow> mval \<Rightarrow> mval \<Rightarrow> trust_store \<Rightarrow> unit result \<times> trust_store" where
  "verify_and_trust xc message signed_data ts =
     (case presented_key xc ts message signed_data of
        Inl e \<Rightarrow> (Inl e, ts)
      | Inr (device_id, key) \<Rightarrow>
          (case get_trusted_key ts device_id of
             Some trusted_key \<Rightarrow>
               if trusted_key \<noteq> key then (Inl (Domain PeerIdentityMismatchError), ts)
               else (Inr (), trust device_id key ts)
           | None \<Rightarrow> (Inr (), trust device_id key ts)))"

text \<open>Keys and result from the other side's message.\<close>

definition x_result ::
  "x_crypto \<Rightarrow> x_owner \<Rightarrow> bytes \<times> bytes \<Rightarrow> bytes \<Rightarrow> mval \<Rightarrow> int \<Rightarrow> handshake_result result" where
  "x_result xc owner eph salt message role =
     rbind (getitem message ''public_key'') (\<lambda>pk.
     rbind (as_bytes pk) (\<lambda>peer_public.
     rbind (xc_dh xc (fst eph) peer_public) (\<lambda>shared_secret.
     rbind (getitem message ''device_id'') (\<lambda>d.
     rbind (as_text d) (\<lambda>peer_id.
     rbind (if role = ROLE_INITIATOR
            then derive_session_keys (xc_hkdf xc) shared_secret salt (xo_device_id owner) peer_id (snd eph) peer_public role
            else derive_session_keys (xc_hkdf xc) shared_secret salt peer_id (xo_device_id owner) peer_public (snd eph) role) (\<lambda>keys.
     rbind (getitem message ''transfer_port'') (\<lambda>tp. rbind (as_port tp) (\<lambda>transfer_port.
     rbind (getitem message ''manifest_port'') (\<lambda>mp. rbind (as_port mp) (\<lambda>manifest_port.
     Inr \<lparr>hr_peer_device_id = peer_id, hr_session_id = sk_session_id keys, hr_role = role, hr_send_key = sk_send_key keys,
          hr_receive_key = sk_receive_key keys, hr_peer_transfer_port = transfer_port, hr_peer_manifest_port = manifest_port\<rparr>))))))))))"

definition request_message :: "x_crypto \<Rightarrow> x_owner \<Rightarrow> bytes \<Rightarrow> bytes \<Rightarrow> mval" where
  "request_message xc owner salt public_key =
     record_of [(''device_id'', MStr (xo_device_id owner)), (''transfer_port'', MInt (xo_transfer_port owner)),
       (''manifest_port'', MInt (xo_manifest_port owner)), (''salt'', MBin salt), (''public_key'', MBin public_key),
       (''identity_public_key'', MBin (xo_public_key owner)),
       (''signature'', MBin (xc_sign xc (xo_private_key owner) (salt @ public_key)))]"

definition response_message :: "x_crypto \<Rightarrow> x_owner \<Rightarrow> bytes \<Rightarrow> bytes \<Rightarrow> mval" where
  "response_message xc owner salt public_key =
     record_of [(''device_id'', MStr (xo_device_id owner)), (''transfer_port'', MInt (xo_transfer_port owner)),
       (''manifest_port'', MInt (xo_manifest_port owner)), (''public_key'', MBin public_key),
       (''identity_public_key'', MBin (xo_public_key owner)),
       (''signature'', MBin (xc_sign xc (xo_private_key owner) (salt @ public_key)))]"

text \<open>
  The message of the other side and the bytes its signature has to cover; \<open>eph\<close> is the fresh key pair, \<open>salt\<close>
  the 16 random bytes.
\<close>

definition initiator_reads :: "x_crypto \<Rightarrow> x_owner \<Rightarrow> bytes \<times> bytes \<Rightarrow> bytes \<Rightarrow> x_io \<Rightarrow> (mval \<times> mval) result" where
  "initiator_reads xc owner eph salt io =
     rbind (xi_connect io) (\<lambda>_.
     rbind (write_message xc (xi_write io) (request_message xc owner salt (snd eph))) (\<lambda>_.
     rbind (read_message xc (xi_read io)) (\<lambda>response.
     rbind (getitem response ''public_key'') (\<lambda>pk.
     rbind (py_add (MBin salt) pk) (\<lambda>signed_data. Inr (response, signed_data))))))"

definition initiate ::
  "x_crypto \<Rightarrow> x_owner \<Rightarrow> bytes \<times> bytes \<Rightarrow> bytes \<Rightarrow> x_io \<Rightarrow> trust_store \<Rightarrow> handshake_result result \<times> trust_store" where
  "initiate xc owner eph salt io ts =
     (case initiator_reads xc owner eph salt io of
        Inl e \<Rightarrow> (Inl e, ts)
      | Inr (response, signed_data) \<Rightarrow>
          (case verify_and_trust xc response signed_data ts of
             (Inl e, ts1) \<Rightarrow> (Inl e, ts1)
           | (Inr _, ts1) \<Rightarrow> (x_result xc owner eph salt response ROLE_INITIATOR, ts1)))"

definition responder_reads :: "x_crypto \<Rightarrow> x_io \<Rightarrow> (mval \<times> mval \<times> mval) result" where
  "responder_reads xc io =
     rbind (read_message xc (xi_read io)) (\<lambda>request.
     rbind (getitem request ''salt'') (\<lambda>salt.
     rbind (getitem request ''public_key'') (\<lambda>pk.
     rbind (py_add salt pk) (\<lambda>signed_data. Inr (request, salt, signed_data)))))"

definition responder_answer :: "x_crypto \<Rightarrow> x_owner \<Rightarrow> bytes \<times> bytes \<Rightarrow> x_io \<Rightarrow> mval \<Rightarrow> mval \<Rightarrow> handshake_result result" where
  "responder_answer xc owner eph io request salt =
     rbind (as_bytes salt) (\<lambda>salt_bytes.
     rbind (write_message xc (xi_write io) (response_message xc owner salt_bytes (snd eph))) (\<lambda>_.
     x_result xc owner eph salt_bytes request ROLE_RESPONDER))"

definition accept_request ::
  "x_crypto \<Rightarrow> x_owner \<Rightarrow> bytes \<times> bytes \<Rightarrow> x_io \<Rightarrow> trust_store \<Rightarrow> handshake_result result \<times> trust_store" where
  "accept_request xc owner eph io ts =
     (case responder_reads xc io of
        Inl e \<Rightarrow> (Inl e, ts)
      | Inr (request, salt, signed_data) \<Rightarrow>
          (case verify_and_trust xc request signed_data ts of
             (Inl e, ts1) \<Rightarrow> (Inl e, ts1)
           | (Inr _, ts1) \<Rightarrow> (responder_answer xc owner eph io request salt, ts1)))"

section \<open>The server\<close>

record x_server =
  xs_limiter :: ip_limiter
  xs_active :: int
  xs_results :: "handshake_result list"
  xs_trusted :: trust_store

text \<open>
  \<^verbatim>\<open>_handle_connection\<close> up to its first await: refused by the rate limit, refused because too many
  connections are open, or let in.
\<close>

definition server_open :: "real \<Rightarrow> pystr \<Rightarrow> x_server \<Rightarrow> bool \<times> x_server" where
  "server_open now source_ip sv =
     (case ip_allow now source_ip (xs_limiter sv) of
        (ok, l) \<Rightarrow>
          let sv1 = sv\<lparr>xs_limiter := l\<rparr> in
          if \<not> ok \<or> xs_active sv1 \<ge> MAX_CONCURRENT_CONNECTIONS then (False, sv1)
          else (True, sv1\<lparr>xs_active := xs_active sv1 + 1\<rparr>))"

text \<open>The handshake of a connection that was let in, and its end; \<open>Inl\<close> is an exception that is not caught.\<close>

definition server_caught :: "exn \<Rightarrow> bool" where
  "server_caught e \<longleftrightarrow>
     (case e of
        Py p \<Rightarrow> p \<in> {IncompleteReadError, ConnectionError, KeyError}
      | Domain d \<Rightarrow> d \<in> {InvalidHandshakeSignatureError, PeerIdentityMismatchError}
      | Protocol _ \<Rightarrow> True
      | _ \<Rightarrow> False)"

definition server_finish :: "x_crypto \<Rightarrow> x_owner \<Rightarrow> bytes \<times> bytes \<Rightarrow> x_io \<Rightarrow> x_server \<Rightarrow> unit result \<times> x_server" where
  "server_finish xc owner eph io sv =
     (case accept_request xc owner eph io (xs_trusted sv) of
        (res, ts) \<Rightarrow>
          let sv1 = sv\<lparr>xs_trusted := ts, xs_active := xs_active sv - 1\<rparr> in
          (case res of
             Inr r \<Rightarrow> (Inr (), sv1\<lparr>xs_results := xs_results sv1 @ [r]\<rparr>)
           | Inl e \<Rightarrow> (if server_caught e then Inr () else Inl e, sv1)))"

datatype server_event = Opened real pystr | Finished "bytes \<times> bytes" x_io

text \<open>A connection finishes only if one is open.\<close>

fun server_step :: "x_crypto \<Rightarrow> x_owner \<Rightarrow> server_event \<Rightarrow> x_server \<Rightarrow> x_server" where
  "server_step xc owner (Opened now ip) sv = snd (server_open now ip sv)"
| "server_step xc owner (Finished eph io) sv = (if xs_active sv > 0 then snd (server_finish xc owner eph io sv) else sv)"

section \<open>Storing sessions\<close>

definition session_of :: "real \<Rightarrow> bool \<Rightarrow> window \<Rightarrow> handshake_result \<Rightarrow> peer_session" where
  "session_of now confirmed w r =
     \<lparr>ps_peer_id = hr_peer_device_id r, ps_session_id = hr_session_id r, ps_role = hr_role r, ps_send_key = hr_send_key r,
      ps_receive_key = hr_receive_key r, ps_transfer_port = hr_peer_transfer_port r, ps_manifest_port = hr_peer_manifest_port r,
      ps_confirmed = confirmed, ps_created_at = now, ps_last_activity = now, ps_next_send_counter = 1, ps_sent_count = 0,
      ps_receive_window = w\<rparr>"

definition put_result :: "real \<Rightarrow> bool \<Rightarrow> handshake_result \<Rightarrow> session_store \<Rightarrow> unit result \<times> session_store" where
  "put_result now confirmed r st =
     (case mk_AntiReplayWindow DEFAULT_REPLAY_WINDOW_SIZE of
        Inl e \<Rightarrow> (Inl e, st)
      | Inr w \<Rightarrow> put now (session_of now confirmed w r) st)"

text \<open>\<^verbatim>\<open>X25519SessionCoordinator.ensure_session\<close>; \<open>handshake\<close> is what \<^verbatim>\<open>initiate\<close> yields, if it is called.\<close>

definition ensure_session :: "real \<Rightarrow> pystr \<Rightarrow> handshake_result result \<Rightarrow> session_store \<Rightarrow> unit result \<times> session_store" where
  "ensure_session now device_id handshake st =
     (if has_confirmed_session st device_id then (Inr (), st)
      else (case handshake of
              Inl e \<Rightarrow> (Inl e, st)
            | Inr r \<Rightarrow> put_result now True r st))"

text \<open>\<^verbatim>\<open>_drain_inbound_handshakes\<close>: ends at the first session the store refuses.\<close>

fun drain_inbound :: "(real \<times> handshake_result) list \<Rightarrow> session_store \<Rightarrow> unit result \<times> session_store" where
  "drain_inbound [] st = (Inr (), st)"
| "drain_inbound ((now, r) # rs) st =
     (case put_result now False r st of
        (Inl e, st1) \<Rightarrow> (Inl e, st1)
      | (Inr _, st1) \<Rightarrow> drain_inbound rs st1)"

section \<open>Lemmas\<close>

lemma as_text_eq_Inr [result_simps]: "as_text v = Inr s \<longleftrightarrow> v = MStr s"
  by (cases v) (simp_all add: as_text_def)

lemma as_port_eq_Inr [result_simps]: "as_port v = Inr n \<longleftrightarrow> v = MInt n"
  by (cases v) (simp_all add: as_port_def)

lemma verify_message_eq_Inr:
  "verify_message xc m sd = Inr k \<longleftrightarrow>
     (\<exists>sig. getitem m ''identity_public_key'' = Inr k \<and> getitem m ''signature'' = Inr sig \<and> xc_verify xc k sd sig = Inr True)"
  by (auto simp: verify_message_def result_simps split: if_splits)

text \<open>
  What a message has to be for its key to be pinned: the signature verifies under the key, and the id is a text, or the store
  was empty and \<^verbatim>\<open>json\<close> wrote the id as one.
\<close>

definition key_verified :: "x_crypto \<Rightarrow> mval \<Rightarrow> mval \<Rightarrow> bytes \<Rightarrow> bool" where
  "key_verified xc m sd k \<longleftrightarrow> getitem m ''identity_public_key'' = Inr (MBin k) \<and>
     (\<exists>sig. getitem m ''signature'' = Inr sig \<and> xc_verify xc (MBin k) sd sig = Inr True)"

definition proves_key :: "x_crypto \<Rightarrow> mval \<Rightarrow> mval \<Rightarrow> pystr \<Rightarrow> bytes \<Rightarrow> bool" where
  "proves_key xc m sd d k \<longleftrightarrow> getitem m ''device_id'' = Inr (MStr d) \<and> key_verified xc m sd k"

definition proves_pin :: "x_crypto \<Rightarrow> trust_store \<Rightarrow> mval \<Rightarrow> mval \<Rightarrow> pystr \<Rightarrow> bytes \<Rightarrow> bool" where
  "proves_pin xc ts m sd d k \<longleftrightarrow> proves_key xc m sd d k \<or>
     (ts = [] \<and> (\<exists>v. getitem m ''device_id'' = Inr v \<and> json_name xc v = Inr d) \<and> key_verified xc m sd k)"

lemma pin_name_eq_Inr: "pin_name xc ts v = Inr d \<longleftrightarrow> v = MStr d \<or> ts = [] \<and> json_name xc v = Inr d"
  by (cases v) (auto simp: pin_name_def json_name_def raise_if_eq_Inr)

lemma presented_key_eq_Inr: "presented_key xc ts m sd = Inr (d, k) \<longleftrightarrow> proves_pin xc ts m sd d k"
  by (auto simp: presented_key_def proves_pin_def proves_key_def key_verified_def result_simps verify_message_eq_Inr pin_name_eq_Inr)

lemma proves_pin_text: "getitem m ''device_id'' = Inr (MStr i) \<Longrightarrow> proves_pin xc ts m sd d k \<Longrightarrow> d = i"
  by (auto simp: proves_pin_def proves_key_def json_name_def)

lemma verify_and_trust_cases:
  assumes "verify_and_trust xc m sd ts = (r, ts')"
  obtains (refused) e where "r = Inl e" "ts' = ts"
  | (pinned) d k where "r = Inr ()" "proves_pin xc ts m sd d k" "get_trusted_key ts d \<in> {None, Some k}" "ts' = trust d k ts"
proof (cases "presented_key xc ts m sd")
  case (Inl e)
  then show ?thesis using assms refused by (auto simp: verify_and_trust_def)
next
  case (Inr x)
  obtain d k where x: "x = (d, k)" by (cases x)
  then have pk: "proves_pin xc ts m sd d k" using Inr presented_key_eq_Inr by simp
  show ?thesis
  proof (cases "get_trusted_key ts d \<in> {None, Some k}")
    case True
    then have "r = Inr ()" "ts' = trust d k ts" using assms Inr x by (auto simp: verify_and_trust_def)
    then show ?thesis using pinned pk True by simp
  next
    case False
    then have "r = Inl (Domain PeerIdentityMismatchError)" "ts' = ts"
      using assms Inr x by (auto simp: verify_and_trust_def split: option.splits)
    then show ?thesis by (rule refused)
  qed
qed

lemma verify_and_trust_pins:
  assumes "proves_key xc m sd d k" "get_trusted_key ts d \<in> {None, Some k}"
  shows "verify_and_trust xc m sd ts = (Inr (), trust d k ts)"
proof -
  have "presented_key xc ts m sd = Inr (d, k)" unfolding presented_key_eq_Inr proves_pin_def using assms(1) by blast
  then show ?thesis using assms(2) by (auto simp: verify_and_trust_def)
qed

lemma x_result_peer: "x_result xc owner eph salt m role = Inr r \<Longrightarrow> getitem m ''device_id'' = Inr (MStr (hr_peer_device_id r))"
  by (auto simp: x_result_def result_simps)

lemma responder_answer_peer:
  "responder_answer xc owner eph io m salt = Inr r \<Longrightarrow> getitem m ''device_id'' = Inr (MStr (hr_peer_device_id r))"
  by (auto simp: responder_answer_def result_simps dest: x_result_peer)

text \<open>The signature covers a salt and the ephemeral key of the message.\<close>

definition signed_part :: "mval \<Rightarrow> mval \<Rightarrow> mval \<Rightarrow> bool" where
  "signed_part salt m sd \<longleftrightarrow> (\<exists>pk. getitem m ''public_key'' = Inr pk \<and> py_add salt pk = Inr sd)"

lemma initiator_reads_eq_Inr:
  "initiator_reads xc owner eph salt io = Inr (m, sd) \<Longrightarrow> read_message xc (xi_read io) = Inr m \<and> signed_part (MBin salt) m sd"
  by (auto simp: initiator_reads_def signed_part_def result_simps)

lemma responder_reads_eq_Inr:
  "responder_reads xc io = Inr (m, salt, sd) \<longleftrightarrow>
     read_message xc (xi_read io) = Inr m \<and> getitem m ''salt'' = Inr salt \<and> signed_part salt m sd"
  by (auto simp: responder_reads_def signed_part_def result_simps)

lemma initiate_cases:
  assumes "initiate xc owner eph salt io ts = (res, ts')"
  obtains (refused) e where "res = Inl e" "ts' = ts"
  | (pinned) m sd d k where "read_message xc (xi_read io) = Inr m" "signed_part (MBin salt) m sd" "proves_pin xc ts m sd d k"
      "get_trusted_key ts d \<in> {None, Some k}" "ts' = trust d k ts" "res = x_result xc owner eph salt m ROLE_INITIATOR"
proof (cases "initiator_reads xc owner eph salt io")
  case (Inl e)
  then show ?thesis using assms refused by (auto simp: initiate_def)
next
  case (Inr x)
  obtain m sd where x: "x = (m, sd)" by (cases x)
  obtain r ts1 where v: "verify_and_trust xc m sd ts = (r, ts1)" by (cases "verify_and_trust xc m sd ts")
  from v show ?thesis
  proof (cases rule: verify_and_trust_cases)
    case (refused e)
    then show ?thesis using assms Inr x v that(1) by (auto simp: initiate_def)
  next
    case (pinned d k)
    have rd: "read_message xc (xi_read io) = Inr m" "signed_part (MBin salt) m sd"
      using initiator_reads_eq_Inr [of xc owner eph salt io m sd] Inr x by simp_all
    have "res = x_result xc owner eph salt m ROLE_INITIATOR" "ts' = trust d k ts"
      using assms Inr x v pinned by (simp_all add: initiate_def)
    then show ?thesis using that(2) [OF rd pinned(2,3)] by simp
  qed
qed

lemma accept_cases:
  assumes "accept_request xc owner eph io ts = (res, ts')"
  obtains (refused) e where "res = Inl e" "ts' = ts"
  | (pinned) m salt sd d k where "read_message xc (xi_read io) = Inr m" "getitem m ''salt'' = Inr salt" "signed_part salt m sd"
      "proves_pin xc ts m sd d k" "get_trusted_key ts d \<in> {None, Some k}" "ts' = trust d k ts"
      "res = responder_answer xc owner eph io m salt"
proof (cases "responder_reads xc io")
  case (Inl e)
  then show ?thesis using assms refused by (auto simp: accept_request_def)
next
  case (Inr x)
  obtain m salt sd where x: "x = (m, salt, sd)" by (cases x)
  obtain r ts1 where v: "verify_and_trust xc m sd ts = (r, ts1)" by (cases "verify_and_trust xc m sd ts")
  from v show ?thesis
  proof (cases rule: verify_and_trust_cases)
    case (refused e)
    then show ?thesis using assms Inr x v that(1) by (auto simp: accept_request_def)
  next
    case (pinned d k)
    have rd: "read_message xc (xi_read io) = Inr m" "getitem m ''salt'' = Inr salt" "signed_part salt m sd"
      using responder_reads_eq_Inr [of xc io m salt sd] Inr x by simp_all
    have "res = responder_answer xc owner eph io m salt" "ts' = trust d k ts"
      using assms Inr x v pinned by (simp_all add: accept_request_def)
    then show ?thesis using that(2) [OF rd pinned(2,3)] by simp
  qed
qed

lemma trust_keeps_pins:
  "get_trusted_key ts d \<in> {None, Some k} \<Longrightarrow> get_trusted_key ts d' = Some k' \<Longrightarrow> get_trusted_key (trust d k ts) d' = Some k'"
  by (auto simp: get_trusted_key_def trust_def)

text \<open>Both ends of an honest exchange.\<close>

lemma proves_key_request:
  "xc_verify xc (MBin (xo_public_key a)) (MBin (salt @ pk)) (MBin (xc_sign xc (xo_private_key a) (salt @ pk))) = Inr True \<Longrightarrow>
   proves_key xc (request_message xc a salt pk) (MBin (salt @ pk)) (xo_device_id a) (xo_public_key a)"
  by (simp add: proves_key_def key_verified_def request_message_def)

lemma proves_key_response:
  "xc_verify xc (MBin (xo_public_key a)) (MBin (salt @ pk)) (MBin (xc_sign xc (xo_private_key a) (salt @ pk))) = Inr True \<Longrightarrow>
   proves_key xc (response_message xc a salt pk) (MBin (salt @ pk)) (xo_device_id a) (xo_public_key a)"
  by (simp add: proves_key_def key_verified_def response_message_def)

section \<open>The server's invariant\<close>

definition server_inv :: "x_server \<Rightarrow> bool" where
  "server_inv sv \<longleftrightarrow> 0 \<le> xs_active sv \<and> xs_active sv \<le> MAX_CONCURRENT_CONNECTIONS"

interpretation handshake_server: machine_inv "server_step xc owner" server_inv for xc owner
proof
  fix sv e assume "server_inv sv"
  then show "server_inv (server_step xc owner e sv)"
    by (cases e) (auto simp: server_inv_def server_open_def server_finish_def Let_def split: prod.splits sum.splits)
qed

section \<open>Properties\<close>

text \<open>
  C23: Only proved keys are pinned, and no pin is ever replaced. However a run of either side ends, the trust
  store is unchanged and there is no result, or the other side's message carried a signature, valid under the
  identity key it names, over a salt and its ephemeral key, and the one pin written is that key for the device id
  of the message (or, in an empty store, for what \<^verbatim>\<open>json\<close> makes of an id that is not a text), for which there was no
  other pin; a result is then about that device. For the initiator the
  salt is its own fresh one.
\<close>

theorem x25519_pins_only_proved:
  assumes "(if initiator then initiate xc owner eph own_salt io ts else accept_request xc owner eph io ts) = (res, ts')"
  shows "((\<forall>r. res \<noteq> Inr r) \<and> ts' = ts \<or>
      (\<exists>m salt sd d k. read_message xc (xi_read io) = Inr m \<and> signed_part salt m sd \<and> proves_pin xc ts m sd d k \<and>
         (if initiator then salt = MBin own_salt else getitem m ''salt'' = Inr salt) \<and>
         get_trusted_key ts d \<in> {None, Some k} \<and> ts' = trust d k ts \<and> (\<forall>r. res = Inr r \<longrightarrow> hr_peer_device_id r = d))) \<and>
    (\<forall>d k. get_trusted_key ts d = Some k \<longrightarrow> get_trusted_key ts' d = Some k)"
proof (cases initiator)
  case True
  then have "initiate xc owner eph own_salt io ts = (res, ts')" using assms by simp
  then show ?thesis
  proof (cases rule: initiate_cases)
    case (pinned m sd d k)
    then have "\<forall>r. res = Inr r \<longrightarrow> hr_peer_device_id r = d"
      using x_result_peer [of xc owner eph own_salt m ROLE_INITIATOR] proves_pin_text [OF _ pinned(3)] by fastforce
    then have "\<exists>m salt sd d k. read_message xc (xi_read io) = Inr m \<and> signed_part salt m sd \<and> proves_pin xc ts m sd d k \<and>
         (if initiator then salt = MBin own_salt else getitem m ''salt'' = Inr salt) \<and>
         get_trusted_key ts d \<in> {None, Some k} \<and> ts' = trust d k ts \<and> (\<forall>r. res = Inr r \<longrightarrow> hr_peer_device_id r = d)"
      by (intro exI [of _ m] exI [of _ "MBin own_salt"] exI [of _ sd] exI [of _ d] exI [of _ k]) (use pinned True in simp)
    moreover have "\<forall>d k. get_trusted_key ts d = Some k \<longrightarrow> get_trusted_key ts' d = Some k"
      using trust_keeps_pins [OF pinned(4)] pinned(5) by simp
    ultimately show ?thesis by (intro conjI disjI2)
  qed auto
next
  case False
  then have "accept_request xc owner eph io ts = (res, ts')" using assms by simp
  then show ?thesis
  proof (cases rule: accept_cases)
    case (pinned m salt sd d k)
    then have "\<forall>r. res = Inr r \<longrightarrow> hr_peer_device_id r = d"
      using responder_answer_peer [of xc owner eph io m salt] proves_pin_text [OF _ pinned(4)] by fastforce
    then have "\<exists>m salt sd d k. read_message xc (xi_read io) = Inr m \<and> signed_part salt m sd \<and> proves_pin xc ts m sd d k \<and>
         (if initiator then salt = MBin own_salt else getitem m ''salt'' = Inr salt) \<and>
         get_trusted_key ts d \<in> {None, Some k} \<and> ts' = trust d k ts \<and> (\<forall>r. res = Inr r \<longrightarrow> hr_peer_device_id r = d)"
      by (intro exI [of _ m] exI [of _ salt] exI [of _ sd] exI [of _ d] exI [of _ k]) (use pinned False in simp)
    moreover have "\<forall>d k. get_trusted_key ts d = Some k \<longrightarrow> get_trusted_key ts' d = Some k"
      using trust_keeps_pins [OF pinned(5)] pinned(6) by simp
    ultimately show ?thesis by (intro conjI disjI2)
  qed auto
qed

text \<open>
  Two honest ends agree. When the laws of the third-party code hold (own signatures verify, the key exchange is
  symmetric, messages survive MessagePack), neither side has another key pinned for the other and the messages
  arrive, then both sides finish: they hold the same session id, each one's send key is the other's receive key, each
  knows the other's device id and ports, and each has pinned the other's identity key.
\<close>

theorem x25519_handshake_agrees:
  assumes sig: "\<And>p msg. p = a \<or> p = b \<Longrightarrow>
      xc_verify xc (MBin (xo_public_key p)) (MBin msg) (MBin (xc_sign xc (xo_private_key p) msg)) = Inr True"
    and dh: "xc_dh xc (fst ea) (snd eb) = Inr z" "xc_dh xc (fst eb) (snd ea) = Inr z"
    and hkdf: "hkdf_length (xc_hkdf xc)"
    and wire: "xc_packb xc (request_message xc a salt (snd ea)) = Inr m1" "xc_unpackb xc m1 = Inr (request_message xc a salt (snd ea))"
      "xc_packb xc (response_message xc b salt (snd eb)) = Inr m2" "xc_unpackb xc m2 = Inr (response_message xc b salt (snd eb))"
    and sizes: "length m1 < 256 ^ 4" "length m2 < 256 ^ 4" "length (snd ea) < 65536" "length (snd eb) < 65536"
      "utf8_encode (xo_device_id a) = Inr ia" "length ia < 65536" "utf8_encode (xo_device_id b) = Inr ib" "length ib < 65536"
    and pins: "get_trusted_key ta (xo_device_id b) \<in> {None, Some (xo_public_key b)}"
      "get_trusted_key tb (xo_device_id a) \<in> {None, Some (xo_public_key a)}"
    and io: "xi_connect ioa = Inr ()" "xi_write ioa = Inr ()" "xi_read ioa = Inr m2" "xi_write iob = Inr ()" "xi_read iob = Inr m1"
  shows "\<exists>ra rb. initiate xc a ea salt ioa ta = (Inr ra, trust (xo_device_id b) (xo_public_key b) ta) \<and>
    accept_request xc b eb iob tb = (Inr rb, trust (xo_device_id a) (xo_public_key a) tb) \<and>
    hr_session_id ra = hr_session_id rb \<and> length (hr_session_id ra) = SESSION_ID_SIZE \<and>
    hr_send_key ra = hr_receive_key rb \<and> hr_receive_key ra = hr_send_key rb \<and>
    length (hr_send_key ra) = KEY_SIZE \<and> length (hr_receive_key ra) = KEY_SIZE \<and>
    hr_role ra = ROLE_INITIATOR \<and> hr_role rb = ROLE_RESPONDER \<and>
    hr_peer_device_id ra = xo_device_id b \<and> hr_peer_device_id rb = xo_device_id a \<and>
    hr_peer_transfer_port ra = xo_transfer_port b \<and> hr_peer_manifest_port ra = xo_manifest_port b \<and>
    hr_peer_transfer_port rb = xo_transfer_port a \<and> hr_peer_manifest_port rb = xo_manifest_port a"
proof -
  obtain ka kb where k: "derive_session_keys (xc_hkdf xc) z salt (xo_device_id a) (xo_device_id b) (snd ea) (snd eb) ROLE_INITIATOR = Inr ka"
    "derive_session_keys (xc_hkdf xc) z salt (xo_device_id a) (xo_device_id b) (snd ea) (snd eb) ROLE_RESPONDER = Inr kb"
    "sk_session_id ka = sk_session_id kb" "length (sk_session_id ka) = SESSION_ID_SIZE"
    "sk_send_key ka = sk_receive_key kb" "sk_receive_key ka = sk_send_key kb"
    "length (sk_send_key ka) = KEY_SIZE" "length (sk_receive_key ka) = KEY_SIZE"
    using derive_both_roles [OF hkdf sizes(5-8,3,4), of z salt] by blast
  have role_neq: "ROLE_RESPONDER \<noteq> ROLE_INITIATOR" by (simp add: role_defs)
  have w: "write_length_prefixed m = Inr (be_bytes 4 (length m) @ m)" if "length m < 256 ^ 4" for m
    using that by (simp add: write_length_prefixed_def pack_uint_def del: be_bytes.simps)
  have "initiator_reads xc a ea salt ioa = Inr (response_message xc b salt (snd eb), MBin (salt @ snd eb))"
    using io wire w [OF sizes(1)] by (simp add: initiator_reads_def write_message_def read_message_def) (simp add: response_message_def)
  moreover note verify_and_trust_pins [OF proves_key_response [OF sig] pins(1), of salt "snd eb"]
  moreover have "x_result xc a ea salt (response_message xc b salt (snd eb)) ROLE_INITIATOR = Inr \<lparr>hr_peer_device_id = xo_device_id b,
      hr_session_id = sk_session_id ka, hr_role = ROLE_INITIATOR, hr_send_key = sk_send_key ka, hr_receive_key = sk_receive_key ka,
      hr_peer_transfer_port = xo_transfer_port b, hr_peer_manifest_port = xo_manifest_port b\<rparr>"
    using dh(1) k(1) by (simp add: x_result_def response_message_def as_bytes_def as_text_def as_port_def)
  moreover have "responder_reads xc iob = Inr (request_message xc a salt (snd ea), MBin salt, MBin (salt @ snd ea))"
    using io wire by (simp add: responder_reads_def read_message_def) (simp add: request_message_def)
  moreover note verify_and_trust_pins [OF proves_key_request [OF sig] pins(2), of salt "snd ea"]
  moreover have "x_result xc b eb salt (request_message xc a salt (snd ea)) ROLE_RESPONDER = Inr \<lparr>hr_peer_device_id = xo_device_id a,
      hr_session_id = sk_session_id kb, hr_role = ROLE_RESPONDER, hr_send_key = sk_send_key kb, hr_receive_key = sk_receive_key kb,
      hr_peer_transfer_port = xo_transfer_port a, hr_peer_manifest_port = xo_manifest_port a\<rparr>"
    using dh(2) k(2) role_neq by (simp add: x_result_def request_message_def as_bytes_def as_text_def as_port_def)
  ultimately show ?thesis
    using k io wire w [OF sizes(2)] by (simp add: initiate_def accept_request_def responder_answer_def as_bytes_def write_message_def)
qed

text \<open>
  The device id is not covered by the signature. A request that a responder would accept stays acceptable when
  its device id is replaced by any other for which nothing is pinned: the responder then pins the
  signer's key for the other device, whose own handshakes are refused from then on.
\<close>

theorem x25519_device_id_unsigned:
  assumes m: "responder_reads xc io = Inr (m, salt, sd)" "proves_key xc m sd d k"
    and m': "read_message xc (xi_read io') = Inr m'" "\<forall>key. key \<noteq> ''device_id'' \<longrightarrow> getitem m' key = getitem m key"
      "getitem m' ''device_id'' = Inr (MStr victim)"
    and ts: "get_trusted_key ts victim = None"
    and later: "proves_key xc m2 sd2 victim k2" "k2 \<noteq> k"
  shows "snd (accept_request xc owner eph io' ts) = trust victim k ts \<and>
    verify_and_trust xc m2 sd2 (trust victim k ts) = (Inl (Domain PeerIdentityMismatchError), trust victim k ts)"
proof -
  have "responder_reads xc io' = Inr (m', salt, sd)"
    using m(1) m' unfolding responder_reads_eq_Inr signed_part_def by simp
  moreover have "proves_key xc m' sd victim k" using m(2) m'(2,3) by (simp add: proves_key_def key_verified_def)
  then have "verify_and_trust xc m' sd ts = (Inr (), trust victim k ts)" using ts by (intro verify_and_trust_pins) simp_all
  moreover have "presented_key xc (trust victim k ts) m2 sd2 = Inr (victim, k2)"
    using later(1) by (simp add: presented_key_eq_Inr proves_pin_def)
  ultimately show ?thesis
    using later(2) by (simp add: accept_request_def verify_and_trust_def get_trusted_key_def trust_def)
qed

text \<open>
  An id that is not a text is pinned before it is refused: with an empty store, a signed request of the device id \<^verbatim>\<open>5\<close>, the number,
  pins its key for the device \<^verbatim>\<open>''5''\<close>, and the run then fails.
\<close>

lemma x25519_number_id_pins:
  assumes "responder_reads xc io = Inr (m, salt, sd)" "getitem m ''device_id'' = Inr (MInt n)" "0 \<le> n" "key_verified xc m sd k"
  shows "snd (accept_request xc owner eph io []) = [(decimal (nat n), k)] \<and>
    (\<forall>r. fst (accept_request xc owner eph io []) \<noteq> Inr r)"
proof -
  have "presented_key xc [] m sd = Inr (decimal (nat n), k)"
    using assms(2-4) by (auto simp: presented_key_eq_Inr proves_pin_def json_name_def)
  then have "accept_request xc owner eph io [] = (responder_answer xc owner eph io m salt, [(decimal (nat n), k)])"
    using assms(1) by (simp add: accept_request_def verify_and_trust_def get_trusted_key_def trust_def)
  moreover have "responder_answer xc owner eph io m salt \<noteq> Inr r" for r
    using responder_answer_peer [of xc owner eph io m salt r] assms(2) by auto
  ultimately show ?thesis by simp
qed

text \<open>
  At most \<^verbatim>\<open>MAX_CONCURRENT_CONNECTIONS\<close> handshakes are in progress. Whatever connections arrive and
  however they end, the server's count of open connections stays between zero and that bound, and a
  connection is let in only below it.
\<close>

theorem handshake_server_bounded:
  assumes "xs_active sv = 0" "fold (server_step xc owner) es sv = sv'"
  shows "0 \<le> xs_active sv' \<and> xs_active sv' \<le> 256 \<and>
    (server_open now ip sv' = (True, sv2) \<longrightarrow> xs_active sv' < 256 \<and> xs_active sv2 = xs_active sv' + 1)"
proof -
  have "server_inv sv" using assms(1) by (simp add: server_inv_def MAX_CONCURRENT_CONNECTIONS_def)
  then have "server_inv sv'" using handshake_server.run_inv assms(2) by blast
  then show ?thesis
    by (auto simp: server_inv_def MAX_CONCURRENT_CONNECTIONS_def server_open_def Let_def split: prod.splits if_splits)
qed

section \<open>Witnesses\<close>

definition sample_device :: "nat \<Rightarrow> x_owner" where
  "sample_device n = \<lparr>xo_device_id = [n], xo_transfer_port = 1, xo_manifest_port = 2, xo_private_key = [], xo_public_key = [of_nat n]\<rparr>"

definition sample_bare :: x_crypto where
  "sample_bare = \<lparr>xc_sign = (\<lambda>k m. m), xc_verify = (\<lambda>k m sig. Inr (m = sig)), xc_dh = (\<lambda>k p. Inr [7]),
     xc_hkdf = (\<lambda>secret salt info n. replicate n 0), xc_packb = (\<lambda>m. Inr []), xc_unpackb = (\<lambda>b. Inr MNil), xc_float_text = (\<lambda>x. [])\<rparr>"

text \<open>A packer for the two messages of one exchange.\<close>

definition sample_x :: x_crypto where
  "sample_x = sample_bare\<lparr>
     xc_packb := (\<lambda>m. Inr (if m = request_message sample_bare (sample_device 65) [5] [1] then [1] else [2])),
     xc_unpackb := (\<lambda>b. Inr (if b = [1] then request_message sample_bare (sample_device 65) [5] [1]
        else response_message sample_bare (sample_device 66) [5] [3]))\<rparr>"

definition sample_x_io :: "bytes \<Rightarrow> x_io" where
  "sample_x_io b = \<lparr>xi_connect = Inr (), xi_write = Inr (), xi_read = Inr b\<rparr>"

lemma sample_messages:
  "request_message sample_x p salt pk = request_message sample_bare p salt pk"
  "response_message sample_x p salt pk = response_message sample_bare p salt pk"
  by (simp_all add: request_message_def response_message_def sample_x_def)

lemma sample_x_sel:
  "xc_verify sample_x = (\<lambda>k m sig. Inr (m = sig))" "xc_sign sample_x = (\<lambda>k m. m)" "xc_dh sample_x = (\<lambda>k p. Inr [7])"
  "xc_hkdf sample_x = (\<lambda>secret salt info n. replicate n 0)"
  by (simp_all add: sample_x_def sample_bare_def)

lemma sample_messages_differ:
  "response_message sample_bare (sample_device 66) [5] [3] \<noteq> request_message sample_bare (sample_device 65) [5] [1]"
  by (simp add: request_message_def response_message_def record_of_def)

lemma sample_x_laws:
  "xc_verify sample_x (MBin (xo_public_key p)) (MBin msg) (MBin (xc_sign sample_x (xo_private_key p) msg)) = Inr True"
  "xc_dh sample_x (fst ([], [1])) (snd ([], [3])) = Inr [7]" "xc_dh sample_x (fst ([], [3])) (snd ([], [1])) = Inr [7]"
  "hkdf_length (xc_hkdf sample_x)"
  by (simp_all add: sample_x_sel hkdf_length_def)

lemma sample_x_wire:
  "xc_packb sample_x (request_message sample_x (sample_device 65) [5] (snd ([], [1]))) = Inr [1]"
  "xc_unpackb sample_x [1] = Inr (request_message sample_x (sample_device 65) [5] (snd ([], [1])))"
  "xc_packb sample_x (response_message sample_x (sample_device 66) [5] (snd ([], [3]))) = Inr [2]"
  "xc_unpackb sample_x [2] = Inr (response_message sample_x (sample_device 66) [5] (snd ([], [3])))"
  unfolding sample_messages using sample_messages_differ by (simp_all add: sample_x_def)

lemma sample_x_sizes:
  "length [1 :: byte] < 256 ^ 4" "length [2 :: byte] < 256 ^ 4" "length (snd ([] :: bytes, [1 :: byte])) < 65536"
  "length (snd ([] :: bytes, [3 :: byte])) < 65536" "utf8_encode (xo_device_id (sample_device 65)) = Inr [65]" "length [65 :: byte] < 65536"
  "utf8_encode (xo_device_id (sample_device 66)) = Inr [66]" "length [66 :: byte] < 65536"
  by (simp_all add: sample_device_def utf8_encode_def scalar_def utf8_char_def)

lemma sample_x_pins:
  "get_trusted_key [] (xo_device_id (sample_device 66)) \<in> {None, Some (xo_public_key (sample_device 66))}"
  "get_trusted_key [] (xo_device_id (sample_device 65)) \<in> {None, Some (xo_public_key (sample_device 65))}"
  by (simp_all add: get_trusted_key_def)

lemma sample_x_connected:
  "xi_connect (sample_x_io [2]) = Inr ()" "xi_write (sample_x_io [2]) = Inr ()" "xi_read (sample_x_io [2]) = Inr [2]"
  "xi_write (sample_x_io [1]) = Inr ()" "xi_read (sample_x_io [1]) = Inr [1]"
  by (simp_all add: sample_x_io_def)

lemma sample_x_trusted: "trust (xo_device_id (sample_device n)) (xo_public_key (sample_device n)) [] = [([n], [of_nat n])]"
  by (simp add: trust_def sample_device_def)

theorem x25519_handshake_agrees_witness:
  "\<exists>ra rb. initiate sample_x (sample_device 65) ([], [1]) [5] (sample_x_io [2]) [] = (Inr ra, [([66], [66])]) \<and>
     accept_request sample_x (sample_device 66) ([], [3]) (sample_x_io [1]) [] = (Inr rb, [([65], [65])]) \<and>
     hr_session_id ra = hr_session_id rb \<and> hr_send_key ra = hr_receive_key rb"
  using x25519_handshake_agrees [OF sample_x_laws sample_x_wire sample_x_sizes sample_x_pins sample_x_connected]
  unfolding sample_x_trusted by auto

theorem x25519_pins_only_proved_witness:
  "\<exists>res ts'. accept_request sample_x (sample_device 66) ([], [3]) (sample_x_io [1]) [([65], [9])] = (res, ts') \<and>
     get_trusted_key ts' [65] = Some [9]"
proof -
  obtain res ts' where r: "accept_request sample_x (sample_device 66) ([], [3]) (sample_x_io [1]) [([65], [9])] = (res, ts')"
    by (cases "accept_request sample_x (sample_device 66) ([], [3]) (sample_x_io [1]) [([65], [9])]")
  have "get_trusted_key [([65], [9])] [65] = Some [9]" by (simp add: get_trusted_key_def)
  with x25519_pins_only_proved [of False sample_x "sample_device 66" "([], [3])" "[]" "sample_x_io [1]" "[([65], [9])]" res ts'] r
  show ?thesis by auto
qed

text \<open>The reader sees the honest request, or the same one with another device id.\<close>

definition sample_spoof :: x_crypto where
  "sample_spoof = sample_x\<lparr>xc_unpackb := (\<lambda>b. Inr (if b = [1] then request_message sample_bare ((sample_device 65)\<lparr>xo_device_id := [88]\<rparr>) [5] [1]
     else request_message sample_bare (sample_device 65) [5] [1]))\<rparr>"

theorem x25519_device_id_unsigned_witness:
  "snd (accept_request sample_spoof (sample_device 66) ([], [3]) (sample_x_io [1]) []) = [([88], [65])]"
proof -
  have m: "responder_reads sample_spoof (sample_x_io [0]) = Inr (request_message sample_bare (sample_device 65) [5] [1], MBin [5], MBin [5, 1])"
    by (simp add: responder_reads_def read_message_def sample_x_io_def sample_spoof_def) (simp add: request_message_def)
  have pk: "proves_key sample_spoof (request_message sample_bare (sample_device 65) [5] [1]) (MBin [5, 1]) [65] [65]"
    by (simp add: proves_key_def key_verified_def request_message_def sample_spoof_def sample_x_sel) (simp add: sample_device_def sample_bare_def)
  have own: "proves_key sample_spoof (request_message sample_bare (sample_device 88) [5] [1]) (MBin [5, 1]) [88] [88]"
    by (simp add: proves_key_def key_verified_def request_message_def sample_spoof_def sample_x_sel) (simp add: sample_device_def sample_bare_def)
  have m': "read_message sample_spoof (xi_read (sample_x_io [1])) = Inr (request_message sample_bare ((sample_device 65)\<lparr>xo_device_id := [88]\<rparr>) [5] [1])"
    "\<forall>key. key \<noteq> ''device_id'' \<longrightarrow> getitem (request_message sample_bare ((sample_device 65)\<lparr>xo_device_id := [88]\<rparr>) [5] [1]) key = getitem (request_message sample_bare (sample_device 65) [5] [1]) key"
    "getitem (request_message sample_bare ((sample_device 65)\<lparr>xo_device_id := [88]\<rparr>) [5] [1]) ''device_id'' = Inr (MStr [88])" "get_trusted_key [] [88] = None"
    by (simp_all add: sample_spoof_def read_message_def sample_x_io_def request_message_def get_trusted_key_def)
  have ne: "[88 :: byte] \<noteq> [65]" by simp
  show ?thesis
    using x25519_device_id_unsigned [OF m pk m' own ne, of "sample_device 66" "([], [3])"] by (simp add: trust_def)
qed

theorem handshake_server_bounded_witness:
  "\<exists>sv'. fold (server_step sample_x (sample_device 66)) [Opened 0 [1], Opened 0 [1], Finished ([], [3]) (sample_x_io [1])]
     \<lparr>xs_limiter = \<lparr>il_max = 30, il_window = 60, il_attempts = []\<rparr>, xs_active = 0, xs_results = [], xs_trusted = []\<rparr> = sv' \<and> xs_active sv' \<le> 256"
proof -
  let ?sv = "\<lparr>xs_limiter = \<lparr>il_max = 30, il_window = 60, il_attempts = []\<rparr>, xs_active = 0, xs_results = [], xs_trusted = []\<rparr>"
  have "xs_active ?sv = 0" by simp
  from handshake_server_bounded [OF this refl, of sample_x "sample_device 66" "[Opened 0 [1], Opened 0 [1], Finished ([], [3]) (sample_x_io [1])]"]
  show ?thesis by blast
qed

end
