(* ===== verification/Chunk_Repository.thy ===== *)
theory Chunk_Repository
  imports Messages File_Store Utf8
begin

text \<open>
  \<^verbatim>\<open>chunking/file_chunk_repository.py\<close>: chunk manifests as JSON files named by a digest of the source path. The
  JSON values are those of \<^verbatim>\<open>Messages\<close>; \<^verbatim>\<open>orjson\<close>, SHA-256, \<^verbatim>\<open>Path.resolve\<close> and the ISO format of datetimes are the fields of
  \<open>chunk_repo\<close>. A field whose value has not the type its \<^verbatim>\<open>cast\<close> claims raises \<^verbatim>\<open>TypeError\<close>; Python lets a value through
  when the checks of the constructor do not touch it.
\<close>

record chunk_repo =
  cr_storage_dir :: pure_path
  cr_resolve :: "pure_path \<Rightarrow> pure_path result"
  cr_sha256_hex :: "bytes \<Rightarrow> pystr"
  cr_dumps :: "mval \<Rightarrow> bytes result"
  cr_loads :: "bytes \<Rightarrow> mval result"
  cr_isoformat :: "int \<Rightarrow> pystr"
  cr_fromisoformat :: "pystr \<Rightarrow> int result"

section \<open>Paths as text\<close>

text \<open>\<^verbatim>\<open>str(path)\<close>.\<close>

fun join_on :: "nat \<Rightarrow> pystr list \<Rightarrow> pystr" where
  "join_on c [] = []"
| "join_on c [x] = x"
| "join_on c (x # y # zs) = x @ c # join_on c (y # zs)"

definition path_str :: "pure_path \<Rightarrow> pystr" where
  "path_str p =
     (if pp_root p = 0 \<and> pp_parts p = [] then dot else replicate (pp_root p) slash @ join_on slash (pp_parts p))"

text \<open>Paths as \<^verbatim>\<open>pathlib\<close> keeps them.\<close>

definition normal_path :: "pure_path \<Rightarrow> bool" where
  "normal_path p \<longleftrightarrow> pp_root p \<le> 2 \<and> list_all (\<lambda>x. x \<noteq> [] \<and> x \<noteq> dot \<and> slash \<notin> set x) (pp_parts p)"

lemma split_on_append: "c \<notin> set x \<Longrightarrow> split_on c (x @ c # s) = x # split_on c s"
  by (induction x) simp_all

lemma split_on_free: "c \<notin> set x \<Longrightarrow> split_on c x = [x]"
  by (induction x) simp_all

lemma split_join: "xs \<noteq> [] \<Longrightarrow> list_all (\<lambda>x. c \<notin> set x) xs \<Longrightarrow> split_on c (join_on c xs) = xs"
  by (induction c xs rule: join_on.induct) (simp_all add: split_on_append split_on_free)

lemma split_on_slashes: "split_on c (replicate n c @ s) = replicate n [] @ split_on c s"
  by (induction n) simp_all

lemma join_on_first: "xs \<noteq> [] \<Longrightarrow> hd xs \<noteq> [] \<Longrightarrow> join_on c xs \<noteq> [] \<and> hd (join_on c xs) = hd (hd xs)"
  by (induction c xs rule: join_on.induct) simp_all

lemma path_str_round_trip: "normal_path p \<Longrightarrow> PurePosixPath (path_str p) = p"
proof -
  assume n: "normal_path p"
  obtain r xs where p: "p = PurePath r xs" by (cases p)
  have r: "r = 0 \<or> r = 1 \<or> r = 2" using n p by (auto simp: normal_path_def)
  show ?thesis
  proof (cases "xs = []")
    case True
    then show ?thesis using r by (auto simp: p path_str_def PurePosixPath_def posix_root_def numeral_2_eq_2)
  next
    case False
    have x: "list_all (\<lambda>x. slash \<notin> set x) xs" "filter (\<lambda>x. x \<noteq> [] \<and> x \<noteq> dot) xs = xs"
      using n by (auto simp: p normal_path_def list_all_iff)
    have h: "hd xs \<noteq> []" "hd (hd xs) \<noteq> slash"
      using n False by (cases xs; force simp: p normal_path_def dest: hd_in_set)+
    obtain a s where s: "join_on slash xs = a # s" "a \<noteq> slash"
      using join_on_first [OF False h(1), of slash] h(2) by (cases "join_on slash xs") auto
    have "split_on slash (path_str p) = replicate r [] @ xs"
      using False split_join [OF False x(1)] by (simp add: p path_str_def split_on_slashes)
    moreover have "posix_root (path_str p) = r"
      using False s r by (auto simp: p path_str_def posix_root_def numeral_2_eq_2)
    ultimately show ?thesis using x(2) by (simp add: PurePosixPath_def p)
  qed
qed

section \<open>Manifests as dictionaries\<close>

definition text_of :: "mval \<Rightarrow> pystr result" where
  "text_of v = (case v of MStr s \<Rightarrow> Inr s | _ \<Rightarrow> Inl (Py TypeError))"

definition number_of :: "mval \<Rightarrow> int result" where
  "number_of v = (case v of MInt n \<Rightarrow> Inr n | MBool b \<Rightarrow> Inr (if b then 1 else 0) | _ \<Rightarrow> Inl (Py TypeError))"

text \<open>\<^verbatim>\<open>for item in v\<close>.\<close>

definition iterate :: "mval \<Rightarrow> mval list result" where
  "iterate v =
     (case v of
        MList xs \<Rightarrow> Inr xs
      | MMap d \<Rightarrow> Inr (map fst d)
      | MStr s \<Rightarrow> Inr (map (\<lambda>c. MStr [c]) s)
      | MBin b \<Rightarrow> Inr (map (\<lambda>x. MInt (uint x)) b)
      | _ \<Rightarrow> Inl (Py TypeError))"

definition hash_to_dict :: "chunk_hash option \<Rightarrow> mval" where
  "hash_to_dict h =
     (case h of
        None \<Rightarrow> MNil
      | Some x \<Rightarrow> record_of [(''algorithm'', MStr (algorithm_value (algorithm x))), (''digest'', MStr (digest x))])"

definition metadata_to_dict :: "chunk_repo \<Rightarrow> chunk_metadata \<Rightarrow> mval" where
  "metadata_to_dict cr m =
     record_of [(''chunk_id'', MStr (chunk_id m)), (''index'', MInt (cm_index m)), (''size'', MInt (cm_size m)),
       (''offset'', MInt (cm_offset m)), (''chunk_hash'', hash_to_dict (cm_hash m)),
       (''created_at'', MStr (cr_isoformat cr (created_at m)))]"

definition collection_to_dict :: "chunk_repo \<Rightarrow> chunk_collection \<Rightarrow> mval" where
  "collection_to_dict cr c =
     record_of [(''source_path'', MStr (path_str (source_path c))), (''chunk_size'', MInt (cc_chunk_size c)),
       (''total_size'', MInt (total_size c)), (''chunks'', MList (map (metadata_to_dict cr) (cc_chunks c)))]"

text \<open>\<^verbatim>\<open>ChunkAlgorithm(v)\<close> for a value of a message.\<close>

definition algorithm_of_wire :: "mval \<Rightarrow> chunk_algorithm result" where
  "algorithm_of_wire v = (case v of MStr s \<Rightarrow> algorithm_of_value s | _ \<Rightarrow> Inl (Py ValueError))"

definition hash_from_dict :: "mval \<Rightarrow> chunk_hash option result" where
  "hash_from_dict v =
     (if v = MNil then Inr None
      else rbind (getitem v ''algorithm'') (\<lambda>a. rbind (algorithm_of_wire a) (\<lambda>alg.
           rbind (getitem v ''digest'') (\<lambda>d. rbind (text_of d) (\<lambda>s. rbind (mk_ChunkHash alg s) (\<lambda>h. Inr (Some h)))))))"

definition metadata_from_dict :: "chunk_repo \<Rightarrow> mval \<Rightarrow> chunk_metadata result" where
  "metadata_from_dict cr v =
     rbind (getitem v ''chunk_hash'') (\<lambda>hash_payload.
     rbind (hash_from_dict hash_payload) (\<lambda>h.
     rbind (getitem v ''chunk_id'') (\<lambda>cid.
     rbind (getitem v ''index'') (\<lambda>i.
     rbind (getitem v ''size'') (\<lambda>n.
     rbind (getitem v ''offset'') (\<lambda>off.
     rbind (getitem v ''created_at'') (\<lambda>t.
     rbind (text_of t) (\<lambda>t'. rbind (cr_fromisoformat cr t') (\<lambda>created.
     rbind (text_of cid) (\<lambda>cid'. rbind (number_of i) (\<lambda>i'. rbind (number_of n) (\<lambda>n'. rbind (number_of off) (\<lambda>off'.
     mk_ChunkMetadata cid' i' n' off' h created)))))))))))))"

definition collection_from_dict :: "chunk_repo \<Rightarrow> mval \<Rightarrow> chunk_collection result" where
  "collection_from_dict cr v =
     rbind (getitem v ''chunks'') (\<lambda>chunks_payload.
     rbind (getitem v ''source_path'') (\<lambda>p. rbind (text_of p) (\<lambda>path.
     rbind (getitem v ''chunk_size'') (\<lambda>cs.
     rbind (getitem v ''total_size'') (\<lambda>n.
     rbind (iterate chunks_payload) (\<lambda>items.
     rbind (rmap (metadata_from_dict cr) items) (\<lambda>ms.
     rbind (number_of cs) (\<lambda>cs'. rbind (number_of n) (\<lambda>n'.
     mk_ChunkCollection (PurePosixPath path) cs' n' ms)))))))))"

section \<open>The repository\<close>

definition manifest_path :: "chunk_repo \<Rightarrow> pure_path \<Rightarrow> pure_path result" where
  "manifest_path cr p =
     rbind (cr_resolve cr p) (\<lambda>q.
     rbind (utf8_encode (path_str q)) (\<lambda>b.
     Inr (path_join (cr_storage_dir cr) (cr_sha256_hex cr b @ codes ''.json''))))"

definition os_wrapped :: "exn \<Rightarrow> exn" where
  "os_wrapped e = (if e = Py OSError then engine_err else e)"

definition repo_save :: "atomic_fault \<Rightarrow> bool \<Rightarrow> chunk_repo \<Rightarrow> chunk_collection \<Rightarrow> fs \<Rightarrow> unit result \<times> fs" where
  "repo_save fault unlink_refused cr c f =
     (case manifest_path cr (source_path c) of
        Inl e \<Rightarrow> (Inl e, f)
      | Inr p \<Rightarrow>
          (case cr_dumps cr (collection_to_dict cr c) of
             Inl e \<Rightarrow> (Inl (os_wrapped e), f)
           | Inr data \<Rightarrow>
               (case atomic_write_bytes fault unlink_refused p data (codes ''manifest'') f of
                  (Inl e, f1) \<Rightarrow> (Inl (os_wrapped e), f1)
                | (Inr _, f1) \<Rightarrow> (Inr (), f1))))"

definition load_caught :: "exn \<Rightarrow> bool" where
  "load_caught e \<longleftrightarrow> e \<in> {Py OSError, Py KeyError, Py TypeError, Py ValueError, Py UnicodeDecodeError}"

definition read_bytes :: "bool \<Rightarrow> node \<Rightarrow> bytes result" where
  "read_bytes refused n = (case n of FileNode b \<Rightarrow> raise_if refused (Py OSError) (Inr b) | DirNode \<Rightarrow> Inl (Py OSError))"

text \<open>\<^verbatim>\<open>load\<close>, split at the manifest path; \<open>refused\<close> is a read the operating system refuses.\<close>

definition load_manifest :: "bool \<Rightarrow> chunk_repo \<Rightarrow> fs \<Rightarrow> pure_path \<Rightarrow> chunk_collection option result" where
  "load_manifest refused cr f q =
     (case f q of
        None \<Rightarrow> Inr None
      | Some n \<Rightarrow>
          (case rbind (read_bytes refused n) (\<lambda>b. rbind (cr_loads cr b) (collection_from_dict cr)) of
             Inl e \<Rightarrow> Inl (if load_caught e then engine_err else e)
           | Inr c \<Rightarrow> Inr (Some c)))"

definition repo_load :: "bool \<Rightarrow> chunk_repo \<Rightarrow> fs \<Rightarrow> pure_path \<Rightarrow> chunk_collection option result" where
  "repo_load refused cr f p = rbind (manifest_path cr p) (load_manifest refused cr f)"

section \<open>Round trips\<close>

lemma text_of_eq_Inr [result_simps]: "text_of v = Inr s \<longleftrightarrow> v = MStr s"
  by (cases v) (simp_all add: text_of_def)

definition storable :: "chunk_repo \<Rightarrow> chunk_collection \<Rightarrow> bool" where
  "storable cr c \<longleftrightarrow> wf_collection c \<and> normal_path (source_path c) \<and>
     list_all (\<lambda>m. wf_metadata m \<and> (\<forall>h. cm_hash m = Some h \<longrightarrow> wf_hash h) \<and>
       cr_fromisoformat cr (cr_isoformat cr (created_at m)) = Inr (created_at m)) (cc_chunks c)"

lemma hash_dict_round_trip: "(\<forall>x. h = Some x \<longrightarrow> wf_hash x) \<Longrightarrow> hash_from_dict (hash_to_dict h) = Inr h"
proof (cases h)
  case (Some x)
  assume "\<forall>x. h = Some x \<longrightarrow> wf_hash x"
  then have "mk_ChunkHash (algorithm x) (digest x) = Inr x" using Some by (simp add: mk_ChunkHash_eq_Inr)
  moreover have "algorithm_of_value (algorithm_value (algorithm x)) = Inr (algorithm x)"
    by (cases "algorithm x") (simp add: algorithm_of_value_def)
  ultimately show ?thesis
    using Some by (simp add: hash_from_dict_def hash_to_dict_def algorithm_of_wire_def text_of_def getitem_record) (simp add: record_of_def)
qed (simp add: hash_from_dict_def hash_to_dict_def)

lemma metadata_dict_round_trip:
  assumes "wf_metadata m" "\<forall>h. cm_hash m = Some h \<longrightarrow> wf_hash h"
    "cr_fromisoformat cr (cr_isoformat cr (created_at m)) = Inr (created_at m)"
  shows "metadata_from_dict cr (metadata_to_dict cr m) = Inr m"
  using assms(1,3) hash_dict_round_trip [OF assms(2)]
  by (simp add: metadata_from_dict_def metadata_to_dict_def getitem_record text_of_def number_of_def mk_ChunkMetadata_def wf_metadata_def)

lemma rmap_map_inverse: "list_all (\<lambda>x. f (g x) = Inr x) xs \<Longrightarrow> rmap f (map g xs) = Inr xs"
  by (induction xs) simp_all

lemma collection_dict_round_trip: "storable cr c \<Longrightarrow> collection_from_dict cr (collection_to_dict cr c) = Inr c"
proof -
  assume s: "storable cr c"
  then have "rmap (metadata_from_dict cr) (map (metadata_to_dict cr) (cc_chunks c)) = Inr (cc_chunks c)"
    by (intro rmap_map_inverse) (simp add: storable_def metadata_dict_round_trip list_all_iff)
  moreover have "mk_ChunkCollection (source_path c) (cc_chunk_size c) (total_size c) (cc_chunks c) = Inr c"
    using s by (simp add: storable_def mk_ChunkCollection_eq_Inr)
  ultimately show ?thesis
    using s path_str_round_trip [of "source_path c"]
    by (simp add: collection_from_dict_def collection_to_dict_def getitem_record text_of_def number_of_def iterate_def storable_def)
qed

text \<open>What is read from a dictionary can be stored again.\<close>

definition iso_law :: "chunk_repo \<Rightarrow> bool" where
  "iso_law cr \<longleftrightarrow> (\<forall>s t. cr_fromisoformat cr s = Inr t \<longrightarrow> cr_fromisoformat cr (cr_isoformat cr t) = Inr t)"

lemma PurePosixPath_normal: "normal_path (PurePosixPath s)"
  using split_on_no_sep [of _ slash s]
  by (auto simp: normal_path_def PurePosixPath_def posix_root_def list_all_iff)

lemma metadata_from_dict_wf:
  assumes "iso_law cr" "metadata_from_dict cr v = Inr m"
  shows "wf_metadata m \<and> (\<forall>h. cm_hash m = Some h \<longrightarrow> wf_hash h) \<and> cr_fromisoformat cr (cr_isoformat cr (created_at m)) = Inr (created_at m)"
proof -
  have h: "\<exists>hp. hash_from_dict hp = Inr (cm_hash m)" "wf_metadata m" "\<exists>s. cr_fromisoformat cr s = Inr (created_at m)"
    using assms(2) by (auto simp: metadata_from_dict_def rbind_eq_Inr mk_ChunkMetadata_eq_Inr)
  have "wf_hash x" if "cm_hash m = Some x" for x
    using h(1) that by (auto simp: hash_from_dict_def rbind_eq_Inr mk_ChunkHash_eq_Inr split: if_splits)
  then show ?thesis using h assms(1) by (auto simp: iso_law_def)
qed

lemma collection_from_dict_storable:
  assumes "iso_law cr" "collection_from_dict cr v = Inr c"
  shows "storable cr c"
proof -
  obtain items ms path where c: "rmap (metadata_from_dict cr) items = Inr ms" "cc_chunks c = ms" "source_path c = PurePosixPath path" "wf_collection c"
    using assms(2) by (auto simp: collection_from_dict_def rbind_eq_Inr mk_ChunkCollection_eq_Inr)
  have "\<exists>x. metadata_from_dict cr x = Inr m" if "m \<in> set ms" for m
    using that rmap_nth [OF c(1)] rmap_length [OF c(1)] by (metis in_set_conv_nth)
  then show ?thesis
    unfolding storable_def list_all_iff using c metadata_from_dict_wf [OF assms(1)] PurePosixPath_normal by metis
qed

lemma repo_load_storable: "iso_law cr \<Longrightarrow> repo_load refused cr f p = Inr (Some c) \<Longrightarrow> storable cr c"
proof -
  assume a: "iso_law cr" "repo_load refused cr f p = Inr (Some c)"
  obtain q where "load_manifest refused cr f q = Inr (Some c)" using a(2) by (auto simp: repo_load_def rbind_eq_Inr)
  then have "\<exists>v. collection_from_dict cr v = Inr c"
    unfolding load_manifest_def by (cases "f q") (auto simp: rbind_eq_Inr split: sum.split_asm)
  then show ?thesis using a(1) collection_from_dict_storable by blast
qed

text \<open>The digests name files: 64 characters, no slash.\<close>

definition digest_laws :: "chunk_repo \<Rightarrow> bool" where
  "digest_laws cr \<longleftrightarrow> (\<forall>b. length (cr_sha256_hex cr b) = 64 \<and> slash \<notin> set (cr_sha256_hex cr b))"

lemma manifest_name:
  assumes "digest_laws cr"
  shows "path_join (cr_storage_dir cr) (cr_sha256_hex cr b @ codes ''.json'') =
    PurePath (pp_root (cr_storage_dir cr)) (pp_parts (cr_storage_dir cr) @ [cr_sha256_hex cr b @ codes ''.json''])"
proof -
  let ?n = "cr_sha256_hex cr b @ codes ''.json''"
  have l: "length (cr_sha256_hex cr b) = 64" "slash \<notin> set ?n" using assms by (auto simp: digest_laws_def codes_def)
  have n: "?n \<noteq> []" "?n \<noteq> dot" using arg_cong [of ?n dot length] l(1) by (auto simp: codes_def)
  have "take 1 ?n \<noteq> [slash]" using l by (cases "cr_sha256_hex cr b") auto
  then have "PurePosixPath ?n = PurePath 0 [?n]"
    using l(2) n by (simp add: PurePosixPath_def posix_root_def split_on_free del: append_is_Nil_conv)
  then show ?thesis by (simp add: path_join_def is_absolute_def Let_def)
qed

lemma manifest_path_shape:
  assumes "digest_laws cr" "manifest_path cr p = Inr q"
  shows "\<exists>b. q = PurePath (pp_root (cr_storage_dir cr)) (pp_parts (cr_storage_dir cr) @ [cr_sha256_hex cr b @ codes ''.json''])"
  using assms manifest_name [OF assms(1)] by (auto simp: manifest_path_def result_simps)

text \<open>
  The manifests of two paths share a file only if the paths resolve to the same one or SHA-256 collides.
\<close>

lemma path_str_inject: "normal_path p \<Longrightarrow> normal_path q \<Longrightarrow> path_str p = path_str q \<Longrightarrow> p = q"
  using path_str_round_trip by metis

lemma manifest_path_collides:
  assumes "digest_laws cr" "manifest_path cr p = Inr q" "manifest_path cr p' = Inr q"
    and a: "cr_resolve cr p = Inr a" "cr_resolve cr p' = Inr a'" "normal_path a" "normal_path a'"
  shows "a' = a \<or> (\<exists>x x'. utf8_encode (path_str a) = Inr x \<and> utf8_encode (path_str a') = Inr x' \<and> x' \<noteq> x \<and>
      cr_sha256_hex cr x' = cr_sha256_hex cr x)"
proof -
  obtain x x' where x: "utf8_encode (path_str a) = Inr x" "utf8_encode (path_str a') = Inr x'"
    "q = path_join (cr_storage_dir cr) (cr_sha256_hex cr x @ codes ''.json'')"
    "q = path_join (cr_storage_dir cr) (cr_sha256_hex cr x' @ codes ''.json'')"
    using assms by (auto simp: manifest_path_def result_simps)
  then have "cr_sha256_hex cr x' = cr_sha256_hex cr x" using manifest_name [OF assms(1)] by simp
  moreover have "a' = a" if "x' = x"
    using that x(1,2) utf8_encode_inject path_str_inject [OF a(4,3)] by blast
  ultimately show ?thesis using x(1,2) by blast
qed

lemma manifest_paths_apart:
  assumes "digest_laws cr" "manifest_path cr p = Inr q" "manifest_path cr p' = Inr q'"
  shows "q' \<noteq> atomic_tmp q (codes ''manifest'')" "\<not> on_the_way q' (path_parent q)"
proof -
  obtain b b' where q: "q = PurePath (pp_root (cr_storage_dir cr)) (pp_parts (cr_storage_dir cr) @ [cr_sha256_hex cr b @ codes ''.json''])"
    "q' = PurePath (pp_root (cr_storage_dir cr)) (pp_parts (cr_storage_dir cr) @ [cr_sha256_hex cr b' @ codes ''.json''])"
    using manifest_path_shape [OF assms(1)] assms(2,3) by meson
  have l: "length (cr_sha256_hex cr b) = 64" "length (cr_sha256_hex cr b') = 64" using assms(1) by (simp_all add: digest_laws_def)
  have "length (cr_sha256_hex cr b' @ codes ''.json'') <
      length (codes ''.'' @ (cr_sha256_hex cr b @ codes ''.json'') @ codes ''.tmp-'' @ codes ''manifest'')"
    using l by (simp add: codes_def)
  then have "cr_sha256_hex cr b' @ codes ''.json'' \<noteq>
      codes ''.'' @ (cr_sha256_hex cr b @ codes ''.json'') @ codes ''.tmp-'' @ codes ''manifest''" by (metis less_irrefl)
  then show "q' \<noteq> atomic_tmp q (codes ''manifest'')" by (simp add: q sibling_def path_name_def)
  show "\<not> on_the_way q' (path_parent q)" by (auto simp: q on_the_way_def path_parent_def dest: prefix_length_le)
qed

text \<open>What \<^verbatim>\<open>orjson\<close> promises: a dictionary with text keys it has dumped is loaded again.\<close>

definition orjson_law :: "chunk_repo \<Rightarrow> bool" where
  "orjson_law cr \<longleftrightarrow> (\<forall>v b. plain_value v \<and> cr_dumps cr v = Inr b \<longrightarrow> cr_loads cr b = Inr v)"

lemma collection_dict_plain: "plain_value (collection_to_dict cr c)"
  by (auto simp: collection_to_dict_def metadata_to_dict_def hash_to_dict_def list_all_iff split: option.splits)

lemma repo_save_at:
  assumes laws: "digest_laws cr" "orjson_law cr"
    and c: "storable cr c" "manifest_path cr (source_path c) = Inr q"
    and save: "repo_save fault unlink_refused cr c f = (r, f')"
    and q': "manifest_path cr p = Inr q'"
  shows "load_manifest refused cr f' q' = (if r = Inr () \<and> q' = q then load_manifest refused cr f' q else load_manifest refused cr f q')"
    and "r = Inr () \<Longrightarrow> load_manifest False cr f' q = Inr (Some c)"
proof (atomize (full), cases "cr_dumps cr (collection_to_dict cr c)")
  case (Inl e)
  then show "load_manifest refused cr f' q' = (if r = Inr () \<and> q' = q then load_manifest refused cr f' q else load_manifest refused cr f q') \<and>
      (r = Inr () \<longrightarrow> load_manifest False cr f' q = Inr (Some c))"
    using save c(2) by (auto simp: repo_save_def)
next
  case (Inr data)
  have parts: "pp_parts q \<noteq> []" using manifest_path_shape [OF laws(1) c(2)] by auto
  obtain r1 where a: "atomic_write_bytes fault unlink_refused q data (codes ''manifest'') f = (r1, f')" "r = Inr () \<longleftrightarrow> (\<exists>x. r1 = Inr x)"
    using save c(2) Inr by (auto simp: repo_save_def split: prod.splits sum.splits)
  have l: "cr_loads cr data = Inr (collection_to_dict cr c)"
    using laws(2) Inr collection_dict_plain unfolding orjson_law_def by blast
  have same: "r1 = Inl e \<Longrightarrow> f' q = f q" for e using atomic_write_spec(1) [OF a(1)] parts by simp
  have loads: "r = Inr () \<Longrightarrow> load_manifest False cr f' q = Inr (Some c)"
    using atomic_write_spec(1) [OF a(1)] a(2) l collection_dict_round_trip [OF c(1)]
    by (cases r1) (auto simp: load_manifest_def read_bytes_def)
  moreover have "load_manifest refused cr f' q' = load_manifest refused cr f q'" if "\<not> (r = Inr () \<and> q' = q)"
  proof (cases "q' = q")
    case True
    then show ?thesis using that a(2) same by (cases r1) (auto simp: load_manifest_def)
  next
    case False
    then have "f' q' = f q'"
      using atomic_write_spec(2) [OF a(1), of q'] manifest_paths_apart [OF laws(1) c(2) q'] by blast
    then show ?thesis by (simp add: load_manifest_def)
  qed
  ultimately show "load_manifest refused cr f' q' = (if r = Inr () \<and> q' = q then load_manifest refused cr f' q else load_manifest refused cr f q') \<and>
      (r = Inr () \<longrightarrow> load_manifest False cr f' q = Inr (Some c))"
    by auto
qed

section \<open>Property\<close>

text \<open>
  C33: Saving a manifest refines a map update keyed by the resolved source path. Whatever fails while it is written, a
  \<^verbatim>\<open>save\<close> that returns makes \<^verbatim>\<open>load\<close> of every path that resolves like the collection's own return exactly that
  collection; \<^verbatim>\<open>load\<close> of any path that resolves elsewhere answers as before, unless SHA-256 collides on the texts of the two
  paths; and a \<^verbatim>\<open>save\<close> that raises leaves every \<^verbatim>\<open>load\<close> as it was. Digests are 64 characters without a slash, \<^verbatim>\<open>orjson\<close> loads what it
  dumped of text-keyed values, the paths \<^verbatim>\<open>resolve\<close> gives are normalised ones, as
  \<^verbatim>\<open>pathlib\<close> documents, and the collection is one the constructors accept, with times that survive their ISO format.
\<close>

theorem chunk_repository_refines_map:
  assumes laws: "digest_laws cr" "orjson_law cr" "\<forall>p a. cr_resolve cr p = Inr a \<longrightarrow> normal_path a"
    and c: "storable cr c"
    and save: "repo_save fault unlink_refused cr c f = (r, f')"
  shows "(if r \<noteq> Inr () then repo_load False cr f' p = repo_load False cr f p
    else if cr_resolve cr p = cr_resolve cr (source_path c) then repo_load False cr f' p = Inr (Some c)
    else repo_load False cr f' p = repo_load False cr f p \<or>
      (\<exists>a a' x x'. cr_resolve cr (source_path c) = Inr a \<and> cr_resolve cr p = Inr a' \<and> utf8_encode (path_str a) = Inr x \<and>
         utf8_encode (path_str a') = Inr x' \<and> x' \<noteq> x \<and> cr_sha256_hex cr x' = cr_sha256_hex cr x))"
proof (cases "manifest_path cr (source_path c)")
  case (Inl e)
  then have "r \<noteq> Inr ()" "f' = f" using save by (auto simp: repo_save_def)
  then show ?thesis by simp
next
  case (Inr q)
  note at = repo_save_at [OF laws(1,2) c Inr save]
  show ?thesis
  proof (cases "manifest_path cr p")
    case (Inl e)
    moreover have "cr_resolve cr p \<noteq> cr_resolve cr (source_path c)" using Inl Inr by (auto simp: manifest_path_def)
    ultimately show ?thesis by (simp add: repo_load_def)
  next
    case q': (Inr q')
    have l: "repo_load False cr g p = load_manifest False cr g q'" for g using q' by (simp add: repo_load_def)
    obtain a a' where a: "cr_resolve cr (source_path c) = Inr a" "cr_resolve cr p = Inr a'"
      using Inr q' by (auto simp: manifest_path_def rbind_eq_Inr)
    have "q' = q" if "a' = a" using that a Inr q' by (simp add: manifest_path_def)
    moreover have "a' = a \<or> (\<exists>x x'. utf8_encode (path_str a) = Inr x \<and> utf8_encode (path_str a') = Inr x' \<and> x' \<noteq> x \<and>
        cr_sha256_hex cr x' = cr_sha256_hex cr x)" if "q' = q"
      using manifest_path_collides [OF laws(1) Inr _ a] laws(3) a q' that by blast
    ultimately show ?thesis using at(1) [OF q', of False] at(2) [OF q'] l a by (cases "q' = q") auto
  qed
qed

text \<open>
  A repository whose digest tells the two paths \<^verbatim>\<open>/f\<close> and \<^verbatim>\<open>/g\<close> apart and that already holds a manifest of \<^verbatim>\<open>/g\<close>.
\<close>

definition sample_chunks :: "chunk_metadata list" where
  "sample_chunks = [\<lparr>chunk_id = [67], cm_index = 0, cm_size = 2, cm_offset = 0, cm_hash = None, created_at = 0\<rparr>]"

definition sample_collection :: "nat \<Rightarrow> chunk_collection" where
  "sample_collection n = \<lparr>source_path = PurePath 1 [[n]], cc_chunk_size = 4, total_size = 2, cc_chunks = sample_chunks\<rparr>"

definition sample_dict :: "nat \<Rightarrow> mval" where
  "sample_dict n = record_of [(''source_path'', MStr [47, n]), (''chunk_size'', MInt 4), (''total_size'', MInt 2),
     (''chunks'', MList [record_of [(''chunk_id'', MStr [67]), (''index'', MInt 0), (''size'', MInt 2), (''offset'', MInt 0),
       (''chunk_hash'', MNil), (''created_at'', MStr [48])]])]"

definition sample_repo :: chunk_repo where
  "sample_repo = \<lparr>cr_storage_dir = PurePath 1 [[115]],
     cr_resolve = (\<lambda>p. if normal_path p then Inr p else Inl (Py OSError)),
     cr_sha256_hex = (\<lambda>b. replicate 64 (if b = [47, 102] then 97 else 98)),
     cr_dumps = (\<lambda>v. if v = sample_dict 102 then Inr [1] else Inl (Py TypeError)),
     cr_loads = (\<lambda>b. Inr (sample_dict (if b = [1] then 102 else 103))),
     cr_isoformat = (\<lambda>_. [48]), cr_fromisoformat = (\<lambda>_. Inr 0)\<rparr>"

definition sample_manifests :: fs where
  "sample_manifests p = (if p = PurePath 1 [[115], replicate 64 98 @ codes ''.json''] then Some (FileNode [2])
     else if p = PurePath 1 [[115]] \<or> p = PurePath 1 [] then Some DirNode else None)"

lemma sample_repo_laws: "digest_laws sample_repo" "orjson_law sample_repo"
    "\<forall>p a. cr_resolve sample_repo p = Inr a \<longrightarrow> normal_path a"
  by (auto simp: digest_laws_def sample_repo_def orjson_law_def split: if_splits)

lemma sample_storable: "n \<noteq> slash \<Longrightarrow> [n] \<noteq> dot \<Longrightarrow> storable sample_repo (sample_collection n)"
  by (simp add: storable_def sample_collection_def sample_chunks_def wf_collection_def normal_path_def wf_metadata_def sample_repo_def)

lemma sample_to_dict: "collection_to_dict sample_repo (sample_collection n) = sample_dict n"
  by (simp add: sample_repo_def collection_to_dict_def metadata_to_dict_def sample_collection_def sample_chunks_def sample_dict_def
      path_str_def hash_to_dict_def)

lemma sample_manifest_path:
  assumes "n = 102 \<or> n = 103"
  shows "manifest_path sample_repo (PurePath 1 [[n]]) =
    Inr (PurePath 1 [[115], replicate 64 (if n = 102 then 97 else 98) @ codes ''.json''])"
proof -
  have "utf8_encode (path_str (PurePath 1 [[n]])) = Inr [47, word_of_nat n]"
    using assms by (auto simp: path_str_def utf8_encode_def scalar_def utf8_char_def)
  moreover have "normal_path (PurePath 1 [[n]])" using assms by (auto simp: normal_path_def)
  ultimately show ?thesis
    using manifest_name [OF sample_repo_laws(1), of "[47, word_of_nat n]"] assms
    by (auto simp: manifest_path_def) (simp_all add: sample_repo_def)
qed

theorem chunk_repository_refines_map_witness:
  "\<exists>f'. repo_save AtomicOk False sample_repo (sample_collection 102) sample_manifests = (Inr (), f') \<and>
    repo_load False sample_repo f' (PurePath 1 [[102]]) = Inr (Some (sample_collection 102)) \<and>
    repo_load False sample_repo f' (PurePath 1 [[103]]) = Inr (Some (sample_collection 103))"
proof -
  have src: "source_path (sample_collection n) = PurePath 1 [[n]]" for n by (simp add: sample_collection_def)
  have s: "storable sample_repo (sample_collection n)" if "n = 102 \<or> n = 103" for n using that sample_storable by auto
  let ?q = "PurePath 1 [[115], replicate 64 97 @ codes ''.json'']"
  have q: "manifest_path sample_repo (PurePath 1 [[102]]) = Inr ?q" using sample_manifest_path [of 102] by simp
  have q': "manifest_path sample_repo (PurePath 1 [[103]]) = Inr (PurePath 1 [[115], replicate 64 98 @ codes ''.json''])"
    using sample_manifest_path [of 103] by simp
  have d: "cr_dumps sample_repo (collection_to_dict sample_repo (sample_collection 102)) = Inr [1]"
    unfolding sample_to_dict by (simp add: sample_repo_def)
  obtain f' where f': "repo_save AtomicOk False sample_repo (sample_collection 102) sample_manifests = (Inr (), f')"
    by (simp add: repo_save_def src q d atomic_write_bytes_def write_via_def mkdir_parents_def make_dirs_def with_name_def os_replace_def path_parent_def path_name_def
          sibling_def codes_def raise_if_def on_the_way_def is_file_def sample_manifests_def del: One_nat_def)
  have old: "repo_load False sample_repo sample_manifests (PurePath 1 [[103]]) = Inr (Some (sample_collection 103))"
  proof -
    have "cr_loads sample_repo [2] = Inr (sample_dict 103)" by (simp add: sample_repo_def)
    then show ?thesis
      using collection_dict_round_trip [OF s [of 103]]
      by (simp add: repo_load_def q' load_manifest_def sample_manifests_def read_bytes_def sample_to_dict del: One_nat_def)
  qed
  have r: "cr_resolve sample_repo (PurePath 1 [[n]]) = Inr (PurePath 1 [[n]])" if "n = 102 \<or> n = 103" for n
    using that by (auto simp: sample_repo_def normal_path_def)
  have no: "\<not> (\<exists>a a' x x'. cr_resolve sample_repo (source_path (sample_collection 102)) = Inr a \<and>
      cr_resolve sample_repo (PurePath 1 [[103]]) = Inr a' \<and> utf8_encode (path_str a) = Inr x \<and>
         utf8_encode (path_str a') = Inr x' \<and> x' \<noteq> x \<and> cr_sha256_hex sample_repo x' = cr_sha256_hex sample_repo x)"
  proof -
    have u: "utf8_encode (path_str (PurePath 1 [[102]])) = Inr [47, 102]" "utf8_encode (path_str (PurePath 1 [[103]])) = Inr [47, 103]"
      by (simp_all add: path_str_def utf8_encode_def scalar_def utf8_char_def)
    have "cr_sha256_hex sample_repo [47, 103] \<noteq> cr_sha256_hex sample_repo [47, 102]" by (simp add: sample_repo_def)
    then show ?thesis using u r [of 102] r [of 103] by (auto simp: src simp del: One_nat_def)
  qed
  note T = chunk_repository_refines_map [OF sample_repo_laws s f']
  have "repo_load False sample_repo f' (PurePath 1 [[102]]) = Inr (Some (sample_collection 102))"
    using T [of "PurePath 1 [[102]]"] by (simp add: src)
  moreover have "repo_load False sample_repo f' (PurePath 1 [[103]]) = Inr (Some (sample_collection 103))"
    using T [of "PurePath 1 [[103]]"] no old r [of 102] r [of 103]
    by (auto simp: src simp del: One_nat_def)
  ultimately show ?thesis using f' by blast
qed

end
