(* ===== verification/Peers.thy ===== *)
theory Peers
  imports Prelude
begin

text \<open>
  The known peers: the records of \<^verbatim>\<open>domain/networking.py\<close>, the repository of
  \<^verbatim>\<open>networking/in_memory_peer_repository.py\<close> and the discovery use case of
  \<^verbatim>\<open>application/use_cases/discover_peers.py\<close>, whose observer methods keep the repository. The discovery
  service it subscribes to is what calls those methods.
\<close>

section \<open>Data\<close>

datatype peer_status = ONLINE | OFFLINE | UNKNOWN

record peer_identity =
  pi_device_id :: pystr
  pi_hostname :: pystr
  pi_fingerprint :: pystr

record peer_address =
  ad_ip_address :: pystr
  ad_port :: int

record peer_capabilities =
  pc_version :: pystr
  pc_features :: "pystr list"

record peer =
  pr_identity :: peer_identity
  pr_address :: peer_address
  pr_capabilities :: peer_capabilities
  pr_status :: peer_status
  pr_last_seen :: int

definition device_id :: "peer \<Rightarrow> pystr" where
  "device_id p = pi_device_id (pr_identity p)"

section \<open>The repository\<close>

type_synonym peer_repo = "(pystr, peer) dict"

definition peer_save :: "peer_repo \<Rightarrow> peer \<Rightarrow> peer_repo" where
  "peer_save r p = dict_set (device_id p) p r"

definition peer_get :: "peer_repo \<Rightarrow> pystr \<Rightarrow> peer option" where
  "peer_get r i = dict_get r i"

definition peer_list :: "peer_repo \<Rightarrow> peer list" where
  "peer_list r = map snd r"

definition peer_remove :: "peer_repo \<Rightarrow> pystr \<Rightarrow> peer_repo" where
  "peer_remove r i = (if i \<in> set (dict_keys r) then dict_pop i r else r)"

section \<open>Discovery\<close>

definition on_peer_discovered :: "peer \<Rightarrow> peer_repo \<Rightarrow> peer_repo" where
  "on_peer_discovered p r =
     peer_save r \<lparr>pr_identity = pr_identity p, pr_address = pr_address p, pr_capabilities = pr_capabilities p,
       pr_status = ONLINE, pr_last_seen = pr_last_seen p\<rparr>"

definition on_peer_lost :: "pystr \<Rightarrow> peer_repo \<Rightarrow> peer_repo" where
  "on_peer_lost i r =
     (case peer_get r i of
        None \<Rightarrow> r
      | Some p \<Rightarrow> peer_save r \<lparr>pr_identity = pr_identity p, pr_address = pr_address p, pr_capabilities = pr_capabilities p,
          pr_status = OFFLINE, pr_last_seen = pr_last_seen p\<rparr>)"

definition list_online_peers :: "peer_repo \<Rightarrow> peer list" where
  "list_online_peers r = filter (\<lambda>p. pr_status p = ONLINE) (peer_list r)"

datatype discovery_event = Discovered peer | Lost pystr

fun discovery_step :: "discovery_event \<Rightarrow> peer_repo \<Rightarrow> peer_repo" where
  "discovery_step (Discovered p) r = on_peer_discovered p r"
| "discovery_step (Lost i) r = on_peer_lost i r"

section \<open>Which peers are online\<close>

text \<open>Every peer is stored under its own device id.\<close>

definition peers_ok :: "peer_repo \<Rightarrow> bool" where
  "peers_ok r \<longleftrightarrow> wf_dict r \<and> list_all (\<lambda>(i, p). device_id p = i) r"

lemma list_all_dict_set_pair: "list_all P d \<Longrightarrow> P (k, v) \<Longrightarrow> list_all P (dict_set k v d)"
  by (induction d) auto

lemma peer_save_ok: "peers_ok r \<Longrightarrow> peers_ok (peer_save r p)"
  unfolding peers_ok_def peer_save_def by (simp add: wf_dict_set list_all_dict_set_pair)

interpretation discovery: machine_inv discovery_step peers_ok
proof
  fix r e assume "peers_ok r"
  then show "peers_ok (discovery_step e r)"
    by (cases e) (auto simp: on_peer_discovered_def on_peer_lost_def peer_save_ok split: option.splits)
qed

lemma peers_ok_get: "peers_ok r \<Longrightarrow> peer_get r i = Some p \<longleftrightarrow> p \<in> set (peer_list r) \<and> device_id p = i"
  unfolding peers_ok_def peer_get_def peer_list_def list_all_iff by (auto dest: map_of_SomeD intro: rev_image_eqI)

lemma peers_ok_distinct: "peers_ok r \<Longrightarrow> distinct (map device_id (peer_list r))"
proof -
  assume a: "peers_ok r"
  have "map device_id (peer_list r) = dict_keys r"
    using a unfolding peers_ok_def peer_list_def list_all_iff by (auto intro!: map_cong simp: o_def)
  then show ?thesis using a by (simp add: peers_ok_def)
qed

lemma online_distinct: "peers_ok r \<Longrightarrow> distinct (map device_id (list_online_peers r))"
  unfolding list_online_peers_def using peers_ok_distinct by (induction "peer_list r" arbitrary: r) (simp_all add: distinct_map_filter)

definition is_online :: "peer_repo \<Rightarrow> pystr \<Rightarrow> bool" where
  "is_online r i \<longleftrightarrow> (\<exists>p. peer_get r i = Some p \<and> pr_status p = ONLINE)"

lemma online_iff: "peers_ok r \<Longrightarrow> i \<in> device_id ` set (list_online_peers r) \<longleftrightarrow> is_online r i"
  using peers_ok_get [of r] by (auto simp: list_online_peers_def is_online_def)

fun about :: "discovery_event \<Rightarrow> pystr" where
  "about (Discovered p) = device_id p"
| "about (Lost i) = i"

definition last_about :: "pystr \<Rightarrow> discovery_event list \<Rightarrow> discovery_event option" where
  "last_about i es = find (\<lambda>e. about e = i) (rev es)"

lemma is_online_step:
  "peers_ok r \<Longrightarrow> is_online (discovery_step e r) i \<longleftrightarrow> (if about e = i then (\<exists>p. e = Discovered p) else is_online r i)"
proof -
  assume ok: "peers_ok r"
  have key: "device_id p = k" if "peer_get r k = Some p" for k p using that peers_ok_get [OF ok] by simp
  show ?thesis
  proof (cases e)
    case (Discovered p)
    then show ?thesis by (auto simp: is_online_def on_peer_discovered_def peer_get_def peer_save_def device_id_def)
  next
    case (Lost k)
    then show ?thesis using key [of k]
      by (cases "peer_get r k") (auto simp: is_online_def on_peer_lost_def peer_get_def peer_save_def device_id_def)
  qed
qed

section \<open>Properties\<close>

text \<open>
  The peers listed as online are exactly those whose last report was a discovery. After any history of
  reports about any devices, each online device is listed once, and a device is listed if and only if the last
  report about it said it was discovered, not lost.
\<close>

theorem online_peers_exact:
  "distinct (map device_id (list_online_peers (fold discovery_step es []))) \<and>
   (i \<in> set (map device_id (list_online_peers (fold discovery_step es []))) \<longleftrightarrow> (\<exists>p. last_about i es = Some (Discovered p)))"
proof -
  have ok: "peers_ok (fold discovery_step es [])" for es
    by (rule discovery.run_inv) (simp add: peers_ok_def)
  have "is_online (fold discovery_step es []) i \<longleftrightarrow> (\<exists>p. last_about i es = Some (Discovered p))"
  proof (induction es rule: rev_induct)
    case Nil
    then show ?case by (simp add: is_online_def peer_get_def last_about_def)
  next
    case (snoc e es)
    then show ?case using is_online_step [OF ok [of es]] by (simp add: last_about_def)
  qed
  then show ?thesis using online_distinct [OF ok] online_iff [OF ok] by simp
qed

end
