(* ===== verification/Tcp_Transport.thy ===== *)
theory Tcp_Transport
  imports Secure_Channel Chunk_Repository Peers Receive_Push
begin

text \<open>
  \<^verbatim>\<open>networking/tcp_transport.py\<close>: chunks as MessagePack payloads, sealed into frames of a session and sent
  over a fresh connection each; received frames wait in a bounded inbox, from which pushes and requested chunks are
  taken. Connecting, writing and the bytes of a connection are the arguments that say what the network yields.
  Nothing checks the type of a chunk's data or of the version counters a peer sends, so what is received is a
  \<open>raw_push\<close> that keeps the wire values; \<open>raw_of\<close> embeds the pushes of the typed model and \<open>typed_push\<close> recovers them.
\<close>

section \<open>Payloads\<close>

definition hash_fields :: "chunk_hash option \<Rightarrow> (string \<times> mval) list" where
  "hash_fields h =
     [(''hash_algorithm'', case h of None \<Rightarrow> MNil | Some x \<Rightarrow> MStr (algorithm_value (algorithm x))),
      (''hash_digest'', case h of None \<Rightarrow> MNil | Some x \<Rightarrow> MStr (digest x))]"

definition chunk_fields :: "chunk \<Rightarrow> (string \<times> mval) list" where
  "chunk_fields c =
     [(''chunk_id'', MStr (chunk_id (ck_metadata c))), (''index'', MInt (cm_index (ck_metadata c))),
      (''size'', MInt (cm_size (ck_metadata c))), (''offset'', MInt (cm_offset (ck_metadata c)))] @
     hash_fields (cm_hash (ck_metadata c)) @ [(''data'', MBin (ck_data c))]"

definition counters_value :: "version_vector \<Rightarrow> mval" where
  "counters_value v = MMap (map (\<lambda>(k, n). (MStr k, MInt n)) (counters v))"

definition push_payload :: "chunk \<Rightarrow> pystr \<Rightarrow> int \<Rightarrow> version_vector option \<Rightarrow> mval" where
  "push_payload c relative_path total_chunks v =
     record_of (chunk_fields c @ [(''relative_path'', MStr relative_path), (''total_chunks'', MInt total_chunks),
       (''version_counters'', case v of None \<Rightarrow> MNil | Some x \<Rightarrow> counters_value x)])"

text \<open>A \<^verbatim>\<open>Chunk\<close> with whatever data the wire had: only \<^verbatim>\<open>len(data)\<close> is compared.\<close>

record raw_chunk =
  rk_metadata :: chunk_metadata
  rk_data :: mval

definition value_length :: "mval \<Rightarrow> nat result" where
  "value_length v =
     (case v of
        MStr s \<Rightarrow> Inr (length s)
      | MBin b \<Rightarrow> Inr (length b)
      | MList xs \<Rightarrow> Inr (length xs)
      | MMap d \<Rightarrow> Inr (length d)
      | _ \<Rightarrow> Inl (Py TypeError))"

definition chunk_with_data :: "chunk_metadata \<Rightarrow> mval \<Rightarrow> raw_chunk result" where
  "chunk_with_data m v =
     rbind (value_length v) (\<lambda>n. raise_if (int n \<noteq> cm_size m) (Py ValueError) (Inr \<lparr>rk_metadata = m, rk_data = v\<rparr>))"

definition hash_from_payload :: "conversions \<Rightarrow> mval \<Rightarrow> chunk_hash result" where
  "hash_from_payload cv payload =
     rbind (getitem payload ''hash_algorithm'') (\<lambda>a.
     rbind (algorithm_of_wire a) (\<lambda>alg.
     rbind (getitem payload ''hash_digest'') (\<lambda>d. mk_ChunkHash alg (py_str cv d))))"

definition metadata_from_payload :: "conversions \<Rightarrow> int \<Rightarrow> mval \<Rightarrow> chunk_hash option \<Rightarrow> chunk_metadata result" where
  "metadata_from_payload cv now payload h =
     rbind (getitem payload ''chunk_id'') (\<lambda>cid.
     rbind (getitem payload ''index'') (\<lambda>i. rbind (py_int cv i) (\<lambda>idx.
     rbind (getitem payload ''size'') (\<lambda>n. rbind (py_int cv n) (\<lambda>sz.
     rbind (getitem payload ''offset'') (\<lambda>off. rbind (py_int cv off) (\<lambda>offset.
     mk_ChunkMetadata (py_str cv cid) idx sz offset h now)))))))"

definition chunk_from_payload :: "conversions \<Rightarrow> int \<Rightarrow> mval \<Rightarrow> raw_chunk result" where
  "chunk_from_payload cv now payload =
     rbind (dict_get_or_none payload ''hash_algorithm'') (\<lambda>a.
     rbind (if a \<noteq> MNil then rbind (hash_from_payload cv payload) (\<lambda>h. Inr (Some h)) else Inr None) (\<lambda>h.
     rbind (metadata_from_payload cv now payload h) (\<lambda>m.
     rbind (getitem payload ''data'') (\<lambda>data. chunk_with_data m data))))"

text \<open>
  \<^verbatim>\<open>dict(version_counters)\<close>: a dictionary is copied; any other iterable must yield pairs. Numbers that are equal are
  the same key, whatever their type, and a key that comes again keeps its place.
\<close>

definition key_number :: "mval \<Rightarrow> real option" where
  "key_number v =
     (case v of MBool b \<Rightarrow> Some (if b then 1 else 0) | MInt n \<Rightarrow> Some (of_int n) | MFloat x \<Rightarrow> Some x | _ \<Rightarrow> None)"

definition same_key :: "mval \<Rightarrow> mval \<Rightarrow> bool" where
  "same_key a b = (case (key_number a, key_number b) of (Some x, Some y) \<Rightarrow> x = y | _ \<Rightarrow> a = b)"

definition hashable :: "mval \<Rightarrow> bool" where
  "hashable v = (case v of MList _ \<Rightarrow> False | MMap _ \<Rightarrow> False | _ \<Rightarrow> True)"

fun put_entry :: "mval \<Rightarrow> mval \<Rightarrow> (mval \<times> mval) list \<Rightarrow> (mval \<times> mval) list" where
  "put_entry k v [] = [(k, v)]"
| "put_entry k v ((k', v') # d) = (if same_key k' k then (k', v) # d else (k', v') # put_entry k v d)"

definition entry_of :: "mval \<Rightarrow> (mval \<times> mval) result" where
  "entry_of v =
     rbind (iterate v) (\<lambda>xs. case xs of
       [k, x] \<Rightarrow> raise_if (\<not> hashable k) (Py TypeError) (Inr (k, x))
     | _ \<Rightarrow> Inl (Py ValueError))"

fun put_entries :: "mval list \<Rightarrow> (mval \<times> mval) list \<Rightarrow> (mval \<times> mval) list result" where
  "put_entries [] d = Inr d"
| "put_entries (x # xs) d = rbind (entry_of x) (\<lambda>(k, v). put_entries xs (put_entry k v d))"

definition py_dict :: "mval \<Rightarrow> (mval \<times> mval) list result" where
  "py_dict v = (case v of MMap d \<Rightarrow> Inr d | _ \<Rightarrow> rbind (iterate v) (\<lambda>xs. put_entries xs []))"

definition version_of_counters :: "mval \<Rightarrow> (mval \<times> mval) list option result" where
  "version_of_counters v = (if v = MNil then Inr None else rbind (py_dict v) (\<lambda>d. Inr (Some d)))"

record raw_push =
  ra_path :: pystr
  ra_total :: int
  ra_chunk :: raw_chunk
  ra_version :: "(mval \<times> mval) list option"

definition push_from_payload :: "conversions \<Rightarrow> int \<Rightarrow> mval \<Rightarrow> raw_push result" where
  "push_from_payload cv now payload =
     rbind (dict_get_or_none payload ''version_counters'') (\<lambda>version_counters.
     rbind (getitem payload ''relative_path'') (\<lambda>path.
     rbind (getitem payload ''total_chunks'') (\<lambda>t. rbind (py_int cv t) (\<lambda>total_chunks.
     rbind (chunk_from_payload cv now payload) (\<lambda>c.
     rbind (version_of_counters version_counters) (\<lambda>v.
     Inr \<lparr>ra_path = py_str cv path, ra_total = total_chunks, ra_chunk = c, ra_version = v\<rparr>))))))"

text \<open>Well-typed pushes among the received ones.\<close>

definition counters_entries :: "version_vector \<Rightarrow> (mval \<times> mval) list" where
  "counters_entries v = map (\<lambda>(k, n). (MStr k, MInt n)) (counters v)"

definition raw_chunk_of :: "chunk \<Rightarrow> raw_chunk" where
  "raw_chunk_of c = \<lparr>rk_metadata = ck_metadata c, rk_data = MBin (ck_data c)\<rparr>"

definition raw_of :: "incoming_push \<Rightarrow> raw_push" where
  "raw_of i = \<lparr>ra_path = in_path i, ra_total = in_total i, ra_chunk = raw_chunk_of (in_chunk i),
     ra_version = map_option counters_entries (in_version i)\<rparr>"

definition counter_entry :: "mval \<times> mval \<Rightarrow> (pystr \<times> int) option" where
  "counter_entry e = (case e of (MStr k, MInt n) \<Rightarrow> Some (k, n) | _ \<Rightarrow> None)"

definition typed_version :: "(mval \<times> mval) list option \<Rightarrow> version_vector option option" where
  "typed_version v =
     (case v of
        None \<Rightarrow> Some None
      | Some d \<Rightarrow> if list_ex (\<lambda>e. counter_entry e = None) d then None
                  else Some (Some \<lparr>counters = List.map_filter counter_entry d\<rparr>))"

definition typed_push :: "raw_push \<Rightarrow> incoming_push option" where
  "typed_push r =
     (case (rk_data (ra_chunk r), typed_version (ra_version r)) of
        (MBin b, Some v) \<Rightarrow> Some \<lparr>in_path = ra_path r, in_total = ra_total r,
          in_chunk = \<lparr>ck_metadata = rk_metadata (ra_chunk r), ck_data = b\<rparr>, in_version = v\<rparr>
      | _ \<Rightarrow> None)"

text \<open>
  \<^verbatim>\<open>_validate\<close> of the receiver on such a push: the checks are those of \<open>validate_push\<close> up to the hash, and
  \<^verbatim>\<open>hashlib.sha256\<close> refuses anything but bytes.
\<close>

definition validate_raw :: "receiver_config \<Rightarrow> raw_push \<Rightarrow> unit result" where
  "validate_raw rc r =
     (let m = rk_metadata (ra_chunk r); l = rc_limits rc in
     raise_if (ra_total r < 1) rejected
    (raise_if (ra_total r > pl_max_total_chunks l) rejected
    (raise_if (cm_size m > pl_max_chunk_size l) rejected
    (raise_if (cm_offset m + cm_size m > pl_max_file_size l) rejected
    (case cm_hash m of
       None \<Rightarrow> Inl rejected
     | Some declared \<Rightarrow>
         rbind (as_bytes (rk_data (ra_chunk r))) (\<lambda>b. let actual = rc_hash rc b in
         raise_if (algorithm actual \<noteq> algorithm declared \<or> digest actual \<noteq> digest declared) rejected (Inr ())))))))"

section \<open>The transport\<close>

record tcp_transport =
  tt_channel :: "mval secure_channel"
  tt_conversions :: conversions
  tt_sessions :: session_store
  tt_inbox :: "bytes list"
  tt_active :: int

text \<open>Clocks: wall clock in ms for the frames, seconds for the sessions, microseconds for the chunk records.\<close>

record clock =
  ck_ms :: int
  ck_s :: real
  ck_us :: int

record tcp_io =
  ti_connect :: "unit result"
  ti_write :: "unit result"

text \<open>\<^verbatim>\<open>send_chunk\<close>: the result, the transport, and what went onto the wire.\<close>

definition send_frame ::
  "clock \<Rightarrow> packet_type \<Rightarrow> mval \<Rightarrow> pystr \<Rightarrow> tcp_transport \<Rightarrow> (bytes \<times> peer_session) result \<times> tcp_transport" where
  "send_frame ck pt payload peer_id tt =
     (case get_send_session (ck_s ck) (tt_sessions tt) peer_id of
        None \<Rightarrow> (Inl (Store NoSessionError), tt)
      | Some session \<Rightarrow>
          (case seal (tt_channel tt) (ck_ms ck) (ck_s ck) session pt payload of
             (r, session') \<Rightarrow>
               (rbind r (\<lambda>frame. Inr (frame, session')),
                tt\<lparr>tt_sessions := modify_session (ps_session_id session) (\<lambda>_. session') (tt_sessions tt)\<rparr>)))"

definition send_chunk ::
  "clock \<Rightarrow> tcp_io \<Rightarrow> peer \<Rightarrow> chunk \<Rightarrow> pystr \<Rightarrow> int \<Rightarrow> version_vector option \<Rightarrow> tcp_transport \<Rightarrow>
   bytes result \<times> tcp_transport" where
  "send_chunk ck io p c relative_path total_chunks v tt =
     (case send_frame ck CHUNK_DATA (push_payload c relative_path total_chunks v) (device_id p) tt of
        (Inl e, tt1) \<Rightarrow> (Inl e, tt1)
      | (Inr (frame, session), tt1) \<Rightarrow>
          (rbind (ti_connect io) (\<lambda>_. rbind (write_length_prefixed frame) (\<lambda>wire. rbind (ti_write io) (\<lambda>_. Inr wire))), tt1))"

text \<open>\<^verbatim>\<open>_handle_connection\<close>: up to the first await, and from the end of the read on.\<close>

definition connection_open :: "tcp_transport \<Rightarrow> bool \<times> tcp_transport" where
  "connection_open tt =
     (if tt_active tt \<ge> MAX_CONCURRENT_CONNECTIONS then (False, tt) else (True, tt\<lparr>tt_active := tt_active tt + 1\<rparr>))"

definition try_enqueue :: "bytes \<Rightarrow> tcp_transport \<Rightarrow> tcp_transport" where
  "try_enqueue frame tt =
     (if length (tt_inbox tt) \<ge> INBOX_MAX_SIZE then tt else tt\<lparr>tt_inbox := tt_inbox tt @ [frame]\<rparr>)"

definition connection_read :: "stream_in \<Rightarrow> tcp_transport \<Rightarrow> unit result \<times> tcp_transport" where
  "connection_read s tt =
     (case fst (read_length_prefixed MAX_MESSAGE_SIZE s) of
        Inr frame \<Rightarrow> (Inr (), (try_enqueue frame tt)\<lparr>tt_active := tt_active tt - 1\<rparr>)
      | Inl e \<Rightarrow> (if e \<in> {Py IncompleteReadError, Py ConnectionError} then Inr () else Inl e,
                   tt\<lparr>tt_active := tt_active tt - 1\<rparr>))"

definition is_replay_error :: "exn \<Rightarrow> bool" where
  "is_replay_error e \<longleftrightarrow> (case e of Replay _ \<Rightarrow> True | _ \<Rightarrow> False)"

text \<open>
  One round of \<^verbatim>\<open>receive_pushes\<close>: a frame that cannot be opened is dropped (\<open>Inr None\<close>), any other exception
  leaves the generator.
\<close>

definition receive_push :: "clock \<Rightarrow> tcp_transport \<Rightarrow> raw_push option result \<times> tcp_transport" where
  "receive_push ck tt =
     (case tt_inbox tt of
        [] \<Rightarrow> (Inr None, tt)
      | frame # rest \<Rightarrow>
          (case open_frame (tt_channel tt) (ck_ms ck) (ck_s ck) frame (tt_sessions tt) of
             (r, st) \<Rightarrow>
               (let tt1 = tt\<lparr>tt_inbox := rest, tt_sessions := st\<rparr> in
                case r of
                  Inl e \<Rightarrow> (if is_replay_error e then Inr None else Inl e, tt1)
                | Inr (packet, session) \<Rightarrow>
                    (rbind (push_from_payload (tt_conversions tt) (ck_us ck) (pk_payload packet)) (\<lambda>i. Inr (Some i)), tt1))))"

text \<open>
  \<^verbatim>\<open>request_chunks\<close>: the chunks it yields while frames are there, the digests still wanted, and the
  exception that ends it, if any. It waits when the inbox is empty and ends when nothing is wanted.
\<close>

definition wanted_digest :: "mval \<Rightarrow> pystr list \<Rightarrow> pystr option result" where
  "wanted_digest v remaining =
     (case v of
        MStr d \<Rightarrow> Inr (if d \<in> set remaining then Some d else None)
      | MList _ \<Rightarrow> Inl (Py TypeError)
      | MMap _ \<Rightarrow> Inl (Py TypeError)
      | _ \<Rightarrow> Inr None)"

definition requested_chunk ::
  "conversions \<Rightarrow> int \<Rightarrow> pystr \<Rightarrow> pystr list \<Rightarrow> mval packet \<times> peer_session \<Rightarrow> (pystr \<times> raw_chunk) option result" where
  "requested_chunk cv now peer_id remaining ps =
     (if ps_peer_id (snd ps) \<noteq> peer_id then Inr None
      else rbind (dict_get_or_none (pk_payload (fst ps)) ''hash_digest'') (\<lambda>v.
           rbind (wanted_digest v remaining) (\<lambda>w.
           case w of
             None \<Rightarrow> Inr None
           | Some d \<Rightarrow> rbind (chunk_from_payload cv now (pk_payload (fst ps))) (\<lambda>c. Inr (Some (d, c))))))"

fun request_chunks_loop ::
  "clock \<Rightarrow> conversions \<Rightarrow> mval secure_channel \<Rightarrow> pystr \<Rightarrow> pystr list \<Rightarrow> bytes list \<Rightarrow> session_store \<Rightarrow>
   (raw_chunk list \<times> pystr list \<times> exn option) \<times> bytes list \<times> session_store" where
  "request_chunks_loop ck cv ch peer_id [] frames st = (([], [], None), frames, st)"
| "request_chunks_loop ck cv ch peer_id remaining [] st = (([], remaining, None), [], st)"
| "request_chunks_loop ck cv ch peer_id remaining (frame # frames) st =
     (case open_frame ch (ck_ms ck) (ck_s ck) frame st of
        (Inl e, st1) \<Rightarrow>
          if is_replay_error e then request_chunks_loop ck cv ch peer_id remaining frames st1
          else (([], remaining, Some e), frames, st1)
      | (Inr ps, st1) \<Rightarrow>
          (case requested_chunk cv (ck_us ck) peer_id remaining ps of
             Inl e \<Rightarrow> (([], remaining, Some e), frames, st1)
           | Inr None \<Rightarrow> request_chunks_loop ck cv ch peer_id remaining frames st1
           | Inr (Some (d, c)) \<Rightarrow>
               (case request_chunks_loop ck cv ch peer_id (removeAll d remaining) frames st1 of
                  ((cs, left, e), rest) \<Rightarrow> ((c # cs, left, e), rest))))"

definition request_chunks :: "clock \<Rightarrow> peer \<Rightarrow> pystr list \<Rightarrow> tcp_transport \<Rightarrow> (raw_chunk list \<times> pystr list \<times> exn option) \<times> tcp_transport" where
  "request_chunks ck p chunk_hashes tt =
     (case request_chunks_loop ck (tt_conversions tt) (tt_channel tt) (device_id p) (remdups chunk_hashes) (tt_inbox tt) (tt_sessions tt) of
        (r, frames, st) \<Rightarrow> (r, tt\<lparr>tt_inbox := frames, tt_sessions := st\<rparr>))"

section \<open>Payloads and chunks\<close>

definition wire_chunk :: "chunk \<Rightarrow> bool" where
  "wire_chunk c \<longleftrightarrow> wf_chunk c \<and> (\<forall>h. cm_hash (ck_metadata c) = Some h \<longrightarrow> wf_hash h)"

definition arrived :: "int \<Rightarrow> chunk \<Rightarrow> chunk" where
  "arrived now c = c\<lparr>ck_metadata := (ck_metadata c)\<lparr>created_at := now\<rparr>\<rparr>"

lemma mk_ChunkHash_wf: "wf_hash h \<Longrightarrow> mk_ChunkHash (algorithm h) (digest h) = Inr h"
  by (simp add: mk_ChunkHash_eq_Inr)

text \<open>A version vector has each device once, as a Python dictionary does.\<close>

definition wire_version :: "version_vector option \<Rightarrow> bool" where
  "wire_version v \<longleftrightarrow> (\<forall>x. v = Some x \<longrightarrow> wf_dict (counters x))"

lemma plain_counters: "wf_dict (counters v) \<Longrightarrow> plain_value (counters_value v)"
proof -
  assume w: "wf_dict (counters v)"
  have e: "map fst (map (\<lambda>(k, n). (MStr k, MInt n)) (counters v)) = map MStr (dict_keys (counters v))"
    by (simp add: case_prod_unfold o_def)
  have "distinct (map MStr (dict_keys (counters v)))" using w by (simp add: distinct_map inj_on_def)
  then have "distinct (map fst (map (\<lambda>(k, n). (MStr k, MInt n)) (counters v)))" by (simp only: e)
  then show ?thesis unfolding counters_value_def plain_value.simps by (auto simp: list_all_iff)
qed

lemma plain_push_payload: "wire_version v \<Longrightarrow> plain_value (push_payload c path n v)"
  using plain_counters
  by (auto simp: push_payload_def chunk_fields_def hash_fields_def wire_version_def split: option.splits)

lemma version_round_trip:
  "version_of_counters (case v of None \<Rightarrow> MNil | Some x \<Rightarrow> counters_value x) = Inr (map_option counters_entries v)"
  by (cases v) (simp_all add: version_of_counters_def counters_value_def counters_entries_def py_dict_def)

lemma typed_raw [simp]: "typed_push (raw_of i) = Some i"
proof -
  have "counter_entry \<circ> (\<lambda>(k, n). (MStr k, MInt n)) = Some" by (auto simp: counter_entry_def)
  then have m: "List.map_filter counter_entry (counters_entries v) = counters v" for v
    by (simp add: counters_entries_def List.map_filter_def o_def filter_map case_prod_unfold counter_entry_def)
  have "typed_version (map_option counters_entries v) = Some v" for v
    by (cases v) (auto simp: typed_version_def m, auto simp: counters_entries_def list_ex_iff counter_entry_def)
  then show ?thesis by (simp add: typed_push_def raw_of_def raw_chunk_of_def)
qed

lemma validate_raw_of: "validate_raw rc (raw_of i) = validate_push rc i"
  by (simp add: validate_raw_def validate_push_def raw_of_def raw_chunk_of_def as_bytes_def Let_def split: option.split)

text \<open>
  A peer with a session ends the receiver by one push whose data is not bytes: it is received when the size matches,
  the hasher raises, and \<^verbatim>\<open>run_forever\<close> does not log a \<^verbatim>\<open>TypeError\<close>.
\<close>

lemma data_of_wrong_type_escapes:
  assumes "1 \<le> ra_total r" "ra_total r \<le> pl_max_total_chunks (rc_limits rc)"
    and "cm_size (rk_metadata (ra_chunk r)) \<le> pl_max_chunk_size (rc_limits rc)"
    and "cm_offset (rk_metadata (ra_chunk r)) + cm_size (rk_metadata (ra_chunk r)) \<le> pl_max_file_size (rc_limits rc)"
    and "cm_hash (rk_metadata (ra_chunk r)) \<noteq> None" "\<And>b. rk_data (ra_chunk r) \<noteq> MBin b"
  shows "validate_raw rc r = Inl (Py TypeError)" "\<not> caught (Py TypeError)"
  using assms by (auto simp: validate_raw_def Let_def raise_if_def as_bytes_def caught_def split: mval.splits)

lemma metadata_round_trip:
  assumes "wf_chunk c"
  shows "metadata_from_payload cv now (record_of (chunk_fields c @ extra)) (cm_hash (ck_metadata c)) = Inr (ck_metadata (arrived now c))"
  using assms by (simp add: metadata_from_payload_def chunk_fields_def hash_fields_def mk_ChunkMetadata_eq_Inr wf_chunk_def
      wf_metadata_def arrived_def)

lemma hash_round_trip:
  assumes "cm_hash (ck_metadata c) = Some h" "wf_hash h"
  shows "hash_from_payload cv (record_of (chunk_fields c @ extra)) = Inr h"
  using assms mk_ChunkHash_wf [OF assms(2)]
  by (simp add: hash_from_payload_def chunk_fields_def hash_fields_def algorithm_of_wire_def)

lemma data_round_trip:
  "wf_chunk c \<Longrightarrow> chunk_with_data (ck_metadata (arrived now c)) (MBin (ck_data c)) = Inr (raw_chunk_of (arrived now c))"
  by (simp add: chunk_with_data_def value_length_def raw_chunk_of_def raise_if_def arrived_def wf_chunk_def)

lemma chunk_payload_round_trip:
  assumes "wire_chunk c"
  shows "chunk_from_payload cv now (record_of (chunk_fields c @ extra)) = Inr (raw_chunk_of (arrived now c))"
proof -
  have wf: "wf_chunk c" using assms by (simp add: wire_chunk_def)
  have a: "dict_get_or_none (record_of (chunk_fields c @ extra)) ''hash_algorithm'' =
      Inr (case cm_hash (ck_metadata c) of None \<Rightarrow> MNil | Some x \<Rightarrow> MStr (algorithm_value (algorithm x)))"
    "getitem (record_of (chunk_fields c @ extra)) ''data'' = Inr (MBin (ck_data c))"
    by (simp_all add: chunk_fields_def hash_fields_def)
  show ?thesis
  proof (cases "cm_hash (ck_metadata c)")
    case None
    then show ?thesis using a metadata_round_trip [OF wf, of cv now extra] data_round_trip [OF wf] by (simp add: chunk_from_payload_def)
  next
    case (Some h)
    then have "wf_hash h" using assms by (simp add: wire_chunk_def)
    then show ?thesis
      using Some a hash_round_trip [OF Some, of cv extra] metadata_round_trip [OF wf, of cv now extra] data_round_trip [OF wf]
      by (simp add: chunk_from_payload_def)
  qed
qed

lemma push_payload_arrives:
  assumes "wire_chunk c"
  shows "push_from_payload cv now (push_payload c path n v) =
    Inr (raw_of \<lparr>in_path = path, in_total = n, in_chunk = arrived now c, in_version = v\<rparr>)"
proof -
  let ?extra = "[(''relative_path'', MStr path), (''total_chunks'', MInt n), (''version_counters'', case v of None \<Rightarrow> MNil | Some x \<Rightarrow> counters_value x)]"
  have "map_of (chunk_fields c @ ?extra) ''relative_path'' = Some (MStr path)" "map_of (chunk_fields c @ ?extra) ''total_chunks'' = Some (MInt n)"
    "map_of (chunk_fields c @ ?extra) ''version_counters'' = Some (case v of None \<Rightarrow> MNil | Some x \<Rightarrow> counters_value x)"
    by (simp_all add: chunk_fields_def hash_fields_def)
  then show ?thesis
    using chunk_payload_round_trip [OF assms, of cv now ?extra] version_round_trip [of v]
    by (simp add: push_from_payload_def push_payload_def raw_of_def)
qed

section \<open>Bounds\<close>

datatype tcp_event = Opens | Reads stream_in | Receives clock

definition transport_inv :: "tcp_transport \<Rightarrow> bool" where
  "transport_inv tt \<longleftrightarrow> 0 \<le> tt_active tt \<and> tt_active tt \<le> MAX_CONCURRENT_CONNECTIONS \<and> length (tt_inbox tt) \<le> INBOX_MAX_SIZE"

fun tcp_step :: "tcp_event \<Rightarrow> tcp_transport \<Rightarrow> tcp_transport" where
  "tcp_step Opens tt = snd (connection_open tt)"
| "tcp_step (Reads s) tt = (if tt_active tt > 0 then snd (connection_read s tt) else tt)"
| "tcp_step (Receives ck) tt = snd (receive_push ck tt)"

interpretation tcp: machine_inv tcp_step transport_inv
proof
  fix tt e assume "transport_inv tt"
  then show "transport_inv (tcp_step e tt)"
    by (cases e) (auto simp: transport_inv_def connection_open_def connection_read_def try_enqueue_def receive_push_def Let_def
        split: sum.splits list.splits prod.splits)
qed

section \<open>Requested chunks\<close>

text \<open>What the constructors have checked of a received chunk.\<close>

definition raw_chunk_ok :: "raw_chunk \<Rightarrow> bool" where
  "raw_chunk_ok c \<longleftrightarrow> wf_metadata (rk_metadata c) \<and> value_length (rk_data c) = Inr (nat (cm_size (rk_metadata c)))"

lemma chunk_with_data_wf: "chunk_with_data m v = Inr c \<Longrightarrow>
    rk_metadata c = m \<and> rk_data c = v \<and> value_length v = Inr (nat (cm_size m))"
  by (auto simp: chunk_with_data_def result_simps)

lemma raw_chunk_ok_typed: "raw_chunk_ok (raw_chunk_of c) \<longleftrightarrow> wf_chunk c"
  by (auto simp: raw_chunk_ok_def raw_chunk_of_def value_length_def wf_chunk_def wf_metadata_def)

lemma metadata_from_payload_wf: "metadata_from_payload cv now p h = Inr m \<Longrightarrow> wf_metadata m \<and> cm_hash m = h"
  by (auto simp: metadata_from_payload_def result_simps)

lemma chunk_from_payload_wf:
  assumes "chunk_from_payload cv now p = Inr c"
  shows "raw_chunk_ok c" "cm_hash (rk_metadata c) = Some h \<Longrightarrow> hash_from_payload cv p = Inr h" "getitem p ''data'' = Inr (rk_data c)"
  using assms
  by (auto simp: chunk_from_payload_def raw_chunk_ok_def result_simps split: if_splits
      dest!: chunk_with_data_wf metadata_from_payload_wf)

lemma hash_from_payload_digest: "hash_from_payload cv p = Inr h \<Longrightarrow> dict_get_or_none p ''hash_digest'' = Inr (MStr d) \<Longrightarrow> digest h = d"
  by (auto simp: hash_from_payload_def result_simps getitem_def dict_get_or_none_def split: mval.splits option.splits)

lemma requested_chunk_Some:
  assumes "requested_chunk cv now i remaining ps = Inr (Some (d, c))"
  shows "d \<in> set remaining" "raw_chunk_ok c" "\<And>h. cm_hash (rk_metadata c) = Some h \<Longrightarrow> digest h = d" "ps_peer_id (snd ps) = i"
proof -
  obtain v where v: "dict_get_or_none (pk_payload (fst ps)) ''hash_digest'' = Inr v" "wanted_digest v remaining = Inr (Some d)"
    "chunk_from_payload cv now (pk_payload (fst ps)) = Inr c" "ps_peer_id (snd ps) = i"
    using assms by (auto simp: requested_chunk_def result_simps split: if_splits option.splits)
  have "v = MStr d \<and> d \<in> set remaining" using v(2) by (auto simp: wanted_digest_def split: mval.splits if_splits)
  then have d: "v = MStr d" "d \<in> set remaining" by simp_all
  show "d \<in> set remaining" "raw_chunk_ok c" "ps_peer_id (snd ps) = i" by (rule d(2), rule chunk_from_payload_wf(1) [OF v(3)], rule v(4))
  show "digest h = d" if "cm_hash (rk_metadata c) = Some h" for h
    by (rule hash_from_payload_digest [OF chunk_from_payload_wf(2) [OF v(3) that] v(1) [unfolded d(1)]])
qed

lemma length_removeAll_distinct: "distinct xs \<Longrightarrow> x \<in> set xs \<Longrightarrow> Suc (length (removeAll x xs)) = length xs"
  by (induction xs) auto

lemma request_chunks_loop_spec:
  "request_chunks_loop ck cv ch i remaining frames st = ((cs, rest, e), frames', st') \<Longrightarrow> distinct remaining \<Longrightarrow>
   set rest \<subseteq> set remaining \<and> distinct rest \<and> length cs + length rest = length remaining \<and>
   (\<forall>c \<in> set cs. raw_chunk_ok c \<and> (\<forall>h. cm_hash (rk_metadata c) = Some h \<longrightarrow> digest h \<in> set remaining - set rest)) \<and>
   (e = None \<longrightarrow> rest = [] \<or> frames' = [])"
proof (induction ck cv ch i remaining frames st arbitrary: cs rest e frames' st' rule: request_chunks_loop.induct)
  case (3 ck cv ch i r rs frame frames st)
  obtain o1 st1 where o1: "open_frame ch (ck_ms ck) (ck_s ck) frame st = (o1, st1)" by (cases "open_frame ch (ck_ms ck) (ck_s ck) frame st")
  show ?case
  proof (cases o1)
    case (Inl x)
    then show ?thesis using 3 o1 by (cases "is_replay_error x") auto
  next
    case (Inr ps)
    show ?thesis
    proof (cases "requested_chunk cv (ck_us ck) i (r # rs) ps")
      case (Inl x)
      then show ?thesis using 3 o1 Inr by auto
    next
      case (Inr q)
      show ?thesis
      proof (cases q)
        case None
        then show ?thesis using 3 o1 Inr \<open>o1 = Inr ps\<close> by auto
      next
        case (Some dc)
        obtain d c where dc: "dc = (d, c)" by (cases dc)
        note q = requested_chunk_Some [OF Inr [unfolded Some dc]]
        obtain cs1 e1 where rec: "request_chunks_loop ck cv ch i (removeAll d (r # rs)) frames st1 = ((cs1, rest, e), frames', st')" "cs = c # cs1"
          using 3(4) o1 Inr \<open>o1 = Inr ps\<close> Some dc by (auto split: prod.splits)
        have "distinct (removeAll d (r # rs))" using 3(5) by (rule distinct_removeAll)
        note IH = "3.IH"(3) [OF o1 [symmetric] \<open>o1 = Inr ps\<close> Inr Some dc [symmetric] rec(1) this, unfolded set_removeAll]
        have "Suc (length (removeAll d (r # rs))) = length (r # rs)" by (rule length_removeAll_distinct [OF 3(5) q(1)])
        then show ?thesis unfolding rec(2) using IH q(1-3) by (auto simp del: removeAll.simps)
      qed
    qed
  qed
qed auto

section \<open>Values of any type\<close>

text \<open>The exceptions a computation may raise.\<close>

definition raises_only :: "exn set \<Rightarrow> 'a result \<Rightarrow> bool" where
  "raises_only E m \<longleftrightarrow> (\<forall>e. m = Inl e \<longrightarrow> e \<in> E)"

named_theorems raises

lemma raises_rbind [raises]: "raises_only E m \<Longrightarrow> (\<And>x. raises_only E (f x)) \<Longrightarrow> raises_only E (rbind m f)"
  by (auto simp: raises_only_def rbind_eq_Inl)

lemma raises_Inr [raises]: "raises_only E (Inr x)"
  by (simp add: raises_only_def)

lemma raises_Inl: "e \<in> E \<Longrightarrow> raises_only E (Inl e)"
  by (simp add: raises_only_def)

lemma raises_if [raises]: "e \<in> E \<Longrightarrow> raises_only E m \<Longrightarrow> raises_only E (raise_if b e m)"
  by (auto simp: raises_only_def raise_if_def)

definition value_errors :: "exn set" where
  "value_errors = {Py TypeError, Py KeyError, Py ValueError, Py AttributeError, Py OverflowError}"

lemma value_errorsI [raises]:
  "Py TypeError \<in> value_errors" "Py KeyError \<in> value_errors" "Py ValueError \<in> value_errors" "Py AttributeError \<in> value_errors"
  by (simp_all add: value_errors_def)

lemma raises_getitem [raises]: "raises_only value_errors (getitem v k)"
  unfolding getitem_def by (auto simp: raises_only_def value_errors_def split: mval.splits option.splits)

lemma raises_dict_get [raises]: "raises_only value_errors (dict_get_or_none v k)"
  unfolding dict_get_or_none_def by (auto simp: raises_only_def value_errors_def split: mval.splits)

lemma raises_py_int: "(\<And>v. raises_only value_errors (cv_parse cv v)) \<Longrightarrow> raises_only value_errors (py_int cv v)"
  unfolding py_int_def by (auto simp: raises_only_def value_errors_def split: mval.splits)

lemma raises_mk [raises]:
  "raises_only value_errors (mk_ChunkHash alg d)" "raises_only value_errors (mk_ChunkMetadata cid i n off h t)"
  "raises_only value_errors (mk_Chunk m b)" "raises_only value_errors (algorithm_of_wire v)"
  by (auto simp: mk_ChunkHash_def mk_ChunkMetadata_def mk_Chunk_def algorithm_of_wire_def algorithm_of_value_def
      intro!: raises split: mval.split intro: raises_Inl)

lemma raises_iterate [raises]: "raises_only value_errors (iterate v)"
  unfolding iterate_def by (cases v) (auto intro!: raises raises_Inl)

lemma raises_data [raises]: "raises_only value_errors (chunk_with_data m v)"
proof -
  have "raises_only value_errors (value_length v)" unfolding value_length_def by (cases v) (auto intro!: raises raises_Inl)
  then show ?thesis unfolding chunk_with_data_def by (intro raises)
qed

lemma raises_entries: "raises_only value_errors (put_entries xs d)"
proof (induction xs arbitrary: d)
  case (Cons x xs)
  have "raises_only value_errors (entry_of x)"
    unfolding entry_of_def by (intro raises) (auto intro!: raises raises_Inl split: list.split)
  then show ?case using Cons.IH by (auto intro!: raises split: prod.split)
qed (auto intro!: raises)

lemma raises_counters [raises]: "raises_only value_errors (version_of_counters v)"
proof -
  have "raises_only value_errors (py_dict v)"
    unfolding py_dict_def by (cases v) (auto intro!: raises raises_entries)
  then show ?thesis unfolding version_of_counters_def by (auto intro!: raises)
qed

lemma raises_push:
  assumes "\<And>v. raises_only value_errors (cv_parse cv v)"
  shows "raises_only value_errors (push_from_payload cv now v)"
proof -
  note int = raises_py_int [OF assms]
  have h: "raises_only value_errors (hash_from_payload cv v)" unfolding hash_from_payload_def by (intro raises)
  have m: "raises_only value_errors (metadata_from_payload cv now v h)" for h
    unfolding metadata_from_payload_def by (intro raises int)
  have "raises_only value_errors (chunk_from_payload cv now v)"
  proof -
    have "raises_only value_errors (if a \<noteq> MNil then rbind (hash_from_payload cv v) (\<lambda>h. Inr (Some h)) else Inr None)" for a
      using h by (auto intro!: raises)
    then show ?thesis unfolding chunk_from_payload_def by (intro raises m)
  qed
  then show ?thesis unfolding push_from_payload_def by (intro raises int)
qed

lemma raw_of_iff:
  "(\<exists>i. r = raw_of i) \<longleftrightarrow> (\<exists>b. rk_data (ra_chunk r) = MBin b) \<and>
    (case ra_version r of None \<Rightarrow> True | Some d \<Rightarrow> list_all (\<lambda>e. counter_entry e \<noteq> None) d)"
  (is "?l \<longleftrightarrow> ?r")
proof
  show "?l \<Longrightarrow> ?r"
    by (auto simp: raw_of_def raw_chunk_of_def counters_entries_def list_all_iff counter_entry_def split: option.splits)
next
  assume r: ?r
  have entries: "list_all (\<lambda>e. counter_entry e \<noteq> None) d \<Longrightarrow> \<exists>v. d = counters_entries v" for d
  proof (induction d)
    case Nil
    then show ?case by (intro exI [of _ "\<lparr>counters = []\<rparr>"]) (simp add: counters_entries_def)
  next
    case (Cons e d)
    then obtain v where v: "d = counters_entries v" by auto
    obtain k n where "e = (MStr k, MInt n)" using Cons.prems by (cases e) (auto simp: counter_entry_def split: mval.splits)
    then show ?case by (intro exI [of _ "\<lparr>counters = (k, n) # counters v\<rparr>"]) (simp add: v counters_entries_def)
  qed
  obtain b where b: "rk_data (ra_chunk r) = MBin b" using r by blast
  have "\<exists>v. ra_version r = map_option counters_entries v"
  proof (cases "ra_version r")
    case None
    then show ?thesis by (intro exI [of _ None]) simp
  next
    case (Some d)
    then obtain x where "d = counters_entries x" using r entries [of d] by auto
    then show ?thesis using Some by (intro exI [of _ "Some x"]) simp
  qed
  then obtain v where v: "ra_version r = map_option counters_entries v" by blast
  show ?l
    by (intro exI [of _ "\<lparr>in_path = ra_path r, in_total = ra_total r, in_chunk = \<lparr>ck_metadata = rk_metadata (ra_chunk r), ck_data = b\<rparr>, in_version = v\<rparr>"])
      (simp add: raw_of_def raw_chunk_of_def b [symmetric] v [symmetric])
qed

section \<open>Properties\<close>

text \<open>
  A sent chunk arrives as the push it was sent as. When \<^verbatim>\<open>send_chunk\<close> returns, over a session of the
  sender that matches one the receiver holds, and its wire bytes reach a receiver that has room, then the
  receiver's next push carries the same path, chunk count, version and chunk (with its own creation time); the
  frame is taken from the inbox and only the receiving session has changed.
\<close>

theorem sent_chunk_is_received:
  assumes send: "send_chunk ck io p c path n v a = (Inr wire, a')" "get_send_session (ck_s ck) (tt_sessions a) (device_id p) = Some s"
    and inv: "index_inv (tt_sessions b)" and match: "matching_sessions (tt_channel a) s (tt_channel b) r"
    and laws: "aead_laws (tt_channel a) (tt_channel b)" "pack_laws (tt_channel a) (tt_channel b)"
    and payload: "wire_chunk c" "wire_version v"
    and clock: "0 \<le> ck_ms ck" "ck_ms ck < 256 ^ 8" "\<bar>ck_ms ck' - ck_ms ck\<bar> \<le> sc_timestamp_skew_ms (tt_channel b)"
    and counter: "0 < ps_next_send_counter s" "ps_next_send_counter s \<le> MAX_COUNTER" "ps_sent_count s < MAX_MESSAGES_PER_KEY"
    and r: "get_by_session_id (tt_sessions b) (ps_session_id r) = Some r" "would_accept (ps_receive_window r) (ps_next_send_counter s)"
    and room: "tt_inbox b = []" "tt_active b < MAX_CONCURRENT_CONNECTIONS" "int (length wire) \<le> 4 + MAX_MESSAGE_SIZE"
  shows "\<exists>b1 b2 b3. connection_open b = (True, b1) \<and> connection_read \<lparr>si_unread = wire, si_end = Closes\<rparr> b1 = (Inr (), b2) \<and>
    receive_push ck' b2 = (Inr (Some (raw_of \<lparr>in_path = path, in_total = n, in_chunk = arrived (ck_us ck') c, in_version = v\<rparr>)), b3) \<and>
    b3 = b\<lparr>tt_sessions := modify_session (ps_session_id r) (receive_on (ps_next_send_counter s) (ck_s ck')) (tt_sessions b)\<rparr>"
proof -
  obtain f s' where f: "seal (tt_channel a) (ck_ms ck) (ck_s ck) s CHUNK_DATA (push_payload c path n v) = (Inr f, s')"
    using send by (auto simp: send_chunk_def send_frame_def rbind_eq_Inr split: sum.splits prod.splits)
  obtain packet where op: "open_frame (tt_channel b) (ck_ms ck') (ck_s ck') f (tt_sessions b) =
      (Inr (packet, receive_on (ps_next_send_counter s) (ck_s ck') r),
       modify_session (ps_session_id r) (receive_on (ps_next_send_counter s) (ck_s ck')) (tt_sessions b))"
    and pl: "pk_payload packet = push_payload c path n v"
    using frame_opens [OF inv match laws(1) pack_lawsD [OF laws(2) plain_push_payload [OF payload(2)]] f clock counter r] by blast
  have w: "write_length_prefixed f = Inr wire"
    using send f by (auto simp: send_chunk_def send_frame_def result_simps)
  then have "length wire = 4 + length f" by (auto simp: write_length_prefixed_def result_simps)
  then have "fst (read_length_prefixed MAX_MESSAGE_SIZE \<lparr>si_unread = wire, si_end = Closes\<rparr>) = Inr f"
    using read_written [OF w, of MAX_MESSAGE_SIZE "\<lparr>si_unread = wire, si_end = Closes\<rparr>" "[]"] room(3) by simp
  moreover have "0 < INBOX_MAX_SIZE" by (simp add: INBOX_MAX_SIZE_def)
  ultimately show ?thesis
    using room(1,2) op pl push_payload_arrives [OF payload(1), of "tt_conversions b" "ck_us ck'" path n v]
    by (simp add: connection_open_def connection_read_def try_enqueue_def receive_push_def)
qed

text \<open>
  C25: A peer can fill neither the inbox nor the connection table. Over any history of connections,
  messages and receptions the transport holds at most 4096 frames and 256 connections; a frame that
  finds the inbox full is dropped and nothing else changes.
\<close>

theorem transport_bounded:
  assumes "tt_active tt = 0" "tt_inbox tt = []" "fold tcp_step es tt = tt'"
  shows "0 \<le> tt_active tt' \<and> tt_active tt' \<le> 256 \<and> length (tt_inbox tt') \<le> 4096 \<and>
    (length (tt_inbox tt') = 4096 \<longrightarrow> try_enqueue frame tt' = tt')"
proof -
  have "transport_inv tt" using assms(1,2) by (simp add: transport_inv_def MAX_CONCURRENT_CONNECTIONS_def)
  then have "transport_inv tt'" using tcp.run_inv assms(3) by blast
  then show ?thesis by (simp add: transport_inv_def MAX_CONCURRENT_CONNECTIONS_def INBOX_MAX_SIZE_def try_enqueue_def)
qed

text \<open>
  \<^verbatim>\<open>request_chunks\<close> yields only what was asked for. Each chunk it yields is well formed and answers one
  requested digest that is no longer wanted afterwards, so at most one chunk per requested digest comes out;
  without an exception it stops only when nothing is wanted any more or no frame is left.
\<close>

theorem request_chunks_only_requested:
  assumes "request_chunks ck p hashes tt = ((cs, wanted, e), tt')"
  shows "set wanted \<subseteq> set hashes \<and> distinct wanted \<and> length cs + length wanted = card (set hashes) \<and>
    (\<forall>c \<in> set cs. raw_chunk_ok c \<and> (\<forall>h. cm_hash (rk_metadata c) = Some h \<longrightarrow> digest h \<in> set hashes - set wanted)) \<and>
    (e = None \<longrightarrow> wanted = [] \<or> tt_inbox tt' = [])"
proof -
  obtain st' where "request_chunks_loop ck (tt_conversions tt) (tt_channel tt) (device_id p) (remdups hashes) (tt_inbox tt) (tt_sessions tt) =
      ((cs, wanted, e), tt_inbox tt', st')"
    using assms by (auto simp: request_chunks_def split: prod.splits)
  from request_chunks_loop_spec [OF this] show ?thesis by (simp add: length_remdups_card_conv)
qed

text \<open>
  C26: What is checked of a payload, and what is not. For a payload of any shape that an authenticated peer packs, reading it as a push
  either raises one of the five exceptions of a wrong value, none of which is the exception \<^verbatim>\<open>receive_pushes\<close> handles, or
  yields a push whose chunk has a non-empty id, an index, a size and an offset that are not negative, a digest that is a
  valid one if there is one, and the data of the payload as it came, of which only the length is known to be the size: it
  may be a text, a list or a dictionary. It is a push of the typed model exactly when the data is bytes
  and the counters go from texts to numbers. (What a conversion of Python raises for a value is among the five.)
\<close>

theorem payloads_well_typed:
  assumes "\<And>v. raises_only value_errors (cv_parse cv v)"
  shows "case push_from_payload cv now payload of
      Inl e \<Rightarrow> e \<in> {Py TypeError, Py KeyError, Py ValueError, Py AttributeError, Py OverflowError} \<and> \<not> is_replay_error e
    | Inr r \<Rightarrow> wf_metadata (rk_metadata (ra_chunk r)) \<and>
        (\<forall>h. cm_hash (rk_metadata (ra_chunk r)) = Some h \<longrightarrow> wf_hash h) \<and>
        getitem payload ''data'' = Inr (rk_data (ra_chunk r)) \<and>
        value_length (rk_data (ra_chunk r)) = Inr (nat (cm_size (rk_metadata (ra_chunk r)))) \<and>
        ((\<exists>i. r = raw_of i) \<longleftrightarrow> (\<exists>b. rk_data (ra_chunk r) = MBin b) \<and>
           (case ra_version r of None \<Rightarrow> True | Some d \<Rightarrow> list_all (\<lambda>e. counter_entry e \<noteq> None) d))"
proof (cases "push_from_payload cv now payload")
  case (Inl e)
  then have "e \<in> value_errors" using raises_push [OF assms] by (auto simp: raises_only_def)
  then show ?thesis using Inl by (auto simp: value_errors_def is_replay_error_def)
next
  case (Inr r)
  then have "chunk_from_payload cv now payload = Inr (ra_chunk r)" by (auto simp: push_from_payload_def rbind_eq_Inr)
  note c = chunk_from_payload_wf [OF this]
  have "wf_hash h" if "hash_from_payload cv payload = Inr h" for h
    using that by (auto simp: hash_from_payload_def rbind_eq_Inr mk_ChunkHash_eq_Inr)
  then show ?thesis using Inr c raw_of_iff [of r] by (simp add: raw_chunk_ok_def)
qed

section \<open>Witnesses\<close>

text \<open>The data of the push is the text \<^verbatim>\<open>ab\<close> and its counters are a list of one pair.\<close>

definition text_payload :: mval where
  "text_payload = record_of [(''chunk_id'', MStr [67]), (''index'', MInt 0), (''size'', MInt 2), (''offset'', MInt 0),
     (''data'', MStr [97, 98]), (''relative_path'', MStr [102]), (''total_chunks'', MInt 1),
     (''version_counters'', MList [MList [MStr [65], MInt 3]])]"

theorem payloads_well_typed_witness:
  "\<exists>r. push_from_payload \<lparr>cv_repr = (\<lambda>_. []), cv_parse = (\<lambda>_. Inl (Py ValueError))\<rparr> 0 text_payload = Inr r \<and>
    rk_data (ra_chunk r) = MStr [97, 98] \<and> ra_version r = Some [(MStr [65], MInt 3)] \<and> \<not> (\<exists>i. r = raw_of i) \<and>
    value_length (rk_data (ra_chunk r)) = Inr (nat (cm_size (rk_metadata (ra_chunk r))))"
proof -
  let ?cv = "\<lparr>cv_repr = (\<lambda>_. []), cv_parse = (\<lambda>_. Inl (Py ValueError))\<rparr>"
  have l: "raises_only value_errors (cv_parse ?cv v)" for v
    by (simp add: raises_only_def value_errors_def)
  obtain r where r: "push_from_payload ?cv 0 text_payload = Inr r" "ra_version r = Some [(MStr [65], MInt 3)]"
    by (simp add: text_payload_def push_from_payload_def chunk_from_payload_def metadata_from_payload_def mk_ChunkMetadata_def
        chunk_with_data_def value_length_def raise_if_def version_of_counters_def py_dict_def iterate_def entry_of_def hashable_def)
  have "getitem text_payload ''data'' = Inr (MStr [97, 98])" by (simp add: text_payload_def)
  then show ?thesis using payloads_well_typed [where cv = ?cv and now = 0 and payload = text_payload, OF l] r by auto
qed

lemma seal_length:
  assumes "seal ch now_ms now s pt payload = (Inr f, s')" "sc_packb ch payload = Inr pb"
    and "\<And>m k n a e. sc_encrypt ch m k n a = Inr e \<Longrightarrow> length (ep_ciphertext e) = length m"
  shows "length f = 71 + length pb"
proof -
  obtain d nonce e s1 c where al: "allocate_counter s = (Inr c, s1)"
    and p: "seal_payload ch now_ms s1 pt payload c = Inr (d, nonce, e)"
    and f: "encode_frame d (packet_type_value pt) (ps_session_id s1) nonce (ep_ciphertext e) (ep_tag e) FRAME_VERSION = Inr f"
    using assms(1) by (auto simp: seal_def split: prod.splits sum.splits)
  obtain framed aad where fr: "encode_packet (sc_packb ch) \<lparr>pk_header = make_header now_ms pt c 0, pk_payload = payload\<rparr> = Inr framed"
    and e: "sc_encrypt ch framed (ps_send_key s1) nonce aad = Inr e"
    using p by (auto simp: seal_payload_def rbind_eq_Inr)
  have "length framed = 32 + length pb"
    using fr assms(2) by (auto simp: encode_packet_eq_Inr HEADER_SIZE_def dest: pack_header_Inr)
  then show ?thesis
    using f assms(3) [OF e]
    by (auto simp: encode_frame_def pack_frame_header_def raise_if_eq_Inr rbind_eq_Inr frame_sizes pack_low_byte_def)
qed

definition sample_wire_chunk :: chunk where
  "sample_wire_chunk = \<lparr>ck_metadata = \<lparr>chunk_id = [67], cm_index = 0, cm_size = 2, cm_offset = 0, cm_hash = None, created_at = 0\<rparr>, ck_data = [7, 8]\<rparr>"

definition mval_channel :: "pystr \<Rightarrow> mval secure_channel" where
  "mval_channel own =
     \<lparr>sc_own_device_id = own, sc_timestamp_skew_ms = 300000,
      sc_encrypt = (\<lambda>m k n a. Inr \<lparr>ep_ciphertext = m, ep_nonce = n, ep_tag = replicate 16 0\<rparr>),
      sc_decrypt = (\<lambda>e k a. Inr (ep_ciphertext e)),
      sc_packb = (\<lambda>m. if m = push_payload sample_wire_chunk [102] 1 None then Inr [1] else Inl (Py TypeError)),
      sc_unpackb = (\<lambda>b. Inr (push_payload sample_wire_chunk [102] 1 None))\<rparr>"

definition sample_transport :: "pystr \<Rightarrow> session_store \<Rightarrow> tcp_transport" where
  "sample_transport own st = \<lparr>tt_channel = mval_channel own, tt_conversions = \<lparr>cv_repr = (\<lambda>_. []), cv_parse = (\<lambda>_. Inl (Py ValueError))\<rparr>,
     tt_sessions = st, tt_inbox = [], tt_active = 0\<rparr>"

definition sample_clock :: clock where "sample_clock = \<lparr>ck_ms = 1000, ck_s = 1, ck_us = 5\<rparr>"

definition sample_peer :: peer where
  "sample_peer = \<lparr>pr_identity = \<lparr>pi_device_id = [65], pi_hostname = [], pi_fingerprint = []\<rparr>, pr_address = \<lparr>ad_ip_address = [], ad_port = 1\<rparr>,
     pr_capabilities = \<lparr>pc_version = [], pc_features = []\<rparr>, pr_status = ONLINE, pr_last_seen = 0\<rparr>"

abbreviation sample_sender :: tcp_transport where "sample_sender \<equiv> sample_transport [66] one_session_store"
abbreviation sample_target :: tcp_transport where "sample_target \<equiv> sample_transport [65] receiver_store"

lemma sample_facts:
  "matching_sessions (mval_channel [66]) (sample_session 1 True) (mval_channel [65]) Secure_Channel.sample_receiver"
  "aead_laws (mval_channel [66]) (mval_channel [65])" "pack_laws (mval_channel [66]) (mval_channel [65])"
  "would_accept (ps_receive_window Secure_Channel.sample_receiver) (ps_next_send_counter (sample_session 1 True))"
  "get_by_session_id receiver_store (ps_session_id Secure_Channel.sample_receiver) = Some Secure_Channel.sample_receiver"
  "get_send_session 1 one_session_store [65] = Some (sample_session 1 True)"
  "utf8_encode [66] = Inr [66]" "utf8_encode [65] = Inr [65]"
proof -
  show "matching_sessions (mval_channel [66]) (sample_session 1 True) (mval_channel [65]) Secure_Channel.sample_receiver"
    by (auto simp: matching_sessions_def mval_channel_def Secure_Channel.sample_receiver_def sample_session_def
        SESSION_ID_SIZE_def KEY_SIZE_def role_defs)
  show "aead_laws (mval_channel [66]) (mval_channel [65])" "pack_laws (mval_channel [66]) (mval_channel [65])"
    by (simp_all add: aead_laws_def pack_laws_def pack_law_def mval_channel_def TAG_SIZE_def)
  show "would_accept (ps_receive_window Secure_Channel.sample_receiver) (ps_next_send_counter (sample_session 1 True))"
    by (simp add: would_accept_def Secure_Channel.sample_receiver_def sample_session_def w_slot_def bits_is_set_def)
  show "get_by_session_id receiver_store (ps_session_id Secure_Channel.sample_receiver) = Some Secure_Channel.sample_receiver"
    by (simp add: receiver_store_def get_add_session)
  show "get_send_session 1 one_session_store [65] = Some (sample_session 1 True)"
    by (simp add: get_send_session_def sessions_for_peer_def List.map_filter_def can_send_def sample_simps
        MAX_MESSAGES_PER_KEY_def MAX_COUNTER_def)
  show "utf8_encode [66] = Inr [66]" "utf8_encode [65] = Inr [65]"
    by (simp_all add: utf8_encode_def scalar_def utf8_char_def)
qed

lemma sample_fields:
  "sc_own_device_id (mval_channel o1) = o1" "sc_packb (mval_channel o1) (push_payload sample_wire_chunk [102] 1 None) = Inr [1]"
  "sc_timestamp_skew_ms (mval_channel o1) = 300000" "ck_ms sample_clock = 1000" "ck_s sample_clock = 1" "ck_us sample_clock = 5"
  "ps_next_send_counter (sample_session 1 True) = 1" "ps_sent_count (sample_session 1 True) = 0"
  "tt_channel (sample_transport o1 st) = mval_channel o1" "tt_sessions (sample_transport o1 st) = st"
  "tt_inbox (sample_transport o1 st) = []" "tt_active (sample_transport o1 st) = 0" "device_id sample_peer = [65]"
  by (simp_all add: mval_channel_def sample_session_def sample_clock_def sample_transport_def sample_peer_def device_id_def)

abbreviation sample_sent :: "bytes result \<times> tcp_transport" where
  "sample_sent \<equiv> send_chunk sample_clock \<lparr>ti_connect = Inr (), ti_write = Inr ()\<rparr> sample_peer sample_wire_chunk [102] 1 None sample_sender"

lemma sample_send: "\<exists>wire a'. sample_sent = (Inr wire, a') \<and> length wire = 76"
proof -
  obtain f s' where f: "seal (mval_channel [66]) 1000 1 (sample_session 1 True) CHUNK_DATA (push_payload sample_wire_chunk [102] 1 None) = (Inr f, s')"
    using seal_total [OF sample_facts(1,2) pack_lawsD [OF sample_facts(3) plain_push_payload [of None sample_wire_chunk "[102]" 1]],
        of "[66]" "[65]" "[1]" 1000 1 CHUNK_DATA]
    by (simp add: wire_version_def sample_fields sample_facts(7,8) MAX_COUNTER_def MAX_MESSAGES_PER_KEY_def HEADER_SIZE_def) blast
  have len: "length f = 72" using seal_length [OF f sample_fields(2)] by (auto simp: mval_channel_def)
  then have "write_length_prefixed f = Inr (be_bytes 4 (length f) @ f)"
    by (simp add: write_length_prefixed_def LENGTH_PREFIX_SIZE_def pack_uint_def del: be_bytes.simps)
  then show ?thesis
    using f len by (simp add: send_chunk_def send_frame_def sample_fields sample_facts(6) del: be_bytes.simps)
qed

theorem sent_chunk_is_received_witness:
  "\<exists>wire a' b1 b2 b3. sample_sent = (Inr wire, a') \<and>
    connection_open sample_target = (True, b1) \<and> connection_read \<lparr>si_unread = wire, si_end = Closes\<rparr> b1 = (Inr (), b2) \<and>
    receive_push sample_clock b2 = (Inr (Some (raw_of \<lparr>in_path = [102], in_total = 1, in_chunk = arrived 5 sample_wire_chunk, in_version = None\<rparr>)), b3)"
proof -
  obtain wire a' where w: "sample_sent = (Inr wire, a')" "length wire = 76" using sample_send by blast
  have c: "wire_chunk sample_wire_chunk" by (simp add: wire_chunk_def sample_wire_chunk_def wf_chunk_def wf_metadata_def)
  show ?thesis
    using sent_chunk_is_received [OF w(1), of "sample_session 1 True" sample_target Secure_Channel.sample_receiver sample_clock]
      sample_facts receiver_store_inv c w
    by (simp add: wire_version_def sample_fields MAX_COUNTER_def MAX_MESSAGES_PER_KEY_def MAX_MESSAGE_SIZE_def MAX_CONCURRENT_CONNECTIONS_def) blast
qed

theorem transport_bounded_witness:
  "\<exists>tt'. fold tcp_step [Opens, Opens, Reads \<lparr>si_unread = [0, 0, 0, 1, 7], si_end = Closes\<rparr>] sample_target = tt' \<and>
    tt_active tt' \<le> 256 \<and> length (tt_inbox tt') \<le> 4096"
  using transport_bounded [of sample_target "[Opens, Opens, Reads \<lparr>si_unread = [0, 0, 0, 1, 7], si_end = Closes\<rparr>]"]
  by (simp add: sample_fields)

theorem request_chunks_only_requested_witness:
  "\<exists>cs wanted e tt'. request_chunks sample_clock sample_peer [[97], [98], [97]] (sample_target\<lparr>tt_inbox := [[0]]\<rparr>) = ((cs, wanted, e), tt') \<and>
    length cs + length wanted = 2"
proof -
  obtain cs wanted e tt' where r: "request_chunks sample_clock sample_peer [[97], [98], [97]] (sample_target\<lparr>tt_inbox := [[0]]\<rparr>) = ((cs, wanted, e), tt')"
    by (metis surj_pair)
  show ?thesis using request_chunks_only_requested [OF r] r by (simp add: card_insert_if)
qed

end
