(* ===== verification/Manifest_Exchange.thy ===== *)
theory Manifest_Exchange
  imports Tcp_Transport Chunk_Repository Sync_File
begin

text \<open>
  \<^verbatim>\<open>networking/tcp_manifest_exchange.py\<close>: asking a peer for the manifest of a file or for chunks of it, over sealed
  frames in both directions, and answering such requests from the chunk repository and the files under the sync root.
  A connection is a stream of bytes each way; the handler runs to its end in one step.
\<close>

section \<open>State\<close>

record exchange =
  me_channel :: "mval secure_channel"
  me_conversions :: conversions
  me_sessions :: session_store
  me_repo :: chunk_repo
  me_sync_root :: pure_path
  me_resolve :: "pure_path \<Rightarrow> pure_path result"
  me_metadata_lookup :: "(pystr \<Rightarrow> file_metadata option result) option"
  me_fs :: fs
  me_active :: int

text \<open>What the operating system refuses while a request is served, and how the write of the answer ends.\<close>

record serve_io =
  sv_load_refused :: bool
  sv_open_refused :: bool
  sv_write :: "unit result"

section \<open>Messages\<close>

definition envelope :: "bytes \<Rightarrow> mval" where
  "envelope frame = record_of [(''envelope'', MBin frame)]"

definition write_exchange :: "mval secure_channel \<Rightarrow> bytes \<Rightarrow> bytes result" where
  "write_exchange ch frame = rbind (sc_packb ch (envelope frame)) write_length_prefixed"

definition read_exchange :: "mval secure_channel \<Rightarrow> stream_in \<Rightarrow> bytes result" where
  "read_exchange ch s =
     rbind (fst (read_length_prefixed MAX_MESSAGE_SIZE s)) (\<lambda>data.
     rbind (sc_unpackb ch data) (\<lambda>m.
     rbind (getitem m ''envelope'') as_bytes))"

section \<open>Requesting\<close>

definition exchange_send :: "clock \<Rightarrow> packet_type \<Rightarrow> mval \<Rightarrow> pystr \<Rightarrow> exchange \<Rightarrow> bytes result \<times> exchange" where
  "exchange_send ck pt payload peer_id ex =
     (case get_send_session (ck_s ck) (me_sessions ex) peer_id of
        None \<Rightarrow> (Inl (Store NoSessionError), ex)
      | Some session \<Rightarrow>
          (case seal (me_channel ex) (ck_ms ck) (ck_s ck) session pt payload of
             (r, session') \<Rightarrow>
               (rbind r (write_exchange (me_channel ex)),
                ex\<lparr>me_sessions := modify_session (ps_session_id session) (\<lambda>_. session') (me_sessions ex)\<rparr>)))"

definition exchange_receive :: "clock \<Rightarrow> stream_in \<Rightarrow> exchange \<Rightarrow> mval result \<times> exchange" where
  "exchange_receive ck s ex =
     (case read_exchange (me_channel ex) s of
        Inl e \<Rightarrow> (Inl e, ex)
      | Inr frame \<Rightarrow>
          (case open_frame (me_channel ex) (ck_ms ck) (ck_s ck) frame (me_sessions ex) of
             (Inl e, st) \<Rightarrow> (Inl e, ex\<lparr>me_sessions := st\<rparr>)
           | (Inr (packet, session), st) \<Rightarrow> (Inr (pk_payload packet), ex\<lparr>me_sessions := st\<rparr>)))"

text \<open>
  A request and its answer; \<open>answer\<close> is the network and the peer: what comes back on the connection for the bytes
  sent, or the exception of connecting or writing.
\<close>

definition exchange_round ::
  "clock \<times> clock \<Rightarrow> packet_type \<Rightarrow> mval \<Rightarrow> peer \<Rightarrow> (bytes \<Rightarrow> stream_in result) \<Rightarrow> exchange \<Rightarrow> mval result \<times> exchange" where
  "exchange_round cks pt payload p answer ex =
     (case exchange_send (fst cks) pt payload (device_id p) ex of
        (Inl e, ex1) \<Rightarrow> (Inl e, ex1)
      | (Inr wire, ex1) \<Rightarrow>
          (case answer wire of
             Inl e \<Rightarrow> (Inl e, ex1)
           | Inr s \<Rightarrow> exchange_receive (snd cks) s ex1))"

definition manifest_request :: "pystr \<Rightarrow> mval" where
  "manifest_request relative_path = record_of [(''relative_path'', MStr relative_path)]"

definition chunk_request :: "pystr \<Rightarrow> pystr list \<Rightarrow> mval" where
  "chunk_request relative_path chunk_hashes =
     record_of [(''relative_path'', MStr relative_path), (''chunk_hashes'', MList (map MStr chunk_hashes))]"

text \<open>A \<^verbatim>\<open>ManifestWithVersion\<close> whose counters are as the wire has them: nothing checks them.\<close>

record raw_manifest =
  rm_collection :: chunk_collection
  rm_version :: "(mval \<times> mval) list option"

definition raw_manifest_of :: "manifest_with_version \<Rightarrow> raw_manifest" where
  "raw_manifest_of m = \<lparr>rm_collection = mv_collection m, rm_version = map_option counters_entries (mv_version m)\<rparr>"

definition answered_version :: "mval \<Rightarrow> (mval \<times> mval) list option result" where
  "answered_version v =
     (if truthy v then rbind (getitem v ''counters'') (\<lambda>c. rbind (py_dict c) (\<lambda>d. Inr (Some d))) else Inr None)"

definition manifest_of_answer :: "chunk_repo \<Rightarrow> mval \<Rightarrow> raw_manifest option result" where
  "manifest_of_answer cr payload =
     rbind (getitem payload ''found'') (\<lambda>found.
     if \<not> truthy found then Inr None
     else rbind (getitem payload ''collection'') (\<lambda>c.
          rbind (collection_from_dict cr c) (\<lambda>collection.
          rbind (dict_get_or_none payload ''version'') (\<lambda>v.
          rbind (answered_version v) (\<lambda>version.
          Inr (Some \<lparr>rm_collection = collection, rm_version = version\<rparr>))))))"

definition request_manifest ::
  "clock \<times> clock \<Rightarrow> peer \<Rightarrow> pystr \<Rightarrow> (bytes \<Rightarrow> stream_in result) \<Rightarrow> exchange \<Rightarrow> raw_manifest option result \<times> exchange" where
  "request_manifest cks p relative_path answer ex =
     (case exchange_round cks FILE_MANIFEST (manifest_request relative_path) p answer ex of
        (r, ex1) \<Rightarrow> (rbind r (manifest_of_answer (me_repo ex)), ex1))"

definition exchanged_chunk :: "conversions \<Rightarrow> int \<Rightarrow> mval \<Rightarrow> raw_chunk result" where
  "exchanged_chunk cv now v =
     rbind (getitem v ''chunk_id'') (\<lambda>cid.
     rbind (getitem v ''index'') (\<lambda>i. rbind (py_int cv i) (\<lambda>idx.
     rbind (getitem v ''size'') (\<lambda>n. rbind (py_int cv n) (\<lambda>sz.
     rbind (getitem v ''offset'') (\<lambda>off. rbind (py_int cv off) (\<lambda>offset.
     rbind (hash_from_payload cv v) (\<lambda>h.
     rbind (mk_ChunkMetadata (py_str cv cid) idx sz offset (Some h) now) (\<lambda>m.
     rbind (getitem v ''data'') (chunk_with_data m))))))))))"

text \<open>The generator: the chunks it yields, and the exception that ends it, if any.\<close>

fun yielded :: "('a \<Rightarrow> 'b result) \<Rightarrow> 'a list \<Rightarrow> 'b list \<times> exn option" where
  "yielded f [] = ([], None)"
| "yielded f (x # xs) =
     (case f x of
        Inl e \<Rightarrow> ([], Some e)
      | Inr y \<Rightarrow> (case yielded f xs of (ys, e) \<Rightarrow> (y # ys, e)))"

definition chunks_of_answer :: "conversions \<Rightarrow> int \<Rightarrow> mval result \<Rightarrow> raw_chunk list \<times> exn option" where
  "chunks_of_answer cv now r =
     (case rbind r (\<lambda>payload. rbind (getitem payload ''chunks'') iterate) of
        Inl e \<Rightarrow> ([], Some e)
      | Inr items \<Rightarrow> yielded (exchanged_chunk cv now) items)"

definition exchange_chunks ::
  "clock \<times> clock \<Rightarrow> peer \<Rightarrow> pystr \<Rightarrow> pystr list \<Rightarrow> (bytes \<Rightarrow> stream_in result) \<Rightarrow> exchange \<Rightarrow> (raw_chunk list \<times> exn option) \<times> exchange" where
  "exchange_chunks cks p relative_path chunk_hashes answer ex =
     (case exchange_round cks CHUNK_REQUEST (chunk_request relative_path chunk_hashes) p answer ex of
        (r, ex1) \<Rightarrow> (chunks_of_answer (me_conversions ex) (ck_us (snd cks)) r, ex1))"

section \<open>Serving\<close>

text \<open>\<^verbatim>\<open>resolve_within\<close> for a value of the message: what its checks do with a value that is not a string.\<close>

definition path_text :: "mval \<Rightarrow> pystr result" where
  "path_text v =
     (if \<not> truthy v then Inl (Sync UnsafePathError)
      else case v of
             MStr s \<Rightarrow> Inr s
           | MBin b \<Rightarrow> Inl (if length b > MAX_RELATIVE_PATH_LENGTH then Sync UnsafePathError else Py TypeError)
           | MList xs \<Rightarrow> Inl (if length xs > MAX_RELATIVE_PATH_LENGTH then Sync UnsafePathError else Py TypeError)
           | MMap d \<Rightarrow> Inl (if length d > MAX_RELATIVE_PATH_LENGTH then Sync UnsafePathError else Py TypeError)
           | _ \<Rightarrow> Inl (Py TypeError))"

definition safe_resolve :: "exchange \<Rightarrow> mval \<Rightarrow> (pystr \<times> pure_path) result" where
  "safe_resolve ex v =
     rbind (path_text v) (\<lambda>s. rbind (resolve_within (me_resolve ex) (me_sync_root ex) s) (\<lambda>p. Inr (s, p)))"

definition resolve_version :: "exchange \<Rightarrow> pystr \<Rightarrow> version_vector option result" where
  "resolve_version ex relative_path =
     (case me_metadata_lookup ex of
        None \<Rightarrow> Inr None
      | Some get \<Rightarrow> rbind (get relative_path) (\<lambda>meta. Inr (map_option fm_version_vector meta)))"

definition manifest_answer :: "chunk_repo \<Rightarrow> chunk_collection option \<Rightarrow> version_vector option \<Rightarrow> mval" where
  "manifest_answer cr c v =
     record_of [(''found'', MBool (c \<noteq> None)),
       (''collection'', case c of None \<Rightarrow> MNil | Some x \<Rightarrow> collection_to_dict cr x),
       (''version'', case v of None \<Rightarrow> MNil | Some x \<Rightarrow> record_of [(''counters'', counters_value x)])]"

definition build_manifest_response :: "serve_io \<Rightarrow> exchange \<Rightarrow> mval \<Rightarrow> mval result" where
  "build_manifest_response io ex payload =
     rbind (getitem payload ''relative_path'') (\<lambda>relative_path.
     rbind (safe_resolve ex relative_path) (\<lambda>(s, resolved).
     rbind (repo_load (sv_load_refused io) (me_repo ex) (me_fs ex) resolved) (\<lambda>collection.
     rbind (resolve_version ex s) (\<lambda>version.
     Inr (manifest_answer (me_repo ex) collection version)))))"

definition hash_set :: "mval \<Rightarrow> mval list result" where
  "hash_set v =
     rbind (iterate v) (\<lambda>xs.
     raise_if (list_ex (\<lambda>x. case x of MList _ \<Rightarrow> True | MMap _ \<Rightarrow> True | _ \<Rightarrow> False) xs) (Py TypeError) (Inr xs))"

text \<open>\<^verbatim>\<open>seek\<close> and \<^verbatim>\<open>read\<close>, which may come up short.\<close>

definition read_at :: "bytes \<Rightarrow> int \<Rightarrow> int \<Rightarrow> bytes" where
  "read_at content offset n = take (nat n) (drop (nat offset) content)"

definition chunk_answer :: "bytes \<Rightarrow> mval list \<Rightarrow> chunk_metadata \<Rightarrow> mval option" where
  "chunk_answer content wanted m =
     (case cm_hash m of
        None \<Rightarrow> None
      | Some h \<Rightarrow>
          if MStr (digest h) \<notin> set wanted then None
          else Some (record_of [(''chunk_id'', MStr (chunk_id m)), (''index'', MInt (cm_index m)), (''size'', MInt (cm_size m)),
            (''offset'', MInt (cm_offset m)), (''hash_algorithm'', MStr (algorithm_value (algorithm h))),
            (''hash_digest'', MStr (digest h)), (''data'', MBin (read_at content (cm_offset m) (cm_size m)))]))"

definition build_chunk_response :: "serve_io \<Rightarrow> exchange \<Rightarrow> mval \<Rightarrow> mval result" where
  "build_chunk_response io ex payload =
     rbind (getitem payload ''relative_path'') (\<lambda>relative_path.
     rbind (getitem payload ''chunk_hashes'') (\<lambda>hs. rbind (hash_set hs) (\<lambda>wanted.
     rbind (safe_resolve ex relative_path) (\<lambda>(s, local_path).
     rbind (repo_load (sv_load_refused io) (me_repo ex) (me_fs ex) local_path) (\<lambda>collection.
     case collection of
       None \<Rightarrow> Inr (record_of [(''chunks'', MList [])])
     | Some c \<Rightarrow>
         (case me_fs ex local_path of
            Some (FileNode content) \<Rightarrow>
              raise_if (sv_open_refused io) (Py OSError)
                (Inr (record_of [(''chunks'', MList (List.map_filter (chunk_answer content wanted) (cc_chunks c)))]))
          | _ \<Rightarrow> Inl (Py OSError)))))))"

definition build_response :: "serve_io \<Rightarrow> exchange \<Rightarrow> mval packet \<Rightarrow> (packet_type \<times> mval) result" where
  "build_response io ex packet =
     (if ph_packet_type (pk_header packet) = CHUNK_REQUEST
      then rbind (build_chunk_response io ex (pk_payload packet)) (\<lambda>v. Inr (CHUNK_DATA, v))
      else rbind (build_manifest_response io ex (pk_payload packet)) (\<lambda>v. Inr (FILE_MANIFEST, v)))"

text \<open>The body of the \<^verbatim>\<open>try\<close> of \<^verbatim>\<open>_handle_connection\<close>: the bytes of the answer.\<close>

definition serve :: "clock \<Rightarrow> serve_io \<Rightarrow> stream_in \<Rightarrow> exchange \<Rightarrow> bytes result \<times> exchange" where
  "serve ck io s ex =
     (case read_exchange (me_channel ex) s of
        Inl e \<Rightarrow> (Inl e, ex)
      | Inr frame \<Rightarrow>
          (case open_frame (me_channel ex) (ck_ms ck) (ck_s ck) frame (me_sessions ex) of
             (Inl e, st) \<Rightarrow> (Inl e, ex\<lparr>me_sessions := st\<rparr>)
           | (Inr (packet, session), st) \<Rightarrow>
               (case build_response io ex packet of
                  Inl e \<Rightarrow> (Inl e, ex\<lparr>me_sessions := st\<rparr>)
                | Inr (pt, payload) \<Rightarrow>
                    (case seal (me_channel ex) (ck_ms ck) (ck_s ck) session pt payload of
                       (r, session') \<Rightarrow>
                         (rbind r (\<lambda>f. rbind (write_exchange (me_channel ex) f) (\<lambda>wire. rbind (sv_write io) (\<lambda>_. Inr wire))),
                          ex\<lparr>me_sessions := modify_session (ps_session_id session) (\<lambda>_. session') st\<rparr>)))))"

definition exchange_caught :: "exn \<Rightarrow> bool" where
  "exchange_caught e \<longleftrightarrow>
     (case e of
        Py p \<Rightarrow> p \<in> {IncompleteReadError, ConnectionError, KeyError}
      | Protocol _ \<Rightarrow> True
      | Replay _ \<Rightarrow> True
      | Sync x \<Rightarrow> x = UnsafePathError
      | _ \<Rightarrow> False)"

text \<open>A connection up to its first await, and from there to its end; \<open>Inl\<close> is an exception that is not caught.\<close>

definition exchange_open :: "exchange \<Rightarrow> bool \<times> exchange" where
  "exchange_open ex =
     (if me_active ex \<ge> MAX_CONCURRENT_CONNECTIONS then (False, ex) else (True, ex\<lparr>me_active := me_active ex + 1\<rparr>))"

definition exchange_finish :: "clock \<Rightarrow> serve_io \<Rightarrow> stream_in \<Rightarrow> exchange \<Rightarrow> bytes option result \<times> exchange" where
  "exchange_finish ck io s ex =
     (case serve ck io s ex of
        (r, ex1) \<Rightarrow>
          (case r of Inl e \<Rightarrow> if exchange_caught e then Inr None else Inl e | Inr wire \<Rightarrow> Inr (Some wire),
           ex1\<lparr>me_active := me_active ex1 - 1\<rparr>))"

section \<open>One direction\<close>

lemma seal_keeps:
  "seal ch now_ms now s pt payload = (r, s') \<Longrightarrow>
   ps_session_id s' = ps_session_id s \<and> ps_peer_id s' = ps_peer_id s \<and> ps_role s' = ps_role s \<and> ps_receive_key s' = ps_receive_key s \<and>
   ps_send_key s' = ps_send_key s \<and> ps_receive_window s' = ps_receive_window s \<and> ps_confirmed s' = ps_confirmed s"
  by (auto simp: seal_def allocate_counter_def mark_active_def split: if_splits sum.splits prod.splits)

text \<open>
  Everything that a frame sealed at \<open>ck\<close> by one side needs to open at \<open>ck'\<close> on the other: matching sessions, ids that fit
  their fields, agreeing clocks, a counter that is left and that the window accepts.
\<close>

definition can_reach ::
  "mval secure_channel \<Rightarrow> clock \<Rightarrow> peer_session \<Rightarrow> mval secure_channel \<Rightarrow> clock \<Rightarrow> peer_session \<Rightarrow> bool" where
  "can_reach ch ck s ch' ck' r \<longleftrightarrow>
     matching_sessions ch s ch' r \<and> aead_laws ch ch' \<and> pack_laws ch ch' \<and>
     (\<exists>own. utf8_encode (sc_own_device_id ch) = Inr own \<and> length own < 256 ^ 2) \<and>
     (\<exists>peer. utf8_encode (sc_own_device_id ch') = Inr peer \<and> length peer < 256 ^ 2) \<and>
     0 \<le> ck_ms ck \<and> ck_ms ck < 256 ^ 8 \<and> \<bar>ck_ms ck' - ck_ms ck\<bar> \<le> sc_timestamp_skew_ms ch' \<and>
     0 < ps_next_send_counter s \<and> ps_next_send_counter s \<le> MAX_COUNTER \<and> ps_sent_count s < MAX_MESSAGES_PER_KEY \<and>
     would_accept (ps_receive_window r) (ps_next_send_counter s)"

lemma sealed_arrives:
  assumes seal: "seal ch (ck_ms ck) (ck_s ck) s pt payload = (Inr f, s')" and w: "write_exchange ch f = Inr wire"
    and reach: "can_reach ch ck s ch' ck' r" and plain: "plain_value payload"
    and st: "index_inv st" "get_by_session_id st (ps_session_id r) = Some r"
    and len: "int (length wire) \<le> 4 + MAX_MESSAGE_SIZE"
  shows "read_exchange ch' \<lparr>si_unread = wire, si_end = Closes\<rparr> = Inr f \<and>
    (\<exists>packet. open_frame ch' (ck_ms ck') (ck_s ck') f st =
      (Inr (packet, receive_on (ps_next_send_counter s) (ck_s ck') r),
       modify_session (ps_session_id r) (receive_on (ps_next_send_counter s) (ck_s ck')) st) \<and>
      pk_payload packet = payload \<and> ph_packet_type (pk_header packet) = pt)"
proof -
  note c = reach [unfolded can_reach_def]
  obtain packet where op: "open_frame ch' (ck_ms ck') (ck_s ck') f st =
      (Inr (packet, receive_on (ps_next_send_counter s) (ck_s ck') r),
       modify_session (ps_session_id r) (receive_on (ps_next_send_counter s) (ck_s ck')) st)"
      "pk_payload packet = payload" "ph_packet_type (pk_header packet) = pt"
    using frame_opens [where r = r and ch' = ch' and clock_ms = "ck_ms ck'" and now' = "ck_s ck'", OF st(1) _ _ pack_lawsD [OF _ plain] seal] c st(2) by blast
  obtain data where d: "sc_packb ch (envelope f) = Inr data" "write_length_prefixed data = Inr wire"
    using w by (auto simp: write_exchange_def rbind_eq_Inr)
  then have "length wire = 4 + length data" by (auto simp: write_length_prefixed_def result_simps)
  then have "fst (read_length_prefixed MAX_MESSAGE_SIZE \<lparr>si_unread = wire, si_end = Closes\<rparr>) = Inr data"
    using read_written [OF d(2), of MAX_MESSAGE_SIZE "\<lparr>si_unread = wire, si_end = Closes\<rparr>" "[]"] len by simp
  moreover have "plain_value (envelope f)" by (simp add: envelope_def)
  then have "sc_unpackb ch' data = Inr (envelope f)" using c d(1) pack_lawsD unfolding pack_law_def by blast
  ultimately have "read_exchange ch' \<lparr>si_unread = wire, si_end = Closes\<rparr> = Inr f"
    by (simp add: read_exchange_def envelope_def as_bytes_def)
  then show ?thesis using op by blast
qed

section \<open>Request and answer\<close>

lemma can_reach_back:
  assumes "can_reach ch ck r ch' ck' s" "seal ch'' t1 t2 s pt v = (x, s')"
  shows "can_reach ch ck (receive_on c now r) ch' ck' s'"
  using assms(1) seal_keeps [OF assms(2)]
  unfolding can_reach_def matching_sessions_def by (simp add: receive_on_def mark_active_def) metis

lemma index_inv_replace:
  assumes "store_inv st" "get_by_session_id st sid = Some s"
    "ps_session_id s' = ps_session_id s" "ps_peer_id s' = ps_peer_id s" "ps_confirmed s' = ps_confirmed s"
  shows "index_inv (modify_session sid (\<lambda>_. s') st)"
proof -
  have "modify_session sid (\<lambda>_. s') st = modify_session sid (\<lambda>x. if x = s then s' else x) st"
    using assms(2) by (simp add: modify_session_def)
  moreover have "store_inv (modify_session sid (\<lambda>x. if x = s then s' else x) st)"
    by (rule modify_session_inv [OF assms(1)]) (use assms(3-5) in auto)
  ultimately show ?thesis by (simp add: store_inv_def)
qed

text \<open>Everything that is sent has text keys only, provided the stored version vectors name each device once.\<close>

definition lookup_plain :: "exchange \<Rightarrow> bool" where
  "lookup_plain ex \<longleftrightarrow> (\<forall>path v. resolve_version ex path = Inr v \<longrightarrow> wire_version v)"

lemma manifest_answer_plain: "wire_version v \<Longrightarrow> plain_value (manifest_answer cr c v)"
  using plain_counters by (auto simp: manifest_answer_def collection_dict_plain wire_version_def split: option.splits)

lemma chunk_answer_plain: "chunk_answer content wanted m = Some v \<Longrightarrow> plain_value v"
  by (auto simp: chunk_answer_def split: option.splits if_splits)

lemma response_plain:
  assumes "lookup_plain ex" "build_response io ex packet = Inr (pt, v)"
  shows "plain_value v"
proof -
  have "plain_value v" if "build_manifest_response io ex p = Inr v" for p
    using that assms(1) manifest_answer_plain by (auto simp: build_manifest_response_def rbind_eq_Inr lookup_plain_def)
  moreover have "plain_value v" if r: "build_chunk_response io ex p = Inr v" for p
  proof -
    have "v = record_of [(''chunks'', MList [])] \<or>
        (\<exists>ms content wanted. v = record_of [(''chunks'', MList (List.map_filter (chunk_answer content wanted) ms))])"
    proof -
      obtain wanted q and c :: "chunk_collection option" where c: "(case c of None \<Rightarrow> Inr (record_of [(''chunks'', MList [])])
         | Some c \<Rightarrow> (case me_fs ex q of
            Some (FileNode content) \<Rightarrow> raise_if (sv_open_refused io) (Py OSError)
                (Inr (record_of [(''chunks'', MList (List.map_filter (chunk_answer content wanted) (cc_chunks c)))]))
          | _ \<Rightarrow> Inl (Py OSError))) = Inr v"
        using r unfolding build_chunk_response_def rbind_eq_Inr by (clarsimp simp: rbind_eq_Inr)
      show ?thesis
      proof (cases c)
        case (Some x)
        then obtain content where "me_fs ex q = Some (FileNode content)" using c by (auto split: option.split_asm node.split_asm)
        then show ?thesis using c Some by (auto simp: raise_if_eq_Inr)
      qed (use c in simp)
    qed
    then show ?thesis
    proof
      assume "\<exists>ms content wanted. v = record_of [(''chunks'', MList (List.map_filter (chunk_answer content wanted) ms))]"
      then obtain ms content wanted where v: "v = record_of [(''chunks'', MList (List.map_filter (chunk_answer content wanted) ms))]"
        by blast
      have "plain_value x" if "x \<in> set (List.map_filter (chunk_answer content wanted) ms)" for x
        using that chunk_answer_plain [of content wanted _ x] by (auto simp: List.map_filter_def)
      then show ?thesis by (simp add: v list_all_iff)
    qed simp
  qed
  ultimately show ?thesis using assms(2) by (auto simp: build_response_def rbind_eq_Inr split: if_splits)
qed

lemma round_trip_opens:
  assumes send: "exchange_send ck pt payload peer_id a = (Inr wire, a1)"
    "get_send_session (ck_s ck) (me_sessions a) peer_id = Some s"
    and serve: "serve ck2 io \<lparr>si_unread = wire, si_end = Closes\<rparr> b = (Inr wire2, b1)"
    and there: "can_reach (me_channel a) ck s (me_channel b) ck2 r" "index_inv (me_sessions b)"
      "get_by_session_id (me_sessions b) (ps_session_id r) = Some r"
    and home: "can_reach (me_channel b) ck2 r (me_channel a) ck3 s" "store_inv (me_sessions a)"
      "get_by_session_id (me_sessions a) (ps_session_id s) = Some s"
    and plain: "plain_value payload" "lookup_plain b"
    and len: "int (length wire) \<le> 4 + MAX_MESSAGE_SIZE" "int (length wire2) \<le> 4 + MAX_MESSAGE_SIZE"
  shows "\<exists>packet pt2 v a2. pk_payload packet = payload \<and> ph_packet_type (pk_header packet) = pt \<and>
    build_response io b packet = Inr (pt2, v) \<and> exchange_receive ck3 \<lparr>si_unread = wire2, si_end = Closes\<rparr> a1 = (Inr v, a2)"
proof -
  obtain f s' where f: "seal (me_channel a) (ck_ms ck) (ck_s ck) s pt payload = (Inr f, s')" "write_exchange (me_channel a) f = Inr wire"
    and a1: "a1 = a\<lparr>me_sessions := modify_session (ps_session_id s) (\<lambda>_. s') (me_sessions a)\<rparr>"
    using send by (auto simp: exchange_send_def rbind_eq_Inr split: prod.splits)
  let ?r = "receive_on (ps_next_send_counter s) (ck_s ck2) r"
  obtain packet where p: "read_exchange (me_channel b) \<lparr>si_unread = wire, si_end = Closes\<rparr> = Inr f"
      "open_frame (me_channel b) (ck_ms ck2) (ck_s ck2) f (me_sessions b) =
         (Inr (packet, ?r), modify_session (ps_session_id r) (receive_on (ps_next_send_counter s) (ck_s ck2)) (me_sessions b))"
      "pk_payload packet = payload" "ph_packet_type (pk_header packet) = pt"
    using sealed_arrives [OF f there(1) plain(1) there(2,3) len(1)] by blast
  obtain pt2 v f2 r2 where v: "build_response io b packet = Inr (pt2, v)"
      "seal (me_channel b) (ck_ms ck2) (ck_s ck2) ?r pt2 v = (Inr f2, r2)" "write_exchange (me_channel b) f2 = Inr wire2"
    using serve p(1,2) by (auto simp: serve_def rbind_eq_Inr split: sum.split_asm prod.split_asm)
  have id: "ps_session_id s' = ps_session_id s" using seal_keeps [OF f(1)] by simp
  have "index_inv (me_sessions a1)" "get_by_session_id (me_sessions a1) (ps_session_id s') = Some s'"
    using index_inv_replace [OF home(2,3), of s'] seal_keeps [OF f(1)] home(3) by (simp_all add: a1 get_modify_session)
  then obtain packet2 st2 where "read_exchange (me_channel a) \<lparr>si_unread = wire2, si_end = Closes\<rparr> = Inr f2"
      "open_frame (me_channel a) (ck_ms ck3) (ck_s ck3) f2 (me_sessions a1) = (Inr (packet2, receive_on (ps_next_send_counter ?r) (ck_s ck3) s'), st2)"
      "pk_payload packet2 = v"
    using sealed_arrives [OF v(2,3) can_reach_back [OF home(1) f(1)] response_plain [OF plain(2) v(1)] _ _ len(2)] by blast
  then have "exchange_receive ck3 \<lparr>si_unread = wire2, si_end = Closes\<rparr> a1 = (Inr v, a1\<lparr>me_sessions := st2\<rparr>)"
    by (simp add: exchange_receive_def a1)
  then show ?thesis using p(3,4) v(1) by blast
qed

lemma manifest_answer_read:
  assumes "cr_isoformat crb = cr_isoformat cra" "\<And>x. c = Some x \<Longrightarrow> storable cra x"
  shows "manifest_of_answer cra (manifest_answer crb c v) =
    Inr (map_option (\<lambda>x. raw_manifest_of \<lparr>mv_collection = x, mv_version = v\<rparr>) c)"
proof (cases c)
  case None
  then show ?thesis by (simp add: manifest_of_answer_def manifest_answer_def truthy_def)
next
  case (Some x)
  have "collection_to_dict crb x = collection_to_dict cra x"
    by (simp add: collection_to_dict_def metadata_to_dict_def assms(1) cong: map_cong)
  moreover have "answered_version (case v of None \<Rightarrow> MNil | Some x \<Rightarrow> record_of [(''counters'', counters_value x)]) =
      Inr (map_option counters_entries v)"
    by (cases v) (simp_all add: answered_version_def truthy_def counters_value_def counters_entries_def py_dict_def, simp add: record_of_def)
  ultimately show ?thesis
    using collection_dict_round_trip [OF assms(2) [OF Some]] Some
    by (simp add: manifest_of_answer_def manifest_answer_def truthy_def raw_manifest_of_def)
qed

section \<open>Confinement\<close>

lemma safe_resolve_inside:
  assumes "safe_resolve ex v = Inr (s, p)" "me_resolve ex (me_sync_root ex) = Inr base"
  shows "is_relative_to p base \<and> v = MStr s \<and> reject_unsafe_spelling s = Inr ()"
  using assms
  by (auto simp: safe_resolve_def rbind_eq_Inr resolve_within_def raise_if_eq_Inr path_text_def split: if_splits mval.splits)

lemma repo_load_local:
  "(\<And>q. manifest_path cr p = Inr q \<Longrightarrow> f' q = f q) \<Longrightarrow> repo_load refused cr f' p = repo_load refused cr f p"
  by (cases "manifest_path cr p") (simp_all add: repo_load_def load_manifest_def)

lemma build_manifest_local:
  assumes "me_resolve ex (me_sync_root ex) = Inr base"
    and "\<And>q. is_relative_to q base \<or> (\<exists>p. manifest_path (me_repo ex) p = Inr q) \<Longrightarrow> f' q = me_fs ex q"
  shows "build_manifest_response io (ex\<lparr>me_fs := f'\<rparr>) payload = build_manifest_response io ex payload"
proof -
  have "repo_load refused (me_repo ex) f' p = repo_load refused (me_repo ex) (me_fs ex) p" for refused p
    by (rule repo_load_local) (use assms(2) in blast)
  then show ?thesis
    by (simp add: build_manifest_response_def safe_resolve_def resolve_version_def)
qed

lemma build_chunk_local:
  assumes base: "me_resolve ex (me_sync_root ex) = Inr base"
    and same: "\<And>q. is_relative_to q base \<or> (\<exists>p. manifest_path (me_repo ex) p = Inr q) \<Longrightarrow> f' q = me_fs ex q"
  shows "build_chunk_response io (ex\<lparr>me_fs := f'\<rparr>) payload = build_chunk_response io ex payload"
proof -
  have load: "repo_load refused (me_repo ex) f' p = repo_load refused (me_repo ex) (me_fs ex) p" for refused p
    by (rule repo_load_local) (use same in blast)
  have sr: "safe_resolve (ex\<lparr>me_fs := f'\<rparr>) v = safe_resolve ex v" for v by (simp add: safe_resolve_def)
  have "f' p = me_fs ex p" if "safe_resolve ex v = Inr (s, p)" for v s p
    using safe_resolve_inside [OF that base] same by blast
  then show ?thesis
    unfolding build_chunk_response_def sr
    by (auto simp: load rbind_def split: sum.split intro!: option.case_cong)
qed

section \<open>Chunks\<close>

definition served_chunk :: "int \<Rightarrow> bytes \<Rightarrow> chunk_metadata \<Rightarrow> raw_chunk" where
  "served_chunk now content m =
     raw_chunk_of \<lparr>ck_metadata = m\<lparr>created_at := now\<rparr>, ck_data = read_at content (cm_offset m) (cm_size m)\<rparr>"

lemma chunk_answer_read:
  assumes "chunk_answer content wanted m = Some v" "wf_metadata m" "\<And>h. cm_hash m = Some h \<Longrightarrow> wf_hash h"
    "cm_offset m + cm_size m \<le> int (length content)"
  shows "exchanged_chunk cv now v = Inr (served_chunk now content m)"
proof -
  obtain h where h: "cm_hash m = Some h" "wf_hash h"
    using assms(1,3) by (auto simp: chunk_answer_def split: option.splits)
  have len: "int (length (read_at content (cm_offset m) (cm_size m))) = cm_size m"
    using assms(2,4) unfolding read_at_def wf_metadata_def by (simp add: min_def) linarith
  have alg: "algorithm_of_value (algorithm_value (algorithm h)) = Inr (algorithm h)"
    by (cases "algorithm h") (simp add: algorithm_of_value_def)
  have "mk_ChunkHash (algorithm h) (digest h) = Inr h" using h(2) by (rule mk_ChunkHash_wf)
  then show ?thesis
    using assms(1,2) h(1) len alg
    by (cases m) (auto simp: chunk_answer_def exchanged_chunk_def hash_from_payload_def algorithm_of_wire_def served_chunk_def
        chunk_with_data_def value_length_def raw_chunk_of_def raise_if_def mk_ChunkMetadata_def wf_metadata_def split: if_splits)
qed

lemma yielded_map_filter:
  "(\<And>m v. m \<in> set ms \<Longrightarrow> h m = Some v \<Longrightarrow> f v = Inr (g m)) \<Longrightarrow>
   yielded f (List.map_filter h ms) = (map g (filter (\<lambda>m. h m \<noteq> None) ms), None)"
proof (induction ms)
  case (Cons m ms)
  have IH: "yielded f (List.map_filter h ms) = (map g (filter (\<lambda>m. h m \<noteq> None) ms), None)" using Cons by simp
  show ?case
  proof (cases "h m")
    case (Some v)
    then have "f v = Inr (g m)" using Cons.prems by simp
    then show ?thesis using IH Some by (simp add: List.map_filter_simps)
  qed (use IH in \<open>simp add: List.map_filter_simps\<close>)
qed (simp add: List.map_filter_simps)

section \<open>Properties\<close>

text \<open>
  C27: What a peer answers is what the requester reads. Suppose the request was sent on a session of which the peer holds the other
  half, the peer served it, both messages are within the limit, and in both directions the frame can reach the other
  end: matching keys, agreeing clocks, a counter that is left and that the window accepts, the documented laws of the
  cipher and of MessagePack on text-keyed values. Suppose further that both session stores keep their invariant, that the metadata the peer stores names each device once and
  that both sides write times in the same ISO format, which reads back what it wrote. Then the requester gets exactly the manifest
  and the version vector the peer has stored for the path, or nothing if it has no manifest.
\<close>

theorem manifest_exchange_agrees:
  assumes send: "exchange_send ck FILE_MANIFEST (manifest_request path) (device_id p) a = (Inr wire, a1)"
    "get_send_session (ck_s ck) (me_sessions a) (device_id p) = Some s"
    and serve: "serve ck2 io \<lparr>si_unread = wire, si_end = Closes\<rparr> b = (Inr wire2, b1)"
    and there: "can_reach (me_channel a) ck s (me_channel b) ck2 r" "index_inv (me_sessions b)"
      "get_by_session_id (me_sessions b) (ps_session_id r) = Some r"
    and home: "can_reach (me_channel b) ck2 r (me_channel a) ck3 s" "store_inv (me_sessions a)"
      "get_by_session_id (me_sessions a) (ps_session_id s) = Some s"
    and len: "int (length wire) \<le> 4 + MAX_MESSAGE_SIZE" "int (length wire2) \<le> 4 + MAX_MESSAGE_SIZE"
    and plain: "lookup_plain b"
    and iso: "iso_law (me_repo b)" "cr_isoformat (me_repo b) = cr_isoformat (me_repo a)"
      "cr_fromisoformat (me_repo b) = cr_fromisoformat (me_repo a)"
  shows "\<exists>local_path c v. resolve_within (me_resolve b) (me_sync_root b) path = Inr local_path \<and>
    repo_load (sv_load_refused io) (me_repo b) (me_fs b) local_path = Inr c \<and> resolve_version b path = Inr v \<and>
    fst (request_manifest (ck, ck3) p path (\<lambda>_. Inr \<lparr>si_unread = wire2, si_end = Closes\<rparr>) a) =
      Inr (map_option (\<lambda>x. raw_manifest_of \<lparr>mv_collection = x, mv_version = v\<rparr>) c)"
proof -
  have plain_request: "plain_value (manifest_request path)" by (simp add: manifest_request_def)
  obtain packet pt2 v a2 where v: "pk_payload packet = manifest_request path" "ph_packet_type (pk_header packet) = FILE_MANIFEST"
    "build_response io b packet = Inr (pt2, v)" "exchange_receive ck3 \<lparr>si_unread = wire2, si_end = Closes\<rparr> a1 = (Inr v, a2)"
    using round_trip_opens [OF send serve there home plain_request plain len] by blast
  obtain local_path c vv where b: "resolve_within (me_resolve b) (me_sync_root b) path = Inr local_path"
      "repo_load (sv_load_refused io) (me_repo b) (me_fs b) local_path = Inr c" "resolve_version b path = Inr vv"
      "v = manifest_answer (me_repo b) c vv"
    using v(3) by (auto simp: build_response_def v(1,2) build_manifest_response_def manifest_request_def safe_resolve_def
        path_text_def rbind_eq_Inr split: if_splits)
  have "storable (me_repo a) x" if "c = Some x" for x
    using repo_load_storable [OF iso(1)] b(2) that iso(2,3) by (auto simp: storable_def)
  then have "manifest_of_answer (me_repo a) v = Inr (map_option (\<lambda>x. raw_manifest_of \<lparr>mv_collection = x, mv_version = vv\<rparr>) c)"
    unfolding b(4) using iso(2) by (intro manifest_answer_read)
  then have "fst (request_manifest (ck, ck3) p path (\<lambda>_. Inr \<lparr>si_unread = wire2, si_end = Closes\<rparr>) a) =
      Inr (map_option (\<lambda>x. raw_manifest_of \<lparr>mv_collection = x, mv_version = vv\<rparr>) c)"
    by (simp add: request_manifest_def exchange_round_def send(1) v(4))
  then show ?thesis using b(1-3) by blast
qed

text \<open>
  C28: Serving is confined. An answer depends on no file but those inside the resolved sync root and the
  manifests of the repository, whatever path a request names; and a request is answered only if its path is a text
  that passes the spelling checks.
\<close>

theorem serving_confined:
  assumes "me_resolve ex (me_sync_root ex) = Inr base"
    and "\<And>q. is_relative_to q base \<or> (\<exists>p. manifest_path (me_repo ex) p = Inr q) \<Longrightarrow> f' q = me_fs ex q"
  shows "build_response io (ex\<lparr>me_fs := f'\<rparr>) packet = build_response io ex packet \<and>
    (\<forall>pt v. build_response io ex packet = Inr (pt, v) \<longrightarrow>
      (\<exists>s. getitem (pk_payload packet) ''relative_path'' = Inr (MStr s) \<and> reject_unsafe_spelling s = Inr ()))"
proof (intro conjI allI impI)
  show "build_response io (ex\<lparr>me_fs := f'\<rparr>) packet = build_response io ex packet"
    using build_manifest_local [OF assms] build_chunk_local [OF assms] by (simp add: build_response_def)
  fix pt v assume "build_response io ex packet = Inr (pt, v)"
  then obtain x s p where "getitem (pk_payload packet) ''relative_path'' = Inr x" "safe_resolve ex x = Inr (s, p)"
    by (auto simp: build_response_def build_chunk_response_def build_manifest_response_def rbind_eq_Inr split: if_splits)
  then show "\<exists>s. getitem (pk_payload packet) ''relative_path'' = Inr (MStr s) \<and> reject_unsafe_spelling s = Inr ()"
    using safe_resolve_inside [OF _ assms(1)] by blast
qed

text \<open>
  C29: A chunk request is answered with exactly the requested chunks. If the peer has a manifest for the path and its file
  still reaches every chunk, the requester gets the chunks of the manifest whose digest it asked for, in order, each
  with its metadata and the bytes the file has at its place, and no error.
\<close>

theorem chunk_request_exact:
  assumes "iso_law (me_repo b)" "resolve_within (me_resolve b) (me_sync_root b) path = Inr local_path"
    and "repo_load False (me_repo b) (me_fs b) local_path = Inr (Some c)" "me_fs b local_path = Some (FileNode content)"
    and "\<And>m. m \<in> set (cc_chunks c) \<Longrightarrow> cm_offset m + cm_size m \<le> int (length content)"
    and "\<not> sv_load_refused io" "\<not> sv_open_refused io"
  shows "chunks_of_answer cv now (build_chunk_response io b (chunk_request path hashes)) =
    (map (served_chunk now content)
       (filter (\<lambda>m. \<exists>h. cm_hash m = Some h \<and> digest h \<in> set hashes) (cc_chunks c)), None)"
proof -
  have st: "storable (me_repo b) c" by (rule repo_load_storable [OF assms(1,3)])
  have h: "hash_set (MList (map MStr hashes)) = Inr (map MStr hashes)"
    by (simp add: hash_set_def iterate_def list_ex_iff raise_if_def)
  have ne: "path \<noteq> []" using assms(2) by (auto simp: resolve_within_def reject_unsafe_spelling_def)
  let ?items = "List.map_filter (chunk_answer content (map MStr hashes)) (cc_chunks c)"
  have "build_chunk_response io b (chunk_request path hashes) = Inr (record_of [(''chunks'', MList ?items)])"
    using assms ne by (simp add: build_chunk_response_def chunk_request_def h safe_resolve_def path_text_def truthy_def)
  moreover have "yielded (exchanged_chunk cv now) ?items =
      (map (served_chunk now content) (filter (\<lambda>m. chunk_answer content (map MStr hashes) m \<noteq> None) (cc_chunks c)), None)"
    by (rule yielded_map_filter, rule chunk_answer_read) (use st assms(5) in \<open>auto simp: storable_def list_all_iff\<close>)
  moreover have "(chunk_answer content (map MStr hashes) m \<noteq> None) = (\<exists>h. cm_hash m = Some h \<and> digest h \<in> set hashes)" for m
    by (auto simp: chunk_answer_def split: option.splits)
  ultimately show ?thesis by (simp add: chunks_of_answer_def iterate_def)
qed

section \<open>Witnesses\<close>

definition served_collection :: chunk_collection where
  "served_collection = \<lparr>source_path = PurePath 1 [[102]], cc_chunk_size = 4, total_size = 2,
     cc_chunks = [\<lparr>chunk_id = [67], cm_index = 0, cm_size = 2, cm_offset = 0,
       cm_hash = Some \<lparr>algorithm = SHA256, digest = replicate 64 48\<rparr>, created_at = 0\<rparr>]\<rparr>"

definition served_repo :: chunk_repo where
  "served_repo = sample_repo\<lparr>cr_loads := (\<lambda>_. Inr (collection_to_dict sample_repo served_collection))\<rparr>"

abbreviation served_answer :: mval where
  "served_answer \<equiv> manifest_answer served_repo (Some served_collection) None"

definition ex_packb :: "mval \<Rightarrow> bytes result" where
  "ex_packb v =
     (if v = manifest_request (codes ''f'') then Inr [1]
      else if v = served_answer then Inr [2]
      else case v of MMap [(x, MBin f)] \<Rightarrow> if v = envelope f then Inr (0 # f) else Inl (Py TypeError) | _ \<Rightarrow> Inl (Py TypeError))"

definition ex_unpackb :: "bytes \<Rightarrow> mval result" where
  "ex_unpackb b =
     (if b = [1] then Inr (manifest_request (codes ''f''))
      else if b = [2] then Inr served_answer
      else if b \<noteq> [] \<and> hd b = 0 then Inr (envelope (tl b)) else Inl (Py ValueError))"

definition ex_channel :: "pystr \<Rightarrow> mval secure_channel" where
  "ex_channel own = (mval_channel own)\<lparr>sc_packb := ex_packb, sc_unpackb := ex_unpackb\<rparr>"

definition sample_exchange :: "pystr \<Rightarrow> session_store \<Rightarrow> exchange" where
  "sample_exchange own st =
     \<lparr>me_channel = ex_channel own, me_conversions = \<lparr>cv_repr = (\<lambda>_. []), cv_parse = (\<lambda>_. Inl (Py ValueError))\<rparr>, me_sessions = st,
      me_repo = served_repo, me_sync_root = PurePath 1 [[115]], me_resolve = Inr, me_metadata_lookup = None,
      me_fs = [PurePath 1 [[115], replicate 64 98 @ codes ''.json''] \<mapsto> FileNode [1], PurePath 1 [[115], [102]] \<mapsto> FileNode [7, 8]],
      me_active = 0\<rparr>"

definition sample_serve_io :: serve_io where
  "sample_serve_io = \<lparr>sv_load_refused = False, sv_open_refused = False, sv_write = Inr ()\<rparr>"

lemma sample_exchange_sel [simp]:
  "me_channel (sample_exchange own st) = ex_channel own" "me_sessions (sample_exchange own st) = st"
  "me_repo (sample_exchange own st) = served_repo" "me_sync_root (sample_exchange own st) = PurePath 1 [[115]]"
  "me_resolve (sample_exchange own st) = Inr" "me_metadata_lookup (sample_exchange own st) = None"
  "sv_load_refused sample_serve_io = False" "sv_open_refused sample_serve_io = False" "sv_write sample_serve_io = Inr ()"
  by (simp_all add: sample_exchange_def sample_serve_io_def)

lemma ex_laws: "pack_laws (ex_channel o1) (ex_channel o2)"
  by (auto simp: pack_laws_def pack_law_def ex_channel_def ex_packb_def ex_unpackb_def split: if_splits mval.splits list.splits prod.splits)

lemma ex_envelope: "sc_packb (ex_channel own) (envelope f) = Inr (0 # f)"
  by (simp add: ex_channel_def ex_packb_def envelope_def manifest_request_def manifest_answer_def record_of_def)

lemma served_storable: "storable served_repo served_collection"
  by (simp add: storable_def served_collection_def wf_collection_def normal_path_def wf_metadata_def served_repo_def sample_repo_def
      wf_hash_def) code_simp

lemma sample_lookup: "lookup_plain (sample_exchange own st)"
  by (simp add: lookup_plain_def resolve_version_def wire_version_def)

lemma served_iso: "iso_law served_repo"
  by (simp add: iso_law_def served_repo_def sample_repo_def)

lemma served_resolve: "resolve_within Inr (PurePath 1 [[115]]) (codes ''f'') = Inr (PurePath 1 [[115], [102]])"
  by code_simp

lemma served_digest: "digest_laws served_repo"
  using sample_repo_laws(1) by (simp add: digest_laws_def served_repo_def)

lemma served_manifest_path:
  "manifest_path served_repo (PurePath 1 [[115], [102]]) = Inr (PurePath 1 [[115], replicate 64 98 @ codes ''.json''])"
proof -
  have u: "utf8_encode (path_str (PurePath 1 [[115], [102]])) = Inr [47, 115, 47, 102]"
    by (simp add: path_str_def utf8_encode_def scalar_def utf8_char_def)
  have "normal_path (PurePath 1 [[115], [102]])" by (simp add: normal_path_def)
  then have "manifest_path served_repo (PurePath 1 [[115], [102]]) =
      Inr (path_join (cr_storage_dir served_repo) (cr_sha256_hex served_repo [47, 115, 47, 102] @ codes ''.json''))"
    by (simp add: manifest_path_def del: One_nat_def) (simp add: served_repo_def sample_repo_def u del: One_nat_def)
  also have "\<dots> = Inr (PurePath 1 [[115], replicate 64 98 @ codes ''.json''])"
    unfolding manifest_name [OF served_digest] by (simp add: served_repo_def sample_repo_def del: One_nat_def)
  finally show ?thesis .
qed

lemma served_load:
  "repo_load False served_repo (me_fs (sample_exchange own st)) (PurePath 1 [[115], [102]]) = Inr (Some served_collection)"
proof -
  have "collection_to_dict sample_repo served_collection = collection_to_dict served_repo served_collection"
    by (simp add: collection_to_dict_def metadata_to_dict_def served_repo_def cong: map_cong)
  then have "collection_from_dict served_repo (collection_to_dict sample_repo served_collection) = Inr served_collection"
    using collection_dict_round_trip [OF served_storable] by simp
  moreover have "me_fs (sample_exchange own st) (PurePath 1 [[115], replicate 64 98 @ codes ''.json'']) = Some (FileNode [1])"
    by (simp add: sample_exchange_def codes_def)
  moreover have "cr_loads served_repo b = Inr (collection_to_dict sample_repo served_collection)" for b by (simp add: served_repo_def)
  ultimately show ?thesis
    unfolding repo_load_def served_manifest_path by (simp add: load_manifest_def read_bytes_def)
qed

theorem chunk_request_exact_witness:
  "chunks_of_answer (me_conversions (sample_exchange [65] mk_SessionStore)) 5
     (build_chunk_response sample_serve_io (sample_exchange [65] mk_SessionStore) (chunk_request (codes ''f'') [replicate 64 48])) =
   ([served_chunk 5 [7, 8] (hd (cc_chunks served_collection))], None)"
proof -
  let ?b = "sample_exchange [65] mk_SessionStore"
  have f: "me_fs ?b (PurePath 1 [[115], [102]]) = Some (FileNode [7, 8])" by (simp add: sample_exchange_def)
  have "chunks_of_answer cv 5 (build_chunk_response sample_serve_io ?b (chunk_request (codes ''f'') [replicate 64 48])) =
    (map (served_chunk 5 [7, 8]) (filter (\<lambda>m. \<exists>h. cm_hash m = Some h \<and> digest h \<in> set [replicate 64 48]) (cc_chunks served_collection)), None)" for cv
    by (rule chunk_request_exact [OF _ _ _ f]; (unfold sample_exchange_sel)?, (rule served_iso served_resolve served_load)?; simp add: served_collection_def)
  then show ?thesis by (simp add: served_collection_def)
qed

theorem serving_confined_witness:
  "build_response sample_serve_io ((sample_exchange [65] mk_SessionStore)\<lparr>me_fs := (me_fs (sample_exchange [65] mk_SessionStore))(PurePath 1 [[120]] \<mapsto> FileNode [9])\<rparr>)
     \<lparr>pk_header = make_header 0 FILE_MANIFEST 1 0, pk_payload = manifest_request (codes ''f'')\<rparr> =
   build_response sample_serve_io (sample_exchange [65] mk_SessionStore)
     \<lparr>pk_header = make_header 0 FILE_MANIFEST 1 0, pk_payload = manifest_request (codes ''f'')\<rparr>"
proof -
  let ?b = "sample_exchange [65] mk_SessionStore"
  note l = served_digest
  have r: "\<not> is_relative_to (PurePath 1 [[120]]) (PurePath 1 [[115]])" by (simp add: is_relative_to_def)
  have m: "manifest_path served_repo p \<noteq> Inr (PurePath 1 [[120]])" for p
    using manifest_path_shape [OF l, of p] by (auto simp: served_repo_def sample_repo_def)
  have s: "((me_fs ?b)(PurePath 1 [[120]] \<mapsto> FileNode [9])) q = me_fs ?b q"
    if "is_relative_to q (PurePath 1 [[115]]) \<or> (\<exists>p. manifest_path (me_repo ?b) p = Inr q)" for q
  proof -
    have "q \<noteq> PurePath 1 [[120]]" using that r m unfolding sample_exchange_sel by metis
    then show ?thesis by (rule fun_upd_other)
  qed
  have "me_resolve ?b (me_sync_root ?b) = Inr (PurePath 1 [[115]])" unfolding sample_exchange_sel ..
  from serving_confined [OF this s] show ?thesis by blast
qed

lemma seal_succeeds:
  assumes "can_reach ch ck s ch' ck' r" "plain_value payload" "sc_packb ch payload = Inr pb" "HEADER_SIZE + length pb < 2 ^ 31"
  shows "\<exists>f s'. seal ch (ck_ms ck) (ck_s ck) s pt payload = (Inr f, s')"
proof -
  note c = assms(1) [unfolded can_reach_def]
  obtain own peer where ids: "utf8_encode (sc_own_device_id ch) = Inr own" "length own < 256 ^ 2"
      "utf8_encode (sc_own_device_id ch') = Inr peer" "length peer < 256 ^ 2" using c by blast
  show ?thesis
    using seal_total [OF _ _ pack_lawsD [OF _ assms(2)] ids assms(3,4), of s r "ck_ms ck" "ck_s ck" pt] c by blast
qed

lemma ex_write:
  assumes "seal (ex_channel own) now_ms now s pt payload = (Inr f, s')" "ex_packb payload = Inr [x]"
  shows "write_exchange (ex_channel own) f = Inr (be_bytes 4 73 @ 0 # f) \<and> length f = 72"
proof -
  have "length f = 71 + length [x]"
    by (rule seal_length [OF assms(1)]) (use assms(2) in \<open>auto simp: ex_channel_def mval_channel_def\<close>)
  then show ?thesis
    by (simp add: write_exchange_def ex_envelope write_length_prefixed_def pack_uint_def del: be_bytes.simps)
qed

lemma sample_reach:
  "can_reach (ex_channel [66]) sample_clock (sample_session 1 True) (ex_channel [65]) sample_clock Secure_Channel.sample_receiver"
  "can_reach (ex_channel [65]) sample_clock Secure_Channel.sample_receiver (ex_channel [66]) sample_clock (sample_session 1 True)"
proof -
  have a: "aead_laws (ex_channel o1) (ex_channel o2)" for o1 o2
    by (simp add: aead_laws_def ex_channel_def mval_channel_def TAG_SIZE_def)
  have w: "would_accept (ps_receive_window (sample_session 1 True)) 1"
    by (simp add: would_accept_def sample_session_def w_slot_def bits_is_set_def)
  have sel: "sc_own_device_id (ex_channel o1) = o1" "sc_timestamp_skew_ms (ex_channel o1) = 300000" for o1
    by (simp_all add: ex_channel_def mval_channel_def)
  have m: "matching_sessions (ex_channel [66]) (sample_session 1 True) (ex_channel [65]) Secure_Channel.sample_receiver"
    "matching_sessions (ex_channel [65]) Secure_Channel.sample_receiver (ex_channel [66]) (sample_session 1 True)"
    by (auto simp: matching_sessions_def sel Secure_Channel.sample_receiver_def sample_session_def SESSION_ID_SIZE_def KEY_SIZE_def role_defs)
  have r: "ps_next_send_counter Secure_Channel.sample_receiver = 1" "ps_sent_count Secure_Channel.sample_receiver = 0"
    "ps_receive_window Secure_Channel.sample_receiver = ps_receive_window (sample_session 1 True)"
    by (simp_all add: Secure_Channel.sample_receiver_def sample_session_def)
  show "can_reach (ex_channel [66]) sample_clock (sample_session 1 True) (ex_channel [65]) sample_clock Secure_Channel.sample_receiver"
    "can_reach (ex_channel [65]) sample_clock Secure_Channel.sample_receiver (ex_channel [66]) sample_clock (sample_session 1 True)"
    using m w a ex_laws by (simp_all add: can_reach_def sel r sample_facts(7,8) sample_fields MAX_COUNTER_def MAX_MESSAGES_PER_KEY_def)
qed

lemma sample_answers:
  assumes "pk_payload packet = manifest_request (codes ''f'')" "ph_packet_type (pk_header packet) = FILE_MANIFEST"
  shows "build_response sample_serve_io (sample_exchange own st) packet = Inr (FILE_MANIFEST, served_answer)"
  using served_load [of own st] served_resolve
  by (simp add: build_response_def assms build_manifest_response_def manifest_request_def safe_resolve_def path_text_def truthy_def resolve_version_def
      codes_def)

theorem manifest_exchange_agrees_witness:
  "\<exists>wire a1 wire2 b1. exchange_send sample_clock FILE_MANIFEST (manifest_request (codes ''f'')) (device_id sample_peer)
     (sample_exchange [66] one_session_store) = (Inr wire, a1) \<and>
   serve sample_clock sample_serve_io \<lparr>si_unread = wire, si_end = Closes\<rparr> (sample_exchange [65] receiver_store) = (Inr wire2, b1) \<and>
   fst (request_manifest (sample_clock, sample_clock) sample_peer (codes ''f'') (\<lambda>_. Inr \<lparr>si_unread = wire2, si_end = Closes\<rparr>)
     (sample_exchange [66] one_session_store)) = Inr (Some (raw_manifest_of \<lparr>mv_collection = served_collection, mv_version = None\<rparr>))"
proof -
  let ?a = "sample_exchange [66] one_session_store" and ?b = "sample_exchange [65] receiver_store"
  let ?s = "sample_session 1 True" and ?r = "Secure_Channel.sample_receiver" and ?req = "manifest_request (codes ''f'')"
  have g: "get_by_session_id one_session_store (ps_session_id ?s) = Some ?s" "index_inv one_session_store"
    using one_session_store_inv by (simp_all add: one_session_store_def get_add_session store_inv_def)
  have pk: "ex_packb ?req = Inr [1]" "ex_packb served_answer = Inr [2]"
    by (simp_all add: ex_packb_def manifest_request_def manifest_answer_def record_of_def)
  have ch: "sc_packb (ex_channel o1) = ex_packb" for o1 by (simp add: ex_channel_def)
  obtain f s' where f: "seal (ex_channel [66]) (ck_ms sample_clock) (ck_s sample_clock) ?s FILE_MANIFEST ?req = (Inr f, s')"
    using seal_succeeds [OF sample_reach(1), of ?req "[1]" FILE_MANIFEST] pk(1) by (auto simp: ch HEADER_SIZE_def manifest_request_def)
  note wr = ex_write [OF f pk(1)]
  define wire where "wire = be_bytes 4 73 @ 0 # f"
  have w: "write_exchange (ex_channel [66]) f = Inr wire" "int (length wire) \<le> 4 + MAX_MESSAGE_SIZE"
    using wr by (simp_all add: wire_def MAX_MESSAGE_SIZE_def)
  have send: "exchange_send sample_clock FILE_MANIFEST ?req (device_id sample_peer) ?a =
      (Inr wire, ?a\<lparr>me_sessions := modify_session (ps_session_id ?s) (\<lambda>_. s') one_session_store\<rparr>)"
    using f w(1) sample_facts(6) by (simp add: exchange_send_def sample_fields)
  obtain packet st1 where op: "read_exchange (ex_channel [65]) \<lparr>si_unread = wire, si_end = Closes\<rparr> = Inr f"
      "open_frame (ex_channel [65]) (ck_ms sample_clock) (ck_s sample_clock) f receiver_store =
        (Inr (packet, receive_on (ps_next_send_counter ?s) (ck_s sample_clock) ?r), st1)"
      "pk_payload packet = ?req" "ph_packet_type (pk_header packet) = FILE_MANIFEST"
    using sealed_arrives [OF f w(1) sample_reach(1) _ receiver_store_inv sample_facts(5) w(2)] by (auto simp: manifest_request_def)
  note home = can_reach_back [OF sample_reach(2) f, of "ps_next_send_counter ?s" "ck_s sample_clock"]
  have st: "index_inv (modify_session (ps_session_id ?s) (\<lambda>_. s') one_session_store)"
    "get_by_session_id (modify_session (ps_session_id ?s) (\<lambda>_. s') one_session_store) (ps_session_id s') = Some s'"
    using index_inv_replace [OF one_session_store_inv g(1)] seal_keeps [OF f] g(1) by (simp_all add: get_modify_session)
  obtain f2 r2 where f2: "seal (ex_channel [65]) (ck_ms sample_clock) (ck_s sample_clock)
      (receive_on (ps_next_send_counter ?s) (ck_s sample_clock) ?r) FILE_MANIFEST served_answer = (Inr f2, r2)"
    using seal_succeeds [OF home, of served_answer "[2]" FILE_MANIFEST] pk(2) manifest_answer_plain [of None]
    by (auto simp: ch HEADER_SIZE_def wire_version_def)
  note wr2 = ex_write [OF f2 pk(2)]
  define wire2 where "wire2 = be_bytes 4 73 @ 0 # f2"
  have w2: "write_exchange (ex_channel [65]) f2 = Inr wire2" "int (length wire2) \<le> 4 + MAX_MESSAGE_SIZE"
    using wr2 by (simp_all add: wire2_def MAX_MESSAGE_SIZE_def)
  obtain b1 where serve: "serve sample_clock sample_serve_io \<lparr>si_unread = wire, si_end = Closes\<rparr> ?b = (Inr wire2, b1)"
    using op(1,2) sample_answers [OF op(3,4)] f2 w2(1) by (simp add: serve_def)
  have "\<exists>local_path c v. resolve_within (me_resolve ?b) (me_sync_root ?b) (codes ''f'') = Inr local_path \<and>
      repo_load (sv_load_refused sample_serve_io) (me_repo ?b) (me_fs ?b) local_path = Inr c \<and> resolve_version ?b (codes ''f'') = Inr v \<and>
      fst (request_manifest (sample_clock, sample_clock) sample_peer (codes ''f'') (\<lambda>_. Inr \<lparr>si_unread = wire2, si_end = Closes\<rparr>) ?a) =
        Inr (map_option (\<lambda>x. raw_manifest_of \<lparr>mv_collection = x, mv_version = v\<rparr>) c)"
    by (rule manifest_exchange_agrees [OF send, where s = ?s and r = ?r])
      (use sample_facts(5,6) sample_reach receiver_store_inv one_session_store_inv g(1) serve w(2) w2(2) served_iso sample_lookup in \<open>simp_all add: sample_fields\<close>)
  then have "fst (request_manifest (sample_clock, sample_clock) sample_peer (codes ''f'') (\<lambda>_. Inr \<lparr>si_unread = wire2, si_end = Closes\<rparr>) ?a) =
      Inr (Some (raw_manifest_of \<lparr>mv_collection = served_collection, mv_version = None\<rparr>))"
    using served_resolve served_load [of "[65]" receiver_store] by (auto simp: resolve_version_def)
  then show ?thesis using send serve by blast
qed

end
