(* ===== verification/Transitions.thy ===== *)
theory Transitions
  imports Main
begin

text \<open>Transition relations: invariants of the reachable states, and runs in which a component settles.\<close>

locale transition_inv =
  fixes step :: "'s \<Rightarrow> 's \<Rightarrow> bool"
    and inv :: "'s \<Rightarrow> bool"
  assumes step_inv: "inv s \<Longrightarrow> step s s' \<Longrightarrow> inv s'"
begin

lemma reach_inv: "step\<^sup>*\<^sup>* s s' \<Longrightarrow> inv s \<Longrightarrow> inv s'"
  by (induction rule: rtranclp_induct) (auto intro: step_inv)

lemma run_inv: "(\<And>n. step (f n) (f (Suc n))) \<Longrightarrow> inv (f 0) \<Longrightarrow> inv (f n)"
  by (induction n) (auto intro: step_inv)

end

text \<open>A component that only changes downwards in a well-founded order changes finitely often.\<close>

lemma wf_settles:
  assumes "wf r" and "\<And>n. g (Suc n) = g n \<or> (g (Suc n), g n) \<in> r"
  shows "\<exists>n. \<forall>m \<ge> n. g m = g n"
proof -
  obtain z where z: "z \<in> range g" "\<And>y. (y, z) \<in> r \<Longrightarrow> y \<notin> range g"
    using wfE_min [OF assms(1), of "g 0" "range g"] by blast
  then obtain n where n: "z = g n" by blast
  have "g (n + k) = g n" for k
  proof (induction k)
    case (Suc k)
    then show ?case using assms(2) [of "n + k"] z(2) n by auto
  qed simp
  then show ?thesis by (metis le_add_diff_inverse)
qed

end
