(* ===== verification/Orchestration.thy ===== *)
theory Orchestration
  imports Peers Sync_File X25519_Handshake Transitions
begin

text \<open>
  \<^verbatim>\<open>application/orchestration.py\<close>: the orchestrator as a state machine. A coroutine runs without interruption
  between two awaits, so the model has one position per await: of each sync loop, of each call of \<^verbatim>\<open>start\<close> and of
  each call of \<^verbatim>\<open>stop\<close>. A step resumes one of them, or is a call, a discovery report, or a change another task makes to
  the session store and the files. The sessions are those of the session coordinator, a file is synchronised
  by the model of \<^verbatim>\<open>SyncFileUseCase.sync\<close>, and what these meet on the network is the answer of the await.
\<close>

section \<open>State\<close>

datatype orch_status = IDLE | SCANNING | SYNCING | PAUSED | ERROR

record sync_stats =
  files_processed :: int
  bytes_transferred :: int
  conflicts_detected :: int
  errors_encountered :: int

text \<open>Where a sync loop waits; the lists are the peers and files its \<^verbatim>\<open>for\<close> loops still have to visit.\<close>

datatype loop_at =
    LoopTop
  | PauseWait
  | Listing
  | InSession peer "peer list"
  | InFiles peer "peer list"
  | InSync peer "peer list" file_metadata "file_metadata list"
  | PollWait
  | LoopEnded

text \<open>Where a call of \<^verbatim>\<open>stop\<close> waits: for the task with this index, or for the discovery service.\<close>

datatype stop_at = StopTask nat | StopDiscovery

record orch_config =
  oc_coordinator :: bool \<comment> \<open>a session coordinator is given\<close>
  oc_sync :: "sync_config option" \<comment> \<open>sync use case, root, strategy and chunk size are given\<close>

text \<open>
  All tasks ever created are kept; \<^verbatim>\<open>_sync_task\<close> is the last of them. \<open>o_starts\<close> and \<open>o_stops\<close> are the calls in
  progress. \<open>o_handled\<close> records the calls of \<^verbatim>\<open>handle_peer_discovered\<close>, in order.
\<close>

record orch =
  o_state :: orch_status
  o_stats :: sync_stats
  o_active :: "pystr list"
  o_stop_event :: bool
  o_tasks :: "loop_at list"
  o_starts :: nat
  o_stops :: "stop_at list"
  o_sessions :: session_store
  o_sync :: sync_state
  o_peers :: peer_repo
  o_handled :: "pystr list"

definition mk_orch :: "session_store \<Rightarrow> sync_state \<Rightarrow> orch" where
  "mk_orch sessions sy =
     \<lparr>o_state = IDLE,
      o_stats = \<lparr>files_processed = 0, bytes_transferred = 0, conflicts_detected = 0, errors_encountered = 0\<rparr>,
      o_active = [], o_stop_event = False, o_tasks = [], o_starts = 0, o_stops = [],
      o_sessions = sessions, o_sync = sy, o_peers = [], o_handled = []\<rparr>"

section \<open>The sync loop\<close>

definition move :: "nat \<Rightarrow> loop_at \<Rightarrow> orch \<Rightarrow> orch" where
  "move i pc s = s\<lparr>o_tasks := (o_tasks s)[i := pc]\<rparr>"

definition count_error :: "orch \<Rightarrow> orch" where
  "count_error s = s\<lparr>o_stats := (o_stats s)\<lparr>errors_encountered := errors_encountered (o_stats s) + 1\<rparr>\<rparr>"

text \<open>The \<^verbatim>\<open>finally\<close> of the loop, and its \<^verbatim>\<open>except Exception\<close>.\<close>

definition end_loop :: "nat \<Rightarrow> orch \<Rightarrow> orch" where
  "end_loop i s = move i LoopEnded (s\<lparr>o_state := IDLE\<rparr>)"

definition fail_loop :: "nat \<Rightarrow> orch \<Rightarrow> orch" where
  "fail_loop i s = end_loop i (count_error (s\<lparr>o_state := ERROR\<rparr>))"

text \<open>The head of the loop: ends, waits for a second while paused, or asks for the peers.\<close>

definition loop_head :: "nat \<Rightarrow> orch \<Rightarrow> orch" where
  "loop_head i s =
     (if o_stop_event s then end_loop i s
      else if o_state s = PAUSED then move i PauseWait s
      else move i Listing s)"

text \<open>\<^verbatim>\<open>handle_peer_discovered\<close> up to its first await, for the next of the new peers.\<close>

fun next_peer :: "orch_config \<Rightarrow> nat \<Rightarrow> peer list \<Rightarrow> orch \<Rightarrow> orch" where
  "next_peer cfg i [] s = move i PollWait s"
| "next_peer cfg i (p # ps) s =
     move i (if oc_coordinator cfg then InSession p ps else InFiles p ps)
       (s\<lparr>o_active := List.insert (device_id p) (o_active s), o_handled := o_handled s @ [device_id p]\<rparr>)"

definition new_peers :: "orch \<Rightarrow> peer list" where
  "new_peers s = filter (\<lambda>p. device_id p \<notin> set (o_active s)) (list_online_peers (o_peers s))"

definition session_done :: "real \<Rightarrow> handshake_result result \<Rightarrow> peer \<Rightarrow> orch \<Rightarrow> orch" where
  "session_done now handshake p s =
     (case ensure_session now (device_id p) handshake (o_sessions s) of
        (Inl e, st) \<Rightarrow> count_error (s\<lparr>o_sessions := st\<rparr>)
      | (Inr _, st) \<Rightarrow> s\<lparr>o_sessions := st\<rparr>)"

text \<open>The file loop: deleted files are skipped, and after the last file the peer is done.\<close>

fun next_file :: "orch_config \<Rightarrow> nat \<Rightarrow> peer \<Rightarrow> peer list \<Rightarrow> file_metadata list \<Rightarrow> orch \<Rightarrow> orch" where
  "next_file cfg i p ps [] s =
     next_peer cfg i ps (if o_state s = SCANNING then s\<lparr>o_state := SYNCING\<rparr> else s)"
| "next_file cfg i p ps (f # fs) s =
     (if fm_is_deleted f then next_file cfg i p ps fs s else move i (InSync p ps f fs) s)"

definition files_listed :: "orch_config \<Rightarrow> nat \<Rightarrow> peer \<Rightarrow> peer list \<Rightarrow> file_metadata list \<Rightarrow> orch \<Rightarrow> orch" where
  "files_listed cfg i p ps fs s =
     next_file cfg i p ps (if oc_sync cfg = None then [] else fs)
       (s\<lparr>o_stats := (o_stats s)\<lparr>files_processed := int (length fs)\<rparr>\<rparr>)"

definition file_done :: "orch_config \<Rightarrow> sync_io \<Rightarrow> peer \<Rightarrow> file_metadata \<Rightarrow> orch \<Rightarrow> orch" where
  "file_done cfg io p f s =
     (case oc_sync cfg of
        None \<Rightarrow> s
      | Some sf \<Rightarrow>
          (case sync sf (io\<lparr>io_peer_id := device_id p, io_peer_ip := ad_ip_address (pr_address p)\<rparr>) (fm_path f) (o_sync s) of
             (Inl e, sy) \<Rightarrow> count_error (s\<lparr>o_sync := sy\<rparr>)
           | (Inr _, sy) \<Rightarrow> s\<lparr>o_sync := sy\<rparr>))"

datatype answer = Resumed | Session real "handshake_result result" | Files "file_metadata list result" | Synced sync_io

fun loop_resume :: "orch_config \<Rightarrow> nat \<Rightarrow> loop_at \<Rightarrow> answer \<Rightarrow> orch \<Rightarrow> orch option" where
  "loop_resume cfg i LoopTop Resumed s = Some (loop_head i s)"
| "loop_resume cfg i PauseWait Resumed s = Some (loop_head i s)"
| "loop_resume cfg i PollWait Resumed s = Some (loop_head i s)"
| "loop_resume cfg i Listing Resumed s = Some (next_peer cfg i (new_peers s) s)"
| "loop_resume cfg i (InSession p ps) (Session now r) s = Some (move i (InFiles p ps) (session_done now r p s))"
| "loop_resume cfg i (InFiles p ps) (Files (Inl e)) s = Some (fail_loop i s)"
| "loop_resume cfg i (InFiles p ps) (Files (Inr fs)) s = Some (files_listed cfg i p ps fs s)"
| "loop_resume cfg i (InSync p ps f fs) (Synced io) s = Some (next_file cfg i p ps fs (file_done cfg io p f s))"
| "loop_resume cfg i _ _ s = None"

section \<open>Calls\<close>

text \<open>\<^verbatim>\<open>start\<close> up to its await; it returns at once unless idle. Then the discovery service has started, or raised.\<close>

definition start_call :: "orch \<Rightarrow> orch" where
  "start_call s =
     (if o_state s \<noteq> IDLE then s
      else s\<lparr>o_state := SCANNING, o_stop_event := False, o_starts := o_starts s + 1\<rparr>)"

definition start_resume :: "unit result \<Rightarrow> orch \<Rightarrow> orch" where
  "start_resume r s =
     (case r of
        Inl e \<Rightarrow> s\<lparr>o_starts := o_starts s - 1\<rparr>
      | Inr _ \<Rightarrow> s\<lparr>o_starts := o_starts s - 1, o_tasks := o_tasks s @ [LoopTop]\<rparr>)"

definition stop_call :: "orch \<Rightarrow> orch" where
  "stop_call s =
     s\<lparr>o_stop_event := True,
       o_stops := o_stops s @ [if o_tasks s = [] then StopDiscovery else StopTask (length (o_tasks s) - 1)]\<rparr>"

definition stop_joined :: "nat \<Rightarrow> orch \<Rightarrow> orch" where
  "stop_joined k s = s\<lparr>o_stops := (o_stops s)[k := StopDiscovery]\<rparr>"

definition stop_resume :: "nat \<Rightarrow> unit result \<Rightarrow> orch \<Rightarrow> orch" where
  "stop_resume k r s =
     (let s1 = s\<lparr>o_stops := take k (o_stops s) @ drop (Suc k) (o_stops s)\<rparr> in
      case r of Inl e \<Rightarrow> s1 | Inr _ \<Rightarrow> s1\<lparr>o_state := IDLE\<rparr>)"

definition pause :: "orch \<Rightarrow> orch" where
  "pause s = s\<lparr>o_state := PAUSED\<rparr>"

definition resume :: "orch \<Rightarrow> orch" where
  "resume s = (if o_state s = PAUSED then s\<lparr>o_state := SYNCING\<rparr> else s)"

section \<open>Steps\<close>

inductive orch_step :: "orch_config \<Rightarrow> orch \<Rightarrow> orch \<Rightarrow> bool" for cfg where
  step_loop: "i < length (o_tasks s) \<Longrightarrow> loop_resume cfg i (o_tasks s ! i) a s = Some s' \<Longrightarrow> orch_step cfg s s'"
| step_start: "orch_step cfg s (start_call s)"
| step_started: "0 < o_starts s \<Longrightarrow> orch_step cfg s (start_resume r s)"
| step_stop: "orch_step cfg s (stop_call s)"
| step_joined: "k < length (o_stops s) \<Longrightarrow> o_stops s ! k = StopTask i \<Longrightarrow> o_tasks s ! i = LoopEnded \<Longrightarrow>
    orch_step cfg s (stop_joined k s)"
| step_stopped: "k < length (o_stops s) \<Longrightarrow> o_stops s ! k = StopDiscovery \<Longrightarrow> orch_step cfg s (stop_resume k r s)"
| step_pause: "orch_step cfg s (pause s)"
| step_resume: "orch_step cfg s (resume s)"
| step_discovery: "orch_step cfg s (s\<lparr>o_peers := discovery_step e (o_peers s)\<rparr>)"
| step_others: "orch_step cfg s (s\<lparr>o_sessions := st, o_sync := sy\<rparr>)"

inductive_cases orch_stepE: "orch_step cfg s s'"

text \<open>Callers that wait for each call of \<^verbatim>\<open>start\<close> or \<^verbatim>\<open>stop\<close> before they make the next.\<close>

definition serial_step :: "orch_config \<Rightarrow> orch \<Rightarrow> orch \<Rightarrow> bool" where
  "serial_step cfg s s' \<longleftrightarrow> orch_step cfg s s' \<and> o_starts s' + length (o_stops s') \<le> 1"

section \<open>One loop at a time\<close>

fun peers_left :: "loop_at \<Rightarrow> peer list" where
  "peers_left (InSession p ps) = ps"
| "peers_left (InFiles p ps) = ps"
| "peers_left (InSync p ps f fs) = ps"
| "peers_left _ = []"

text \<open>What a step of the loop at position \<open>pc\<close> leaves alone, and how the peers it has left become handled.\<close>

definition loop_moves :: "nat \<Rightarrow> peer list \<Rightarrow> orch \<Rightarrow> orch \<Rightarrow> bool" where
  "loop_moves i ps s s' \<longleftrightarrow>
     (\<exists>pc' hs. o_tasks s' = (o_tasks s)[i := pc'] \<and> o_starts s' = o_starts s \<and> o_stops s' = o_stops s \<and>
        o_stop_event s' = o_stop_event s \<and> o_peers s' = o_peers s \<and>
        (if pc' = LoopEnded then o_state s' = IDLE else o_state s' = o_state s \<or> o_state s' = SYNCING) \<and>
        o_handled s' = o_handled s @ hs \<and> set (o_active s') = set (o_active s) \<union> set hs \<and>
        (pc' = LoopEnded \<and> hs = [] \<or> hs @ map device_id (peers_left pc') = map device_id ps))"

lemma loop_movesI:
  assumes "o_tasks s' = (o_tasks s)[i := pc']" "o_starts s' = o_starts s" "o_stops s' = o_stops s"
    "o_stop_event s' = o_stop_event s" "o_peers s' = o_peers s"
    "if pc' = LoopEnded then o_state s' = IDLE else o_state s' = o_state s \<or> o_state s' = SYNCING"
    "o_handled s' = o_handled s @ hs" "set (o_active s') = set (o_active s) \<union> set hs"
    "pc' = LoopEnded \<and> hs = [] \<or> hs @ map device_id (peers_left pc') = map device_id ps"
  shows "loop_moves i ps s s'"
  unfolding loop_moves_def using assms by blast

lemma next_peer_moves: "loop_moves i ps s (next_peer cfg i ps s)"
proof (cases ps)
  case Nil
  then show ?thesis by (intro loop_movesI [where pc' = PollWait and hs = "[]"]) (simp_all add: move_def)
next
  case (Cons p rest)
  then show ?thesis
    by (intro loop_movesI [where pc' = "if oc_coordinator cfg then InSession p rest else InFiles p rest" and hs = "[device_id p]"])
      (auto simp: move_def)
qed

lemma loop_moves_cong:
  assumes "loop_moves i ps s1 s'" "o_tasks s1 = o_tasks s" "o_starts s1 = o_starts s" "o_stops s1 = o_stops s"
    "o_stop_event s1 = o_stop_event s" "o_peers s1 = o_peers s" "o_state s1 = o_state s \<or> o_state s1 = SYNCING"
    "o_handled s1 = o_handled s" "o_active s1 = o_active s"
  shows "loop_moves i ps s s'"
  using assms unfolding loop_moves_def by (smt (verit))

lemma next_file_moves: "loop_moves i ps s (next_file cfg i p ps fs s)"
proof (induction fs)
  case Nil
  show ?case by (simp, rule conjI; intro impI loop_moves_cong [OF next_peer_moves]; simp)
next
  case (Cons f fs)
  then show ?case
    by (auto intro!: loop_movesI [where pc' = "InSync p ps f fs" and hs = "[]"] simp: move_def)
qed

lemma frame_sel [simp]:
  "o_tasks (count_error s) = o_tasks s" "o_starts (count_error s) = o_starts s" "o_stops (count_error s) = o_stops s"
  "o_stop_event (count_error s) = o_stop_event s" "o_peers (count_error s) = o_peers s" "o_state (count_error s) = o_state s"
  "o_handled (count_error s) = o_handled s" "o_active (count_error s) = o_active s"
  by (simp_all add: count_error_def)

lemma session_done_sel [simp]:
  "o_tasks (session_done now r p s) = o_tasks s" "o_starts (session_done now r p s) = o_starts s" "o_stops (session_done now r p s) = o_stops s"
  "o_stop_event (session_done now r p s) = o_stop_event s" "o_peers (session_done now r p s) = o_peers s"
  "o_state (session_done now r p s) = o_state s" "o_handled (session_done now r p s) = o_handled s" "o_active (session_done now r p s) = o_active s"
  by (simp_all add: session_done_def split: prod.splits sum.splits)

lemma file_done_sel [simp]:
  "o_tasks (file_done cfg io p f s) = o_tasks s" "o_starts (file_done cfg io p f s) = o_starts s" "o_stops (file_done cfg io p f s) = o_stops s"
  "o_stop_event (file_done cfg io p f s) = o_stop_event s" "o_peers (file_done cfg io p f s) = o_peers s"
  "o_state (file_done cfg io p f s) = o_state s" "o_handled (file_done cfg io p f s) = o_handled s" "o_active (file_done cfg io p f s) = o_active s"
  by (simp_all add: file_done_def split: prod.splits sum.splits option.splits)

lemma loop_head_moves: "loop_moves i [] s (loop_head i s)"
  unfolding loop_head_def
  by (intro loop_movesI [where pc' = "if o_stop_event s then LoopEnded else if o_state s = PAUSED then PauseWait else Listing" and hs = "[]"])
    (auto simp: move_def end_loop_def)

lemma loop_resume_moves:
  assumes "loop_resume cfg i pc a s = Some s'"
  shows "pc \<noteq> LoopEnded \<and> loop_moves i (if pc = Listing then new_peers s else peers_left pc) s s'"
  using assms
proof (cases "(cfg, i, pc, a, s)" rule: loop_resume.cases)
  case (5 cfg' i' p ps now r s0)
  then show ?thesis using assms
    by (auto intro!: loop_movesI [where pc' = "InFiles p ps" and hs = "[]"] simp: move_def)
next
  case (6 cfg' i' p ps e s0)
  then show ?thesis using assms
    by (auto intro!: loop_movesI [where pc' = LoopEnded and hs = "[]"] simp: move_def fail_loop_def end_loop_def)
next
  case (7 cfg' i' p ps fs s0)
  then show ?thesis using assms
    by (auto simp: files_listed_def intro!: loop_moves_cong [OF next_file_moves])
next
  case (8 cfg' i' p ps f fs io s0)
  then show ?thesis using assms
    by (auto intro!: loop_moves_cong [OF next_file_moves])
qed (auto intro: loop_head_moves next_peer_moves)

definition live_ok :: "orch \<Rightarrow> bool" where
  "live_ok s \<longleftrightarrow>
     (\<forall>i < length (o_tasks s). o_tasks s ! i \<noteq> LoopEnded \<longrightarrow>
        Suc i = length (o_tasks s) \<and> o_state s \<noteq> IDLE \<and> o_starts s = 0 \<and> StopDiscovery \<notin> set (o_stops s))"

definition calls_ok :: "orch \<Rightarrow> bool" where
  "calls_ok s \<longleftrightarrow> o_starts s + length (o_stops s) \<le> 1 \<and> (0 < o_starts s \<longrightarrow> o_state s \<noteq> IDLE) \<and>
     (\<forall>i. StopTask i \<in> set (o_stops s) \<longrightarrow> Suc i = length (o_tasks s))"

definition handled_ok :: "orch \<Rightarrow> bool" where
  "handled_ok s \<longleftrightarrow> peers_ok (o_peers s) \<and> distinct (o_handled s) \<and> set (o_handled s) = set (o_active s) \<and>
     (\<forall>pc \<in> set (o_tasks s). distinct (map device_id (peers_left pc)) \<and> device_id ` set (peers_left pc) \<inter> set (o_active s) = {})"

definition orch_inv :: "orch \<Rightarrow> bool" where
  "orch_inv s \<longleftrightarrow> live_ok s \<and> calls_ok s \<and> handled_ok s"

lemma new_peers_fresh:
  "peers_ok (o_peers s) \<Longrightarrow> distinct (map device_id (new_peers s)) \<and> device_id ` set (new_peers s) \<inter> set (o_active s) = {}"
  unfolding new_peers_def using online_distinct by (auto simp: distinct_map_filter)

lemma ended_no_peers: "live_ok s \<Longrightarrow> j < length (o_tasks s) \<Longrightarrow> Suc j \<noteq> length (o_tasks s) \<Longrightarrow> peers_left (o_tasks s ! j) = []"
  by (metis live_ok_def peers_left.simps(8))

lemma live_task: "live_ok s \<Longrightarrow> i < length (o_tasks s) \<Longrightarrow> o_tasks s ! i \<noteq> LoopEnded \<Longrightarrow>
    Suc i = length (o_tasks s) \<and> o_state s \<noteq> IDLE \<and> o_starts s = 0 \<and> StopDiscovery \<notin> set (o_stops s)"
  by (simp add: live_ok_def)

lemma loop_step_inv:
  assumes inv: "orch_inv s" and i: "i < length (o_tasks s)" and r: "loop_resume cfg i (o_tasks s ! i) a s = Some s'"
  shows "orch_inv s'"
proof -
  let ?pc = "o_tasks s ! i"
  let ?ps = "if ?pc = Listing then new_peers s else peers_left ?pc"
  have ok: "live_ok s" "calls_ok s" "handled_ok s" using inv by (simp_all add: orch_inv_def)
  obtain pc' hs where t: "o_tasks s' = (o_tasks s)[i := pc']" "o_starts s' = o_starts s" "o_stops s' = o_stops s" "o_peers s' = o_peers s"
    and st: "if pc' = LoopEnded then o_state s' = IDLE else o_state s' = o_state s \<or> o_state s' = SYNCING"
    and h: "o_handled s' = o_handled s @ hs" "set (o_active s') = set (o_active s) \<union> set hs"
      "pc' = LoopEnded \<and> hs = [] \<or> hs @ map device_id (peers_left pc') = map device_id ?ps"
    and pc: "?pc \<noteq> LoopEnded"
    using loop_resume_moves [OF r] unfolding loop_moves_def by blast
  note live = live_task [OF ok(1) i pc]
  have "live_ok s'"
    unfolding live_ok_def
  proof (intro allI impI)
    fix j assume j: "j < length (o_tasks s')" "o_tasks s' ! j \<noteq> LoopEnded"
    show "Suc j = length (o_tasks s') \<and> o_state s' \<noteq> IDLE \<and> o_starts s' = 0 \<and> StopDiscovery \<notin> set (o_stops s')"
    proof (cases "j = i")
      case True
      then show ?thesis using live j st i by (auto simp: t split: if_splits)
    next
      case False
      then show ?thesis using live j live_task [OF ok(1), of j] by (simp add: t)
    qed
  qed
  moreover have "calls_ok s'"
    using ok(2) live by (auto simp: calls_ok_def t)
  moreover have "handled_ok s'"
  proof -
    have ps: "distinct (map device_id ?ps)" "device_id ` set ?ps \<inter> set (o_active s) = {}"
      using ok(3) new_peers_fresh [of s] i by (auto simp: handled_ok_def)
    have fresh: "distinct (hs @ map device_id (peers_left pc'))" "set (hs @ map device_id (peers_left pc')) \<inter> set (o_active s) = {}"
    proof (atomize (full), cases "pc' = LoopEnded \<and> hs = []")
      case False
      then have "hs @ map device_id (peers_left pc') = map device_id ?ps" using h(3) by blast
      then show "distinct (hs @ map device_id (peers_left pc')) \<and> set (hs @ map device_id (peers_left pc')) \<inter> set (o_active s) = {}"
        using ps by (simp only: set_map simp_thms)
    qed simp
    have others: "peers_left pc = []" if other: "pc \<in> set (o_tasks s')" "pc \<noteq> pc'" for pc
    proof -
      obtain j where "j < length (o_tasks s')" "o_tasks s' ! j = pc" using other(1) by (auto simp: in_set_conv_nth)
      then have j: "j < length (o_tasks s)" "pc = (o_tasks s)[i := pc'] ! j" by (simp_all add: t(1))
      then have "j \<noteq> i" "pc = o_tasks s ! j" using other(2) i by (auto simp: nth_list_update)
      then show ?thesis using ended_no_peers [OF ok(1) j(1)] live by auto
    qed
    have "distinct (map device_id (peers_left pc)) \<and> device_id ` set (peers_left pc) \<inter> set (o_active s') = {}"
      if "pc \<in> set (o_tasks s')" for pc
      using fresh others [OF that] by (cases "pc = pc'") (auto simp: h(2))
    moreover have "distinct (o_handled s')" "set (o_handled s') = set (o_active s')"
      using ok(3) fresh by (auto simp: handled_ok_def h(1,2))
    ultimately show ?thesis using ok(3) by (simp add: handled_ok_def t)
  qed
  ultimately show ?thesis by (simp add: orch_inv_def)
qed

lemma call_steps_inv:
  assumes inv: "orch_inv s" and calls: "o_starts s' + length (o_stops s') \<le> 1"
  shows "s' = start_call s \<Longrightarrow> orch_inv s'"
    and "s' = start_resume r s \<Longrightarrow> 0 < o_starts s \<Longrightarrow> orch_inv s'"
    and "s' = stop_call s \<Longrightarrow> orch_inv s'"
    and "s' = stop_joined k s \<Longrightarrow> k < length (o_stops s) \<Longrightarrow> o_stops s ! k = StopTask i \<Longrightarrow> o_tasks s ! i = LoopEnded \<Longrightarrow> orch_inv s'"
    and "s' = stop_resume k r s \<Longrightarrow> k < length (o_stops s) \<Longrightarrow> o_stops s ! k = StopDiscovery \<Longrightarrow> orch_inv s'"
proof -
  have ok: "live_ok s" "calls_ok s" "handled_ok s" using inv by (simp_all add: orch_inv_def)
  have one: "o_stops s = [o_stops s ! k] \<and> k = 0 \<and> o_starts s = 0" if "k < length (o_stops s)"
    using that ok(2) by (cases "o_stops s") (auto simp: calls_ok_def)
  show "s' = start_call s \<Longrightarrow> orch_inv s'"
    using ok calls by (auto simp: orch_inv_def start_call_def live_ok_def calls_ok_def handled_ok_def)
  show "s' = start_resume r s \<Longrightarrow> 0 < o_starts s \<Longrightarrow> orch_inv s'"
  proof -
    assume a: "s' = start_resume r s" "0 < o_starts s"
    then have "o_starts s = 1 \<and> o_stops s = []" using ok(2) by (cases "o_stops s") (auto simp: calls_ok_def)
    then show ?thesis using a ok by (cases r) (auto simp: orch_inv_def start_resume_def live_ok_def calls_ok_def handled_ok_def nth_append)
  qed
  show "s' = stop_call s \<Longrightarrow> orch_inv s'"
    using ok calls by (auto simp: orch_inv_def stop_call_def live_ok_def calls_ok_def handled_ok_def)
  show "s' = stop_joined k s \<Longrightarrow> k < length (o_stops s) \<Longrightarrow> o_stops s ! k = StopTask i \<Longrightarrow> o_tasks s ! i = LoopEnded \<Longrightarrow> orch_inv s'"
  proof -
    assume a: "s' = stop_joined k s" "k < length (o_stops s)" "o_stops s ! k = StopTask i" "o_tasks s ! i = LoopEnded"
    then have "o_stops s = [StopTask i]" "o_starts s = 0" "Suc i = length (o_tasks s)" "k = 0"
      using one ok(2) by (auto simp: calls_ok_def)
    moreover have "\<forall>j < length (o_tasks s). o_tasks s ! j = LoopEnded"
      using live_task [OF ok(1)] calculation(3) a(4) by (metis nat.inject)
    ultimately show ?thesis using a ok by (auto simp: orch_inv_def stop_joined_def live_ok_def calls_ok_def handled_ok_def)
  qed
  show "s' = stop_resume k r s \<Longrightarrow> k < length (o_stops s) \<Longrightarrow> o_stops s ! k = StopDiscovery \<Longrightarrow> orch_inv s'"
  proof -
    assume a: "s' = stop_resume k r s" "k < length (o_stops s)" "o_stops s ! k = StopDiscovery"
    then have "o_stops s = [StopDiscovery]" "o_starts s = 0" "k = 0" using one by auto
    then show ?thesis using a ok by (cases r) (auto simp: orch_inv_def stop_resume_def live_ok_def calls_ok_def handled_ok_def)
  qed
qed

lemma serial_step_inv: "orch_inv s \<Longrightarrow> serial_step cfg s s' \<Longrightarrow> orch_inv s'"
  unfolding serial_step_def
proof (elim conjE orch_stepE)
  assume inv: "orch_inv s" "o_starts s' + length (o_stops s') \<le> 1"
  note call = call_steps_inv [OF inv]
  show "i < length (o_tasks s) \<Longrightarrow> loop_resume cfg i (o_tasks s ! i) a s = Some s' \<Longrightarrow> orch_inv s'" for i a
    by (rule loop_step_inv [OF inv(1)])
  show "s' = start_call s \<Longrightarrow> orch_inv s'" by (rule call)
  show "s' = start_resume r s \<Longrightarrow> 0 < o_starts s \<Longrightarrow> orch_inv s'" for r by (rule call)
  show "s' = stop_call s \<Longrightarrow> orch_inv s'" by (rule call)
  show "s' = stop_joined k s \<Longrightarrow> k < length (o_stops s) \<Longrightarrow> o_stops s ! k = StopTask i \<Longrightarrow> o_tasks s ! i = LoopEnded \<Longrightarrow> orch_inv s'" for k i
    by (rule call)
  show "s' = stop_resume k r s \<Longrightarrow> k < length (o_stops s) \<Longrightarrow> o_stops s ! k = StopDiscovery \<Longrightarrow> orch_inv s'" for k r by (rule call)
  show "s' = pause s \<Longrightarrow> orch_inv s'"
    using inv by (auto simp: orch_inv_def pause_def live_ok_def calls_ok_def handled_ok_def)
  show "s' = resume s \<Longrightarrow> orch_inv s'"
    using inv by (auto simp: orch_inv_def resume_def live_ok_def calls_ok_def handled_ok_def)
  show "s' = s\<lparr>o_peers := discovery_step e (o_peers s)\<rparr> \<Longrightarrow> orch_inv s'" for e
    using inv discovery.step_inv by (auto simp: orch_inv_def live_ok_def calls_ok_def handled_ok_def)
  show "s' = s\<lparr>o_sessions := st, o_sync := sy\<rparr> \<Longrightarrow> orch_inv s'" for st sy
    using inv by (auto simp: orch_inv_def live_ok_def calls_ok_def handled_ok_def)
qed

interpretation serial: transition_inv "serial_step cfg" orch_inv for cfg
  by unfold_locales (rule serial_step_inv)

lemma mk_orch_inv: "orch_inv (mk_orch sessions sy)"
  by (simp add: mk_orch_def orch_inv_def live_ok_def calls_ok_def handled_ok_def peers_ok_def)

section \<open>The end of the loops\<close>

text \<open>Once the stop event is set a loop only counts down: peers left, then the phase of the current peer, then files left.\<close>

fun loop_rank :: "loop_at \<Rightarrow> nat \<times> nat \<times> nat \<times> nat" where
  "loop_rank (InSession p ps) = (0, length ps, 4, 0)"
| "loop_rank (InFiles p ps) = (0, length ps, 3, 0)"
| "loop_rank (InSync p ps f fs) = (0, length ps, 2, length fs)"
| "loop_rank LoopEnded = (0, 0, 0, 0)"
| "loop_rank Listing = (1, 0, 0, 0)"
| "loop_rank _ = (0, 0, 1, 0)"

definition loop_order :: "(loop_at \<times> loop_at) set" where
  "loop_order = inv_image (less_than <*lex*> less_than <*lex*> less_than <*lex*> less_than) loop_rank"

lemma wf_loop_order: "wf loop_order"
  unfolding loop_order_def by (intro wf_inv_image wf_lex_prod wf_less_than)

lemma next_peer_task:
  "i < length (o_tasks s) \<Longrightarrow> \<exists>pc'. o_tasks (next_peer cfg i ps s) = (o_tasks s)[i := pc'] \<and> pc' \<noteq> LoopEnded \<and> pc' \<noteq> Listing \<and>
     loop_rank pc' \<in> {0} \<times> {length ps - 1} \<times> {1, 3, 4} \<times> {0} \<and> (ps = [] \<longrightarrow> pc' = PollWait)"
  by (cases ps) (auto simp: move_def)

lemma next_file_task:
  "i < length (o_tasks s) \<Longrightarrow> \<exists>pc'. o_tasks (next_file cfg i p ps fs s) = (o_tasks s)[i := pc'] \<and> pc' \<noteq> LoopEnded \<and>
     ((\<exists>f gs. pc' = InSync p ps f gs \<and> length gs < length fs) \<or> (pc', InSync p ps f' []) \<in> loop_order)"
proof (induction fs arbitrary: s)
  case Nil
  let ?s = "if o_state s = SCANNING then s\<lparr>o_state := SYNCING\<rparr> else s"
  have "o_tasks ?s = o_tasks s" by simp
  with Nil obtain pc' where "o_tasks (next_file cfg i p ps [] s) = (o_tasks s)[i := pc']" "pc' \<noteq> LoopEnded" "ps = [] \<longrightarrow> pc' = PollWait"
      "loop_rank pc' \<in> {0} \<times> {length ps - 1} \<times> {1, 3, 4} \<times> {0}"
    using next_peer_task [of i ?s cfg ps] unfolding next_file.simps by metis
  then show ?case by (cases ps) (auto simp: loop_order_def intro!: exI [of _ pc'])
next
  case (Cons f fs)
  then show ?case by (fastforce simp: move_def intro: less_SucI)
qed

lemma loop_order_below:
  assumes "(\<exists>g gs. pc' = InSync p ps g gs \<and> length gs < length fs) \<or> (pc', InSync p ps f []) \<in> loop_order"
  shows "(pc', InFiles p ps) \<in> loop_order" "(pc', InSync p ps f fs) \<in> loop_order"
  using assms by (cases "loop_rank pc'"; auto simp: loop_order_def)+

lemma stopped_loop_descends:
  assumes r: "loop_resume cfg i (o_tasks s ! i) a s = Some s'" and i: "i < length (o_tasks s)" and stop: "o_stop_event s"
  shows "\<exists>pc'. o_tasks s' = (o_tasks s)[i := pc'] \<and> (pc', o_tasks s ! i) \<in> loop_order"
  using r
proof (cases "(cfg, i, o_tasks s ! i, a, s)" rule: loop_resume.cases)
  case (4 cfg' i' s0)
  then show ?thesis using r next_peer_task [OF i, of cfg "new_peers s"] by (auto simp: loop_order_def)
next
  case (7 cfg' i' p ps fs s0)
  let ?s = "s\<lparr>o_stats := (o_stats s)\<lparr>files_processed := int (length fs)\<rparr>\<rparr>" and ?fs = "if oc_sync cfg = None then [] else fs"
  have "i < length (o_tasks ?s)" using i by simp
  from next_file_task [OF this, of cfg p ps ?fs] obtain pc' where pc': "o_tasks (next_file cfg i p ps ?fs ?s) = (o_tasks ?s)[i := pc']"
    "(\<exists>g gs. pc' = InSync p ps g gs \<and> length gs < length ?fs) \<or> (pc', InSync p ps undefined []) \<in> loop_order" by blast
  show ?thesis using 7 r pc'(1) loop_order_below(1) [OF pc'(2)] by (auto simp: files_listed_def)
next
  case (8 cfg' i' p ps f fs io s0)
  have "i < length (o_tasks (file_done cfg io p f s))" using i by simp
  from next_file_task [OF this, of cfg p ps fs f] obtain pc' where
    pc': "o_tasks (next_file cfg i p ps fs (file_done cfg io p f s)) = (o_tasks (file_done cfg io p f s))[i := pc']"
    "(\<exists>g gs. pc' = InSync p ps g gs \<and> length gs < length fs) \<or> (pc', InSync p ps f []) \<in> loop_order" by blast
  show ?thesis using 8 r pc'(1) loop_order_below(2) [OF pc'(2)] by auto
qed (use i stop in \<open>auto simp: loop_head_def end_loop_def fail_loop_def move_def loop_order_def\<close>)

lemma orch_step_task:
  assumes "orch_step cfg s s'" "o_stop_event s" "i < length (o_tasks s)"
  shows "i < length (o_tasks s') \<and> (o_tasks s' ! i = o_tasks s ! i \<or> (o_tasks s' ! i, o_tasks s ! i) \<in> loop_order)"
  using assms(1)
proof cases
  case (step_loop j a)
  then obtain pc' where "o_tasks s' = (o_tasks s)[j := pc']" "(pc', o_tasks s ! j) \<in> loop_order"
    using stopped_loop_descends assms(2) by blast
  then show ?thesis using assms(3) by (cases "j = i") auto
qed (use assms(3) in \<open>auto simp: start_call_def start_resume_def stop_call_def stop_joined_def stop_resume_def pause_def resume_def
    nth_append Let_def split: sum.splits\<close>)

lemma live_loop_resumes: "pc \<noteq> LoopEnded \<Longrightarrow> \<exists>a s'. loop_resume cfg i pc a s = Some s'"
proof (cases pc)
  case (InSession p ps)
  then show ?thesis by (intro exI [of _ "Session 0 (Inl (Py OSError))"]) simp
next
  case (InFiles p ps)
  then show ?thesis by (intro exI [of _ "Files (Inr [])"]) simp
next
  case (InSync p ps f fs)
  then show ?thesis by (intro exI [of _ "Synced undefined"]) simp
qed (auto intro: exI [of _ Resumed])

section \<open>Errors\<close>

lemma next_peer_state [simp]: "o_state (next_peer cfg i ps s) = o_state s"
  by (cases ps) (simp_all add: move_def)

lemma next_file_state: "o_state (next_file cfg i p ps fs s) = o_state s \<or> o_state (next_file cfg i p ps fs s) = SYNCING"
  by (induction fs) (simp_all add: move_def)

lemma loop_resume_ends:
  assumes "loop_resume cfg i (o_tasks s ! i) a s = Some s'" "i < length (o_tasks s)" "o_tasks s' ! i = LoopEnded"
  shows "o_stop_event s \<or> (\<exists>e. a = Files (Inl e))"
  using assms(1)
proof (cases "(cfg, i, o_tasks s ! i, a, s)" rule: loop_resume.cases)
  case (4 cfg' i' s0)
  then show ?thesis using assms next_peer_task [of i s cfg "new_peers s"] by auto
next
  case (7 cfg' i' p ps fs s0)
  let ?s = "s\<lparr>o_stats := (o_stats s)\<lparr>files_processed := int (length fs)\<rparr>\<rparr>"
  show ?thesis using 7 assms next_file_task [of i ?s cfg p ps "if oc_sync cfg = None then [] else fs"]
    by (fastforce simp: files_listed_def)
next
  case (8 cfg' i' p ps f fs io s0)
  then show ?thesis using assms next_file_task [of i "file_done cfg io p f s" cfg p ps fs] by fastforce
qed (use assms in \<open>auto simp: loop_head_def move_def split: if_splits\<close>)

lemma failed_listing:
  "loop_resume cfg i pc (Files (Inl e)) s = Some s' \<Longrightarrow> errors_encountered (o_stats s') = errors_encountered (o_stats s) + 1"
  by (cases pc) (auto simp: fail_loop_def end_loop_def move_def count_error_def)

interpretation status: transition_inv "orch_step cfg" "\<lambda>s. o_state s \<noteq> ERROR" for cfg
proof
  fix s s' assume a: "o_state s \<noteq> ERROR" "orch_step cfg s s'"
  from a(2) show "o_state s' \<noteq> ERROR"
  proof cases
    case (step_loop i b)
    then obtain pc' where "if pc' = LoopEnded then o_state s' = IDLE else o_state s' = o_state s \<or> o_state s' = SYNCING"
      using loop_resume_moves unfolding loop_moves_def by blast
    then show ?thesis using a(1) by (auto split: if_splits)
  qed (use a(1) in \<open>auto simp: start_call_def start_resume_def stop_call_def stop_joined_def stop_resume_def pause_def resume_def
    Let_def split: sum.splits\<close>)
qed

section \<open>Properties\<close>

text \<open>
  C30: With callers that wait for each \<^verbatim>\<open>start\<close> and \<^verbatim>\<open>stop\<close> to return, at most one sync loop is alive, the state is not
  idle while it is, no device is ever handled twice, and when \<^verbatim>\<open>stop\<close> returns no loop is alive and the orchestrator
  is idle.
\<close>

theorem orchestrator_one_loop:
  assumes "(serial_step cfg)\<^sup>*\<^sup>* (mk_orch sessions sy) s"
  shows "(\<forall>i j. i < length (o_tasks s) \<and> j < length (o_tasks s) \<and> o_tasks s ! i \<noteq> LoopEnded \<and> o_tasks s ! j \<noteq> LoopEnded \<longrightarrow>
      i = j \<and> o_state s \<noteq> IDLE) \<and> distinct (o_handled s) \<and>
    (\<forall>k. k < length (o_stops s) \<and> o_stops s ! k = StopDiscovery \<longrightarrow>
      o_state (stop_resume k (Inr ()) s) = IDLE \<and> list_all (\<lambda>pc. pc = LoopEnded) (o_tasks (stop_resume k (Inr ()) s)))"
proof -
  have "orch_inv s" using serial.reach_inv [OF assms] mk_orch_inv by blast
  then have ok: "live_ok s" "handled_ok s" by (simp_all add: orch_inv_def)
  have "i = j \<and> o_state s \<noteq> IDLE"
    if "i < length (o_tasks s)" "j < length (o_tasks s)" "o_tasks s ! i \<noteq> LoopEnded" "o_tasks s ! j \<noteq> LoopEnded" for i j
    using that live_task [OF ok(1)] by (metis nat.inject)
  moreover have "list_all (\<lambda>pc. pc = LoopEnded) (o_tasks s)" if "k < length (o_stops s)" "o_stops s ! k = StopDiscovery" for k
    using live_task [OF ok(1)] that nth_mem [of k "o_stops s"] by (auto simp: list_all_length)
  ultimately show ?thesis using ok(2) by (auto simp: handled_ok_def stop_resume_def Let_def)
qed

theorem orchestrator_one_loop_witness:
  "\<exists>s. s = start_resume (Inr ()) (start_call (mk_orch mk_SessionStore \<lparr>ss_fs = Map.empty, ss_repo = [], ss_sent = []\<rparr>)) \<and>
    o_tasks s = [LoopTop] \<and> o_state s \<noteq> IDLE \<and> distinct (o_handled s)"
proof -
  let ?m = "mk_orch mk_SessionStore \<lparr>ss_fs = Map.empty, ss_repo = [], ss_sent = []\<rparr>"
  let ?c = "start_call ?m" and ?cfg = "\<lparr>oc_coordinator = True, oc_sync = None\<rparr>"
  have "serial_step ?cfg ?m ?c" by (simp add: serial_step_def step_start) (simp add: start_call_def mk_orch_def)
  moreover have "serial_step ?cfg ?c (start_resume (Inr ()) ?c)"
    by (simp add: serial_step_def, rule conjI, rule step_started) (simp_all add: start_call_def mk_orch_def start_resume_def)
  ultimately have r: "(serial_step ?cfg)\<^sup>*\<^sup>* ?m (start_resume (Inr ()) ?c)" by (rule converse_rtranclp_into_rtranclp [OF _ r_into_rtranclp])
  have t: "o_tasks (start_resume (Inr ()) ?c) = [LoopTop]" by (simp add: start_resume_def start_call_def mk_orch_def)
  from orchestrator_one_loop [OF r] t show ?thesis by auto
qed

text \<open>
  C31: A stopped orchestrator comes to rest. In any run in which the stop event stays set, whatever else
  happens in between, every sync loop makes finitely many steps; and a loop that has not ended can always make one, so it
  ends once it is scheduled often enough.
\<close>

theorem stopped_loops_end:
  assumes "\<And>n. orch_step cfg (f n) (f (Suc n))" "\<And>n. o_stop_event (f n)" "i < length (o_tasks (f 0))"
  shows "(\<exists>n. \<forall>m \<ge> n. o_tasks (f m) ! i = o_tasks (f n) ! i) \<and>
    (\<forall>n. o_tasks (f n) ! i \<noteq> LoopEnded \<longrightarrow> (\<exists>a s'. loop_resume cfg i (o_tasks (f n) ! i) a (f n) = Some s' \<and>
       orch_step cfg (f n) s' \<and> (o_tasks s' ! i, o_tasks (f n) ! i) \<in> loop_order))"
proof -
  have len: "i < length (o_tasks (f n))" for n
    by (induction n) (use assms orch_step_task in blast)+
  have "\<exists>n. \<forall>m \<ge> n. o_tasks (f m) ! i = o_tasks (f n) ! i"
    using orch_step_task [OF assms(1,2) len] by (intro wf_settles [OF wf_loop_order]) blast
  moreover have "\<exists>a s'. loop_resume cfg i (o_tasks (f n) ! i) a (f n) = Some s' \<and> orch_step cfg (f n) s' \<and>
      (o_tasks s' ! i, o_tasks (f n) ! i) \<in> loop_order" if "o_tasks (f n) ! i \<noteq> LoopEnded" for n
    using live_loop_resumes [OF that] stopped_loop_descends [OF _ len assms(2)] len by (metis step_loop nth_list_update_eq)
  ultimately show ?thesis by blast
qed

theorem stopped_loops_end_witness:
  "\<exists>cfg f. (\<forall>n. orch_step cfg (f n) (f (Suc n))) \<and> o_tasks (f 0) = [LoopTop] \<and>
    (\<exists>n. \<forall>m \<ge> n. o_tasks (f m) ! 0 = o_tasks (f n) ! 0)"
proof -
  let ?cfg = "\<lparr>oc_coordinator = True, oc_sync = None\<rparr>"
  let ?s = "(mk_orch mk_SessionStore \<lparr>ss_fs = Map.empty, ss_repo = [], ss_sent = []\<rparr>)\<lparr>o_tasks := [LoopTop], o_stop_event := True\<rparr>"
  define f where "f n = (if n = 0 then ?s else loop_head 0 ?s)" for n :: nat
  have "orch_step ?cfg s s" for s using step_others [where cfg = ?cfg and s = s and st = "o_sessions s" and sy = "o_sync s"] by simp
  moreover have "orch_step ?cfg ?s (loop_head 0 ?s)" by (rule step_loop [of 0 _ _ Resumed]) simp_all
  ultimately have st: "orch_step ?cfg (f n) (f (Suc n))" for n by (simp add: f_def)
  have ev: "o_stop_event (f n)" for n by (simp add: f_def loop_head_def end_loop_def move_def)
  have "o_tasks (f 0) = [LoopTop]" by (simp add: f_def)
  then show ?thesis using stopped_loops_end [of ?cfg f 0, OF st ev] st by (intro exI [of _ ?cfg] exI [of _ f]) auto
qed

text \<open>
  C32: Errors at a peer do not end the loop and the error state is never seen. A sync loop ends only when the
  stop event is set or listing the local files raises; then the error is counted and the state is idle again at once,
  so that no reachable state has the status \<^verbatim>\<open>ERROR\<close>.
\<close>

theorem loop_errors:
  "((orch_step cfg)\<^sup>*\<^sup>* (mk_orch sessions sy) s \<longrightarrow> o_state s \<noteq> ERROR) \<and>
   (i < length (o_tasks s) \<and> loop_resume cfg i (o_tasks s ! i) a s = Some s' \<and> o_tasks s' ! i = LoopEnded \<longrightarrow>
      o_state s' = IDLE \<and> (o_stop_event s \<or> (\<exists>e. a = Files (Inl e)) \<and>
        errors_encountered (o_stats s') = errors_encountered (o_stats s) + 1))"
proof (intro conjI impI)
  show "o_state s \<noteq> ERROR" if "(orch_step cfg)\<^sup>*\<^sup>* (mk_orch sessions sy) s"
    using status.reach_inv [OF that] by (simp add: mk_orch_def)
  assume a: "i < length (o_tasks s) \<and> loop_resume cfg i (o_tasks s ! i) a s = Some s' \<and> o_tasks s' ! i = LoopEnded"
  obtain pc' where "o_tasks s' = (o_tasks s)[i := pc']" "if pc' = LoopEnded then o_state s' = IDLE else o_state s' = o_state s \<or> o_state s' = SYNCING"
    using a loop_resume_moves unfolding loop_moves_def by blast
  then show "o_state s' = IDLE" using a by (auto split: if_splits)
  show "o_stop_event s \<or> (\<exists>e. a = Files (Inl e)) \<and> errors_encountered (o_stats s') = errors_encountered (o_stats s) + 1"
    using a loop_resume_ends [of cfg i s a s'] failed_listing [of cfg i "o_tasks s ! i" _ s s'] by blast
qed

theorem loop_errors_witness:
  "\<exists>s s'. loop_resume \<lparr>oc_coordinator = True, oc_sync = None\<rparr> 0 (o_tasks s ! 0) (Files (Inl (Py OSError))) s = Some s' \<and>
    o_state s' = IDLE \<and> errors_encountered (o_stats s') = errors_encountered (o_stats s) + 1"
proof -
  let ?s = "mk_orch mk_SessionStore \<lparr>ss_fs = Map.empty, ss_repo = [], ss_sent = []\<rparr>"
  let ?t = "?s\<lparr>o_tasks := [InFiles undefined []]\<rparr>" and ?cfg = "\<lparr>oc_coordinator = True, oc_sync = None\<rparr>"
  have r: "loop_resume ?cfg 0 (o_tasks ?t ! 0) (Files (Inl (Py OSError))) ?t = Some (fail_loop 0 ?t)" by simp
  moreover have "o_tasks (fail_loop 0 ?t) ! 0 = LoopEnded" "\<not> o_stop_event ?t"
    by (simp_all add: fail_loop_def end_loop_def move_def mk_orch_def)
  ultimately have "o_state (fail_loop 0 ?t) = IDLE \<and> errors_encountered (o_stats (fail_loop 0 ?t)) = errors_encountered (o_stats ?t) + 1"
    using loop_errors [of ?cfg mk_SessionStore "\<lparr>ss_fs = Map.empty, ss_repo = [], ss_sent = []\<rparr>" ?t 0 "Files (Inl (Py OSError))" "fail_loop 0 ?t"]
    by simp
  then show ?thesis using r by blast
qed

text \<open>
  Restarting too early leaves two loops. If \<^verbatim>\<open>stop\<close> is called while \<^verbatim>\<open>start\<close> waits for the discovery service and
  \<^verbatim>\<open>start\<close> is called again when both have returned, two sync loops are alive, and \<^verbatim>\<open>_sync_task\<close> knows only one of them.
\<close>

theorem restart_leaves_two_loops:
  "\<exists>s. (orch_step cfg)\<^sup>*\<^sup>* (mk_orch sessions sy) s \<and> o_tasks s = [LoopTop, LoopTop] \<and> o_stops s = [] \<and> o_starts s = 0 \<and>
    \<not> o_stop_event s"
proof -
  let ?s1 = "start_call (mk_orch sessions sy)"
  let ?s2 = "stop_call ?s1"
  let ?s3 = "start_resume (Inr ()) ?s2"
  let ?s4 = "stop_resume 0 (Inr ()) ?s3"
  let ?s5 = "start_call ?s4"
  let ?s6 = "start_resume (Inr ()) ?s5"
  note defs = mk_orch_def start_call_def stop_call_def start_resume_def stop_resume_def
  have s: "orch_step cfg (mk_orch sessions sy) ?s1" "orch_step cfg ?s1 ?s2" "orch_step cfg ?s4 ?s5" by (rule step_start step_stop)+
  have s3: "orch_step cfg ?s2 ?s3" by (rule step_started) (simp add: defs)
  have s4: "orch_step cfg ?s3 ?s4" by (rule step_stopped) (simp_all add: defs)
  have s6: "orch_step cfg ?s5 ?s6" by (rule step_started) (simp add: defs)
  note chain = rtranclp.rtrancl_into_rtrancl
  have "(orch_step cfg)\<^sup>*\<^sup>* (mk_orch sessions sy) ?s6"
    by (rule chain [OF chain [OF chain [OF chain [OF chain [OF r_into_rtranclp [of "orch_step cfg", OF s(1)] s(2)] s3] s4] s(3)] s6])
  moreover have "o_tasks ?s6 = [LoopTop, LoopTop]" "o_stops ?s6 = []" "o_starts ?s6 = 0" "\<not> o_stop_event ?s6"
    by (simp_all add: defs)
  ultimately show ?thesis by blast
qed

end
