(* ===== verification/Metadata_Store.thy ===== *)
theory Metadata_Store
  imports Receive_Push Chunk_Repository
begin

text \<open>
  \<^verbatim>\<open>metadata/sqlite_metadata_repository.py\<close>: file metadata in two SQL tables. The statements of the source are operations
  on tables of rows: \<^verbatim>\<open>db_view\<close> is what the connection sees, \<^verbatim>\<open>db_committed\<close> what the last commit made durable, and a
  statement that changes rows opens a transaction. Texts and numbers are bound as SQLite binds them: a text must be
  valid Unicode, a number must fit 64 bits. \<^verbatim>\<open>json\<close> and the ISO format of datetimes are parameters. The connection is open
  and one call runs at a time.
\<close>

record meta_codec =
  mc_dumps :: "(pystr, int) dict \<Rightarrow> pystr"
  mc_loads :: "pystr \<Rightarrow> (pystr, int) dict result"
  mc_isoformat :: "int \<Rightarrow> pystr"
  mc_fromisoformat :: "pystr \<Rightarrow> int result"

section \<open>Tables\<close>

record file_row =
  fr_path :: pystr
  fr_version :: pystr
  fr_modified :: pystr
  fr_deleted :: int

record chunk_row =
  kr_path :: pystr
  kr_chunk_id :: pystr
  kr_index :: int
  kr_size :: int
  kr_offset :: int
  kr_algo :: "pystr option"
  kr_value :: "pystr option"

record tables =
  tb_files :: "file_row list"
  tb_chunks :: "chunk_row list"

record meta_db =
  db_view :: tables
  db_committed :: tables
  db_in_transaction :: bool

definition init_db :: meta_db where
  "init_db = \<lparr>db_view = \<lparr>tb_files = [], tb_chunks = []\<rparr>, db_committed = \<lparr>tb_files = [], tb_chunks = []\<rparr>, db_in_transaction = False\<rparr>"

definition bind_text :: "pystr \<Rightarrow> pystr result" where
  "bind_text s = rbind (utf8_encode s) (\<lambda>_. Inr s)"

definition bind_int :: "int \<Rightarrow> int result" where
  "bind_int n = raise_if (n < - (2 ^ 63) \<or> n \<ge> 2 ^ 63) (Py OverflowError) (Inr n)"

section \<open>Statements\<close>

text \<open>\<^verbatim>\<open>DELETE FROM files WHERE file_path = ?\<close>, with the cascade to the chunks.\<close>

definition delete_file :: "pystr \<Rightarrow> tables \<Rightarrow> tables" where
  "delete_file p tb =
     (if p \<in> fr_path ` set (tb_files tb)
      then tb\<lparr>tb_files := filter (\<lambda>r. fr_path r \<noteq> p) (tb_files tb), tb_chunks := filter (\<lambda>k. kr_path k \<noteq> p) (tb_chunks tb)\<rparr>
      else tb)"

text \<open>\<^verbatim>\<open>INSERT OR REPLACE INTO files\<close>: a row with the same primary key is deleted first.\<close>

definition replace_file :: "file_row \<Rightarrow> tables \<Rightarrow> tables" where
  "replace_file row tb = (let tb1 = delete_file (fr_path row) tb in tb1\<lparr>tb_files := tb_files tb1 @ [row]\<rparr>)"

definition delete_chunks :: "pystr \<Rightarrow> tables \<Rightarrow> tables" where
  "delete_chunks p tb = tb\<lparr>tb_chunks := filter (\<lambda>k. kr_path k \<noteq> p) (tb_chunks tb)\<rparr>"

definition insert_chunk :: "chunk_row \<Rightarrow> tables \<Rightarrow> tables" where
  "insert_chunk row tb = tb\<lparr>tb_chunks := tb_chunks tb @ [row]\<rparr>"

section \<open>Operations\<close>

definition file_row_of :: "meta_codec \<Rightarrow> file_metadata \<Rightarrow> file_row result" where
  "file_row_of mc m =
     rbind (bind_text (fm_path m)) (\<lambda>p.
     Inr \<lparr>fr_path = p, fr_version = mc_dumps mc (counters (fm_version_vector m)),
          fr_modified = mc_isoformat mc (fm_last_modified m), fr_deleted = (if fm_is_deleted m then 1 else 0)\<rparr>)"

definition chunk_row_of :: "pystr \<Rightarrow> chunk_metadata \<Rightarrow> chunk_row result" where
  "chunk_row_of path c =
     rbind (bind_text path) (\<lambda>p. rbind (bind_text (chunk_id c)) (\<lambda>cid.
     rbind (bind_int (cm_index c)) (\<lambda>i. rbind (bind_int (cm_size c)) (\<lambda>n. rbind (bind_int (cm_offset c)) (\<lambda>off.
     rbind (case cm_hash c of None \<Rightarrow> Inr None | Some h \<Rightarrow> rbind (bind_text (digest h)) (\<lambda>d. Inr (Some d))) (\<lambda>v.
     Inr \<lparr>kr_path = p, kr_chunk_id = cid, kr_index = i, kr_size = n, kr_offset = off,
          kr_algo = map_option (\<lambda>h. algorithm_value (algorithm h)) (cm_hash c), kr_value = v\<rparr>))))))"

fun insert_chunks :: "pystr \<Rightarrow> chunk_metadata list \<Rightarrow> tables \<Rightarrow> unit result \<times> tables" where
  "insert_chunks path [] tb = (Inr (), tb)"
| "insert_chunks path (c # cs) tb =
     (case chunk_row_of path c of
        Inl e \<Rightarrow> (Inl e, tb)
      | Inr row \<Rightarrow> insert_chunks path cs (insert_chunk row tb))"

definition db_commit :: "meta_db \<Rightarrow> meta_db" where
  "db_commit db = db\<lparr>db_committed := db_view db, db_in_transaction := False\<rparr>"

definition db_rollback :: "meta_db \<Rightarrow> meta_db" where
  "db_rollback db = db\<lparr>db_view := db_committed db, db_in_transaction := False\<rparr>"

definition db_begin_transaction :: "meta_db \<Rightarrow> unit result \<times> meta_db" where
  "db_begin_transaction db =
     (if db_in_transaction db then (Inl (Py OperationalError), db) else (Inr (), db\<lparr>db_in_transaction := True\<rparr>))"

definition db_save :: "meta_codec \<Rightarrow> file_metadata \<Rightarrow> meta_db \<Rightarrow> unit result \<times> meta_db" where
  "db_save mc m db =
     (case file_row_of mc m of
        Inl e \<Rightarrow> (Inl e, db\<lparr>db_in_transaction := True\<rparr>)
      | Inr row \<Rightarrow>
          (case insert_chunks (fm_path m) (fm_chunks m) (delete_chunks (fm_path m) (replace_file row (db_view db))) of
             (Inl e, tb) \<Rightarrow> (Inl e, db\<lparr>db_view := tb, db_in_transaction := True\<rparr>)
           | (Inr _, tb) \<Rightarrow> (Inr (), db_commit (db\<lparr>db_view := tb, db_in_transaction := True\<rparr>))))"

text \<open>
  What is read back. The column's text is passed to \<^verbatim>\<open>ChunkHash\<close> as it is, so the hash of a loaded chunk has the plain
  text \<^verbatim>\<open>sha256\<close> where a computed one has the enumeration member: the two are equal for Python (the enumeration
  is one of texts), but the text has no \<^verbatim>\<open>value\<close>, which the constructor's last message and \<^verbatim>\<open>str\<close> of the hash ask for.
\<close>

record stored_hash =
  sh_algorithm :: pystr
  sh_digest :: pystr

record stored_chunk =
  sc_chunk_id :: pystr
  sc_index :: int
  sc_size :: int
  sc_offset :: int
  sc_hash :: "stored_hash option"
  sc_created_at :: int

record stored_metadata =
  sm_path :: pystr
  sm_version_vector :: version_vector
  sm_last_modified :: int
  sm_is_deleted :: bool
  sm_chunks :: "stored_chunk list"

definition hash_of_columns :: "pystr option \<Rightarrow> pystr option \<Rightarrow> stored_hash option result" where
  "hash_of_columns algo val =
     (case (algo, val) of
        (Some a, Some v) \<Rightarrow>
          if a = [] \<or> v = [] then Inr None
          else raise_if (\<not> int16_ok v) (Py ValueError)
              (raise_if (a \<noteq> algorithm_value SHA256) (Py KeyError)
              (raise_if (length v \<noteq> DIGEST_HEX_LENGTH SHA256) (Py AttributeError)
              (Inr (Some \<lparr>sh_algorithm = a, sh_digest = v\<rparr>))))
      | _ \<Rightarrow> Inr None)"

text \<open>The checks of \<^verbatim>\<open>ChunkMetadata\<close> do not look at the hash.\<close>

definition chunk_of_row :: "(int \<Rightarrow> int) \<Rightarrow> chunk_row \<Rightarrow> stored_chunk result" where
  "chunk_of_row clk r =
     rbind (hash_of_columns (kr_algo r) (kr_value r)) (\<lambda>h.
     rbind (mk_ChunkMetadata (kr_chunk_id r) (kr_index r) (kr_size r) (kr_offset r) None (clk (kr_index r))) (\<lambda>m.
     Inr \<lparr>sc_chunk_id = chunk_id m, sc_index = cm_index m, sc_size = cm_size m, sc_offset = cm_offset m,
          sc_hash = h, sc_created_at = created_at m\<rparr>))"

text \<open>\<open>clk\<close> is the clock read for each chunk; \<^verbatim>\<open>ORDER BY chunk_index\<close> is a stable sort of the rows.\<close>

definition db_get :: "meta_codec \<Rightarrow> (int \<Rightarrow> int) \<Rightarrow> meta_db \<Rightarrow> pystr \<Rightarrow> stored_metadata option result" where
  "db_get mc clk db path =
     rbind (bind_text path) (\<lambda>p.
     case find (\<lambda>r. fr_path r = p) (tb_files (db_view db)) of
       None \<Rightarrow> Inr None
     | Some r \<Rightarrow>
         rbind (mc_loads mc (fr_version r)) (\<lambda>cs.
         rbind (mc_fromisoformat mc (fr_modified r)) (\<lambda>t.
         rbind (rmap (chunk_of_row clk) (sort_key kr_index (filter (\<lambda>k. kr_path k = p) (tb_chunks (db_view db))))) (\<lambda>chunks.
         Inr (Some \<lparr>sm_path = path, sm_version_vector = \<lparr>counters = cs\<rparr>, sm_last_modified = t,
           sm_is_deleted = (fr_deleted r \<noteq> 0), sm_chunks = chunks\<rparr>)))))"

definition db_list_all_files :: "meta_codec \<Rightarrow> (int \<Rightarrow> int) \<Rightarrow> meta_db \<Rightarrow> stored_metadata list result" where
  "db_list_all_files mc clk db =
     rbind (rmap (\<lambda>r. db_get mc clk db (fr_path r)) (tb_files (db_view db))) (\<lambda>ms. Inr (List.map_filter id ms))"

definition db_delete :: "pystr \<Rightarrow> meta_db \<Rightarrow> unit result \<times> meta_db" where
  "db_delete path db =
     (case bind_text path of
        Inl e \<Rightarrow> (Inl e, db\<lparr>db_in_transaction := True\<rparr>)
      | Inr p \<Rightarrow> (Inr (), db_commit (db\<lparr>db_view := delete_file p (db_view db)\<rparr>)))"

section \<open>Invariant\<close>

definition tables_ok :: "tables \<Rightarrow> bool" where
  "tables_ok tb \<longleftrightarrow> distinct (map fr_path (tb_files tb)) \<and> kr_path ` set (tb_chunks tb) \<subseteq> fr_path ` set (tb_files tb)"

definition db_inv :: "meta_db \<Rightarrow> bool" where
  "db_inv db \<longleftrightarrow> tables_ok (db_view db) \<and> tables_ok (db_committed db) \<and> (\<not> db_in_transaction db \<longrightarrow> db_view db = db_committed db)"

lemma bind_text_eq_Inr [result_simps]: "bind_text s = Inr x \<longleftrightarrow> x = s \<and> (\<exists>b. utf8_encode s = Inr b)"
  by (auto simp: bind_text_def rbind_eq_Inr)

lemma bind_int_eq_Inr [result_simps]: "bind_int n = Inr x \<longleftrightarrow> x = n \<and> - (2 ^ 63) \<le> n \<and> n < 2 ^ 63"
  by (auto simp: bind_int_def result_simps)

lemma delete_file_files [simp]: "tb_files (delete_file p tb) = filter (\<lambda>r. fr_path r \<noteq> p) (tb_files tb)"
  by (auto simp: delete_file_def intro!: filter_True [symmetric])

lemma delete_file_chunks: "tables_ok tb \<Longrightarrow> tb_chunks (delete_file p tb) = filter (\<lambda>k. kr_path k \<noteq> p) (tb_chunks tb)"
  by (auto simp: delete_file_def tables_ok_def intro!: filter_True [symmetric])

lemma replaced_files [simp]: "tb_files (delete_chunks p (replace_file row tb)) = filter (\<lambda>r. fr_path r \<noteq> fr_path row) (tb_files tb) @ [row]"
  by (simp add: delete_chunks_def replace_file_def Let_def)

lemma replaced_chunks: "tb_chunks (delete_chunks (fr_path row) (replace_file row tb)) = filter (\<lambda>k. kr_path k \<noteq> fr_path row) (tb_chunks tb)"
  by (simp add: delete_chunks_def replace_file_def delete_file_def Let_def)

text \<open>The chunks inserted are a prefix of those given, all of them when no exception is raised.\<close>

lemma insert_chunks_prefix:
  assumes "insert_chunks p cs tb = (r, tb')"
  shows "\<exists>n rows. n \<le> length cs \<and> rmap (chunk_row_of p) (take n cs) = Inr rows \<and> tb' = tb\<lparr>tb_chunks := tb_chunks tb @ rows\<rparr> \<and>
    (case r of Inr _ \<Rightarrow> n = length cs | Inl e \<Rightarrow> n < length cs \<and> chunk_row_of p (cs ! n) = Inl e)"
  using assms
proof (induction cs arbitrary: tb)
  case Nil
  then show ?case by (intro exI [of _ 0] exI [of _ "[]"]) auto
next
  case (Cons c cs)
  show ?case
  proof (cases "chunk_row_of p c")
    case (Inl e)
    then show ?thesis using Cons.prems by (intro exI [of _ 0] exI [of _ "[]"]) auto
  next
    case (Inr row)
    then have "insert_chunks p cs (insert_chunk row tb) = (r, tb')" using Cons.prems by simp
    from Cons.IH [OF this] obtain n rows where n: "n \<le> length cs" "rmap (chunk_row_of p) (take n cs) = Inr rows"
        "tb' = (insert_chunk row tb)\<lparr>tb_chunks := tb_chunks (insert_chunk row tb) @ rows\<rparr>"
        "case r of Inr _ \<Rightarrow> n = length cs | Inl e \<Rightarrow> n < length cs \<and> chunk_row_of p (cs ! n) = Inl e" by blast
    then show ?thesis
      using Inr by (intro exI [of _ "Suc n"] exI [of _ "row # rows"]) (auto simp: insert_chunk_def split: sum.splits)
  qed
qed

text \<open>What a saved chunk and saved metadata are read back as: everything but the algorithm's type and the creation times.\<close>

definition stored_form :: "(int \<Rightarrow> int) \<Rightarrow> chunk_metadata \<Rightarrow> stored_chunk" where
  "stored_form clk c =
     \<lparr>sc_chunk_id = chunk_id c, sc_index = cm_index c, sc_size = cm_size c, sc_offset = cm_offset c,
      sc_hash = map_option (\<lambda>h. \<lparr>sh_algorithm = algorithm_value (algorithm h), sh_digest = digest h\<rparr>) (cm_hash c),
      sc_created_at = clk (cm_index c)\<rparr>"

definition stored_as :: "(int \<Rightarrow> int) \<Rightarrow> chunk_metadata list \<Rightarrow> file_metadata \<Rightarrow> stored_metadata" where
  "stored_as clk cs m =
     \<lparr>sm_path = fm_path m, sm_version_vector = fm_version_vector m, sm_last_modified = fm_last_modified m,
      sm_is_deleted = fm_is_deleted m, sm_chunks = map (stored_form clk) cs\<rparr>"

lemma chunk_row_round_trip:
  assumes "chunk_row_of p c = Inr row" "wf_metadata c" "\<And>h. cm_hash c = Some h \<Longrightarrow> wf_hash h"
  shows "chunk_of_row clk row = Inr (stored_form clk c) \<and> kr_path row = p \<and> kr_index row = cm_index c"
proof -
  have r: "kr_path row = p" "kr_chunk_id row = chunk_id c" "kr_index row = cm_index c" "kr_size row = cm_size c" "kr_offset row = cm_offset c"
    "kr_algo row = map_option (\<lambda>h. algorithm_value (algorithm h)) (cm_hash c)" "kr_value row = map_option digest (cm_hash c)"
    using assms(1) by (auto simp: chunk_row_of_def result_simps split: option.splits)
  have "hash_of_columns (kr_algo row) (kr_value row) =
      Inr (map_option (\<lambda>h. \<lparr>sh_algorithm = algorithm_value (algorithm h), sh_digest = digest h\<rparr>) (cm_hash c))"
  proof (cases "cm_hash c")
    case (Some h)
    then have "wf_hash h" by (rule assms(3))
    then have h: "int16_ok (digest h)" "length (digest h) = 64" "digest h \<noteq> []" by (cases "algorithm h"; auto simp: wf_hash_def)+
    then show ?thesis using Some
      by (cases "algorithm h") (auto simp: hash_of_columns_def r codes_def raise_if_def)
  qed (simp add: hash_of_columns_def r)
  then show ?thesis
    using assms(2) by (auto simp: chunk_of_row_def r stored_form_def mk_ChunkMetadata_def wf_metadata_def)
qed

lemma rows_round_trip:
  assumes "rmap (chunk_row_of p) cs = Inr rows" "list_all (\<lambda>c. wf_metadata c \<and> (\<forall>h. cm_hash c = Some h \<longrightarrow> wf_hash h)) cs"
  shows "rmap (chunk_of_row clk) rows = Inr (map (stored_form clk) cs) \<and> map kr_index rows = map cm_index cs \<and> list_all (\<lambda>k. kr_path k = p) rows"
  using assms
proof (induction cs arbitrary: rows)
  case (Cons c cs)
  then obtain row rest where r: "chunk_row_of p c = Inr row" "rmap (chunk_row_of p) cs = Inr rest" "rows = row # rest"
    by (auto simp: rbind_eq_Inr)
  have "wf_metadata c" "\<And>h. cm_hash c = Some h \<Longrightarrow> wf_hash h" using Cons.prems(2) by simp_all
  from chunk_row_round_trip [OF r(1) this, of clk] show ?case using Cons.IH [OF r(2)] Cons.prems(2) r(3) by simp
qed simp

definition meta_ok :: "meta_codec \<Rightarrow> file_metadata \<Rightarrow> bool" where
  "meta_ok mc m \<longleftrightarrow>
     mc_loads mc (mc_dumps mc (counters (fm_version_vector m))) = Inr (counters (fm_version_vector m)) \<and>
     mc_fromisoformat mc (mc_isoformat mc (fm_last_modified m)) = Inr (fm_last_modified m) \<and>
     sorted (map cm_index (fm_chunks m)) \<and>
     list_all (\<lambda>c. wf_metadata c \<and> (\<forall>h. cm_hash c = Some h \<longrightarrow> wf_hash h)) (fm_chunks m)"

lemma find_append_miss: "(\<forall>x \<in> set xs. \<not> P x) \<Longrightarrow> find P (xs @ ys) = find P ys"
  by (induction xs) simp_all

lemma find_append_other: "(\<forall>y \<in> set ys. \<not> P y) \<Longrightarrow> find P (xs @ ys) = find P xs"
  by (induction xs) (simp_all add: find_None_iff)

lemma find_filter_other: "(\<And>x. P x \<Longrightarrow> Q x) \<Longrightarrow> find P (filter Q xs) = find P xs"
  by (induction xs) auto

lemma db_get_cong:
  assumes "find (\<lambda>r. fr_path r = p) (tb_files (db_view db')) = find (\<lambda>r. fr_path r = p) (tb_files (db_view db))"
    and "filter (\<lambda>k. kr_path k = p) (tb_chunks (db_view db')) = filter (\<lambda>k. kr_path k = p) (tb_chunks (db_view db))"
  shows "db_get mc clk db' p = db_get mc clk db p"
proof (cases "bind_text p")
  case (Inr x)
  then have "x = p" by (simp add: bind_text_eq_Inr)
  then show ?thesis unfolding db_get_def Inr rbind_Inr by (simp only: assms)
qed (simp add: db_get_def)

lemma image_filter_other: "f ` set (filter (\<lambda>x. f x \<noteq> p) xs) = f ` set xs - {p}"
  by auto

text \<open>What is read after a save, whether or not it was cut short by an exception.\<close>

lemma get_after_save:
  assumes ok: "meta_ok mc m" and save: "db_save mc m db = (r, db')" and row: "file_row_of mc m = Inr row"
  obtains n where "n \<le> length (fm_chunks m)"
    "case r of Inr _ \<Rightarrow> n = length (fm_chunks m) | Inl e \<Rightarrow> n < length (fm_chunks m) \<and> chunk_row_of (fm_path m) (fm_chunks m ! n) = Inl e"
    "db_get mc clk db' p = (if p = fm_path m then Inr (Some (stored_as clk (take n (fm_chunks m)) m)) else db_get mc clk db p)"
    "db_committed db' = (case r of Inr _ \<Rightarrow> db_view db' | Inl _ \<Rightarrow> db_committed db)"
proof -
  let ?p = "fm_path m"
  let ?tb = "delete_chunks ?p (replace_file row (db_view db))"
  have path: "fr_path row = ?p" "bind_text ?p = Inr ?p" using row by (auto simp: file_row_of_def result_simps)
  obtain r1 tb' where ins: "insert_chunks ?p (fm_chunks m) ?tb = (r1, tb')" by (metis surj_pair)
  have db': "db_view db' = tb'" "r = r1" "db_committed db' = (case r of Inr _ \<Rightarrow> tb' | Inl _ \<Rightarrow> db_committed db)"
    using save row ins by (auto simp: db_save_def db_commit_def split: sum.splits)
  obtain n rows where n: "n \<le> length (fm_chunks m)" "rmap (chunk_row_of ?p) (take n (fm_chunks m)) = Inr rows"
      "tb' = ?tb\<lparr>tb_chunks := tb_chunks ?tb @ rows\<rparr>"
      "case r of Inr _ \<Rightarrow> n = length (fm_chunks m) | Inl e \<Rightarrow> n < length (fm_chunks m) \<and> chunk_row_of ?p (fm_chunks m ! n) = Inl e"
    using insert_chunks_prefix [OF ins] db'(2) by blast
  have "list_all (\<lambda>c. wf_metadata c \<and> (\<forall>h. cm_hash c = Some h \<longrightarrow> wf_hash h)) (take n (fm_chunks m))"
    using ok by (auto simp: meta_ok_def list_all_iff dest: in_set_takeD)
  note rows = rows_round_trip [OF n(2) this, of clk]
  have files: "tb_files tb' = filter (\<lambda>r. fr_path r \<noteq> ?p) (tb_files (db_view db)) @ [row]" using path(1) by (simp add: n(3))
  have chunks: "tb_chunks tb' = filter (\<lambda>k. kr_path k \<noteq> ?p) (tb_chunks (db_view db)) @ rows"
    using replaced_chunks [of row "db_view db"] path(1) by (simp add: n(3))
  have "db_get mc clk db' p = (if p = ?p then Inr (Some (stored_as clk (take n (fm_chunks m)) m)) else db_get mc clk db p)"
  proof (cases "p = ?p")
    case True
    have "sorted (map cm_index (take n (fm_chunks m)))"
      using ok by (simp add: meta_ok_def take_map [symmetric] sorted_wrt_take)
    then have "sort_key kr_index rows = rows" using rows by (intro sort_key_id_if_sorted) simp
    moreover have "filter (\<lambda>k. kr_path k = ?p) (tb_chunks tb') = rows"
      using rows by (simp add: chunks filter_empty_conv list_all_iff filter_True)
    moreover have "find (\<lambda>r. fr_path r = ?p) (tb_files tb') = Some row"
      using path(1) by (simp add: files find_append_miss)
    moreover have "fr_version row = mc_dumps mc (counters (fm_version_vector m))" "fr_modified row = mc_isoformat mc (fm_last_modified m)"
      "(fr_deleted row \<noteq> 0) = fm_is_deleted m" using row by (auto simp: file_row_of_def rbind_eq_Inr split: if_splits)
    ultimately show ?thesis
      using True rows ok path(2) by (simp add: db_get_def db'(1) meta_ok_def stored_as_def)
  next
    case False
    have "find (\<lambda>r. fr_path r = p) (tb_files tb') = find (\<lambda>r. fr_path r = p) (tb_files (db_view db))"
      using False path(1) by (simp add: files find_append_other find_filter_other)
    moreover have "filter (\<lambda>k. kr_path k = p) (tb_chunks tb') = filter (\<lambda>k. kr_path k = p) (tb_chunks (db_view db))"
      using False rows by (auto simp: chunks filter_empty_conv list_all_iff intro: filter_cong)
    ultimately have "db_get mc clk db' p = db_get mc clk db p" by (intro db_get_cong) (simp_all add: db'(1))
    then show ?thesis using False by simp
  qed
  with n(1,4) show thesis by (rule that) (cases r; simp add: db'(1,3))
qed

lemma get_after_delete:
  assumes "tables_ok (db_view db)" "db_delete q db = (Inr (), db')"
  shows "db_get mc clk db' p = (if p = q then Inr None else db_get mc clk db p)"
proof -
  have q: "bind_text q = Inr q" "db_view db' = delete_file q (db_view db)"
    using assms(2) by (auto simp: db_delete_def db_commit_def bind_text_eq_Inr split: sum.splits)
  show ?thesis
  proof (cases "p = q")
    case True
    have "find (\<lambda>r. fr_path r = q) (filter (\<lambda>r. fr_path r \<noteq> q) (tb_files (db_view db))) = None" by (auto simp: find_None_iff)
    then show ?thesis using True q by (simp add: db_get_def)
  next
    case False
    have "find (\<lambda>r. fr_path r = p) (tb_files (db_view db')) = find (\<lambda>r. fr_path r = p) (tb_files (db_view db))"
      using False by (simp add: q(2) find_filter_other)
    moreover have "filter (\<lambda>k. kr_path k = p) (tb_chunks (db_view db')) = filter (\<lambda>k. kr_path k = p) (tb_chunks (db_view db))"
      using False by (auto simp: q(2) delete_file_chunks [OF assms(1)] intro: filter_cong)
    ultimately have "db_get mc clk db' p = db_get mc clk db p" by (rule db_get_cong)
    then show ?thesis using False by simp
  qed
qed

section \<open>Histories\<close>

datatype db_event = Save file_metadata | Delete pystr | BeginTransaction | Commit | Rollback

fun db_step :: "meta_codec \<Rightarrow> db_event \<Rightarrow> meta_db \<Rightarrow> meta_db" where
  "db_step mc (Save m) db = snd (db_save mc m db)"
| "db_step mc (Delete p) db = snd (db_delete p db)"
| "db_step mc BeginTransaction db = snd (db_begin_transaction db)"
| "db_step mc Commit db = db_commit db"
| "db_step mc Rollback db = db_rollback db"

lemma replaced_ok: "tables_ok tb \<Longrightarrow> tables_ok (delete_chunks (fr_path row) (replace_file row tb))"
proof -
  assume ok: "tables_ok tb"
  let ?tb = "delete_chunks (fr_path row) (replace_file row tb)"
  have "distinct (map fr_path (tb_files ?tb))"
    using ok by (auto simp: tables_ok_def distinct_map_filter)
  moreover have "kr_path ` set (tb_chunks ?tb) \<subseteq> fr_path ` set (tb_files ?tb)"
    using ok unfolding replaced_chunks replaced_files set_append image_Un image_filter_other by (auto simp: tables_ok_def)
  ultimately show ?thesis by (simp add: tables_ok_def)
qed

lemma inserted_ok: "tables_ok tb \<Longrightarrow> p \<in> fr_path ` set (tb_files tb) \<Longrightarrow> tables_ok (snd (insert_chunks p cs tb))"
proof (induction cs arbitrary: tb)
  case (Cons c cs)
  show ?case
  proof (cases "chunk_row_of p c")
    case (Inr row)
    then have "kr_path row = p" by (auto simp: chunk_row_of_def result_simps)
    then have "tables_ok (insert_chunk row tb)" using Cons.prems by (simp add: tables_ok_def insert_chunk_def)
    then show ?thesis using Inr Cons.IH [of "insert_chunk row tb"] Cons.prems(2) by (simp add: insert_chunk_def)
  qed (use Cons.prems in simp)
qed simp

lemma deleted_ok: "tables_ok tb \<Longrightarrow> tables_ok (delete_file p tb)"
  unfolding tables_ok_def delete_file_files
  by (subst delete_file_chunks) (simp_all only: tables_ok_def image_filter_other, auto simp: distinct_map_filter)

lemma db_save_inv: "db_inv db \<Longrightarrow> db_inv (snd (db_save mc m db))"
proof (cases "file_row_of mc m")
  case (Inr row)
  assume inv: "db_inv db"
  have path: "fr_path row = fm_path m" using Inr by (auto simp: file_row_of_def result_simps)
  let ?tb = "delete_chunks (fm_path m) (replace_file row (db_view db))"
  have "tables_ok ?tb" using inv replaced_ok [of "db_view db" row] by (simp add: db_inv_def path)
  moreover have "fm_path m \<in> fr_path ` set (tb_files ?tb)" by (simp add: path)
  ultimately have "tables_ok (snd (insert_chunks (fm_path m) (fm_chunks m) ?tb))" by (rule inserted_ok)
  then show ?thesis using inv Inr by (auto simp: db_save_def db_inv_def db_commit_def split: prod.splits sum.splits)
qed (simp add: db_save_def db_inv_def)

interpretation metadata: machine_inv "db_step mc" db_inv for mc
proof
  fix db e assume inv: "db_inv db"
  show "db_inv (db_step mc e db)"
  proof (cases e)
    case (Save m)
    then show ?thesis using db_save_inv [OF inv] by simp
  next
    case (Delete p)
    then show ?thesis
      using inv deleted_ok by (auto simp: db_delete_def db_inv_def db_commit_def split: sum.splits)
  qed (use inv in \<open>auto simp: db_begin_transaction_def db_commit_def db_rollback_def db_inv_def\<close>)
qed

section \<open>Properties\<close>

text \<open>
  C34: The database refines a map from paths to metadata. After any history of operations, a save that returns
  makes a get of its path return the saved metadata and leaves every other path as it was, and it is committed; a delete
  makes a get of its path return nothing and leaves every other path as it was. What is returned differs from what was
  saved in two ways, which \<open>stored_as\<close> spells out: the chunks have fresh creation times, and the algorithm of a hash is
  the plain text of its value. The metadata is one whose version vector and time survive their texts, with valid chunks in
  the order of their indices.
\<close>

theorem metadata_store_refines_map:
  assumes "fold (db_step mc) es init_db = db" "meta_ok mc m"
  shows "(\<forall>db'. db_save mc m db = (Inr (), db') \<longrightarrow> db_committed db' = db_view db' \<and>
      db_get mc clk db' p = (if p = fm_path m then Inr (Some (stored_as clk (fm_chunks m) m)) else db_get mc clk db p)) \<and>
    (\<forall>db'. db_delete q db = (Inr (), db') \<longrightarrow> db_get mc clk db' p = (if p = q then Inr None else db_get mc clk db p))"
proof (intro conjI allI impI)
  have inv: "db_inv db"
    using metadata.run_inv [of init_db mc es] assms(1) by (simp add: db_inv_def init_db_def tables_ok_def)
  show "db_get mc clk db' p = (if p = q then Inr None else db_get mc clk db p)" if "db_delete q db = (Inr (), db')" for db'
    using inv that by (intro get_after_delete) (simp_all add: db_inv_def)
  fix db' assume save: "db_save mc m db = (Inr (), db')"
  then obtain row where row: "file_row_of mc m = Inr row" by (cases "file_row_of mc m") (auto simp: db_save_def)
  show "db_get mc clk db' p = (if p = fm_path m then Inr (Some (stored_as clk (fm_chunks m) m)) else db_get mc clk db p)"
    by (rule get_after_save [OF assms(2) save row, of clk p]) simp
  show "db_committed db' = db_view db'"
    by (rule get_after_save [OF assms(2) save row, of clk p]) simp
qed

text \<open>
  A save that raises half-way leaves its half. If a chunk of the metadata cannot be bound, the
  exception comes after the file's row has been replaced and its old chunks deleted: until a rollback a get returns the new metadata
  with only the chunks before that one, and the next commit of any other call makes this durable.
\<close>

theorem failed_save_is_partial:
  assumes "meta_ok mc m" "bind_text (fm_path m) = Inr (fm_path m)" "db_save mc m db = (Inl e, db')"
  shows "\<exists>n < length (fm_chunks m). chunk_row_of (fm_path m) (fm_chunks m ! n) = Inl e \<and>
    db_get mc clk db' (fm_path m) = Inr (Some (stored_as clk (take n (fm_chunks m)) m)) \<and>
    db_get mc clk (db_commit db') (fm_path m) = db_get mc clk db' (fm_path m) \<and>
    db_committed db' = db_committed db \<and> db_view (db_rollback db') = db_committed db"
proof -
  obtain row where row: "file_row_of mc m = Inr row" using assms(2) by (simp add: file_row_of_def)
  obtain n where n: "n < length (fm_chunks m)"
      "chunk_row_of (fm_path m) (fm_chunks m ! n) = Inl e"
      "db_get mc clk db' (fm_path m) = Inr (Some (stored_as clk (take n (fm_chunks m)) m))"
      "db_committed db' = db_committed db"
    by (rule get_after_save [OF assms(1,3) row, of clk "fm_path m"]) auto
  moreover have "db_get mc clk (db_commit db') (fm_path m) = db_get mc clk db' (fm_path m)"
    by (rule db_get_cong) (simp_all add: db_commit_def)
  ultimately show ?thesis by (auto simp: db_rollback_def)
qed

definition sample_codec :: meta_codec where
  "sample_codec = \<lparr>mc_dumps = (\<lambda>_. []), mc_loads = (\<lambda>_. Inr []), mc_isoformat = (\<lambda>_. []), mc_fromisoformat = (\<lambda>_. Inr 0)\<rparr>"

definition sample_hash :: chunk_hash where
  "sample_hash = \<lparr>algorithm = SHA256, digest = replicate 64 48\<rparr>"

lemma sample_hash_wf: "wf_hash sample_hash"
  unfolding sample_hash_def by code_simp

lemma sample_hash_bound: "bind_text (digest sample_hash) = Inr (digest sample_hash)"
  by (simp add: bind_text_def sample_hash_def utf8_encode_def scalar_def list_all_iff)

definition sample_meta :: "int \<Rightarrow> file_metadata" where
  "sample_meta n = \<lparr>fm_path = [102], fm_version_vector = \<lparr>counters = []\<rparr>, fm_last_modified = 0, fm_is_deleted = False,
     fm_chunks = [\<lparr>chunk_id = [67], cm_index = 0, cm_size = 2, cm_offset = 0,
         cm_hash = Some sample_hash, created_at = 0\<rparr>,
       \<lparr>chunk_id = [68], cm_index = 1, cm_size = n, cm_offset = 2, cm_hash = None, created_at = 0\<rparr>]\<rparr>"

lemma sample_text_bound: "n < 128 \<Longrightarrow> bind_text [n] = Inr [n]"
  by (simp add: bind_text_def utf8_encode_def scalar_def)

lemma sample_meta_ok: "0 \<le> n \<Longrightarrow> meta_ok sample_codec (sample_meta n)"
  by (simp add: meta_ok_def sample_codec_def sample_meta_def wf_metadata_def sample_hash_wf)

theorem metadata_store_refines_map_witness:
  "\<exists>db'. db_save sample_codec (sample_meta 3) init_db = (Inr (), db') \<and>
    db_get sample_codec (\<lambda>_. 9) db' [102] = Inr (Some (stored_as (\<lambda>_. 9) (fm_chunks (sample_meta 3)) (sample_meta 3)))"
proof -
  obtain db' where s: "db_save sample_codec (sample_meta 3) init_db = (Inr (), db')"
    by (simp add: db_save_def file_row_of_def sample_meta_def chunk_row_of_def sample_hash_bound sample_text_bound bind_int_def raise_if_def)
  have "fold (db_step sample_codec) [] init_db = init_db" "meta_ok sample_codec (sample_meta 3)" by (simp_all add: sample_meta_ok)
  from metadata_store_refines_map [OF this, THEN conjunct1, rule_format, OF s, of "\<lambda>_. 9" "[102]"] s
  show ?thesis by (simp add: sample_meta_def)
qed

theorem failed_save_is_partial_witness:
  "\<exists>e db'. db_save sample_codec (sample_meta (2 ^ 63)) init_db = (Inl e, db') \<and>
    (\<exists>n < 2. db_get sample_codec (\<lambda>_. 9) db' [102] =
      Inr (Some (stored_as (\<lambda>_. 9) (take n (fm_chunks (sample_meta (2 ^ 63)))) (sample_meta (2 ^ 63)))))"
proof -
  have b: "bind_text (fm_path (sample_meta (2 ^ 63))) = Inr (fm_path (sample_meta (2 ^ 63)))"
    by (simp add: sample_meta_def bind_text_def utf8_encode_def scalar_def utf8_char_def)
  obtain db' where s: "db_save sample_codec (sample_meta (2 ^ 63)) init_db = (Inl (Py OverflowError), db')"
    by (simp add: db_save_def file_row_of_def sample_meta_def chunk_row_of_def sample_hash_bound sample_text_bound bind_int_def raise_if_def)
  have "meta_ok sample_codec (sample_meta (2 ^ 63))" by (rule sample_meta_ok) simp
  from failed_save_is_partial [OF this b s, of "\<lambda>_. 9"] obtain n where "n < length (fm_chunks (sample_meta (2 ^ 63)))"
      "db_get sample_codec (\<lambda>_. 9) db' (fm_path (sample_meta (2 ^ 63))) =
         Inr (Some (stored_as (\<lambda>_. 9) (take n (fm_chunks (sample_meta (2 ^ 63)))) (sample_meta (2 ^ 63))))"
    by blast
  moreover have "length (fm_chunks (sample_meta k)) = 2" "fm_path (sample_meta k) = [102]" for k by (simp_all add: sample_meta_def)
  ultimately show ?thesis using s by (metis (no_types))
qed

end
