(* ===== verification/Trusted_Peers.thy ===== *)
theory Trusted_Peers
  imports Chunk_Repository
begin

text \<open>
  \<^verbatim>\<open>networking/file_trusted_peer_repository.py\<close>: the pinned identity keys as a JSON file of hexadecimal texts, rewritten as a
  whole for every change. \<^verbatim>\<open>json\<close> (with the decoding and encoding of the text) is a parameter; a lock makes each call atomic.
\<close>

record trust_file =
  tf_path :: pure_path
  tf_dumps :: "mval \<Rightarrow> bytes result"
  tf_loads :: "bytes \<Rightarrow> mval result"

section \<open>Hexadecimal\<close>

definition hex_char :: "nat \<Rightarrow> nat" where
  "hex_char n = (if n < 10 then 48 + n else 87 + n)"

definition bytes_hex :: "bytes \<Rightarrow> pystr" where
  "bytes_hex b = concat (map (\<lambda>x. [hex_char (unat x div 16), hex_char (unat x mod 16)]) b)"

definition hex_value :: "nat \<Rightarrow> nat option" where
  "hex_value c =
     (if 48 \<le> c \<and> c \<le> 57 then Some (c - 48)
      else if 97 \<le> c \<and> c \<le> 102 then Some (c - 87)
      else if 65 \<le> c \<and> c \<le> 70 then Some (c - 55) else None)"

text \<open>\<^verbatim>\<open>bytes.fromhex\<close>: ASCII white space between the bytes is skipped.\<close>

fun bytes_fromhex :: "pystr \<Rightarrow> bytes result" where
  "bytes_fromhex [] = Inr []"
| "bytes_fromhex [c] = (if ascii_space c then Inr [] else Inl (Py ValueError))"
| "bytes_fromhex (c # d # s) =
     (if ascii_space c then bytes_fromhex (d # s)
      else (case (hex_value c, hex_value d) of
              (Some a, Some b) \<Rightarrow> rbind (bytes_fromhex s) (\<lambda>bs. Inr (word_of_nat (16 * a + b) # bs))
            | _ \<Rightarrow> Inl (Py ValueError)))"

section \<open>The file\<close>

definition load_trusted :: "bool \<Rightarrow> trust_file \<Rightarrow> fs \<Rightarrow> mval result" where
  "load_trusted refused tf f =
     (case f (tf_path tf) of
        None \<Rightarrow> Inr (MMap [])
      | Some n \<Rightarrow> rbind (read_bytes refused n) (tf_loads tf))"

definition key_of_entry :: "mval option \<Rightarrow> bytes option result" where
  "key_of_entry v =
     (case v of
        None \<Rightarrow> Inr None
      | Some MNil \<Rightarrow> Inr None
      | Some (MStr s) \<Rightarrow> rbind (bytes_fromhex s) (\<lambda>k. Inr (Some k))
      | _ \<Rightarrow> Inl (Py TypeError))"

definition file_get_trusted_key :: "bool \<Rightarrow> trust_file \<Rightarrow> fs \<Rightarrow> pystr \<Rightarrow> bytes option result" where
  "file_get_trusted_key refused tf f i =
     rbind (load_trusted refused tf f) (\<lambda>store.
     case store of MMap d \<Rightarrow> key_of_entry (map_of d (MStr i)) | _ \<Rightarrow> Inl (Py AttributeError))"

definition save_trusted :: "atomic_fault \<Rightarrow> bool \<Rightarrow> trust_file \<Rightarrow> mval \<Rightarrow> fs \<Rightarrow> unit result \<times> fs" where
  "save_trusted fault unlink_refused tf store f =
     (case make_dirs (atomic_no_dir fault) (path_parent (tf_path tf)) f of
        (Inl e, f1) \<Rightarrow> (Inl e, f1)
      | (Inr _, f1) \<Rightarrow>
          (case rbind (tf_dumps tf store) (\<lambda>payload.
                rbind (with_name (tf_path tf) (codes ''.'' @ path_name (tf_path tf) @ codes ''.tmp'')) (\<lambda>tmp. Inr (payload, tmp))) of
             Inl e \<Rightarrow> (Inl e, f1)
           | Inr (payload, tmp) \<Rightarrow> write_via fault unlink_refused tmp (tf_path tf) payload f1))"

definition file_trust ::
  "bool \<Rightarrow> atomic_fault \<Rightarrow> bool \<Rightarrow> trust_file \<Rightarrow> pystr \<Rightarrow> bytes \<Rightarrow> fs \<Rightarrow> unit result \<times> fs" where
  "file_trust refused fault unlink_refused tf i key f =
     (case load_trusted refused tf f of
        Inl e \<Rightarrow> (Inl e, f)
      | Inr (MMap d) \<Rightarrow> save_trusted fault unlink_refused tf (MMap (dict_set (MStr i) (MStr (bytes_hex key)) d)) f
      | Inr _ \<Rightarrow> (Inl (Py TypeError), f))"

section \<open>Lemmas\<close>

lemma hex_value_char: "n < 16 \<Longrightarrow> hex_value (hex_char n) = Some n \<and> \<not> ascii_space (hex_char n)"
  by (auto simp: hex_value_def hex_char_def ascii_space_def)

lemma hex_char_ascii: "hex_char (unat (x :: byte) div 16) < 0xD800" "hex_char (unat (x :: byte) mod 16) < 0xD800"
  using unat_byte_less [of x] by (auto simp: hex_char_def)

lemma fromhex_hex: "bytes_fromhex (bytes_hex b) = Inr b"
proof (induction b)
  case (Cons x b)
  have x: "unat x div 16 < 16" using unat_byte_less [of x] by (simp add: less_mult_imp_div_less)
  have "16 * (unat x div 16) + unat x mod 16 = unat x" by simp
  then have "word_of_nat (16 * (unat x div 16) + unat x mod 16) = x" by simp
  then show ?case using Cons hex_value_char [OF x] hex_value_char [of "unat x mod 16"] by (simp add: bytes_hex_def)
qed (simp add: bytes_hex_def)

lemma trusted_tmp:
  assumes "with_name d (codes ''.'' @ path_name d @ codes ''.tmp'') = Inr t"
  shows "t \<noteq> d \<and> pp_parts d \<noteq> []"
  using atomic_tmp_neq [OF assms] .

text \<open>
  The laws of \<^verbatim>\<open>json\<close>. A loaded dictionary has texts as keys, each once. A dictionary with text keys that is
  dumped is loaded with the same keys; a text or \<^verbatim>\<open>null\<close> comes back as it was and any other value as some value
  that is neither (\<^verbatim>\<open>sort_keys\<close> reorders dictionaries). \<^verbatim>\<open>json\<close> writes the two halves of a surrogate pair as one
  character, so the texts are those in which no such pair stands as two characters; loaded texts never have one.
\<close>

fun json_text :: "pystr \<Rightarrow> bool" where
  "json_text (c # d # s) = (\<not> (0xD800 \<le> c \<and> c < 0xDC00 \<and> 0xDC00 \<le> d \<and> d < 0xE000) \<and> json_text (d # s))"
| "json_text s = True"

definition json_key :: "mval \<Rightarrow> bool" where
  "json_key v = (case v of MStr s \<Rightarrow> json_text s | _ \<Rightarrow> False)"

definition json_entry :: "mval \<Rightarrow> bool" where
  "json_entry v = (case v of MStr s \<Rightarrow> json_text s | _ \<Rightarrow> True)"

definition json_dict :: "(mval \<times> mval) list \<Rightarrow> bool" where
  "json_dict d \<longleftrightarrow> wf_dict d \<and> list_all (\<lambda>e. json_key (fst e) \<and> json_entry (snd e)) d"

definition same_entry :: "mval \<Rightarrow> mval \<Rightarrow> bool" where
  "same_entry v w \<longleftrightarrow> v = w \<or> (\<not> is_text v \<and> \<not> is_text w \<and> v \<noteq> MNil \<and> w \<noteq> MNil)"

definition json_laws :: "trust_file \<Rightarrow> bool" where
  "json_laws tf \<longleftrightarrow>
     (\<forall>b d. tf_loads tf b = Inr (MMap d) \<longrightarrow> json_dict d) \<and>
     (\<forall>d b. json_dict d \<and> tf_dumps tf (MMap d) = Inr b \<longrightarrow>
        (\<exists>d'. tf_loads tf b = Inr (MMap d') \<and> (\<forall>k. rel_option same_entry (map_of d k) (map_of d' k))))"

lemma key_of_same_entry: "rel_option same_entry v w \<Longrightarrow> key_of_entry w = key_of_entry v"
  by (cases v; cases w) (auto simp: same_entry_def key_of_entry_def split: mval.splits)

lemma json_dict_set:
  assumes "json_dict d" "json_text i" "json_text s"
  shows "json_dict (dict_set (MStr i) (MStr s) d)"
proof -
  have "\<forall>e \<in> set (dict_set (MStr i) (MStr s) d). e \<in> set d \<or> e = (MStr i, MStr s)"
    by (induction d) auto
  then show ?thesis using assms by (auto simp: json_dict_def json_key_def json_entry_def list_all_iff wf_dict_set)
qed

lemma json_dict_pop: "json_dict d \<Longrightarrow> json_dict (dict_pop k d)"
proof -
  have "set (dict_pop k d) \<subseteq> set d" by (induction d) auto
  then show "json_dict d \<Longrightarrow> json_dict (dict_pop k d)" by (auto simp: json_dict_def list_all_iff wf_dict_pop)
qed

lemma json_text_low: "list_all (\<lambda>c. c < 0xD800) s \<Longrightarrow> json_text s"
  by (induction s rule: json_text.induct) simp_all

lemma bytes_hex_text: "json_text (bytes_hex b)"
  using hex_char_ascii by (intro json_text_low) (auto simp: bytes_hex_def list_all_iff)

lemma save_trusted_spec:
  assumes "json_laws tf" "json_dict d" "save_trusted fault unlink_refused tf (MMap d) f = (r, f')"
  shows "if r = Inr () then \<exists>b d'. f' (tf_path tf) = Some (FileNode b) \<and> tf_loads tf b = Inr (MMap d') \<and>
      (\<forall>k. rel_option same_entry (map_of d k) (map_of d' k))
    else f' (tf_path tf) = f (tf_path tf) \<or> pp_parts (tf_path tf) = []"
proof -
  obtain q f1 where m: "make_dirs (atomic_no_dir fault) (path_parent (tf_path tf)) f = (q, f1)" by (metis surj_pair)
  note here = make_dirs_here [OF m]
  let ?p = "rbind (tf_dumps tf (MMap d)) (\<lambda>payload.
      rbind (with_name (tf_path tf) (codes ''.'' @ path_name (tf_path tf) @ codes ''.tmp'')) (\<lambda>tmp. Inr (payload, tmp)))"
  show ?thesis
  proof (cases "\<exists>p. q = Inr () \<and> ?p = Inr p")
    case False
    then have "r \<noteq> Inr () \<and> f' = f1" using assms(3) m by (cases q; cases ?p) (auto simp: save_trusted_def)
    then show ?thesis using here by auto
  next
    case True
    then obtain payload tmp where q: "q = Inr ()" and p: "?p = Inr (payload, tmp)" by auto
    have t: "tf_dumps tf (MMap d) = Inr payload" "tmp \<noteq> tf_path tf" "pp_parts (tf_path tf) \<noteq> []"
      using p trusted_tmp by (auto simp: rbind_eq_Inr)
    have "write_via fault unlink_refused tmp (tf_path tf) payload f1 = (r, f')"
      using assms(3) m q p by (simp add: save_trusted_def)
    from write_via_spec [OF this t(2)] have w: "case r of Inr _ \<Rightarrow> f' (tf_path tf) = Some (FileNode payload) | Inl _ \<Rightarrow> f' (tf_path tf) = f1 (tf_path tf)"
      by blast
    obtain d' where "tf_loads tf payload = Inr (MMap d')" "\<forall>k. rel_option same_entry (map_of d k) (map_of d' k)"
      using assms(1,2) t(1) unfolding json_laws_def by blast
    then show ?thesis using w here [OF t(3)] by (cases r) auto
  qed
qed

section \<open>Property\<close>

text \<open>
  C35: Pinning a key in the file refines a map update. After a \<^verbatim>\<open>trust\<close> that returns, the key of that device reads back byte for
  byte and those of all other devices are as before; after one that raises, wherever it failed, all keys are as before. Under the laws
  of \<^verbatim>\<open>json\<close> above, the device id is one JSON keeps (no surrogate pair as two characters) and the file path has a name.
\<close>

theorem trust_file_refines_map:
  assumes "json_laws tf" "json_text i" "pp_parts (tf_path tf) \<noteq> []" "file_trust False fault unlink_refused tf i key f = (r, f')"
  shows "file_get_trusted_key False tf f' j =
    (if r = Inr () \<and> j = i then Inr (Some key) else file_get_trusted_key False tf f j)"
proof (cases "\<exists>d. load_trusted False tf f = Inr (MMap d)")
  case False
  then have "r \<noteq> Inr () \<and> f' = f"
    using assms(4) by (auto simp: file_trust_def split: sum.splits mval.splits)
  then show ?thesis by simp
next
  case True
  then obtain d where d: "load_trusted False tf f = Inr (MMap d)" by blast
  let ?d = "dict_set (MStr i) (MStr (bytes_hex key)) d"
  have "json_dict d"
    using d assms(1) unfolding json_laws_def load_trusted_def by (auto simp: rbind_eq_Inr json_dict_def split: option.splits)
  then have dd: "json_dict ?d" using assms(2) bytes_hex_text by (rule json_dict_set)
  have sv: "save_trusted fault unlink_refused tf (MMap ?d) f = (r, f')" using assms(4) d by (simp add: file_trust_def)
  from save_trusted_spec [OF assms(1) dd sv] have s: "if r = Inr () then \<exists>b d'. f' (tf_path tf) = Some (FileNode b) \<and>
      tf_loads tf b = Inr (MMap d') \<and> (\<forall>k. rel_option same_entry (map_of ?d k) (map_of d' k))
      else f' (tf_path tf) = f (tf_path tf)"
    using assms(3) by (cases "r = Inr ()") simp_all
  show ?thesis
  proof (cases "r = Inr ()")
    case True
    then obtain d' where d': "load_trusted False tf f' = Inr (MMap d')" "\<And>k. rel_option same_entry (map_of ?d k) (map_of d' k)"
      using s by (auto simp: load_trusted_def read_bytes_def)
    have "file_get_trusted_key False tf f' j = key_of_entry (map_of ?d (MStr j))"
      using d'(1) key_of_same_entry [OF d'(2)] by (simp add: file_get_trusted_key_def)
    then show ?thesis
      using True d by (simp add: file_get_trusted_key_def key_of_entry_def fromhex_hex)
  next
    case False
    then show ?thesis using s by (simp add: file_get_trusted_key_def load_trusted_def)
  qed
qed

text \<open>A file that already pins device \<^verbatim>\<open>B\<close>; JSON writes the two stores as the bytes 1 and 2.\<close>

definition sample_trust_file :: trust_file where
  "sample_trust_file = \<lparr>tf_path = PurePath 1 [[116]],
     tf_dumps = (\<lambda>v. if v = MMap [(MStr [66], MStr [48, 56]), (MStr [65], MStr [48, 55])] then Inr [2] else Inl (Py ValueError)),
     tf_loads = (\<lambda>b. Inr (MMap (if b = [2] then [(MStr [65], MStr [48, 55]), (MStr [66], MStr [48, 56])] else [(MStr [66], MStr [48, 56])])))\<rparr>"

lemma sample_trust_file_laws: "json_laws sample_trust_file"
proof -
  have "json_dict [(MStr [65], MStr [48, 55]), (MStr [66], MStr [48, 56])]" "json_dict [(MStr [66], MStr [48, 56])]"
    by (simp_all add: json_dict_def json_key_def json_entry_def)
  then show ?thesis by (auto simp: json_laws_def sample_trust_file_def same_entry_def split: if_splits)
qed

theorem trust_file_refines_map_witness:
  "\<exists>f'. file_trust False AtomicOk False sample_trust_file [65] [7] [PurePath 1 [[116]] \<mapsto> FileNode [1]] = (Inr (), f') \<and>
    file_get_trusted_key False sample_trust_file f' [65] = Inr (Some [7]) \<and>
    file_get_trusted_key False sample_trust_file f' [66] = Inr (Some [8])"
proof -
  have p: "pp_parts (tf_path sample_trust_file) \<noteq> []" by (simp add: sample_trust_file_def)
  let ?f = "[PurePath 1 [[116]] \<mapsto> FileNode [1]]"
  obtain f' where f': "file_trust False AtomicOk False sample_trust_file [65] [7] ?f = (Inr (), f')"
    by (simp add: file_trust_def load_trusted_def save_trusted_def sample_trust_file_def bytes_hex_def hex_char_def mkdir_parents_def make_dirs_def
        path_parent_def read_bytes_def path_name_def with_name_def sibling_def write_via_def os_replace_def codes_def raise_if_def is_file_def on_the_way_def)
  have old: "file_get_trusted_key False sample_trust_file ?f [66] = Inr (Some [8])"
    by (simp add: file_get_trusted_key_def load_trusted_def sample_trust_file_def read_bytes_def key_of_entry_def hex_value_def ascii_space_def raise_if_def)
  note T = trust_file_refines_map [OF sample_trust_file_laws _ p f']
  show ?thesis using T [of "[65]"] T [of "[66]"] old f' by simp
qed

end
