(* ===== verification/Sas_Wordlist.thy ===== *)
theory Sas_Wordlist
  imports Prelude
begin

text \<open>
  \<^verbatim>\<open>networking/sas_wordlist.py\<close>: the table of 2048 words, in sixteen blocks of 128, and the proof that it is what its
  comment says: sorted, without repetition, lowercase ASCII.
\<close>

section \<open>Ascending tables\<close>

text \<open>The order of Python's \<^verbatim>\<open>str\<close>: by the first code point that differs.\<close>

fun str_less :: "pystr \<Rightarrow> pystr \<Rightarrow> bool" where
  "str_less s [] = False"
| "str_less [] (d # t) = True"
| "str_less (c # s) (d # t) = (c < d \<or> c = d \<and> str_less s t)"

fun ascending :: "pystr list \<Rightarrow> bool" where
  "ascending [] = True"
| "ascending [w] = True"
| "ascending (v # w # ws) = (str_less v w \<and> ascending (w # ws))"

definition lowercase :: "pystr \<Rightarrow> bool" where
  "lowercase w \<longleftrightarrow> w \<noteq> [] \<and> list_all (\<lambda>c. 97 \<le> c \<and> c \<le> 122) w"

lemma str_less_trans: "str_less s t \<Longrightarrow> str_less t u \<Longrightarrow> str_less s u"
proof (induction s t arbitrary: u rule: str_less.induct)
  case (2 d t)
  then show ?case by (cases u) auto
next
  case (3 c s d t)
  then show ?case by (cases u) auto
qed simp

lemma str_less_irrefl: "\<not> str_less s s"
  by (induction s) simp_all

lemma ascending_sorted: "ascending ws \<Longrightarrow> sorted_wrt str_less ws"
  by (induction ws rule: ascending.induct) (auto intro: str_less_trans)

lemma ascending_distinct: "ascending ws \<Longrightarrow> distinct ws"
proof -
  assume "ascending ws"
  from ascending_sorted [OF this] show ?thesis by (induction ws) (auto simp: str_less_irrefl)
qed

lemma ascending_append:
  "ascending vs \<Longrightarrow> ascending (w # ws) \<Longrightarrow> vs \<noteq> [] \<Longrightarrow> str_less (last vs) w \<Longrightarrow> ascending (vs @ w # ws)"
  by (induction vs rule: ascending.induct) auto

text \<open>A block of the table, from its first to its last word; blocks in order make a longer one.\<close>

definition block :: "pystr \<Rightarrow> pystr \<Rightarrow> nat \<Rightarrow> pystr list \<Rightarrow> bool" where
  "block lo hi n ws \<longleftrightarrow>
     ws \<noteq> [] \<and> ascending ws \<and> list_all lowercase ws \<and> length ws = n \<and> hd ws = lo \<and> drop (n - 1) ws = [hi]"

lemma drop_last: "drop (length ws - 1) ws = [x] \<Longrightarrow> ws \<noteq> [] \<Longrightarrow> last ws = x"
  by (metis last_drop last.simps length_greater_0_conv diff_less zero_less_one)

lemma block_join: "block a b n vs \<Longrightarrow> block c d k ws \<Longrightarrow> str_less b c \<Longrightarrow> block a d (n + k) (vs @ ws)"
  using drop_last [of vs b] by (cases ws) (auto simp: block_def ascending_append Suc_diff_le)

section \<open>The table\<close>

definition sas_words_0 :: "string list" where
  "sas_words_0 = [
    ''abandon'', ''ability'', ''able'', ''about'', ''above'', ''absent'', ''absorb'', ''abstract'', ''absurd'',
    ''abuse'', ''access'', ''accident'', ''account'', ''accuse'', ''achieve'', ''acid'', ''acoustic'', ''acquire'',
    ''across'', ''act'', ''action'', ''actor'', ''actress'', ''actual'', ''adapt'', ''add'', ''addict'', ''address'',
    ''adjust'', ''admit'', ''adult'', ''advance'', ''advice'', ''aerobic'', ''affair'', ''afford'', ''afraid'',
    ''again'', ''age'', ''agent'', ''agree'', ''ahead'', ''aim'', ''air'', ''airport'', ''aisle'', ''alarm'',
    ''album'', ''alcohol'', ''alert'', ''alien'', ''all'', ''alley'', ''allow'', ''almost'', ''alone'', ''alpha'',
    ''already'', ''also'', ''alter'', ''always'', ''amateur'', ''amazing'', ''among'', ''amount'', ''amused'',
    ''analyst'', ''anchor'', ''ancient'', ''anger'', ''angle'', ''angry'', ''animal'', ''ankle'', ''announce'',
    ''annual'', ''another'', ''answer'', ''antenna'', ''antique'', ''anxiety'', ''any'', ''apart'', ''apology'',
    ''appear'', ''apple'', ''approve'', ''april'', ''arch'', ''arctic'', ''area'', ''arena'', ''argue'', ''arm'',
    ''armed'', ''armor'', ''army'', ''around'', ''arrange'', ''arrest'', ''arrive'', ''arrow'', ''art'', ''artefact'',
    ''artist'', ''artwork'', ''ask'', ''aspect'', ''assault'', ''asset'', ''assist'', ''assume'', ''asthma'',
    ''athlete'', ''atom'', ''attack'', ''attend'', ''attitude'', ''attract'', ''auction'', ''audit'', ''august'',
    ''aunt'', ''author'', ''auto'', ''autumn'', ''average'', ''avocado'']"

definition sas_words_1 :: "string list" where
  "sas_words_1 = [
    ''avoid'', ''awake'', ''aware'', ''away'', ''awesome'', ''awful'', ''awkward'', ''axis'', ''baby'', ''bachelor'',
    ''bacon'', ''badge'', ''bag'', ''balance'', ''balcony'', ''ball'', ''bamboo'', ''banana'', ''banner'', ''bar'',
    ''barely'', ''bargain'', ''barrel'', ''base'', ''basic'', ''basket'', ''battle'', ''beach'', ''bean'', ''beauty'',
    ''because'', ''become'', ''beef'', ''before'', ''begin'', ''behave'', ''behind'', ''believe'', ''below'',
    ''belt'', ''bench'', ''benefit'', ''best'', ''betray'', ''better'', ''between'', ''beyond'', ''bicycle'', ''bid'',
    ''bike'', ''bind'', ''biology'', ''bird'', ''birth'', ''bitter'', ''black'', ''blade'', ''blame'', ''blanket'',
    ''blast'', ''bleak'', ''bless'', ''blind'', ''blood'', ''blossom'', ''blouse'', ''blue'', ''blur'', ''blush'',
    ''board'', ''boat'', ''body'', ''boil'', ''bomb'', ''bone'', ''bonus'', ''book'', ''boost'', ''border'',
    ''boring'', ''borrow'', ''boss'', ''bottom'', ''bounce'', ''box'', ''boy'', ''bracket'', ''brain'', ''brand'',
    ''brass'', ''brave'', ''bread'', ''breeze'', ''brick'', ''bridge'', ''brief'', ''bright'', ''bring'', ''brisk'',
    ''broccoli'', ''broken'', ''bronze'', ''broom'', ''brother'', ''brown'', ''brush'', ''bubble'', ''buddy'',
    ''budget'', ''buffalo'', ''build'', ''bulb'', ''bulk'', ''bullet'', ''bundle'', ''bunker'', ''burden'',
    ''burger'', ''burst'', ''bus'', ''business'', ''busy'', ''butter'', ''buyer'', ''buzz'', ''cabbage'', ''cabin'',
    ''cable'']"

definition sas_words_2 :: "string list" where
  "sas_words_2 = [
    ''cactus'', ''cage'', ''cake'', ''call'', ''calm'', ''camera'', ''camp'', ''can'', ''canal'', ''cancel'',
    ''candy'', ''cannon'', ''canoe'', ''canvas'', ''canyon'', ''capable'', ''capital'', ''captain'', ''car'',
    ''carbon'', ''card'', ''cargo'', ''carpet'', ''carry'', ''cart'', ''case'', ''cash'', ''casino'', ''castle'',
    ''casual'', ''cat'', ''catalog'', ''catch'', ''category'', ''cattle'', ''caught'', ''cause'', ''caution'',
    ''cave'', ''ceiling'', ''celery'', ''cement'', ''census'', ''century'', ''cereal'', ''certain'', ''chair'',
    ''chalk'', ''champion'', ''change'', ''chaos'', ''chapter'', ''charge'', ''chase'', ''chat'', ''cheap'',
    ''check'', ''cheese'', ''chef'', ''cherry'', ''chest'', ''chicken'', ''chief'', ''child'', ''chimney'',
    ''choice'', ''choose'', ''chronic'', ''chuckle'', ''chunk'', ''churn'', ''cigar'', ''cinnamon'', ''circle'',
    ''citizen'', ''city'', ''civil'', ''claim'', ''clap'', ''clarify'', ''claw'', ''clay'', ''clean'', ''clerk'',
    ''clever'', ''click'', ''client'', ''cliff'', ''climb'', ''clinic'', ''clip'', ''clock'', ''clog'', ''close'',
    ''cloth'', ''cloud'', ''clown'', ''club'', ''clump'', ''cluster'', ''clutch'', ''coach'', ''coast'', ''coconut'',
    ''code'', ''coffee'', ''coil'', ''coin'', ''collect'', ''color'', ''column'', ''combine'', ''come'', ''comfort'',
    ''comic'', ''common'', ''company'', ''concert'', ''conduct'', ''confirm'', ''congress'', ''connect'',
    ''consider'', ''control'', ''convince'', ''cook'', ''cool'', ''copper'']"

definition sas_words_3 :: "string list" where
  "sas_words_3 = [
    ''copy'', ''coral'', ''core'', ''corn'', ''correct'', ''cost'', ''cotton'', ''couch'', ''country'', ''couple'',
    ''course'', ''cousin'', ''cover'', ''coyote'', ''crack'', ''cradle'', ''craft'', ''cram'', ''crane'', ''crash'',
    ''crater'', ''crawl'', ''crazy'', ''cream'', ''credit'', ''creek'', ''crew'', ''cricket'', ''crime'', ''crisp'',
    ''critic'', ''crop'', ''cross'', ''crouch'', ''crowd'', ''crucial'', ''cruel'', ''cruise'', ''crumble'',
    ''crunch'', ''crush'', ''cry'', ''crystal'', ''cube'', ''culture'', ''cup'', ''cupboard'', ''curious'',
    ''current'', ''curtain'', ''curve'', ''cushion'', ''custom'', ''cute'', ''cycle'', ''dad'', ''damage'', ''damp'',
    ''dance'', ''danger'', ''daring'', ''dash'', ''daughter'', ''dawn'', ''day'', ''deal'', ''debate'', ''debris'',
    ''decade'', ''december'', ''decide'', ''decline'', ''decorate'', ''decrease'', ''deer'', ''defense'', ''define'',
    ''defy'', ''degree'', ''delay'', ''deliver'', ''demand'', ''demise'', ''denial'', ''dentist'', ''deny'',
    ''depart'', ''depend'', ''deposit'', ''depth'', ''deputy'', ''derive'', ''describe'', ''desert'', ''design'',
    ''desk'', ''despair'', ''destroy'', ''detail'', ''detect'', ''develop'', ''device'', ''devote'', ''diagram'',
    ''dial'', ''diamond'', ''diary'', ''dice'', ''diesel'', ''diet'', ''differ'', ''digital'', ''dignity'',
    ''dilemma'', ''dinner'', ''dinosaur'', ''direct'', ''dirt'', ''disagree'', ''discover'', ''disease'', ''dish'',
    ''dismiss'', ''disorder'', ''display'', ''distance'', ''divert'', ''divide'']"

definition sas_words_4 :: "string list" where
  "sas_words_4 = [
    ''divorce'', ''dizzy'', ''doctor'', ''document'', ''dog'', ''doll'', ''dolphin'', ''domain'', ''donate'',
    ''donkey'', ''donor'', ''door'', ''dose'', ''double'', ''dove'', ''draft'', ''dragon'', ''drama'', ''drastic'',
    ''draw'', ''dream'', ''dress'', ''drift'', ''drill'', ''drink'', ''drip'', ''drive'', ''drop'', ''drum'', ''dry'',
    ''duck'', ''dumb'', ''dune'', ''during'', ''dust'', ''dutch'', ''duty'', ''dwarf'', ''dynamic'', ''eager'',
    ''eagle'', ''early'', ''earn'', ''earth'', ''easily'', ''east'', ''easy'', ''echo'', ''ecology'', ''economy'',
    ''edge'', ''edit'', ''educate'', ''effort'', ''egg'', ''eight'', ''either'', ''elbow'', ''elder'', ''electric'',
    ''elegant'', ''element'', ''elephant'', ''elevator'', ''elite'', ''else'', ''embark'', ''embody'', ''embrace'',
    ''emerge'', ''emotion'', ''employ'', ''empower'', ''empty'', ''enable'', ''enact'', ''end'', ''endless'',
    ''endorse'', ''enemy'', ''energy'', ''enforce'', ''engage'', ''engine'', ''enhance'', ''enjoy'', ''enlist'',
    ''enough'', ''enrich'', ''enroll'', ''ensure'', ''enter'', ''entire'', ''entry'', ''envelope'', ''episode'',
    ''equal'', ''equip'', ''era'', ''erase'', ''erode'', ''erosion'', ''error'', ''erupt'', ''escape'', ''essay'',
    ''essence'', ''estate'', ''eternal'', ''ethics'', ''evidence'', ''evil'', ''evoke'', ''evolve'', ''exact'',
    ''example'', ''excess'', ''exchange'', ''excite'', ''exclude'', ''excuse'', ''execute'', ''exercise'',
    ''exhaust'', ''exhibit'', ''exile'', ''exist'', ''exit'']"

definition sas_words_5 :: "string list" where
  "sas_words_5 = [
    ''exotic'', ''expand'', ''expect'', ''expire'', ''explain'', ''expose'', ''express'', ''extend'', ''extra'',
    ''eye'', ''eyebrow'', ''fabric'', ''face'', ''faculty'', ''fade'', ''faint'', ''faith'', ''fall'', ''false'',
    ''fame'', ''family'', ''famous'', ''fan'', ''fancy'', ''fantasy'', ''farm'', ''fashion'', ''fat'', ''fatal'',
    ''father'', ''fatigue'', ''fault'', ''favorite'', ''feature'', ''february'', ''federal'', ''fee'', ''feed'',
    ''feel'', ''female'', ''fence'', ''festival'', ''fetch'', ''fever'', ''few'', ''fiber'', ''fiction'', ''field'',
    ''figure'', ''file'', ''film'', ''filter'', ''final'', ''find'', ''fine'', ''finger'', ''finish'', ''fire'',
    ''firm'', ''first'', ''fiscal'', ''fish'', ''fit'', ''fitness'', ''fix'', ''flag'', ''flame'', ''flash'',
    ''flat'', ''flavor'', ''flee'', ''flight'', ''flip'', ''float'', ''flock'', ''floor'', ''flower'', ''fluid'',
    ''flush'', ''fly'', ''foam'', ''focus'', ''fog'', ''foil'', ''fold'', ''follow'', ''food'', ''foot'', ''force'',
    ''forest'', ''forget'', ''fork'', ''fortune'', ''forum'', ''forward'', ''fossil'', ''foster'', ''found'', ''fox'',
    ''fragile'', ''frame'', ''frequent'', ''fresh'', ''friend'', ''fringe'', ''frog'', ''front'', ''frost'',
    ''frown'', ''frozen'', ''fruit'', ''fuel'', ''fun'', ''funny'', ''furnace'', ''fury'', ''future'', ''gadget'',
    ''gain'', ''galaxy'', ''gallery'', ''game'', ''gap'', ''garage'', ''garbage'', ''garden'', ''garlic'', ''garment'']"

definition sas_words_6 :: "string list" where
  "sas_words_6 = [
    ''gas'', ''gasp'', ''gate'', ''gather'', ''gauge'', ''gaze'', ''general'', ''genius'', ''genre'', ''gentle'',
    ''genuine'', ''gesture'', ''ghost'', ''giant'', ''gift'', ''giggle'', ''ginger'', ''giraffe'', ''girl'', ''give'',
    ''glad'', ''glance'', ''glare'', ''glass'', ''glide'', ''glimpse'', ''globe'', ''gloom'', ''glory'', ''glove'',
    ''glow'', ''glue'', ''goat'', ''goddess'', ''gold'', ''good'', ''goose'', ''gorilla'', ''gospel'', ''gossip'',
    ''govern'', ''gown'', ''grab'', ''grace'', ''grain'', ''grant'', ''grape'', ''grass'', ''gravity'', ''great'',
    ''green'', ''grid'', ''grief'', ''grit'', ''grocery'', ''group'', ''grow'', ''grunt'', ''guard'', ''guess'',
    ''guide'', ''guilt'', ''guitar'', ''gun'', ''gym'', ''habit'', ''hair'', ''half'', ''hammer'', ''hamster'',
    ''hand'', ''happy'', ''harbor'', ''hard'', ''harsh'', ''harvest'', ''hat'', ''have'', ''hawk'', ''hazard'',
    ''head'', ''health'', ''heart'', ''heavy'', ''hedgehog'', ''height'', ''hello'', ''helmet'', ''help'', ''hen'',
    ''hero'', ''hidden'', ''high'', ''hill'', ''hint'', ''hip'', ''hire'', ''history'', ''hobby'', ''hockey'',
    ''hold'', ''hole'', ''holiday'', ''hollow'', ''home'', ''honey'', ''hood'', ''hope'', ''horn'', ''horror'',
    ''horse'', ''hospital'', ''host'', ''hotel'', ''hour'', ''hover'', ''hub'', ''huge'', ''human'', ''humble'',
    ''humor'', ''hundred'', ''hungry'', ''hunt'', ''hurdle'', ''hurry'', ''hurt'', ''husband'']"

definition sas_words_7 :: "string list" where
  "sas_words_7 = [
    ''hybrid'', ''ice'', ''icon'', ''idea'', ''identify'', ''idle'', ''ignore'', ''ill'', ''illegal'', ''illness'',
    ''image'', ''imitate'', ''immense'', ''immune'', ''impact'', ''impose'', ''improve'', ''impulse'', ''inch'',
    ''include'', ''income'', ''increase'', ''index'', ''indicate'', ''indoor'', ''industry'', ''infant'', ''inflict'',
    ''inform'', ''inhale'', ''inherit'', ''initial'', ''inject'', ''injury'', ''inmate'', ''inner'', ''innocent'',
    ''input'', ''inquiry'', ''insane'', ''insect'', ''inside'', ''inspire'', ''install'', ''intact'', ''interest'',
    ''into'', ''invest'', ''invite'', ''involve'', ''iron'', ''island'', ''isolate'', ''issue'', ''item'', ''ivory'',
    ''jacket'', ''jaguar'', ''jar'', ''jazz'', ''jealous'', ''jeans'', ''jelly'', ''jewel'', ''job'', ''join'',
    ''joke'', ''journey'', ''joy'', ''judge'', ''juice'', ''jump'', ''jungle'', ''junior'', ''junk'', ''just'',
    ''kangaroo'', ''keen'', ''keep'', ''ketchup'', ''key'', ''kick'', ''kid'', ''kidney'', ''kind'', ''kingdom'',
    ''kiss'', ''kit'', ''kitchen'', ''kite'', ''kitten'', ''kiwi'', ''knee'', ''knife'', ''knock'', ''know'', ''lab'',
    ''label'', ''labor'', ''ladder'', ''lady'', ''lake'', ''lamp'', ''language'', ''laptop'', ''large'', ''later'',
    ''latin'', ''laugh'', ''laundry'', ''lava'', ''law'', ''lawn'', ''lawsuit'', ''layer'', ''lazy'', ''leader'',
    ''leaf'', ''learn'', ''leave'', ''lecture'', ''left'', ''leg'', ''legal'', ''legend'', ''leisure'', ''lemon'',
    ''lend'']"

definition sas_words_8 :: "string list" where
  "sas_words_8 = [
    ''length'', ''lens'', ''leopard'', ''lesson'', ''letter'', ''level'', ''liar'', ''liberty'', ''library'',
    ''license'', ''life'', ''lift'', ''light'', ''like'', ''limb'', ''limit'', ''link'', ''lion'', ''liquid'',
    ''list'', ''little'', ''live'', ''lizard'', ''load'', ''loan'', ''lobster'', ''local'', ''lock'', ''logic'',
    ''lonely'', ''long'', ''loop'', ''lottery'', ''loud'', ''lounge'', ''love'', ''loyal'', ''lucky'', ''luggage'',
    ''lumber'', ''lunar'', ''lunch'', ''luxury'', ''lyrics'', ''machine'', ''mad'', ''magic'', ''magnet'', ''maid'',
    ''mail'', ''main'', ''major'', ''make'', ''mammal'', ''man'', ''manage'', ''mandate'', ''mango'', ''mansion'',
    ''manual'', ''maple'', ''marble'', ''march'', ''margin'', ''marine'', ''market'', ''marriage'', ''mask'',
    ''mass'', ''master'', ''match'', ''material'', ''math'', ''matrix'', ''matter'', ''maximum'', ''maze'',
    ''meadow'', ''mean'', ''measure'', ''meat'', ''mechanic'', ''medal'', ''media'', ''melody'', ''melt'', ''member'',
    ''memory'', ''mention'', ''menu'', ''mercy'', ''merge'', ''merit'', ''merry'', ''mesh'', ''message'', ''metal'',
    ''method'', ''middle'', ''midnight'', ''milk'', ''million'', ''mimic'', ''mind'', ''minimum'', ''minor'',
    ''minute'', ''miracle'', ''mirror'', ''misery'', ''miss'', ''mistake'', ''mix'', ''mixed'', ''mixture'',
    ''mobile'', ''model'', ''modify'', ''mom'', ''moment'', ''monitor'', ''monkey'', ''monster'', ''month'', ''moon'',
    ''moral'', ''more'', ''morning'']"

definition sas_words_9 :: "string list" where
  "sas_words_9 = [
    ''mosquito'', ''mother'', ''motion'', ''motor'', ''mountain'', ''mouse'', ''move'', ''movie'', ''much'',
    ''muffin'', ''mule'', ''multiply'', ''muscle'', ''museum'', ''mushroom'', ''music'', ''must'', ''mutual'',
    ''myself'', ''mystery'', ''myth'', ''naive'', ''name'', ''napkin'', ''narrow'', ''nasty'', ''nation'', ''nature'',
    ''near'', ''neck'', ''need'', ''negative'', ''neglect'', ''neither'', ''nephew'', ''nerve'', ''nest'', ''net'',
    ''network'', ''neutral'', ''never'', ''news'', ''next'', ''nice'', ''night'', ''noble'', ''noise'', ''nominee'',
    ''noodle'', ''normal'', ''north'', ''nose'', ''notable'', ''note'', ''nothing'', ''notice'', ''novel'', ''now'',
    ''nuclear'', ''number'', ''nurse'', ''nut'', ''oak'', ''obey'', ''object'', ''oblige'', ''obscure'', ''observe'',
    ''obtain'', ''obvious'', ''occur'', ''ocean'', ''october'', ''odor'', ''off'', ''offer'', ''office'', ''often'',
    ''oil'', ''okay'', ''old'', ''olive'', ''olympic'', ''omit'', ''once'', ''one'', ''onion'', ''online'', ''only'',
    ''open'', ''opera'', ''opinion'', ''oppose'', ''option'', ''orange'', ''orbit'', ''orchard'', ''order'',
    ''ordinary'', ''organ'', ''orient'', ''original'', ''orphan'', ''ostrich'', ''other'', ''outdoor'', ''outer'',
    ''output'', ''outside'', ''oval'', ''oven'', ''over'', ''own'', ''owner'', ''oxygen'', ''oyster'', ''ozone'',
    ''pact'', ''paddle'', ''page'', ''pair'', ''palace'', ''palm'', ''panda'', ''panel'', ''panic'', ''panther'',
    ''paper'']"

definition sas_words_10 :: "string list" where
  "sas_words_10 = [
    ''parade'', ''parent'', ''park'', ''parrot'', ''party'', ''pass'', ''patch'', ''path'', ''patient'', ''patrol'',
    ''pattern'', ''pause'', ''pave'', ''payment'', ''peace'', ''peanut'', ''pear'', ''peasant'', ''pelican'', ''pen'',
    ''penalty'', ''pencil'', ''people'', ''pepper'', ''perfect'', ''permit'', ''person'', ''pet'', ''phone'',
    ''photo'', ''phrase'', ''physical'', ''piano'', ''picnic'', ''picture'', ''piece'', ''pig'', ''pigeon'', ''pill'',
    ''pilot'', ''pink'', ''pioneer'', ''pipe'', ''pistol'', ''pitch'', ''pizza'', ''place'', ''planet'', ''plastic'',
    ''plate'', ''play'', ''please'', ''pledge'', ''pluck'', ''plug'', ''plunge'', ''poem'', ''poet'', ''point'',
    ''polar'', ''pole'', ''police'', ''pond'', ''pony'', ''pool'', ''popular'', ''portion'', ''position'',
    ''possible'', ''post'', ''potato'', ''pottery'', ''poverty'', ''powder'', ''power'', ''practice'', ''praise'',
    ''predict'', ''prefer'', ''prepare'', ''present'', ''pretty'', ''prevent'', ''price'', ''pride'', ''primary'',
    ''print'', ''priority'', ''prison'', ''private'', ''prize'', ''problem'', ''process'', ''produce'', ''profit'',
    ''program'', ''project'', ''promote'', ''proof'', ''property'', ''prosper'', ''protect'', ''proud'', ''provide'',
    ''public'', ''pudding'', ''pull'', ''pulp'', ''pulse'', ''pumpkin'', ''punch'', ''pupil'', ''puppy'',
    ''purchase'', ''purity'', ''purpose'', ''purse'', ''push'', ''put'', ''puzzle'', ''pyramid'', ''quality'',
    ''quantum'', ''quarter'', ''question'', ''quick'', ''quit'', ''quiz'']"

definition sas_words_11 :: "string list" where
  "sas_words_11 = [
    ''quote'', ''rabbit'', ''raccoon'', ''race'', ''rack'', ''radar'', ''radio'', ''rail'', ''rain'', ''raise'',
    ''rally'', ''ramp'', ''ranch'', ''random'', ''range'', ''rapid'', ''rare'', ''rate'', ''rather'', ''raven'',
    ''raw'', ''razor'', ''ready'', ''real'', ''reason'', ''rebel'', ''rebuild'', ''recall'', ''receive'', ''recipe'',
    ''record'', ''recycle'', ''reduce'', ''reflect'', ''reform'', ''refuse'', ''region'', ''regret'', ''regular'',
    ''reject'', ''relax'', ''release'', ''relief'', ''rely'', ''remain'', ''remember'', ''remind'', ''remove'',
    ''render'', ''renew'', ''rent'', ''reopen'', ''repair'', ''repeat'', ''replace'', ''report'', ''require'',
    ''rescue'', ''resemble'', ''resist'', ''resource'', ''response'', ''result'', ''retire'', ''retreat'', ''return'',
    ''reunion'', ''reveal'', ''review'', ''reward'', ''rhythm'', ''rib'', ''ribbon'', ''rice'', ''rich'', ''ride'',
    ''ridge'', ''rifle'', ''right'', ''rigid'', ''ring'', ''riot'', ''ripple'', ''risk'', ''ritual'', ''rival'',
    ''river'', ''road'', ''roast'', ''robot'', ''robust'', ''rocket'', ''romance'', ''roof'', ''rookie'', ''room'',
    ''rose'', ''rotate'', ''rough'', ''round'', ''route'', ''royal'', ''rubber'', ''rude'', ''rug'', ''rule'',
    ''run'', ''runway'', ''rural'', ''sad'', ''saddle'', ''sadness'', ''safe'', ''sail'', ''salad'', ''salmon'',
    ''salon'', ''salt'', ''salute'', ''same'', ''sample'', ''sand'', ''satisfy'', ''satoshi'', ''sauce'', ''sausage'',
    ''save'', ''say'']"

definition sas_words_12 :: "string list" where
  "sas_words_12 = [
    ''scale'', ''scan'', ''scare'', ''scatter'', ''scene'', ''scheme'', ''school'', ''science'', ''scissors'',
    ''scorpion'', ''scout'', ''scrap'', ''screen'', ''script'', ''scrub'', ''sea'', ''search'', ''season'', ''seat'',
    ''second'', ''secret'', ''section'', ''security'', ''seed'', ''seek'', ''segment'', ''select'', ''sell'',
    ''seminar'', ''senior'', ''sense'', ''sentence'', ''series'', ''service'', ''session'', ''settle'', ''setup'',
    ''seven'', ''shadow'', ''shaft'', ''shallow'', ''share'', ''shed'', ''shell'', ''sheriff'', ''shield'', ''shift'',
    ''shine'', ''ship'', ''shiver'', ''shock'', ''shoe'', ''shoot'', ''shop'', ''short'', ''shoulder'', ''shove'',
    ''shrimp'', ''shrug'', ''shuffle'', ''shy'', ''sibling'', ''sick'', ''side'', ''siege'', ''sight'', ''sign'',
    ''silent'', ''silk'', ''silly'', ''silver'', ''similar'', ''simple'', ''since'', ''sing'', ''siren'', ''sister'',
    ''situate'', ''six'', ''size'', ''skate'', ''sketch'', ''ski'', ''skill'', ''skin'', ''skirt'', ''skull'',
    ''slab'', ''slam'', ''sleep'', ''slender'', ''slice'', ''slide'', ''slight'', ''slim'', ''slogan'', ''slot'',
    ''slow'', ''slush'', ''small'', ''smart'', ''smile'', ''smoke'', ''smooth'', ''snack'', ''snake'', ''snap'',
    ''sniff'', ''snow'', ''soap'', ''soccer'', ''social'', ''sock'', ''soda'', ''soft'', ''solar'', ''soldier'',
    ''solid'', ''solution'', ''solve'', ''someone'', ''song'', ''soon'', ''sorry'', ''sort'', ''soul'', ''sound'',
    ''soup'']"

definition sas_words_13 :: "string list" where
  "sas_words_13 = [
    ''source'', ''south'', ''space'', ''spare'', ''spatial'', ''spawn'', ''speak'', ''special'', ''speed'', ''spell'',
    ''spend'', ''sphere'', ''spice'', ''spider'', ''spike'', ''spin'', ''spirit'', ''split'', ''spoil'', ''sponsor'',
    ''spoon'', ''sport'', ''spot'', ''spray'', ''spread'', ''spring'', ''spy'', ''square'', ''squeeze'', ''squirrel'',
    ''stable'', ''stadium'', ''staff'', ''stage'', ''stairs'', ''stamp'', ''stand'', ''start'', ''state'', ''stay'',
    ''steak'', ''steel'', ''stem'', ''step'', ''stereo'', ''stick'', ''still'', ''sting'', ''stock'', ''stomach'',
    ''stone'', ''stool'', ''story'', ''stove'', ''strategy'', ''street'', ''strike'', ''strong'', ''struggle'',
    ''student'', ''stuff'', ''stumble'', ''style'', ''subject'', ''submit'', ''subway'', ''success'', ''such'',
    ''sudden'', ''suffer'', ''sugar'', ''suggest'', ''suit'', ''summer'', ''sun'', ''sunny'', ''sunset'', ''super'',
    ''supply'', ''supreme'', ''sure'', ''surface'', ''surge'', ''surprise'', ''surround'', ''survey'', ''suspect'',
    ''sustain'', ''swallow'', ''swamp'', ''swap'', ''swarm'', ''swear'', ''sweet'', ''swift'', ''swim'', ''swing'',
    ''switch'', ''sword'', ''symbol'', ''symptom'', ''syrup'', ''system'', ''table'', ''tackle'', ''tag'', ''tail'',
    ''talent'', ''talk'', ''tank'', ''tape'', ''target'', ''task'', ''taste'', ''tattoo'', ''taxi'', ''teach'',
    ''team'', ''tell'', ''ten'', ''tenant'', ''tennis'', ''tent'', ''term'', ''test'', ''text'', ''thank'', ''that'']"

definition sas_words_14 :: "string list" where
  "sas_words_14 = [
    ''theme'', ''then'', ''theory'', ''there'', ''they'', ''thing'', ''this'', ''thought'', ''three'', ''thrive'',
    ''throw'', ''thumb'', ''thunder'', ''ticket'', ''tide'', ''tiger'', ''tilt'', ''timber'', ''time'', ''tiny'',
    ''tip'', ''tired'', ''tissue'', ''title'', ''toast'', ''tobacco'', ''today'', ''toddler'', ''toe'', ''together'',
    ''toilet'', ''token'', ''tomato'', ''tomorrow'', ''tone'', ''tongue'', ''tonight'', ''tool'', ''tooth'', ''top'',
    ''topic'', ''topple'', ''torch'', ''tornado'', ''tortoise'', ''toss'', ''total'', ''tourist'', ''toward'',
    ''tower'', ''town'', ''toy'', ''track'', ''trade'', ''traffic'', ''tragic'', ''train'', ''transfer'', ''trap'',
    ''trash'', ''travel'', ''tray'', ''treat'', ''tree'', ''trend'', ''trial'', ''tribe'', ''trick'', ''trigger'',
    ''trim'', ''trip'', ''trophy'', ''trouble'', ''truck'', ''true'', ''truly'', ''trumpet'', ''trust'', ''truth'',
    ''try'', ''tube'', ''tuition'', ''tumble'', ''tuna'', ''tunnel'', ''turkey'', ''turn'', ''turtle'', ''twelve'',
    ''twenty'', ''twice'', ''twin'', ''twist'', ''two'', ''type'', ''typical'', ''ugly'', ''umbrella'', ''unable'',
    ''unaware'', ''uncle'', ''uncover'', ''under'', ''undo'', ''unfair'', ''unfold'', ''unhappy'', ''uniform'',
    ''unique'', ''unit'', ''universe'', ''unknown'', ''unlock'', ''until'', ''unusual'', ''unveil'', ''update'',
    ''upgrade'', ''uphold'', ''upon'', ''upper'', ''upset'', ''urban'', ''urge'', ''usage'', ''use'', ''used'',
    ''useful'']"

definition sas_words_15 :: "string list" where
  "sas_words_15 = [
    ''useless'', ''usual'', ''utility'', ''vacant'', ''vacuum'', ''vague'', ''valid'', ''valley'', ''valve'', ''van'',
    ''vanish'', ''vapor'', ''various'', ''vast'', ''vault'', ''vehicle'', ''velvet'', ''vendor'', ''venture'',
    ''venue'', ''verb'', ''verify'', ''version'', ''very'', ''vessel'', ''veteran'', ''viable'', ''vibrant'',
    ''vicious'', ''victory'', ''video'', ''view'', ''village'', ''vintage'', ''violin'', ''virtual'', ''virus'',
    ''visa'', ''visit'', ''visual'', ''vital'', ''vivid'', ''vocal'', ''voice'', ''void'', ''volcano'', ''volume'',
    ''vote'', ''voyage'', ''wage'', ''wagon'', ''wait'', ''walk'', ''wall'', ''walnut'', ''want'', ''warfare'',
    ''warm'', ''warrior'', ''wash'', ''wasp'', ''waste'', ''water'', ''wave'', ''way'', ''wealth'', ''weapon'',
    ''wear'', ''weasel'', ''weather'', ''web'', ''wedding'', ''weekend'', ''weird'', ''welcome'', ''west'', ''wet'',
    ''whale'', ''what'', ''wheat'', ''wheel'', ''when'', ''where'', ''whip'', ''whisper'', ''wide'', ''width'',
    ''wife'', ''wild'', ''will'', ''win'', ''window'', ''wine'', ''wing'', ''wink'', ''winner'', ''winter'', ''wire'',
    ''wisdom'', ''wise'', ''wish'', ''witness'', ''wolf'', ''woman'', ''wonder'', ''wood'', ''wool'', ''word'',
    ''work'', ''world'', ''worry'', ''worth'', ''wrap'', ''wreck'', ''wrestle'', ''wrist'', ''write'', ''wrong'',
    ''yard'', ''year'', ''yellow'', ''you'', ''young'', ''youth'', ''zebra'', ''zero'', ''zone'', ''zoo'']"

definition SAS_WORDS :: "pystr list" where
  "SAS_WORDS = map codes (concat [
    sas_words_0, sas_words_1, sas_words_2, sas_words_3, sas_words_4, sas_words_5, sas_words_6, sas_words_7,
    sas_words_8, sas_words_9, sas_words_10, sas_words_11, sas_words_12, sas_words_13, sas_words_14, sas_words_15])"

section \<open>The blocks are in order\<close>

text \<open>The code points are computed first, once; the order is then checked on numerals.\<close>

lemma block_0: "block (codes ''abandon'') (codes ''avocado'') 128 (map codes sas_words_0)"
  by (simp add: sas_words_0_def codes_def, simp add: block_def lowercase_def)

lemma block_1: "block (codes ''avoid'') (codes ''cable'') 128 (map codes sas_words_1)"
  by (simp add: sas_words_1_def codes_def, simp add: block_def lowercase_def)

lemma block_2: "block (codes ''cactus'') (codes ''copper'') 128 (map codes sas_words_2)"
  by (simp add: sas_words_2_def codes_def, simp add: block_def lowercase_def)

lemma block_3: "block (codes ''copy'') (codes ''divide'') 128 (map codes sas_words_3)"
  by (simp add: sas_words_3_def codes_def, simp add: block_def lowercase_def)

lemma block_4: "block (codes ''divorce'') (codes ''exit'') 128 (map codes sas_words_4)"
  by (simp add: sas_words_4_def codes_def, simp add: block_def lowercase_def)

lemma block_5: "block (codes ''exotic'') (codes ''garment'') 128 (map codes sas_words_5)"
  by (simp add: sas_words_5_def codes_def, simp add: block_def lowercase_def)

lemma block_6: "block (codes ''gas'') (codes ''husband'') 128 (map codes sas_words_6)"
  by (simp add: sas_words_6_def codes_def, simp add: block_def lowercase_def)

lemma block_7: "block (codes ''hybrid'') (codes ''lend'') 128 (map codes sas_words_7)"
  by (simp add: sas_words_7_def codes_def, simp add: block_def lowercase_def)

lemma block_8: "block (codes ''length'') (codes ''morning'') 128 (map codes sas_words_8)"
  by (simp add: sas_words_8_def codes_def, simp add: block_def lowercase_def)

lemma block_9: "block (codes ''mosquito'') (codes ''paper'') 128 (map codes sas_words_9)"
  by (simp add: sas_words_9_def codes_def, simp add: block_def lowercase_def)

lemma block_10: "block (codes ''parade'') (codes ''quiz'') 128 (map codes sas_words_10)"
  by (simp add: sas_words_10_def codes_def, simp add: block_def lowercase_def)

lemma block_11: "block (codes ''quote'') (codes ''say'') 128 (map codes sas_words_11)"
  by (simp add: sas_words_11_def codes_def, simp add: block_def lowercase_def)

lemma block_12: "block (codes ''scale'') (codes ''soup'') 128 (map codes sas_words_12)"
  by (simp add: sas_words_12_def codes_def, simp add: block_def lowercase_def)

lemma block_13: "block (codes ''source'') (codes ''that'') 128 (map codes sas_words_13)"
  by (simp add: sas_words_13_def codes_def, simp add: block_def lowercase_def)

lemma block_14: "block (codes ''theme'') (codes ''useful'') 128 (map codes sas_words_14)"
  by (simp add: sas_words_14_def codes_def, simp add: block_def lowercase_def)

lemma block_15: "block (codes ''useless'') (codes ''zoo'') 128 (map codes sas_words_15)"
  by (simp add: sas_words_15_def codes_def, simp add: block_def lowercase_def)

lemma block_first: "block lo hi n ws \<Longrightarrow> ws ! 0 = lo"
  by (auto simp: block_def hd_conv_nth [symmetric])

text \<open>The table has 2048 words, from \<open>abandon\<close> to \<open>zoo\<close>, each before the next one.\<close>

lemma SAS_WORDS_block: "block (codes ''abandon'') (codes ''zoo'') 2048 SAS_WORDS"
proof -
  note blocks = block_0 block_1 block_2 block_3 block_4 block_5 block_6 block_7
    block_8 block_9 block_10 block_11 block_12 block_13 block_14 block_15
  have "\<exists>n. n = 2048 \<and> block (codes ''abandon'') (codes ''zoo'') n SAS_WORDS"
    unfolding SAS_WORDS_def concat.simps append_Nil2 map_append
    by (rule exI, rule conjI [rotated], (rule block_join, rule blocks)+, rule blocks) (simp_all add: codes_def)
  then show ?thesis by blast
qed

lemma SAS_WORDS_table: "length SAS_WORDS = 2048" "sorted_wrt str_less SAS_WORDS" "distinct SAS_WORDS" "list_all lowercase SAS_WORDS"
  using SAS_WORDS_block ascending_sorted ascending_distinct by (auto simp: block_def)

end
