(* ===== verification/Sas.thy ===== *)
theory Sas
  imports Handshake_Keys Handshake_Messages Sas_Wordlist Decimal
begin

text \<open>
  \<^verbatim>\<open>networking/handshake_sas.py\<close>: the short authentication string two users compare. SHA-256 is a parameter; the
  word list is an argument as in the code, and the properties are about the table of \<^verbatim>\<open>sas_wordlist.py\<close>.
\<close>

unbundle bit_operations_syntax

definition WORDLIST_SIZE :: nat where "WORDLIST_SIZE = 2048"
definition BITS_PER_WORD :: nat where "BITS_PER_WORD = 11"
definition DEFAULT_WORD_COUNT :: int where "DEFAULT_WORD_COUNT = 4"
definition MAX_WORD_COUNT :: int where "MAX_WORD_COUNT = 8"
definition DIGIT_COUNT :: int where "DIGIT_COUNT = 8"
definition MAX_DIGIT_COUNT :: int where "MAX_DIGIT_COUNT = 12"
definition SAS_LABEL :: bytes where "SAS_LABEL = byte_lit ''securesync-1e-sas''"

definition sas_material :: "(bytes \<Rightarrow> bytes) \<Rightarrow> bytes \<Rightarrow> bytes result" where
  "sas_material sha256 t_final =
     rbind (length_prefixed SAS_LABEL) (\<lambda>lp_label.
     raise_if (length t_final \<noteq> TRANSCRIPT_SIZE) (Protocol SasError) (Inr (sha256 (T1 @ lp_label @ t_final))))"

definition check_word_count :: "int \<Rightarrow> unit result" where
  "check_word_count count = raise_if (\<not> (1 \<le> count \<and> count \<le> MAX_WORD_COUNT)) (Protocol SasError) (Inr ())"

definition entropy_bits :: "int \<Rightarrow> int result" where
  "entropy_bits count = rbind (check_word_count count) (\<lambda>_. Inr (count * int BITS_PER_WORD))"

text \<open>\<^verbatim>\<open>(value >> (total_bits - BITS_PER_WORD * (index + 1))) & mask\<close>\<close>

definition word_index :: "nat \<Rightarrow> nat \<Rightarrow> nat \<Rightarrow> nat" where
  "word_index v total_bits i = drop_bit (total_bits - BITS_PER_WORD * (i + 1)) v AND (WORDLIST_SIZE - 1)"

definition sas_words :: "bytes \<Rightarrow> int \<Rightarrow> pystr list \<Rightarrow> pystr list result" where
  "sas_words material count wordlist =
     rbind (check_word_count count) (\<lambda>_.
     raise_if (length wordlist \<noteq> WORDLIST_SIZE) (Protocol SasError)
    (raise_if (int (length material) * 8 < count * int BITS_PER_WORD) (Protocol SasError)
    (Inr (map (\<lambda>i. wordlist ! word_index (be_val material) (length material * 8) i) [0 ..< nat count]))))"

text \<open>\<^verbatim>\<open>str(n).zfill(count)\<close>\<close>

definition zfill :: "nat \<Rightarrow> pystr \<Rightarrow> pystr" where
  "zfill count s = replicate (count - length s) 48 @ s"

definition sas_digits :: "bytes \<Rightarrow> int \<Rightarrow> pystr result" where
  "sas_digits material count =
     raise_if (\<not> (1 \<le> count \<and> count \<le> MAX_DIGIT_COUNT)) (Protocol SasError)
    (raise_if (material = []) (Protocol SasError)
    (Inr (zfill (nat count) (decimal (be_val material mod 10 ^ nat count)))))"

fun join_words :: "pystr \<Rightarrow> pystr list \<Rightarrow> pystr" where
  "join_words sep [] = []"
| "join_words sep [w] = w"
| "join_words sep (w # v # ws) = w @ sep @ join_words sep (v # ws)"

definition format_sas :: "pystr list \<Rightarrow> pystr \<Rightarrow> pystr result" where
  "format_sas words separator = raise_if (words = []) (Protocol SasError) (Inr (join_words separator words))"

section \<open>Words are groups of bits\<close>

lemma word_index_eq: "word_index v bits i = v div 2 ^ (bits - 11 * (i + 1)) mod 2048"
proof -
  have "x AND (2 ^ 11 - 1) = x mod 2 ^ 11" for x :: nat by (metis and_exp_eq_0_iff_not_bit mask_eq_exp_minus_1 take_bit_eq_mask take_bit_eq_mod)
  from this [of "v div 2 ^ (bits - 11 * (i + 1))"] show ?thesis
    by (simp add: word_index_def BITS_PER_WORD_def WORDLIST_SIZE_def drop_bit_eq_div)
qed

text \<open>The first \<open>n\<close> groups of eleven bits determine the first \<open>11 n\<close> bits.\<close>

lemma groups_determine:
  assumes "11 * n \<le> bits" "v < 2 ^ bits" "w < 2 ^ bits"
  shows "(\<forall>i < n. word_index v bits i = word_index w bits i) \<longleftrightarrow> v div 2 ^ (bits - 11 * n) = w div 2 ^ (bits - 11 * n)"
  using assms(1)
proof (induction n)
  case 0
  then show ?case using assms(2,3) by simp
next
  case (Suc n)
  let ?k = "bits - 11 * Suc n"
  have k: "bits - 11 * n = ?k + 11" using Suc.prems by simp
  have split: "x div 2 ^ ?k = x div 2 ^ (?k + 11) * 2048 + x div 2 ^ ?k mod 2048" for x :: nat
  proof -
    have "x div 2 ^ (?k + 11) = x div 2 ^ ?k div 2048" by (simp add: power_add div_mult2_eq)
    then show ?thesis by simp
  qed
  have IH: "(\<forall>i < n. word_index v bits i = word_index w bits i) \<longleftrightarrow> v div 2 ^ (?k + 11) = w div 2 ^ (?k + 11)"
    using Suc.IH Suc.prems unfolding k by force
  have here: "word_index x bits n = x div 2 ^ ?k mod 2048" for x unfolding word_index_eq by simp
  have "(\<forall>i < Suc n. word_index v bits i = word_index w bits i) \<longleftrightarrow>
      v div 2 ^ (?k + 11) = w div 2 ^ (?k + 11) \<and> v div 2 ^ ?k mod 2048 = w div 2 ^ ?k mod 2048"
    unfolding All_less_Suc IH here by blast
  also have "\<dots> \<longleftrightarrow> v div 2 ^ ?k = w div 2 ^ ?k"
  proof
    show "v div 2 ^ ?k = w div 2 ^ ?k" if "v div 2 ^ (?k + 11) = w div 2 ^ (?k + 11) \<and> v div 2 ^ ?k mod 2048 = w div 2 ^ ?k mod 2048"
      using that split [of v] split [of w] by simp
    show "v div 2 ^ (?k + 11) = w div 2 ^ (?k + 11) \<and> v div 2 ^ ?k mod 2048 = w div 2 ^ ?k mod 2048" if "v div 2 ^ ?k = w div 2 ^ ?k"
      using that by (simp add: power_add div_mult2_eq)
  qed
  finally show ?case .
qed

lemma word_index_less: "word_index v bits i < 2048"
  by (simp add: word_index_eq)

lemma be_val_bits: "be_val bs < 2 ^ (length bs * 8)"
  using be_val_less [of bs] power_mult [of "2 :: nat" 8 "length bs"] by (simp add: mult.commute)

section \<open>Digits\<close>

lemma digits_value_zeros: "digits_value (replicate k 48 @ s) = digits_value s"
  unfolding digits_value_def foldl_append by (induction k) simp_all

section \<open>Properties\<close>

text \<open>For a list of different words, the words shown determine the leading bits and the other way round.\<close>

lemma words_stand_for_bits:
  assumes "distinct wl" "length m = length m'" "sas_words m n wl = Inr ws" "sas_words m' n wl = Inr ws'"
  shows "(ws = ws' \<longleftrightarrow> be_val m div 2 ^ (length m * 8 - 11 * nat n) = be_val m' div 2 ^ (length m * 8 - 11 * nat n)) \<and>
    length ws = nat n \<and> set ws \<subseteq> set wl \<and> entropy_bits n = Inr (11 * n)"
proof -
  let ?t = "length m * 8"
  have c: "check_word_count n = Inr ()" "length wl = 2048" "11 * nat n \<le> ?t"
    and ws: "ws = map (\<lambda>i. wl ! word_index (be_val m) ?t i) [0 ..< nat n]" "ws' = map (\<lambda>i. wl ! word_index (be_val m') ?t i) [0 ..< nat n]"
    using assms(2-4) by (auto simp: sas_words_def result_simps WORDLIST_SIZE_def BITS_PER_WORD_def)
  have "ws = ws' \<longleftrightarrow> (\<forall>i < nat n. word_index (be_val m) ?t i = word_index (be_val m') ?t i)"
    using assms(1) c(2) word_index_less by (auto simp: ws map_eq_conv nth_eq_iff_index_eq)
  also have "\<dots> \<longleftrightarrow> be_val m div 2 ^ (?t - 11 * nat n) = be_val m' div 2 ^ (?t - 11 * nat n)"
    using be_val_bits [of m] be_val_bits [of m'] assms(2) by (intro groups_determine [OF c(3)]) simp_all
  finally show ?thesis
    using c word_index_less by (auto simp: ws entropy_bits_def BITS_PER_WORD_def)
qed

lemma first_separator: "c \<notin> set w \<Longrightarrow> c \<notin> set v \<Longrightarrow> w @ c # s = v @ c # t \<longleftrightarrow> w = v \<and> s = t"
proof (induction w arbitrary: v)
  case Nil
  then show ?case by (cases v) auto
next
  case (Cons x w)
  then show ?case by (cases v) auto
qed

lemma join_words_inject:
  assumes "list_all (\<lambda>w. c \<notin> set w) ws" "list_all (\<lambda>w. c \<notin> set w) vs" "length ws = length vs" "ws \<noteq> []"
  shows "join_words [c] ws = join_words [c] vs \<longleftrightarrow> ws = vs"
proof -
  from assms show ?thesis
  proof (induction ws vs rule: list_induct2')
    case (4 w ws v vs)
    then show ?case by (cases ws; cases vs) (auto simp: first_separator)
  qed auto
qed

text \<open>
  C40: The short authentication string shows the leading bits of the material, no more and no less. With the program's
  table of 2048 words, two materials of the same length show the same string if and only if their first
  \<^verbatim>\<open>11 * count\<close> bits agree, provided the separator is one character that is not a lowercase letter (the default is
  \<^verbatim>\<open>-\<close>). The words are \<^verbatim>\<open>count\<close> lowercase entries of the table, which is in strictly ascending order.
\<close>

theorem sas_shows_leading_bits:
  assumes "length m = length m'" "sas_words m n SAS_WORDS = Inr ws" "sas_words m' n SAS_WORDS = Inr ws'"
    and "\<not> (97 \<le> c \<and> c \<le> 122)"
  shows "(format_sas ws [c] = format_sas ws' [c] \<longleftrightarrow>
      be_val m div 2 ^ (length m * 8 - 11 * nat n) = be_val m' div 2 ^ (length m * 8 - 11 * nat n)) \<and>
    entropy_bits n = Inr (int (length ws) * 11) \<and> set ws \<subseteq> set SAS_WORDS \<and> list_all lowercase ws \<and>
    sorted_wrt str_less SAS_WORDS"
proof -
  note bits = words_stand_for_bits [OF SAS_WORDS_table(3) assms(1-3)]
  note bits' = words_stand_for_bits [OF SAS_WORDS_table(3) assms(1) [symmetric] assms(3,2)]
  have low: "list_all lowercase ws" "list_all lowercase ws'"
    using bits bits' SAS_WORDS_table(4) by (auto simp: list_all_iff)
  then have "list_all (\<lambda>w. c \<notin> set w) ws" "list_all (\<lambda>w. c \<notin> set w) ws'"
    using assms(4) by (auto simp: list_all_iff lowercase_def)
  from join_words_inject [OF this] have "format_sas ws [c] = format_sas ws' [c] \<longleftrightarrow> ws = ws'"
    using bits bits' by (auto simp: format_sas_def raise_if_def)
  moreover have "1 \<le> n" using assms(2) by (auto simp: sas_words_def check_word_count_def result_simps)
  ultimately show ?thesis using bits low SAS_WORDS_table(2) by (auto simp: mult.commute)
qed

theorem sas_shows_leading_bits_witness:
  "sas_words [0, 0] 1 SAS_WORDS = Inr [codes ''abandon''] \<and> sas_words [0, 31] 1 SAS_WORDS = Inr [codes ''abandon''] \<and>
    be_val [0, 0] div 2 ^ 5 = be_val [0, 31] div 2 ^ 5 \<and> lowercase (codes ''abandon'')"
proof -
  have "SAS_WORDS ! 0 = codes ''abandon''" by (rule block_first [OF SAS_WORDS_block])
  then have w: "sas_words [0, 0] 1 SAS_WORDS = Inr [codes ''abandon'']" "sas_words [0, 31] 1 SAS_WORDS = Inr [codes ''abandon'']"
    using SAS_WORDS_table(1) word_index_eq
    by (simp_all add: sas_words_def check_word_count_def MAX_WORD_COUNT_def WORDLIST_SIZE_def BITS_PER_WORD_def raise_if_def be_val_def)
  from sas_shows_leading_bits [OF _ w, of 45] w show ?thesis by simp
qed

text \<open>
  The digits are the number. \<^verbatim>\<open>sas_digits\<close> returns exactly \<^verbatim>\<open>count\<close> decimal digits, and read as a number they are
  the material modulo ten to the count.
\<close>

theorem sas_digits_exact:
  assumes "sas_digits m n = Inr s"
  shows "int (length s) = n \<and> list_all (\<lambda>d. 48 \<le> d \<and> d \<le> 57) s \<and> digits_value s = be_val m mod 10 ^ nat n"
proof -
  let ?v = "be_val m mod 10 ^ nat n"
  have n: "1 \<le> n" and s: "s = zfill (nat n) (decimal ?v)" using assms by (auto simp: sas_digits_def result_simps)
  have "length (decimal ?v) \<le> nat n" using n by (intro decimal_length) simp_all
  then show ?thesis
    using n decimal_digits [of ?v] by (auto simp: s zfill_def digits_value_zeros decimal_value list_all_iff)
qed

theorem sas_digits_exact_witness: "sas_digits [1, 44] 2 = Inr [48, 48] \<and> digits_value [48, 48] = 300 mod 10 ^ 2"
proof -
  have "sas_digits [1, 44] 2 = Inr [48, 48]"
    by (simp add: sas_digits_def MAX_DIGIT_COUNT_def be_val_def zfill_def decimal.simps raise_if_def)
  with sas_digits_exact [OF this] show ?thesis by (simp add: be_val_def)
qed

end
