(* ===== verification/In_Process_Transport.thy ===== *)
theory In_Process_Transport
  imports Tcp_Transport
begin

text \<open>
  \<^verbatim>\<open>networking/in_process_transport.py\<close>: the transport that tests and single-process setups use. Encrypted envelopes
  wait in one unbounded queue per device. The cipher, MessagePack, the nonce and the clocks are parameters; the chunk
  payload and its reader are those of the TCP transport, whose code is the same.
\<close>

type_synonym in_process_network = "(pystr, bytes list) dict"

definition inbox_for :: "pystr \<Rightarrow> in_process_network \<Rightarrow> bytes list \<times> in_process_network" where
  "inbox_for i net =
     (case dict_get net i of None \<Rightarrow> ([], dict_set i [] net) | Some q \<Rightarrow> (q, net))"

record in_process =
  ip_own :: pystr
  ip_encrypt :: "bytes \<Rightarrow> bytes \<Rightarrow> bytes \<Rightarrow> bytes \<Rightarrow> encrypted_payload result"
  ip_decrypt :: "encrypted_payload \<Rightarrow> bytes \<Rightarrow> bytes \<Rightarrow> bytes result"
  ip_packb :: "mval \<Rightarrow> bytes result"
  ip_unpackb :: "bytes \<Rightarrow> mval result"
  ip_conversions :: conversions
  ip_send_key :: bytes
  ip_receive_key :: bytes
  ip_message_id :: int

definition next_message_id :: "in_process \<Rightarrow> int \<times> in_process" where
  "next_message_id tr = (ip_message_id tr + 1, tr\<lparr>ip_message_id := ip_message_id tr + 1\<rparr>)"

definition pack_envelope :: "encrypted_payload \<Rightarrow> bytes" where
  "pack_envelope p = ep_nonce p @ ep_tag p @ ep_ciphertext p"

definition unpack_envelope :: "bytes \<Rightarrow> encrypted_payload" where
  "unpack_envelope envelope =
     \<lparr>ep_ciphertext = drop (NONCE_SIZE + TAG_SIZE) envelope, ep_nonce = take NONCE_SIZE envelope,
      ep_tag = slice NONCE_SIZE (NONCE_SIZE + TAG_SIZE) envelope\<rparr>"

text \<open>\<^verbatim>\<open>send_chunk\<close>: nothing is queued when encoding or encrypting raises, but the message id is used up.\<close>

definition in_process_send ::
  "int \<Rightarrow> bytes \<Rightarrow> peer \<Rightarrow> chunk \<Rightarrow> pystr \<Rightarrow> int \<Rightarrow> version_vector option \<Rightarrow> in_process \<Rightarrow> in_process_network \<Rightarrow>
   unit result \<times> in_process \<times> in_process_network" where
  "in_process_send now_ms nonce p c relative_path total_chunks v tr net =
     (case next_message_id tr of
        (mid, tr1) \<Rightarrow>
          (case rbind (encode_packet (ip_packb tr) \<lparr>pk_header = make_header now_ms CHUNK_DATA mid 0,
                   pk_payload = push_payload c relative_path total_chunks v\<rparr>) (\<lambda>framed.
                rbind (utf8_encode (device_id p)) (\<lambda>ad. ip_encrypt tr framed (ip_send_key tr) nonce ad)) of
             Inl e \<Rightarrow> (Inl e, tr1, net)
           | Inr encrypted \<Rightarrow>
               (case inbox_for (device_id p) net of
                  (q, net1) \<Rightarrow> (Inr (), tr1, dict_set (device_id p) (q @ [pack_envelope encrypted]) net1))))"

text \<open>Taking an envelope out of the own inbox; \<open>None\<close> while there is none to take.\<close>

definition open_envelope :: "in_process \<Rightarrow> bytes \<Rightarrow> mval packet result" where
  "open_envelope tr envelope =
     rbind (utf8_encode (ip_own tr)) (\<lambda>ad.
     rbind (ip_decrypt tr (unpack_envelope envelope) (ip_receive_key tr) ad) (\<lambda>framed.
     decode_packet (ip_unpackb tr) framed))"

definition take_envelope :: "in_process \<Rightarrow> in_process_network \<Rightarrow> bytes option \<times> in_process_network" where
  "take_envelope tr net =
     (case inbox_for (ip_own tr) net of
        ([], net1) \<Rightarrow> (None, net1)
      | (e # q, net1) \<Rightarrow> (Some e, dict_set (ip_own tr) q net1))"

text \<open>One round of \<^verbatim>\<open>receive_pushes\<close>; an exception leaves the generator.\<close>

definition in_process_receive ::
  "int \<Rightarrow> in_process \<Rightarrow> in_process_network \<Rightarrow> raw_push option result \<times> in_process_network" where
  "in_process_receive now tr net =
     (case take_envelope tr net of
        (None, net1) \<Rightarrow> (Inr None, net1)
      | (Some e, net1) \<Rightarrow>
          (rbind (open_envelope tr e) (\<lambda>packet.
           rbind (push_from_payload (ip_conversions tr) now (pk_payload packet)) (\<lambda>i. Inr (Some i))), net1))"

text \<open>\<^verbatim>\<open>request_chunks\<close>: what it yields, the digests still wanted, the exception that ends it, and the rest of the inbox.\<close>

fun in_process_request ::
  "int \<Rightarrow> in_process \<Rightarrow> pystr list \<Rightarrow> bytes list \<Rightarrow> (raw_chunk list \<times> pystr list \<times> exn option) \<times> bytes list" where
  "in_process_request now tr [] q = (([], [], None), q)"
| "in_process_request now tr remaining [] = (([], remaining, None), [])"
| "in_process_request now tr remaining (e # q) =
     (case rbind (open_envelope tr e) (\<lambda>packet.
           rbind (dict_get_or_none (pk_payload packet) ''hash_digest'') (\<lambda>digest.
           rbind (wanted_digest digest remaining) (\<lambda>w. Inr (packet, w)))) of
        Inl x \<Rightarrow> (([], remaining, Some x), q)
      | Inr (packet, None) \<Rightarrow> in_process_request now tr remaining q
      | Inr (packet, Some d) \<Rightarrow>
          (case chunk_from_payload (ip_conversions tr) now (pk_payload packet) of
             Inl x \<Rightarrow> (([], removeAll d remaining, Some x), q)
           | Inr c \<Rightarrow>
               (case in_process_request now tr (removeAll d remaining) q of
                  ((cs, left, x), rest) \<Rightarrow> ((c # cs, left, x), rest))))"

definition in_process_request_chunks ::
  "int \<Rightarrow> in_process \<Rightarrow> pystr list \<Rightarrow> in_process_network \<Rightarrow> (raw_chunk list \<times> pystr list \<times> exn option) \<times> in_process_network" where
  "in_process_request_chunks now tr chunk_hashes net =
     (case inbox_for (ip_own tr) net of
        (q, net1) \<Rightarrow>
          (case in_process_request now tr (remdups chunk_hashes) q of (r, rest) \<Rightarrow> (r, dict_set (ip_own tr) rest net1)))"

section \<open>Lemmas\<close>

lemma envelope_round_trip:
  "length (ep_nonce p) = NONCE_SIZE \<Longrightarrow> length (ep_tag p) = TAG_SIZE \<Longrightarrow> unpack_envelope (pack_envelope p) = p"
  by (simp add: unpack_envelope_def pack_envelope_def slice_def)

lemma inbox_for_get: "inbox_for i net = (q, net1) \<Longrightarrow> q = (case dict_get net i of None \<Rightarrow> [] | Some q \<Rightarrow> q) \<and> dict_get net1 i = Some q"
  by (auto simp: inbox_for_def split: option.splits)

text \<open>
  The laws of the third-party code at the two ends: what was encrypted is decrypted, and what MessagePack packed of a
  plain value (text keys, each once, no floats) it unpacks again. Other values may be refused when unpacking.
\<close>

definition in_process_laws :: "in_process \<Rightarrow> in_process \<Rightarrow> bool" where
  "in_process_laws a b \<longleftrightarrow>
     (\<forall>m k n ad. aead_input m k n ad \<longrightarrow>
        (\<exists>e. ip_encrypt a m k n ad = Inr e \<and> ep_nonce e = n \<and> length (ep_tag e) = TAG_SIZE \<and> ip_decrypt b e k ad = Inr m)) \<and>
     (\<forall>x pb. plain_value x \<longrightarrow> ip_packb a x = Inr pb \<longrightarrow> ip_unpackb b pb = Inr x)"

text \<open>A chunk that can be sent as a push: its version vector has each device once, and what is packed fits into the length field.\<close>

type_synonym sent_push = "bytes \<times> chunk \<times> pystr \<times> int \<times> version_vector option"

fun sendable :: "in_process \<Rightarrow> sent_push \<Rightarrow> bool" where
  "sendable a (nonce, c, path, n, v) \<longleftrightarrow> length nonce = NONCE_SIZE \<and> wire_chunk c \<and> wire_version v \<and>
     (\<exists>pb. ip_packb a (push_payload c path n v) = Inr pb \<and> HEADER_SIZE + length pb < 2 ^ 31)"

fun payload_of :: "sent_push \<Rightarrow> mval" where
  "payload_of (nonce, c, path, n, v) = push_payload c path n v"

fun push_of :: "int \<Rightarrow> sent_push \<Rightarrow> incoming_push" where
  "push_of now (nonce, c, path, n, v) = \<lparr>in_path = path, in_total = n, in_chunk = arrived now c, in_version = v\<rparr>"

fun in_process_sends ::
  "int \<Rightarrow> peer \<Rightarrow> sent_push list \<Rightarrow> in_process \<Rightarrow> in_process_network \<Rightarrow> unit result \<times> in_process \<times> in_process_network" where
  "in_process_sends now_ms p [] tr net = (Inr (), tr, net)"
| "in_process_sends now_ms p ((nonce, c, path, n, v) # xs) tr net =
     (case in_process_send now_ms nonce p c path n v tr net of
        (Inl e, tr1, net1) \<Rightarrow> (Inl e, tr1, net1)
      | (Inr _, tr1, net1) \<Rightarrow> in_process_sends now_ms p xs tr1 net1)"

fun in_process_receives ::
  "int \<Rightarrow> nat \<Rightarrow> in_process \<Rightarrow> in_process_network \<Rightarrow> raw_push option result list \<times> in_process_network" where
  "in_process_receives now 0 tr net = ([], net)"
| "in_process_receives now (Suc k) tr net =
     (case in_process_receive now tr net of
        (r, net1) \<Rightarrow> (case in_process_receives now k tr net1 of (rs, net2) \<Rightarrow> (r # rs, net2)))"

definition inbox_of :: "pystr \<Rightarrow> in_process_network \<Rightarrow> bytes list" where
  "inbox_of i net = (case dict_get net i of None \<Rightarrow> [] | Some q \<Rightarrow> q)"

lemma inbox_for_fst: "fst (inbox_for i net) = inbox_of i net"
  by (simp add: inbox_for_def inbox_of_def split: option.split)

definition opens_to :: "in_process \<Rightarrow> bytes \<Rightarrow> mval \<Rightarrow> bool" where
  "opens_to b env payload \<longleftrightarrow> (\<exists>packet. open_envelope b env = Inr packet \<and> pk_payload packet = payload)"

lemma in_process_sent:
  assumes "in_process_laws a b" "ip_send_key a = ip_receive_key b \<and> length (ip_send_key a) = KEY_SIZE" "device_id p = ip_own b"
      "utf8_encode (ip_own b) = Inr ad \<and> length ad < 2 ^ 31"
    and "sendable a (nonce, c, path, n, v)" "0 \<le> ip_message_id a" "ip_message_id a + 1 < 256 ^ 8" "0 \<le> now_ms" "now_ms < 256 ^ 8"
  shows "\<exists>env net'. in_process_send now_ms nonce p c path n v a net = (Inr (), a\<lparr>ip_message_id := ip_message_id a + 1\<rparr>, net') \<and>
    inbox_of (ip_own b) net' = inbox_of (ip_own b) net @ [env] \<and> opens_to b env (push_payload c path n v)"
proof -
  let ?pk = "\<lparr>pk_header = make_header now_ms CHUNK_DATA (ip_message_id a + 1) 0, pk_payload = push_payload c path n v\<rparr>"
  have ad: "utf8_encode (ip_own b) = Inr ad" "length ad < 2 ^ 31" using assms(4) by simp_all
  obtain pb where pb: "ip_packb a (push_payload c path n v) = Inr pb" "HEADER_SIZE + length pb < 2 ^ 31" using assms(5) by auto
  have unpack: "ip_unpackb b pb = Inr (pk_payload ?pk)" using assms(1,5) pb(1) plain_push_payload [of v] by (simp add: in_process_laws_def)
  let ?h = "(pk_header ?pk)\<lparr>ph_payload_length := int (length pb), ph_crc32 := crc32 pb\<rparr>"
  have "valid_header ?h"
    using assms(6-9) pb(2) crc32_bounds [of pb] by (simp add: valid_header_def make_header_def CURRENT_VERSION_def)
  then obtain hb where hb: "pack_header ?h = Inr hb" using header_codec.encode_total by blast
  then have framed: "encode_packet (ip_packb a) ?pk = Inr (hb @ pb)" by (simp add: encode_packet_def pb(1))
  have decoded: "decode_packet (ip_unpackb b) (hb @ pb) = Inr (?pk\<lparr>pk_header := ?h\<rparr>)"
    using decode_after_header [OF hb, of pb "ip_unpackb b" "[]"] unpack by simp
  have "aead_input (hb @ pb) (ip_send_key a) nonce ad"
    using conjunct2 [OF assms(2)] assms(5) ad(2) pb(2) pack_header_Inr [OF hb] by (simp add: aead_input_def)
  then obtain e where e: "ip_encrypt a (hb @ pb) (ip_send_key a) nonce ad = Inr e" "ep_nonce e = nonce" "length (ep_tag e) = TAG_SIZE"
    "ip_decrypt b e (ip_receive_key b) ad = Inr (hb @ pb)"
    using conjunct1 [OF assms(1) [unfolded in_process_laws_def], rule_format] assms(2) by metis
  have "open_envelope b (pack_envelope e) = Inr (?pk\<lparr>pk_header := ?h\<rparr>)"
    using ad(1) e decoded envelope_round_trip [of e] assms(5) by (simp add: open_envelope_def)
  moreover have "in_process_send now_ms nonce p c path n v a net =
      (Inr (), a\<lparr>ip_message_id := ip_message_id a + 1\<rparr>,
       dict_set (ip_own b) (inbox_of (ip_own b) net @ [pack_envelope e]) (snd (inbox_for (ip_own b) net)))"
    using framed ad(1) e(1) assms(3)
    by (simp add: in_process_send_def next_message_id_def inbox_for_fst [symmetric] split: prod.split)
  ultimately show ?thesis unfolding opens_to_def by (auto simp: inbox_of_def)
qed

lemma in_process_sends_queue:
  assumes "in_process_laws a b" "ip_send_key a = ip_receive_key b \<and> length (ip_send_key a) = KEY_SIZE" "device_id p = ip_own b"
      "utf8_encode (ip_own b) = Inr ad \<and> length ad < 2 ^ 31"
    and "list_all (sendable a) xs" "0 \<le> ip_message_id a" "ip_message_id a + int (length xs) < 256 ^ 8" "0 \<le> now_ms" "now_ms < 256 ^ 8"
  shows "\<exists>a' net' envs. in_process_sends now_ms p xs a net = (Inr (), a', net') \<and>
    inbox_of (ip_own b) net' = inbox_of (ip_own b) net @ envs \<and> list_all2 (opens_to b) envs (map payload_of xs)"
  using assms
proof (induction xs arbitrary: a net)
  case (Cons x xs)
  obtain nonce c path n v where x: "x = (nonce, c, path, n, v)" by (cases x)
  let ?a = "a\<lparr>ip_message_id := ip_message_id a + 1\<rparr>"
  obtain env net1 where s: "in_process_send now_ms nonce p c path n v a net = (Inr (), ?a, net1)"
    "inbox_of (ip_own b) net1 = inbox_of (ip_own b) net @ [env]" "opens_to b env (push_payload c path n v)"
    using in_process_sent [OF Cons.prems(1-4), of nonce c path n v now_ms net] Cons.prems(5-9) x by fastforce
  have "sendable ?a = sendable a" by (rule ext) auto
  then have "list_all (sendable ?a) xs" using Cons.prems(5) by simp
  moreover have "in_process_laws ?a b" using Cons.prems(1) by (simp add: in_process_laws_def)
  ultimately obtain a' net' envs where "in_process_sends now_ms p xs ?a net1 = (Inr (), a', net')"
    "inbox_of (ip_own b) net' = inbox_of (ip_own b) net1 @ envs" "list_all2 (opens_to b) envs (map payload_of xs)"
    using Cons.IH [of ?a net1] Cons.prems by auto
  then show ?case using s by (intro exI [of _ a'] exI [of _ net'] exI [of _ "env # envs"]) (simp add: x)
qed simp

lemma in_process_receives_queue:
  assumes "list_all2 (opens_to b) envs (map payload_of xs)" "list_all (sendable a) xs" "inbox_of (ip_own b) net = envs @ q"
  shows "\<exists>net'. in_process_receives now (length xs) b net = (map (\<lambda>x. Inr (Some (raw_of (push_of now x)))) xs, net') \<and> inbox_of (ip_own b) net' = q"
  using assms
proof (induction xs arbitrary: envs net)
  case (Cons x xs)
  obtain nonce c path n v where x: "x = (nonce, c, path, n, v)" by (cases x)
  obtain env envs' where envs: "envs = env # envs'" "opens_to b env (push_payload c path n v)" "list_all2 (opens_to b) envs' (map payload_of xs)"
    using Cons.prems(1) by (auto simp: x list_all2_Cons2)
  obtain net0 where "inbox_for (ip_own b) net = (env # envs' @ q, net0)"
    using inbox_for_fst [of "ip_own b" net] Cons.prems(3) envs(1) by (cases "inbox_for (ip_own b) net") simp
  then have t: "take_envelope b net = (Some env, dict_set (ip_own b) (envs' @ q) net0)" by (simp add: take_envelope_def)
  have "wire_chunk c" using Cons.prems(2) x by simp
  then have "in_process_receive now b net = (Inr (Some (raw_of (push_of now x))), dict_set (ip_own b) (envs' @ q) net0)"
    using t envs(2) push_payload_arrives [of c] by (auto simp: in_process_receive_def opens_to_def x)
  moreover obtain net' where "in_process_receives now (length xs) b (dict_set (ip_own b) (envs' @ q) net0)
      = (map (\<lambda>x. Inr (Some (raw_of (push_of now x)))) xs, net')" "inbox_of (ip_own b) net' = q"
    using Cons.IH [OF envs(3), of "dict_set (ip_own b) (envs' @ q) net0"] Cons.prems(2) by (auto simp: inbox_of_def)
  ultimately show ?case by simp
qed simp

section \<open>Property\<close>

text \<open>
  C39: What one device sends in process, the other receives, in order. Let the cipher and MessagePack keep their documented
  laws at both ends, the sender's 32-byte sending key be the
  receiver's receiving key, the receiver's id a text that UTF-8 encodes in less than 2 GiB, its inbox empty, the clock of
  the sender and its message ids, counted up to the last push, below 2 to the power 64, and every push a well-formed chunk
  with a 12-byte nonce, a version vector naming each device once and a payload that MessagePack packs into less than 2 GiB.
  Then all pushes are sent without an error, and as many rounds of the receiver return exactly these pushes, with paths,
  totals and version vectors, in the order of sending, each chunk stamped with the time of the receiver, and leave the
  inbox empty.
\<close>

theorem in_process_pushes_arrive:
  assumes "in_process_laws a b" "ip_send_key a = ip_receive_key b \<and> length (ip_send_key a) = KEY_SIZE" "device_id p = ip_own b"
      "utf8_encode (ip_own b) = Inr ad \<and> length ad < 2 ^ 31"
    and "list_all (sendable a) xs" "0 \<le> ip_message_id a" "ip_message_id a + int (length xs) < 256 ^ 8" "0 \<le> now_ms" "now_ms < 256 ^ 8"
    and "inbox_of (ip_own b) net = []"
  shows "\<exists>a' net' net''. in_process_sends now_ms p xs a net = (Inr (), a', net') \<and>
    in_process_receives now (length xs) b net' = (map (\<lambda>x. Inr (Some (raw_of (push_of now x)))) xs, net'') \<and>
    inbox_of (ip_own b) net'' = []"
proof -
  obtain a' net' envs where s: "in_process_sends now_ms p xs a net = (Inr (), a', net')" "inbox_of (ip_own b) net' = envs @ []"
    "list_all2 (opens_to b) envs (map payload_of xs)"
    using in_process_sends_queue [OF assms(1-9), of net] assms(10) by auto
  from in_process_receives_queue [OF s(3) assms(5) s(2), of now] s(1) show ?thesis by blast
qed

definition sample_in_process :: "pystr \<Rightarrow> in_process" where
  "sample_in_process own =
     \<lparr>ip_own = own, ip_encrypt = sc_encrypt (mval_channel own), ip_decrypt = sc_decrypt (mval_channel own),
      ip_packb = sc_packb (mval_channel own), ip_unpackb = sc_unpackb (mval_channel own),
      ip_conversions = \<lparr>cv_repr = (\<lambda>_. []), cv_parse = (\<lambda>_. Inl (Py ValueError))\<rparr>,
      ip_send_key = replicate 32 0, ip_receive_key = replicate 32 0, ip_message_id = 0\<rparr>"

text \<open>The same chunk sent twice.\<close>

definition sample_pushes :: "sent_push list" where
  "sample_pushes = replicate 2 (replicate 12 0, sample_wire_chunk, [102], 1, None)"

theorem in_process_pushes_arrive_witness:
  "\<exists>a' net' net''. in_process_sends 1000 sample_peer sample_pushes (sample_in_process [66]) [] = (Inr (), a', net') \<and>
    in_process_receives 5 2 (sample_in_process [65]) net' =
      (replicate 2 (Inr (Some (raw_of \<lparr>in_path = [102], in_total = 1, in_chunk = arrived 5 sample_wire_chunk, in_version = None\<rparr>))), net'')"
proof -
  let ?a = "sample_in_process [66]" and ?b = "sample_in_process [65]"
  have laws: "in_process_laws ?a ?b"
    by (auto simp: in_process_laws_def sample_in_process_def mval_channel_def TAG_SIZE_def unpack_envelope_def split: if_splits)
  have facts: "ip_send_key ?a = ip_receive_key ?b \<and> length (ip_send_key ?a) = KEY_SIZE" "device_id sample_peer = ip_own ?b"
    "utf8_encode (ip_own ?b) = Inr [65] \<and> length [65 :: byte] < 2 ^ 31" "ip_message_id ?a = 0" "length sample_pushes = 2" "inbox_of (ip_own ?b) [] = []"
    by (simp_all add: sample_in_process_def sample_peer_def device_id_def sample_facts(8) KEY_SIZE_def sample_pushes_def inbox_of_def)
  have "wire_chunk sample_wire_chunk"
    by (simp add: wire_chunk_def sample_wire_chunk_def wf_chunk_def wf_metadata_def)
  then have "list_all (sendable ?a) sample_pushes"
    by (simp add: sample_pushes_def list_all_iff NONCE_SIZE_def HEADER_SIZE_def sample_in_process_def mval_channel_def wire_version_def)
  then obtain a' net' net'' where "in_process_sends 1000 sample_peer sample_pushes ?a [] = (Inr (), a', net')"
    "in_process_receives 5 (length sample_pushes) ?b net' = (map (\<lambda>x. Inr (Some (raw_of (push_of 5 x)))) sample_pushes, net'')"
    using in_process_pushes_arrive [OF laws facts(1-3), of sample_pushes 1000 "[]" 5] facts(4-6) by auto
  moreover have "map (\<lambda>x. Inr (Some (raw_of (push_of 5 x)))) sample_pushes =
      replicate 2 (Inr (Some (raw_of \<lparr>in_path = [102], in_total = 1, in_chunk = arrived 5 sample_wire_chunk, in_version = None\<rparr>)))"
    by (simp add: sample_pushes_def)
  ultimately show ?thesis using facts(5) by metis
qed

end
