(* ===== verification/Mdns_Discovery.thy ===== *)
theory Mdns_Discovery
  imports Peers Utf8 Decimal
begin

text \<open>
  \<^verbatim>\<open>networking/mdns_discovery.py\<close>: this device's advertisement, and what becomes of the advertisements of others. A
  service is a record of the attributes the code reads of \<^verbatim>\<open>zeroconf\<close>'s \<^verbatim>\<open>ServiceInfo\<close>. What \<^verbatim>\<open>zeroconf\<close> and
  the observers raise are arguments, and so is whether the thread that calls the listener has a running event loop.
\<close>

definition SERVICE_TYPE :: pystr where "SERVICE_TYPE = codes ''_securesync._tcp.local.''"

type_synonym discovery_observer = nat

record mdns =
  md_device_id :: pystr
  md_hostname :: pystr
  md_fingerprint :: pystr
  md_port :: int
  md_version :: pystr
  md_zeroconf :: bool
  md_browser :: bool
  md_running :: bool
  md_observers :: "discovery_observer list"

text \<open>A property of an advertisement may have no value.\<close>

record service_info =
  sv_name :: pystr
  sv_properties :: "(bytes, bytes option) dict"
  sv_addresses :: "bytes list"
  sv_port :: "int option"
  sv_server :: pystr

definition mdns_subscribe :: "discovery_observer \<Rightarrow> mdns \<Rightarrow> mdns" where
  "mdns_subscribe ob m = (if ob \<in> set (md_observers m) then m else m\<lparr>md_observers := md_observers m @ [ob]\<rparr>)"

definition mdns_unsubscribe :: "discovery_observer \<Rightarrow> mdns \<Rightarrow> mdns" where
  "mdns_unsubscribe ob m = (if ob \<in> set (md_observers m) then m\<lparr>md_observers := remove1 ob (md_observers m)\<rparr> else m)"

section \<open>The own advertisement\<close>

definition own_service :: "mdns \<Rightarrow> service_info result" where
  "own_service m =
     rbind (utf8_encode (md_device_id m)) (\<lambda>i.
     rbind (utf8_encode (md_hostname m)) (\<lambda>h.
     rbind (utf8_encode (md_fingerprint m)) (\<lambda>f.
     rbind (utf8_encode (md_version m)) (\<lambda>v.
     Inr \<lparr>sv_name = md_device_id m @ codes ''.'' @ SERVICE_TYPE,
       sv_properties = [(byte_lit ''device_id'', Some i), (byte_lit ''hostname'', Some h),
         (byte_lit ''fingerprint'', Some f), (byte_lit ''version'', Some v)],
       sv_addresses = [[0, 0, 0, 0]], sv_port = Some (md_port m), sv_server = md_hostname m @ codes ''.local.''\<rparr>))))"

text \<open>\<^verbatim>\<open>start\<close> and what creating \<^verbatim>\<open>Zeroconf\<close>, registering and browsing raise; the service that was registered.\<close>

definition mdns_start :: "unit result \<Rightarrow> unit result \<Rightarrow> unit result \<Rightarrow> mdns \<Rightarrow> service_info option result \<times> mdns" where
  "mdns_start create register browse m =
     (if md_running m then (Inr None, m)
      else
        case create of
          Inl e \<Rightarrow> (Inl e, m)
        | Inr _ \<Rightarrow>
            let m1 = m\<lparr>md_zeroconf := True\<rparr> in
            (case rbind (own_service m) (\<lambda>info. rbind register (\<lambda>_. rbind browse (\<lambda>_. Inr info))) of
               Inl e \<Rightarrow> (Inl e, m1)
             | Inr info \<Rightarrow> (Inr (Some info), m1\<lparr>md_browser := True, md_running := True\<rparr>)))"

definition mdns_stop :: "unit result \<Rightarrow> unit result \<Rightarrow> mdns \<Rightarrow> unit result \<times> mdns" where
  "mdns_stop unregister closing m =
     (if \<not> md_running m then (Inr (), m)
      else
        case if md_zeroconf m then rbind unregister (\<lambda>_. closing) else Inr () of
          Inl e \<Rightarrow> (Inl e, m)
        | Inr _ \<Rightarrow> (Inr (), m\<lparr>md_zeroconf := False, md_browser := False, md_running := False\<rparr>))"

section \<open>Advertisements of other devices\<close>

text \<open>\<^verbatim>\<open>socket.inet_ntoa\<close>\<close>

definition inet_ntoa :: "bytes \<Rightarrow> pystr result" where
  "inet_ntoa a =
     (case a of
        [b0, b1, b2, b3] \<Rightarrow>
          Inr (decimal (unat b0) @ codes ''.'' @ decimal (unat b1) @ codes ''.'' @ decimal (unat b2) @ codes ''.'' @
            decimal (unat b3))
      | _ \<Rightarrow> Inl (Py OSError))"

text \<open>\<^verbatim>\<open>props.get(key)\<close>, where a missing, absent or empty value ends the handler.\<close>

definition prop_value :: "service_info \<Rightarrow> string \<Rightarrow> bytes option" where
  "prop_value info key =
     (case dict_get (sv_properties info) (byte_lit key) of
        Some (Some (b # bs)) \<Rightarrow> Some (b # bs)
      | _ \<Rightarrow> None)"

definition service_port :: "service_info \<Rightarrow> int option" where
  "service_port info = (case sv_port info of Some p \<Rightarrow> (if p = 0 then None else Some p) | None \<Rightarrow> None)"

definition first_address :: "service_info \<Rightarrow> bytes result" where
  "first_address info = (case sv_addresses info of [] \<Rightarrow> Inl (Py IndexError) | a # _ \<Rightarrow> Inr a)"

text \<open>The peer that an advertisement describes, if it describes another device; \<open>now\<close> is the default of \<^verbatim>\<open>last_seen\<close>.\<close>

definition service_peer :: "int \<Rightarrow> pystr \<Rightarrow> bytes \<Rightarrow> bytes \<Rightarrow> bytes \<Rightarrow> int \<Rightarrow> service_info \<Rightarrow> peer result" where
  "service_peer now i host fp v p info =
     rbind (utf8_decode host) (\<lambda>hostname.
     rbind (utf8_decode fp) (\<lambda>fingerprint.
     rbind (first_address info) (\<lambda>a.
     rbind (inet_ntoa a) (\<lambda>ip.
     rbind (utf8_decode v) (\<lambda>version.
     Inr \<lparr>pr_identity = \<lparr>pi_device_id = i, pi_hostname = hostname, pi_fingerprint = fingerprint\<rparr>,
       pr_address = \<lparr>ad_ip_address = ip, ad_port = p\<rparr>, pr_capabilities = \<lparr>pc_version = version, pc_features = []\<rparr>,
       pr_status = ONLINE, pr_last_seen = now\<rparr>)))))"

definition parse_service :: "int \<Rightarrow> mdns \<Rightarrow> service_info \<Rightarrow> peer option result" where
  "parse_service now m info =
     (case prop_value info ''device_id'' of
        None \<Rightarrow> Inr None
      | Some ib \<Rightarrow>
          rbind (utf8_decode ib) (\<lambda>i.
          if i = md_device_id m then Inr None
          else
            (case (prop_value info ''hostname'', prop_value info ''fingerprint'', prop_value info ''version'', service_port info) of
               (Some host, Some fp, Some v, Some p) \<Rightarrow> rbind (service_peer now i host fp v p info) (\<lambda>q. Inr (Some q))
             | _ \<Rightarrow> Inr None)))"

text \<open>The observers are told in turn; the first that raises ends it.\<close>

fun tell_observers :: "(discovery_observer \<Rightarrow> unit result) \<Rightarrow> discovery_observer list \<Rightarrow> discovery_observer list \<times> unit result" where
  "tell_observers answer [] = ([], Inr ())"
| "tell_observers answer (ob # obs) =
     (case answer ob of
        Inl e \<Rightarrow> ([ob], Inl e)
      | Inr _ \<Rightarrow> (case tell_observers answer obs of (told, r) \<Rightarrow> (ob # told, r)))"

definition skipped_error :: "exn \<Rightarrow> bool" where
  "skipped_error e \<longleftrightarrow> e \<in> {Py KeyError, Py IndexError, Py UnicodeDecodeError}"

definition skip_errors :: "unit result \<Rightarrow> unit result" where
  "skip_errors r = (case r of Inl e \<Rightarrow> (if skipped_error e then Inr () else Inl e) | Inr _ \<Rightarrow> Inr ())"

text \<open>\<^verbatim>\<open>_handle_discovered_service\<close>: the observers that were told, of which peer, and how it ends.\<close>

definition handle_discovered_service ::
  "int \<Rightarrow> (discovery_observer \<Rightarrow> unit result) \<Rightarrow> mdns \<Rightarrow> service_info \<Rightarrow> (peer option \<times> discovery_observer list) \<times> unit result" where
  "handle_discovered_service now answer m info =
     (case parse_service now m info of
        Inl e \<Rightarrow> ((None, []), skip_errors (Inl e))
      | Inr None \<Rightarrow> ((None, []), Inr ())
      | Inr (Some p) \<Rightarrow> (case tell_observers answer (md_observers m) of (told, r) \<Rightarrow> ((Some p, told), skip_errors r)))"

section \<open>The listener\<close>

text \<open>What a call of \<^verbatim>\<open>zeroconf\<close> schedules on the event loop. \<^verbatim>\<open>asyncio.get_running_loop()\<close> needs a loop that runs in the calling thread.\<close>

definition add_service :: "bool \<Rightarrow> service_info option \<Rightarrow> service_info option result" where
  "add_service loop_in_thread info =
     (case info of
        None \<Rightarrow> Inr None
      | Some s \<Rightarrow> raise_if (\<not> loop_in_thread) (Py RuntimeError) (Inr (Some s)))"

definition update_service :: "bool \<Rightarrow> service_info option \<Rightarrow> service_info option result" where
  "update_service loop_in_thread info = add_service loop_in_thread info"

definition lost_device_id :: "pystr \<Rightarrow> pystr" where
  "lost_device_id name = takeWhile (\<lambda>c. c \<noteq> 46) name"

definition remove_service :: "bool \<Rightarrow> pystr \<Rightarrow> mdns \<Rightarrow> (discovery_observer \<times> pystr) list result" where
  "remove_service loop_in_thread name m =
     raise_if (md_observers m \<noteq> [] \<and> \<not> loop_in_thread) (Py RuntimeError)
       (Inr (map (\<lambda>ob. (ob, lost_device_id name)) (md_observers m)))"

section \<open>Lemmas\<close>

lemma encoded_not_empty: "utf8_encode s = Inr b \<Longrightarrow> s \<noteq> [] \<Longrightarrow> b \<noteq> []"
  using utf8.decode_encode [of s b] utf8.decode_encode [of "[]" "[]"]
  by (auto simp: utf8_encode_def split: if_splits)

lemma inet_ntoa_address: "length a = 4 \<Longrightarrow> \<exists>ip. inet_ntoa a = Inr ip"
  by (auto simp: inet_ntoa_def length_Suc_conv numeral_eq_Suc)

text \<open>Different addresses have different texts.\<close>

lemma dotted_inject:
  "list_all (\<lambda>d. 48 \<le> d) s \<Longrightarrow> list_all (\<lambda>d. 48 \<le> d) t \<Longrightarrow> s @ codes ''.'' @ u = t @ codes ''.'' @ v \<longleftrightarrow> s = t \<and> u = v"
proof (induction s arbitrary: t)
  case Nil
  then show ?case by (cases t) (auto simp: codes_def)
next
  case (Cons c s)
  then show ?case by (cases t) (auto simp: codes_def)
qed

lemma decimal_from_48: "list_all (\<lambda>d. 48 \<le> d) (decimal n)"
  using decimal_digits [of n] by (auto simp: list_all_iff)

lemma inet_ntoa_inject: "inet_ntoa a = Inr s \<Longrightarrow> inet_ntoa b = Inr s \<Longrightarrow> a = b"
  by (auto simp: inet_ntoa_def dotted_inject decimal_from_48 decimal_inject word_unat_eq_iff split: list.splits)

lemma lost_device_id_name: "lost_device_id (i @ codes ''.'' @ SERVICE_TYPE) = i \<longleftrightarrow> 46 \<notin> set i"
proof -
  have "takeWhile (\<lambda>c. c \<noteq> 46) (i @ 46 # s) = takeWhile (\<lambda>c. c \<noteq> 46) i" for s :: pystr
    by (induction i) auto
  then have "lost_device_id (i @ codes ''.'' @ SERVICE_TYPE) = takeWhile (\<lambda>c. c \<noteq> 46) i"
    by (simp add: lost_device_id_def codes_def)
  then show ?thesis by (auto simp: takeWhile_eq_all_conv)
qed

text \<open>A start that fails after \<^verbatim>\<open>Zeroconf\<close> was created leaves it open, and \<^verbatim>\<open>stop\<close> does not close it.\<close>

lemma failed_start_leaves_zeroconf:
  assumes "\<not> md_running m" "register = Inl e" "own_service m = Inr info"
  shows "mdns_start (Inr ()) register browse m = (Inl e, m\<lparr>md_zeroconf := True\<rparr>) \<and>
    mdns_stop unregister closing (m\<lparr>md_zeroconf := True\<rparr>) = (Inr (), m\<lparr>md_zeroconf := True\<rparr>)"
  using assms by (simp add: mdns_start_def mdns_stop_def Let_def)

section \<open>Property\<close>

text \<open>The peer another device should see in the advertisement of \<open>m\<close>.\<close>

definition described :: "int \<Rightarrow> pystr \<Rightarrow> mdns \<Rightarrow> peer" where
  "described now ip m =
     \<lparr>pr_identity = \<lparr>pi_device_id = md_device_id m, pi_hostname = md_hostname m, pi_fingerprint = md_fingerprint m\<rparr>,
      pr_address = \<lparr>ad_ip_address = ip, ad_port = md_port m\<rparr>, pr_capabilities = \<lparr>pc_version = md_version m, pc_features = []\<rparr>,
      pr_status = ONLINE, pr_last_seen = now\<rparr>"

definition advertisable :: "mdns \<Rightarrow> bool" where
  "advertisable m \<longleftrightarrow> md_device_id m \<noteq> [] \<and> md_hostname m \<noteq> [] \<and> md_fingerprint m \<noteq> [] \<and> md_version m \<noteq> [] \<and> md_port m \<noteq> 0"

lemma own_service_props:
  assumes "own_service m = Inr info" "advertisable m"
  shows "\<exists>i h f v. prop_value info ''device_id'' = Some i \<and> utf8_decode i = Inr (md_device_id m) \<and>
    prop_value info ''hostname'' = Some h \<and> utf8_decode h = Inr (md_hostname m) \<and>
    prop_value info ''fingerprint'' = Some f \<and> utf8_decode f = Inr (md_fingerprint m) \<and>
    prop_value info ''version'' = Some v \<and> utf8_decode v = Inr (md_version m) \<and> service_port info = Some (md_port m)"
proof -
  obtain i h f v where e: "utf8_encode (md_device_id m) = Inr i" "utf8_encode (md_hostname m) = Inr h"
    "utf8_encode (md_fingerprint m) = Inr f" "utf8_encode (md_version m) = Inr v"
    and info: "sv_properties info = [(byte_lit ''device_id'', Some i), (byte_lit ''hostname'', Some h),
         (byte_lit ''fingerprint'', Some f), (byte_lit ''version'', Some v)]" "sv_port info = Some (md_port m)"
    using assms(1) by (auto simp: own_service_def result_simps)
  have d: "utf8_decode b = Inr s" if "utf8_encode s = Inr b" for s b
    using that by (intro utf8.decode_encode) (auto simp: utf8_encode_def split: if_splits)
  have "\<exists>b bs. x = b # bs" if "utf8_encode s = Inr x" "s \<noteq> []" for s x
    using encoded_not_empty [OF that] by (cases x) auto
  with e assms(2) obtain i0 i1 h0 h1 f0 f1 v0 v1 where n: "i = i0 # i1" "h = h0 # h1" "f = f0 # f1" "v = v0 # v1"
    unfolding advertisable_def by metis
  show ?thesis
    using e [THEN d] assms(2) by (simp add: n prop_value_def info byte_lit_def service_port_def advertisable_def)
qed

text \<open>An advertisement with the own id is dropped, whoever made it.\<close>

lemma own_service_ignored:
  assumes "own_service m = Inr info" "md_device_id other = md_device_id m"
  shows "parse_service now other (info\<lparr>sv_addresses := addresses\<rparr>) = Inr None"
proof -
  obtain i where i: "utf8_encode (md_device_id m) = Inr i" "dict_get (sv_properties info) (byte_lit ''device_id'') = Some (Some i)"
    using assms(1) by (auto simp: own_service_def result_simps)
  have "utf8_decode i = Inr (md_device_id m)"
    using i(1) by (intro utf8.decode_encode) (auto simp: utf8_encode_def split: if_splits)
  then show ?thesis using i(2) assms(2) by (cases i) (simp_all add: parse_service_def prop_value_def)
qed

text \<open>
  C38: An advertisement says who made it. A device that starts with non-empty names and a port is, to every device with
  another id that resolves its advertisement to an IPv4 address, exactly the online peer with its id, host name,
  fingerprint, version, port and address, and it ignores its own advertisement. The discovery use case then lists it as
  online; when the advertisement is withdrawn, it goes offline if and only if its id contains no dot.
\<close>

theorem advertisement_discovered:
  assumes "mdns_start (Inr ()) (Inr ()) (Inr ()) m = (Inr (Some info), m')" "advertisable m"
    and "length a = 4" "md_device_id other \<noteq> md_device_id m" "peers_ok r"
  shows "\<exists>ip. inet_ntoa a = Inr ip \<and>
    parse_service now other (info\<lparr>sv_addresses := a # more_addresses\<rparr>) = Inr (Some (described now ip m)) \<and>
    parse_service now m' (info\<lparr>sv_addresses := a # more_addresses\<rparr>) = Inr None \<and>
    is_online (on_peer_discovered (described now ip m) r) (md_device_id m) \<and>
    (is_online (on_peer_lost (lost_device_id (sv_name info)) (on_peer_discovered (described now ip m) r)) (md_device_id m)
      \<longleftrightarrow> 46 \<in> set (md_device_id m))"
proof -
  let ?seen = "info\<lparr>sv_addresses := a # more_addresses\<rparr>"
  have own: "own_service m = Inr info" "md_device_id m' = md_device_id m" "sv_name info = md_device_id m @ codes ''.'' @ SERVICE_TYPE"
    using assms(1) by (auto simp: mdns_start_def own_service_def result_simps Let_def split: if_splits sum.splits)
  obtain ip where ip: "inet_ntoa a = Inr ip" using inet_ntoa_address [OF assms(3)] by blast
  have props: "prop_value ?seen k = prop_value info k" "service_port ?seen = service_port info" for k
    by (simp_all add: prop_value_def service_port_def)
  have parse: "parse_service now other ?seen = Inr (Some (described now ip m))" "parse_service now m' ?seen = Inr None"
    using own_service_props [OF own(1) assms(2)] assms(4) own(2) ip
    by (auto simp: parse_service_def props service_peer_def first_address_def described_def)
  let ?p = "described now ip m"
  have i: "device_id ?p = md_device_id m" by (simp add: described_def device_id_def)
  note step = is_online_step [OF assms(5), of "Discovered ?p"]
  note lost = is_online_step [OF discovery.step_inv [OF assms(5), of "Discovered ?p"], of "Lost (lost_device_id (sv_name info))"]
  have "is_online (on_peer_discovered ?p r) (md_device_id m)" using step i by simp
  moreover from this have "is_online (on_peer_lost (lost_device_id (sv_name info)) (on_peer_discovered ?p r)) (md_device_id m)
      \<longleftrightarrow> 46 \<in> set (md_device_id m)"
    using lost [of "md_device_id m"] lost_device_id_name [of "md_device_id m"] own(3) by auto
  ultimately show ?thesis using ip parse by blast
qed

definition sample_mdns :: "pystr \<Rightarrow> mdns" where
  "sample_mdns i = \<lparr>md_device_id = i, md_hostname = [104], md_fingerprint = [102], md_port = 8080, md_version = [49],
     md_zeroconf = False, md_browser = False, md_running = False, md_observers = []\<rparr>"

theorem advertisement_discovered_witness:
  "\<exists>info m'. mdns_start (Inr ()) (Inr ()) (Inr ()) (sample_mdns [97]) = (Inr (Some info), m') \<and>
    parse_service 5 (sample_mdns [98]) (info\<lparr>sv_addresses := [[10, 0, 0, 7]]\<rparr>)
      = Inr (Some (described 5 (codes ''10.0.0.7'') (sample_mdns [97])))"
proof -
  obtain info m' where s: "mdns_start (Inr ()) (Inr ()) (Inr ()) (sample_mdns [97]) = (Inr (Some info), m')"
    by (simp add: mdns_start_def own_service_def sample_mdns_def utf8_encode_def scalar_def Let_def)
  have ip: "inet_ntoa [10, 0, 0, 7] = Inr (codes ''10.0.0.7'')"
    by (simp add: inet_ntoa_def decimal.simps codes_def)
  have "advertisable (sample_mdns [97])" "md_device_id (sample_mdns [98]) \<noteq> md_device_id (sample_mdns [97])" "peers_ok []"
    by (simp_all add: advertisable_def sample_mdns_def peers_ok_def)
  from advertisement_discovered [OF s this(1) _ this(2,3), of "[10, 0, 0, 7]" 5 "[]"] ip s show ?thesis by auto
qed

end
