(* ===== verification/Filesystem_Events.thy ===== *)
theory Filesystem_Events
  imports Chunk_Repository
begin

text \<open>
  File system events and their debouncing: \<^verbatim>\<open>domain/events.py\<close>, \<^verbatim>\<open>filesystem/event_translator.py\<close> and
  \<^verbatim>\<open>filesystem/debounce.py\<close>. An event of \<^verbatim>\<open>watchdog\<close> is a record of the attributes the translator reads; the
  monotonic clock and the current time are arguments. A lock makes each call of the debouncer atomic.
\<close>

section \<open>Events\<close>

datatype event_type = CREATED | MODIFIED | DELETED | MOVED

fun event_type_value :: "event_type \<Rightarrow> pystr" where
  "event_type_value CREATED = codes ''created''"
| "event_type_value MODIFIED = codes ''modified''"
| "event_type_value DELETED = codes ''deleted''"
| "event_type_value MOVED = codes ''moved''"

record fs_event =
  fe_type :: event_type
  fe_src :: pure_path
  fe_is_directory :: bool
  fe_timestamp :: int
  fe_dest :: "pure_path option"

definition mk_FileSystemEvent ::
  "event_type \<Rightarrow> pure_path \<Rightarrow> bool \<Rightarrow> int \<Rightarrow> pure_path option \<Rightarrow> fs_event result" where
  "mk_FileSystemEvent t src is_dir timestamp dest =
     raise_if (t = MOVED \<and> dest = None) (Py ValueError)
    (raise_if (t \<noteq> MOVED \<and> dest \<noteq> None) (Py ValueError)
    (Inr \<lparr>fe_type = t, fe_src = src, fe_is_directory = is_dir, fe_timestamp = timestamp, fe_dest = dest\<rparr>))"

definition is_rename :: "fs_event \<Rightarrow> bool" where
  "is_rename e =
     (case fe_dest e of
        None \<Rightarrow> False
      | Some d \<Rightarrow> fe_type e = MOVED \<and> path_parent (fe_src e) = path_parent d)"

type_synonym event_key = "pystr \<times> pystr \<times> pystr"

definition dedup_key :: "fs_event \<Rightarrow> event_key" where
  "dedup_key e =
     (event_type_value (fe_type e), path_str (fe_src e), case fe_dest e of None \<Rightarrow> [] | Some d \<Rightarrow> path_str d)"

section \<open>Translation\<close>

record raw_event =
  re_type :: pystr
  re_src :: pystr
  re_dest :: pystr
  re_is_directory :: bool

definition event_type_map :: "(pystr, event_type) dict" where
  "event_type_map =
     [(codes ''created'', CREATED), (codes ''modified'', MODIFIED), (codes ''deleted'', DELETED), (codes ''moved'', MOVED)]"

definition is_ignorable_event_type :: "pystr \<Rightarrow> bool" where
  "is_ignorable_event_type t \<longleftrightarrow> t \<in> set [codes ''opened'', codes ''closed'', codes ''closed_no_write'']"

definition translate :: "int \<Rightarrow> raw_event \<Rightarrow> fs_event result" where
  "translate timestamp raw =
     (case dict_get event_type_map (re_type raw) of
        None \<Rightarrow> Inl (Py ValueError)
      | Some t \<Rightarrow>
          mk_FileSystemEvent t (PurePosixPath (re_src raw)) (re_is_directory raw) timestamp
            (if t = MOVED then Some (PurePosixPath (re_dest raw)) else None))"

section \<open>Debouncing\<close>

text \<open>The ordered dictionary is the list of its entries, the least recently set first.\<close>

record 'k debouncer =
  de_window :: real
  de_last_seen :: "('k, real) dict"

definition mk_EventDebouncer :: "real \<Rightarrow> 'k debouncer result" where
  "mk_EventDebouncer window_seconds =
     raise_if (window_seconds < 0) (Py ValueError) (Inr \<lparr>de_window = window_seconds, de_last_seen = []\<rparr>)"

fun evict_stale :: "real \<Rightarrow> real \<Rightarrow> ('k, real) dict \<Rightarrow> ('k, real) dict" where
  "evict_stale window now [] = []"
| "evict_stale window now ((oldest_key, t) # d) =
     (if now - t < window then (oldest_key, t) # d else evict_stale window now d)"

definition move_to_end :: "'k \<Rightarrow> ('k, 'v) dict \<Rightarrow> ('k, 'v) dict" where
  "move_to_end k d = (case dict_get d k of None \<Rightarrow> d | Some v \<Rightarrow> dict_pop k d @ [(k, v)])"

definition should_emit :: "real \<Rightarrow> 'k \<Rightarrow> 'k debouncer \<Rightarrow> bool \<times> 'k debouncer" where
  "should_emit now key b =
     (if de_window b = 0 then (True, b)
      else
        let d = evict_stale (de_window b) now (de_last_seen b) in
        if (case dict_get d key of None \<Rightarrow> False | Some t \<Rightarrow> now - t < de_window b) then (False, b\<lparr>de_last_seen := d\<rparr>)
        else (True, b\<lparr>de_last_seen := move_to_end key (dict_set key now d)\<rparr>))"

definition debouncer_reset :: "'k debouncer \<Rightarrow> 'k debouncer" where
  "debouncer_reset b = b\<lparr>de_last_seen := []\<rparr>"

section \<open>Lemmas on events\<close>

lemma translate_event:
  assumes "translate ts raw = Inr e"
  shows "dict_get event_type_map (re_type raw) = Some (fe_type e)" "fe_src e = PurePosixPath (re_src raw)"
    "(fe_dest e = None) \<longleftrightarrow> fe_type e \<noteq> MOVED"
  using assms by (auto simp: translate_def mk_FileSystemEvent_def result_simps split: option.splits if_splits)

lemma translate_error: "translate ts raw = Inl x \<Longrightarrow> x = Py ValueError \<and> dict_get event_type_map (re_type raw) = None"
  by (auto simp: translate_def mk_FileSystemEvent_def result_simps split: option.splits if_splits)

section \<open>The debouncer agrees with the whole history\<close>

text \<open>
  The reference: every emission is remembered for ever, and an event passes when no emission of its key is less than the
  window old.
\<close>

definition recent :: "real \<Rightarrow> real \<Rightarrow> 'k \<Rightarrow> (real \<times> 'k) list \<Rightarrow> bool" where
  "recent window now key h \<longleftrightarrow> list_ex (\<lambda>(t, k). k = key \<and> now - t < window) h"

text \<open>The calls of \<^verbatim>\<open>should_emit\<close> with their clock readings; the emitted ones come back.\<close>

fun debounce_run :: "(real \<times> 'k) list \<Rightarrow> 'k debouncer \<Rightarrow> (real \<times> 'k) list \<times> 'k debouncer" where
  "debounce_run [] b = ([], b)"
| "debounce_run ((now, key) # cs) b =
     (let (ok, b1) = should_emit now key b; (es, b2) = debounce_run cs b1
      in (if ok then (now, key) # es else es, b2))"

fun reference_run :: "real \<Rightarrow> (real \<times> 'k) list \<Rightarrow> (real \<times> 'k) list \<Rightarrow> (real \<times> 'k) list" where
  "reference_run window h [] = []"
| "reference_run window h ((now, key) # cs) =
     (if recent window now key h then reference_run window h cs
      else (now, key) # reference_run window (h @ [(now, key)]) cs)"

text \<open>What the dictionary holds of the history \<open>h\<close> at time \<open>now\<close>.\<close>

definition seen_ok :: "real \<Rightarrow> (real \<times> 'k) list \<Rightarrow> real \<Rightarrow> ('k, real) dict \<Rightarrow> bool" where
  "seen_ok window h now d \<longleftrightarrow>
     wf_dict d \<and> sorted (map snd d) \<and> set d = {(k, t). (t, k) \<in> set h \<and> now - t < window} \<and> (\<forall>(t, k) \<in> set h. t \<le> now)"

lemma evict_stale_eq: "evict_stale w now d = dropWhile (\<lambda>(k, t). \<not> now - t < w) d"
  by (induction d) auto

lemma set_evict_sorted: "sorted (map snd d) \<Longrightarrow> set (evict_stale w now d) = {(k, t) \<in> set d. now - t < w}"
proof (induction d)
  case (Cons a d)
  obtain k t where a: "a = (k, t)" by (cases a)
  show ?case
  proof (cases "now - t < w")
    case True
    then show ?thesis using Cons.prems by (force simp: a)
  next
    case False
    then show ?thesis using Cons by (auto simp: a)
  qed
qed simp

lemma evict_suffix: "\<exists>xs. d = xs @ evict_stale w now d"
  unfolding evict_stale_eq by (metis takeWhile_dropWhile_id)

lemma seen_evict:
  assumes "seen_ok w h now d" "now \<le> now'"
  shows "seen_ok w h now' (evict_stale w now' d)"
proof -
  obtain xs where d: "d = xs @ evict_stale w now' d" using evict_suffix by blast
  have "wf_dict (xs @ evict_stale w now' d) \<and> sorted (map snd (xs @ evict_stale w now' d))"
    using assms(1) unfolding seen_ok_def by (subst (1 2) d [symmetric]) simp
  then show ?thesis
    using assms set_evict_sorted [of d w now'] unfolding seen_ok_def by (fastforce simp: sorted_append)
qed

lemma delete_append_fresh: "key \<notin> set (dict_keys d) \<Longrightarrow> dict_pop key (d @ [(key, v)]) = d"
  by (induction d) auto

lemma seen_emit:
  assumes "seen_ok w h now d" "\<not> recent w now key h" "0 < w"
  shows "seen_ok w (h @ [(now, key)]) now (move_to_end key (dict_set key now d))"
proof -
  have new: "key \<notin> set (dict_keys d)" using assms(1,2) by (force simp: seen_ok_def recent_def list_ex_iff)
  then have "dict_pop key (dict_set key now d) = d" by (simp add: dict_set_new delete_append_fresh)
  moreover have "dict_get (dict_set key now d) key = Some now" by simp
  ultimately have "move_to_end key (dict_set key now d) = d @ [(key, now)]"
    by (simp only: move_to_end_def option.case)
  then show ?thesis using assms(1,3) new unfolding seen_ok_def by (fastforce simp: sorted_append)
qed

lemma seen_recent:
  assumes "seen_ok w h now d"
  shows "(case dict_get d key of None \<Rightarrow> False | Some t \<Rightarrow> now - t < w) \<longleftrightarrow> recent w now key h"
proof -
  have get: "dict_get d key = Some t \<longleftrightarrow> (t, key) \<in> set h \<and> now - t < w" for t
    using assms by (simp add: seen_ok_def)
  have "(case dict_get d key of None \<Rightarrow> False | Some t \<Rightarrow> now - t < w) \<longleftrightarrow> (\<exists>t. dict_get d key = Some t)"
    using get by (auto split: option.split)
  then show ?thesis unfolding get by (auto simp: recent_def list_ex_iff)
qed

lemma seen_zero:
  assumes "seen_ok 0 h now d" "now \<le> now'"
  shows "d = []" "\<not> recent 0 now' key h" "seen_ok 0 (h @ [(now', key)]) now' []"
proof -
  have h: "t \<le> now" if "(t, k) \<in> set h" for t k using assms(1) that by (auto simp: seen_ok_def)
  have "(k, t) \<notin> set d" for k t using assms(1) h [of t k] by (auto simp: seen_ok_def)
  then show d: "d = []" by (cases d) auto
  show r: "\<not> recent 0 now' key h" using h assms(2) by (fastforce simp: recent_def list_ex_iff)
  have "{(k, t). (t, k) \<in> set (h @ [(now', key)]) \<and> now' - t < 0} = {}" using h assms(2) by fastforce
  then show "seen_ok 0 (h @ [(now', key)]) now' []" using h assms(2) by (fastforce simp: seen_ok_def)
qed

lemma should_emit_exact:
  assumes "seen_ok w h now (de_last_seen b)" "de_window b = w" "0 \<le> w" "now \<le> now'"
  shows "\<exists>b'. should_emit now' key b = (\<not> recent w now' key h, b') \<and> de_window b' = w \<and>
    seen_ok w (if recent w now' key h then h else h @ [(now', key)]) now' (de_last_seen b')"
proof (cases "w = 0")
  case True
  then show ?thesis using seen_zero [OF assms(1) [unfolded True] assms(4)] assms(2) by (simp add: should_emit_def)
next
  case False
  then show ?thesis
    using seen_emit [OF seen_evict [OF assms(1,4)]] seen_evict [OF assms(1,4)] seen_recent [OF seen_evict [OF assms(1,4)]] assms(3)
    unfolding assms(2) [symmetric] by (simp add: should_emit_def Let_def)
qed

lemma debounce_run_exact:
  assumes "seen_ok w h now (de_last_seen b)" "de_window b = w" "0 \<le> w" "sorted (now # map fst cs)"
  shows "\<exists>b'. debounce_run cs b = (reference_run w h cs, b') \<and>
    seen_ok w (h @ reference_run w h cs) (last (now # map fst cs)) (de_last_seen b')"
  using assms
proof (induction cs arbitrary: h now b)
  case (Cons c cs)
  obtain now' key where c: "c = (now', key)" by (cases c)
  let ?h = "if recent w now' key h then h else h @ [(now', key)]"
  obtain b1 where b1: "should_emit now' key b = (\<not> recent w now' key h, b1)" "de_window b1 = w" "seen_ok w ?h now' (de_last_seen b1)"
    using should_emit_exact [OF Cons.prems(1-3), of now' key] Cons.prems(4) c by auto
  obtain b2 where "debounce_run cs b1 = (reference_run w ?h cs, b2)"
    "seen_ok w (?h @ reference_run w ?h cs) (last (now' # map fst cs)) (de_last_seen b2)"
    using Cons.IH [OF b1(3,2) Cons.prems(3)] Cons.prems(4) c by auto
  then show ?case using b1(1) by (auto simp: c split: if_splits)
qed simp

text \<open>Emissions of one key are at least the window apart.\<close>

abbreviation gaps :: "real \<Rightarrow> (real \<times> 'k) list \<Rightarrow> bool" where
  "gaps w h \<equiv> sorted_wrt (\<lambda>(t, k) (t', k'). k = k' \<longrightarrow> w \<le> t' - t) h"

lemma gaps_emit: "gaps w h \<Longrightarrow> \<not> recent w now key h \<Longrightarrow> gaps w (h @ [(now, key)])"
  by (auto simp: sorted_wrt_append recent_def list_ex_iff not_less)

lemma gaps_reference: "gaps w h \<Longrightarrow> gaps w (h @ reference_run w h cs)"
proof (induction cs arbitrary: h)
  case (Cons c cs)
  obtain now key where c: "c = (now, key)" by (cases c)
  show ?case
  proof (cases "recent w now key h")
    case False
    from Cons.IH [OF gaps_emit [OF Cons.prems False]] False show ?thesis by (simp add: c)
  qed (use Cons in \<open>simp add: c\<close>)
qed simp

section \<open>Properties\<close>

text \<open>
  C36: The debouncer, which forgets, emits exactly what it would emit if it remembered everything. For calls with a clock
  that does not go back, an event passes if and only if no event with its key was emitted less than the window ago, so
  two emissions with the same key are at least the window apart; and after the last call the dictionary holds each
  emission less than the window old and nothing else, one entry per key.
\<close>

theorem debounce_exact:
  assumes "mk_EventDebouncer w = Inr b" "sorted (map fst calls)" "debounce_run calls b = (emitted, b')"
  shows "emitted = reference_run w [] calls \<and> gaps w emitted \<and>
    (calls \<noteq> [] \<longrightarrow> distinct (dict_keys (de_last_seen b')) \<and>
       set (de_last_seen b') = {(k, t). (t, k) \<in> set emitted \<and> fst (last calls) - t < w})"
proof -
  have b: "0 \<le> w" "b = \<lparr>de_window = w, de_last_seen = []\<rparr>"
    using assms(1) by (auto simp: mk_EventDebouncer_def result_simps)
  have run: "emitted = reference_run w [] calls \<and> (calls \<noteq> [] \<longrightarrow> seen_ok w emitted (fst (last calls)) (de_last_seen b'))"
    using debounce_run_exact [of w "[]" "fst (hd calls)" b calls] assms(2,3) b
    by (cases calls) (auto simp: seen_ok_def last_map)
  moreover have "gaps w (reference_run w [] calls)" using gaps_reference [of w "[]" calls] by simp
  ultimately show ?thesis by (auto simp: seen_ok_def)
qed

theorem debounce_exact_witness:
  "debounce_run [(0, True), (1, True), (1, False), (3, True)] \<lparr>de_window = 2, de_last_seen = []\<rparr>
    = ([(0, True), (1, False), (3, True)], \<lparr>de_window = 2, de_last_seen = [(True, 3)]\<rparr>) \<and>
   [(0, True), (1, False), (3, True)] = reference_run 2 [] [(0, True), (1, True), (1, False), (3, True)]"
proof -
  let ?cs = "[(0, True), (1, True), (1, False), (3, True)] :: (real \<times> bool) list"
  have r: "debounce_run ?cs \<lparr>de_window = 2, de_last_seen = []\<rparr>
      = ([(0, True), (1, False), (3, True)], \<lparr>de_window = 2, de_last_seen = [(True, 3)]\<rparr>)"
    by (simp add: should_emit_def move_to_end_def)
  have "mk_EventDebouncer 2 = Inr \<lparr>de_window = 2, de_last_seen = []\<rparr>" by (simp add: mk_EventDebouncer_def)
  from debounce_exact [OF this _ r] r show ?thesis by simp
qed

end
