(* ===== verification/Watcher.thy ===== *)
theory Watcher
  imports Filesystem_Events Transitions
begin

text \<open>
  \<^verbatim>\<open>filesystem/watchdog_watcher.py\<close> and \<^verbatim>\<open>application/use_cases/monitor_directories.py\<close>: the watcher as a state
  machine. \<^verbatim>\<open>watchdog\<close> calls the handler from its own thread; an event that passes is handed to the event loop, where
  a task notifies the observers one after the other. A step is a call, an event of \<^verbatim>\<open>watchdog\<close>, or a task that
  starts or calls its next observer, so the tasks of several events interleave. Which paths exist, and what the
  operating system and the observers refuse, are arguments.
\<close>

section \<open>State\<close>

type_synonym observer = nat

text \<open>A task: its event, the observers it copied when it started, and those it still has to call.\<close>

record notification =
  nt_event :: fs_event
  nt_observers :: "observer list"
  nt_left :: "observer list"

text \<open>
  \<open>wa_watch\<close> and \<open>wa_loop\<close> say that \<^verbatim>\<open>_watchdog_observer\<close> and \<^verbatim>\<open>_loop\<close> are set. \<open>wa_handed\<close> are the events handed to the
  event loop, in order, with the clock at their emission; \<open>wa_tasks\<close> are the tasks started for the first of them;
  \<open>wa_log\<close> records the calls of observers, with the number of the task. \<open>wa_clock\<close> is the last reading of the clock.
\<close>

record watcher =
  wa_paths :: "pure_path list"
  wa_debouncer :: "event_key debouncer"
  wa_observers :: "observer list"
  wa_watch :: bool
  wa_loop :: bool
  wa_running :: bool
  wa_clock :: real
  wa_handed :: "(real \<times> fs_event) list"
  wa_tasks :: "notification list"
  wa_log :: "(nat \<times> observer) list"

definition dict_fromkeys :: "'a list \<Rightarrow> 'a list" where
  "dict_fromkeys xs = dict_keys (foldl (\<lambda>d x. dict_set x () d) [] xs)"

definition mk_WatchdogFileWatcher :: "pure_path list \<Rightarrow> real \<Rightarrow> real \<Rightarrow> watcher result" where
  "mk_WatchdogFileWatcher paths debounce_seconds clock =
     (let unique = dict_fromkeys paths in
      raise_if (unique = []) (Py ValueError)
     (rbind (mk_EventDebouncer debounce_seconds) (\<lambda>d.
      Inr \<lparr>wa_paths = unique, wa_debouncer = d, wa_observers = [], wa_watch = False, wa_loop = False, wa_running = False,
        wa_clock = clock, wa_handed = [], wa_tasks = [], wa_log = []\<rparr>)))"

section \<open>Calls\<close>

definition watcher_subscribe :: "bool \<Rightarrow> observer \<Rightarrow> watcher \<Rightarrow> unit result \<times> watcher" where
  "watcher_subscribe is_observer ob w =
     (if \<not> is_observer then (Inl (Py TypeError), w)
      else if ob \<in> set (wa_observers w) then (Inr (), w)
      else (Inr (), w\<lparr>wa_observers := wa_observers w @ [ob]\<rparr>))"

definition watcher_unsubscribe :: "observer \<Rightarrow> watcher \<Rightarrow> watcher" where
  "watcher_unsubscribe ob w =
     (if ob \<in> set (wa_observers w) then w\<lparr>wa_observers := remove1 ob (wa_observers w)\<rparr> else w)"

fun validate_paths :: "fs \<Rightarrow> pure_path list \<Rightarrow> unit result" where
  "validate_paths f [] = Inr ()"
| "validate_paths f (p # ps) =
     raise_if (f p = None) (Domain InvalidWatchTargetError)
    (raise_if (f p \<noteq> Some DirNode) (Domain InvalidWatchTargetError) (validate_paths f ps))"

text \<open>An \<^verbatim>\<open>OSError\<close> of \<^verbatim>\<open>watchdog\<close> leaves the event loop set.\<close>

definition watcher_start :: "fs \<Rightarrow> bool \<Rightarrow> watcher \<Rightarrow> unit result \<times> watcher" where
  "watcher_start f refused w =
     (if wa_running w then (Inl (Domain WatcherAlreadyRunningError), w)
      else
        case validate_paths f (wa_paths w) of
          Inl e \<Rightarrow> (Inl e, w)
        | Inr _ \<Rightarrow>
            let w1 = w\<lparr>wa_loop := True\<rparr> in
            if refused then (Inl (Sync FileWatcherError), w1)
            else (Inr (), w1\<lparr>wa_watch := True, wa_running := True\<rparr>))"

text \<open>The state changes before the thread is joined; joining it may fail or time out, which only the caller sees.\<close>

definition watcher_stop :: "bool \<Rightarrow> watcher \<Rightarrow> unit result \<times> watcher" where
  "watcher_stop join_fails w =
     (if \<not> wa_running w \<or> \<not> wa_watch w then (Inr (), w)
      else (if join_fails then Inl (Sync FileWatcherError) else Inr (),
            w\<lparr>wa_running := False, wa_watch := False, wa_loop := False\<rparr>))"

section \<open>Events\<close>

definition on_translated_event :: "bool \<Rightarrow> real \<Rightarrow> fs_event \<Rightarrow> watcher \<Rightarrow> watcher" where
  "on_translated_event loop_closed now e w =
     (if \<not> wa_loop w \<or> loop_closed then w else w\<lparr>wa_handed := wa_handed w @ [(now, e)]\<rparr>)"

definition on_any_event :: "bool \<Rightarrow> real \<Rightarrow> int \<Rightarrow> raw_event \<Rightarrow> watcher \<Rightarrow> watcher" where
  "on_any_event loop_closed now timestamp raw w =
     (case translate timestamp raw of
        Inl _ \<Rightarrow> w
      | Inr e \<Rightarrow>
          (case should_emit now (dedup_key e) (wa_debouncer w) of
             (False, d) \<Rightarrow> w\<lparr>wa_debouncer := d\<rparr>
           | (True, d) \<Rightarrow> on_translated_event loop_closed now e (w\<lparr>wa_debouncer := d\<rparr>)))"

text \<open>The event loop starts the tasks in the order in which they were handed over.\<close>

definition notify_start :: "watcher \<Rightarrow> watcher" where
  "notify_start w =
     w\<lparr>wa_tasks := wa_tasks w @ [\<lparr>nt_event = snd (wa_handed w ! length (wa_tasks w)), nt_observers = wa_observers w,
        nt_left = wa_observers w\<rparr>]\<rparr>"

text \<open>A task calls its next observer; whatever that raises is logged and the task goes on.\<close>

definition notify_next :: "nat \<Rightarrow> watcher \<Rightarrow> watcher" where
  "notify_next i w =
     (case nt_left (wa_tasks w ! i) of
        [] \<Rightarrow> w
      | ob # obs \<Rightarrow>
          w\<lparr>wa_tasks := (wa_tasks w)[i := (wa_tasks w ! i)\<lparr>nt_left := obs\<rparr>], wa_log := wa_log w @ [(i, ob)]\<rparr>)"

section \<open>The monitoring use case\<close>

definition register_observer :: "bool \<Rightarrow> observer \<Rightarrow> watcher \<Rightarrow> unit result \<times> watcher" where
  "register_observer is_observer ob w = watcher_subscribe is_observer ob w"

definition unregister_observer :: "observer \<Rightarrow> watcher \<Rightarrow> watcher" where
  "unregister_observer ob w = watcher_unsubscribe ob w"

definition monitor_start :: "fs \<Rightarrow> bool \<Rightarrow> watcher \<Rightarrow> unit result \<times> watcher" where
  "monitor_start f refused w = watcher_start f refused w"

definition monitor_stop :: "bool \<Rightarrow> watcher \<Rightarrow> unit result \<times> watcher" where
  "monitor_stop join_fails w = watcher_stop join_fails w"

text \<open>\<^verbatim>\<open>async with use_case: body\<close>\<close>

definition monitored ::
  "fs \<Rightarrow> bool \<Rightarrow> bool \<Rightarrow> (watcher \<Rightarrow> 'a result \<times> watcher) \<Rightarrow> watcher \<Rightarrow> 'a result \<times> watcher" where
  "monitored f refused join_fails body w =
     (case monitor_start f refused w of
        (Inl e, w1) \<Rightarrow> (Inl e, w1)
      | (Inr _, w1) \<Rightarrow>
          let (r, w2) = body w1; (s, w3) = monitor_stop join_fails w2
          in (case s of Inl e \<Rightarrow> (Inl e, w3) | Inr _ \<Rightarrow> (r, w3)))"

section \<open>Steps\<close>

datatype watcher_event =
    Subscribe bool observer
  | Unsubscribe observer
  | Start fs bool
  | Stop bool
  | RawEvent bool real int raw_event
  | NotifyStart
  | NotifyNext nat

text \<open>The clock does not go back; a task is started for an event that was handed over, and calls an observer it has left.\<close>

fun enabled :: "watcher_event \<Rightarrow> watcher \<Rightarrow> bool" where
  "enabled (RawEvent _ now _ _) w \<longleftrightarrow> wa_clock w \<le> now"
| "enabled NotifyStart w \<longleftrightarrow> length (wa_tasks w) < length (wa_handed w)"
| "enabled (NotifyNext i) w \<longleftrightarrow> i < length (wa_tasks w)"
| "enabled _ w \<longleftrightarrow> True"

fun watcher_do :: "watcher_event \<Rightarrow> watcher \<Rightarrow> watcher" where
  "watcher_do (Subscribe ok ob) w = snd (register_observer ok ob w)"
| "watcher_do (Unsubscribe ob) w = unregister_observer ob w"
| "watcher_do (Start f refused) w = snd (monitor_start f refused w)"
| "watcher_do (Stop join_fails) w = snd (monitor_stop join_fails w)"
| "watcher_do (RawEvent loop_closed now ts raw) w = on_any_event loop_closed now ts raw (w\<lparr>wa_clock := now\<rparr>)"
| "watcher_do NotifyStart w = notify_start w"
| "watcher_do (NotifyNext i) w = notify_next i w"

inductive watcher_step :: "watcher \<Rightarrow> watcher \<Rightarrow> bool" where
  "enabled ev w \<Longrightarrow> watcher_step w (watcher_do ev w)"

fun watcher_run :: "watcher_event list \<Rightarrow> watcher \<Rightarrow> watcher option" where
  "watcher_run [] w = Some w"
| "watcher_run (ev # evs) w = (if enabled ev w then watcher_run evs (watcher_do ev w) else None)"

lemma watcher_run_reach: "watcher_run evs w = Some w' \<Longrightarrow> watcher_step\<^sup>*\<^sup>* w w'"
  by (induction evs arbitrary: w)
    (auto split: if_splits intro: watcher_step.intros converse_rtranclp_into_rtranclp)

section \<open>The invariant\<close>

definition delivered :: "nat \<Rightarrow> watcher \<Rightarrow> observer list" where
  "delivered i w = map snd (filter (\<lambda>(j, ob). j = i) (wa_log w))"

definition handed_keys :: "watcher \<Rightarrow> (real \<times> event_key) list" where
  "handed_keys w = map (\<lambda>(t, e). (t, dedup_key e)) (wa_handed w)"

definition task_ok :: "watcher \<Rightarrow> nat \<Rightarrow> bool" where
  "task_ok w i \<longleftrightarrow>
     (let nt = wa_tasks w ! i
      in nt_event nt = snd (wa_handed w ! i) \<and> distinct (nt_observers nt) \<and> delivered i w @ nt_left nt = nt_observers nt)"

definition tasks_ok :: "watcher \<Rightarrow> bool" where
  "tasks_ok w \<longleftrightarrow> distinct (wa_observers w) \<and> length (wa_tasks w) \<le> length (wa_handed w) \<and>
     (\<forall>i < length (wa_tasks w). task_ok w i) \<and> list_all (\<lambda>(j, _). j < length (wa_tasks w)) (wa_log w)"

text \<open>The emissions \<open>h\<close> of the debouncer are all it let pass, also those no event loop was there to take.\<close>

definition emissions_ok :: "watcher \<Rightarrow> bool" where
  "emissions_ok w \<longleftrightarrow> 0 \<le> de_window (wa_debouncer w) \<and>
     (\<exists>h c. c \<le> wa_clock w \<and> seen_ok (de_window (wa_debouncer w)) h c (de_last_seen (wa_debouncer w)) \<and>
          gaps (de_window (wa_debouncer w)) h \<and> subseq (handed_keys w) h)"

definition watcher_inv :: "watcher \<Rightarrow> bool" where
  "watcher_inv w \<longleftrightarrow>
     (wa_running w \<longleftrightarrow> wa_watch w) \<and> (wa_running w \<longrightarrow> wa_loop w) \<and> tasks_ok w \<and> emissions_ok w"

lemma emissions_okI:
  assumes "0 \<le> de_window (wa_debouncer w)" "c \<le> wa_clock w"
    "seen_ok (de_window (wa_debouncer w)) h c (de_last_seen (wa_debouncer w))"
    "gaps (de_window (wa_debouncer w)) h" "subseq (handed_keys w) h"
  shows "emissions_ok w"
  using assms unfolding emissions_ok_def by blast

lemma subseq_gaps: "subseq xs ys \<Longrightarrow> sorted_wrt P ys \<Longrightarrow> sorted_wrt P xs"
  by (induction rule: list_emb.induct) (auto dest: list_emb_set)

lemma subscribe_inv: "watcher_inv w \<Longrightarrow> watcher_inv (snd (watcher_subscribe ok ob w))"
  by (auto simp: watcher_inv_def watcher_subscribe_def tasks_ok_def task_ok_def emissions_ok_def handed_keys_def delivered_def)

lemma unsubscribe_inv: "watcher_inv w \<Longrightarrow> watcher_inv (watcher_unsubscribe ob w)"
  by (auto simp: watcher_inv_def watcher_unsubscribe_def tasks_ok_def task_ok_def emissions_ok_def handed_keys_def delivered_def)

lemma start_inv: "watcher_inv w \<Longrightarrow> watcher_inv (snd (watcher_start f refused w))"
  by (auto simp: watcher_inv_def watcher_start_def tasks_ok_def task_ok_def emissions_ok_def handed_keys_def delivered_def
    Let_def split: sum.split)

lemma stop_inv: "watcher_inv w \<Longrightarrow> watcher_inv (snd (watcher_stop join_fails w))"
  by (auto simp: watcher_inv_def watcher_stop_def tasks_ok_def task_ok_def emissions_ok_def handed_keys_def delivered_def)

lemma raw_event_inv:
  assumes inv: "watcher_inv w" and clock: "wa_clock w \<le> now"
  shows "watcher_inv (on_any_event loop_closed now ts raw (w\<lparr>wa_clock := now\<rparr>))"
proof -
  let ?w = "w\<lparr>wa_clock := now\<rparr>" and ?b = "wa_debouncer w"
  obtain h c where h: "0 \<le> de_window ?b" "seen_ok (de_window ?b) h c (de_last_seen ?b)" "gaps (de_window ?b) h"
    "subseq (handed_keys w) h" and c: "c \<le> wa_clock w"
    using inv by (auto simp: watcher_inv_def emissions_ok_def)
  have clock: "c \<le> now" using c clock by simp
  have later: "emissions_ok ?w"
    using h clock unfolding emissions_ok_def handed_keys_def by auto
  show ?thesis
  proof (cases "translate ts raw")
    case (Inl e)
    then show ?thesis
      using inv later by (auto simp: on_any_event_def watcher_inv_def tasks_ok_def task_ok_def delivered_def)
  next
    case (Inr e)
    obtain d where d: "should_emit now (dedup_key e) ?b = (\<not> recent (de_window ?b) now (dedup_key e) h, d)"
        "de_window d = de_window ?b"
        "seen_ok (de_window ?b) (if recent (de_window ?b) now (dedup_key e) h then h else h @ [(now, dedup_key e)]) now (de_last_seen d)"
      using should_emit_exact [OF h(2) refl h(1) clock, of "dedup_key e"] by blast
    show ?thesis
    proof (cases "recent (de_window ?b) now (dedup_key e) h")
      case True
      then have "emissions_ok (?w\<lparr>wa_debouncer := d\<rparr>)"
        using h d by (auto simp: emissions_ok_def handed_keys_def)
      then show ?thesis
        using inv Inr d(1) True by (auto simp: on_any_event_def watcher_inv_def tasks_ok_def task_ok_def delivered_def)
    next
      case False
      let ?h = "h @ [(now, dedup_key e)]"
      have g: "gaps (de_window ?b) ?h" by (rule gaps_emit [OF h(3) False])
      have s: "subseq (handed_keys w) ?h" "subseq (handed_keys w @ [(now, dedup_key e)]) ?h"
        using h(4) by (auto intro: subseq_rev_drop_many list_emb_append_mono)
      have "emissions_ok (?w\<lparr>wa_debouncer := d\<rparr>)"
        using g d False h(1) s(1) by (intro emissions_okI [of _ now ?h]) (simp_all add: handed_keys_def)
      moreover have "emissions_ok (?w\<lparr>wa_debouncer := d, wa_handed := wa_handed w @ [(now, e)]\<rparr>)"
        using g d False h(1) s(2) by (intro emissions_okI [of _ now ?h]) (simp_all add: handed_keys_def)
      moreover have "tasks_ok (w\<lparr>wa_clock := now, wa_debouncer := d, wa_handed := wa_handed w @ [(now, e)]\<rparr>)"
        using inv by (auto simp: watcher_inv_def tasks_ok_def task_ok_def delivered_def nth_append Let_def)
      ultimately show ?thesis
        using inv Inr d(1) False
        by (auto simp: on_any_event_def on_translated_event_def watcher_inv_def tasks_ok_def task_ok_def delivered_def)
    qed
  qed
qed

lemma notify_start_inv:
  assumes "watcher_inv w" "length (wa_tasks w) < length (wa_handed w)"
  shows "watcher_inv (notify_start w)"
proof -
  have "delivered (length (wa_tasks w)) w = []"
    using assms(1) by (auto simp: watcher_inv_def tasks_ok_def delivered_def filter_empty_conv list_all_iff)
  then have "tasks_ok (notify_start w)"
    using assms by (auto simp: watcher_inv_def tasks_ok_def task_ok_def notify_start_def delivered_def nth_append list_all_iff
      less_Suc_eq Let_def)
  then show ?thesis
    using assms(1) by (auto simp: watcher_inv_def notify_start_def emissions_ok_def handed_keys_def)
qed

lemma notify_next_inv:
  assumes "watcher_inv w" "i < length (wa_tasks w)"
  shows "watcher_inv (notify_next i w)"
proof (cases "nt_left (wa_tasks w ! i)")
  case Nil
  then show ?thesis using assms(1) by (simp add: notify_next_def)
next
  case (Cons ob obs)
  have ok: "task_ok w j" if "j < length (wa_tasks w)" for j
    using assms(1) that by (simp add: watcher_inv_def tasks_ok_def)
  then have "task_ok (notify_next i w) j" if "j < length (wa_tasks w)" for j
    using that assms(2) Cons ok [OF that] by (cases "j = i") (simp_all add: task_ok_def notify_next_def delivered_def Let_def)
  then have "tasks_ok (notify_next i w)"
    using assms Cons by (auto simp: watcher_inv_def tasks_ok_def notify_next_def)
  then show ?thesis
    using assms(1) Cons by (auto simp: watcher_inv_def notify_next_def emissions_ok_def handed_keys_def)
qed

interpretation watching: transition_inv watcher_step watcher_inv
proof
  fix w w' assume inv: "watcher_inv w" and step: "watcher_step w w'"
  from step obtain ev where ev: "enabled ev w" "w' = watcher_do ev w" by (auto elim: watcher_step.cases)
  then show "watcher_inv w'"
    using inv subscribe_inv unsubscribe_inv start_inv stop_inv raw_event_inv notify_start_inv notify_next_inv
    by (cases ev) (simp_all add: register_observer_def unregister_observer_def monitor_start_def monitor_stop_def)
qed

lemma mk_watcher_inv:
  assumes "mk_WatchdogFileWatcher paths window clock = Inr w"
  shows "watcher_inv w" "de_window (wa_debouncer w) = window"
proof -
  show "de_window (wa_debouncer w) = window"
    using assms by (auto simp: mk_WatchdogFileWatcher_def mk_EventDebouncer_def result_simps Let_def)
  have "emissions_ok w"
    using assms by (intro emissions_okI [of w clock "[]"])
      (auto simp: mk_WatchdogFileWatcher_def mk_EventDebouncer_def result_simps Let_def handed_keys_def seen_ok_def)
  then show "watcher_inv w"
    using assms by (auto simp: mk_WatchdogFileWatcher_def result_simps Let_def watcher_inv_def tasks_ok_def)
qed

lemma should_emit_window: "de_window (snd (should_emit now key b)) = de_window b"
  by (simp add: should_emit_def Let_def split: option.split)

lemma on_any_event_window: "de_window (wa_debouncer (on_any_event loop_closed now ts raw w)) = de_window (wa_debouncer w)"
proof (cases "translate ts raw")
  case (Inr e)
  obtain ok d where d: "should_emit now (dedup_key e) (wa_debouncer w) = (ok, d)" by force
  have "de_window d = de_window (wa_debouncer w)"
    using should_emit_window [of now "dedup_key e" "wa_debouncer w"] by (simp add: d)
  then show ?thesis using Inr d by (cases ok) (simp_all add: on_any_event_def on_translated_event_def)
qed (simp add: on_any_event_def)

interpretation debouncing: transition_inv watcher_step "\<lambda>w. de_window (wa_debouncer w) = window" for window
proof
  fix w w' assume inv: "de_window (wa_debouncer w) = window" and step: "watcher_step w w'"
  from step obtain ev where ev: "w' = watcher_do ev w" by (auto elim: watcher_step.cases)
  show "de_window (wa_debouncer w') = window"
    using inv by (cases ev) (auto simp: ev on_any_event_window register_observer_def unregister_observer_def monitor_start_def monitor_stop_def
      watcher_subscribe_def watcher_unsubscribe_def watcher_start_def watcher_stop_def notify_start_def notify_next_def Let_def
      split: sum.split list.split)
qed

section \<open>Property\<close>


text \<open>A watcher of the root directory sees a file modified three times; the second time falls into the window.\<close>

definition sample_raw :: raw_event where
  "sample_raw = \<lparr>re_type = codes ''modified'', re_src = codes ''/f'', re_dest = [], re_is_directory = False\<rparr>"

definition sample_run :: "watcher_event list" where
  "sample_run = [Subscribe True 7, Start (\<lambda>p. Some DirNode) False, RawEvent False 1 0 sample_raw,
     RawEvent False 2 0 sample_raw, NotifyStart, NotifyNext 0, RawEvent False 3 0 sample_raw]"

lemma sample_watcher: "\<exists>w0 w. mk_WatchdogFileWatcher [PurePath 1 []] 2 0 = Inr w0 \<and> watcher_run sample_run w0 = Some w \<and>
    map fst (wa_handed w) = [1, 3] \<and> map nt_observers (wa_tasks w) = [[7]] \<and> delivered 0 w = [7]"
proof -
  let ?e = "\<lparr>fe_type = MODIFIED, fe_src = PurePosixPath (codes ''/f''), fe_is_directory = False, fe_timestamp = 0, fe_dest = None\<rparr>"
  have e: "translate 0 sample_raw = Inr ?e"
    by (simp add: translate_def event_type_map_def sample_raw_def mk_FileSystemEvent_def codes_def)
  show ?thesis
    by (simp add: mk_WatchdogFileWatcher_def dict_fromkeys_def mk_EventDebouncer_def sample_run_def register_observer_def
      watcher_subscribe_def monitor_start_def watcher_start_def on_any_event_def e should_emit_def on_translated_event_def
      move_to_end_def notify_start_def notify_next_def delivered_def Let_def)
qed


end
