(* ===== verification/Configuration.thy ===== *)
theory Configuration
  imports Chunk_Repository
begin

text \<open>
  \<^verbatim>\<open>domain/config.py\<close>, \<^verbatim>\<open>config/yaml_config_loader.py\<close> and the use \<^verbatim>\<open>main.py\<close> makes of the configured device id. The
  YAML parser is a parameter. The loader checks no value but the profile, so the fields hold values as parsed.
\<close>

datatype runtime_profile = DEVELOPMENT | TESTING | PRODUCTION

fun profile_value :: "runtime_profile \<Rightarrow> pystr" where
  "profile_value DEVELOPMENT = codes ''development''"
| "profile_value TESTING = codes ''testing''"
| "profile_value PRODUCTION = codes ''production''"

record network_config =
  nc_port :: mval
  nc_discovery_enabled :: mval
  nc_mDNS_service_type :: mval
  nc_transfer_port :: mval
  nc_manifest_port :: mval

record storage_config =
  so_sync_directory :: mval
  so_database_path :: mval
  so_chunk_repository_path :: mval
  so_chunk_size :: mval

record configuration =
  cf_profile :: runtime_profile
  cf_storage :: storage_config
  cf_network :: network_config
  cf_device_id :: mval
  cf_log_level :: mval

text \<open>\<^verbatim>\<open>data.get(key, default)\<close>\<close>

definition get_default :: "mval \<Rightarrow> string \<Rightarrow> mval \<Rightarrow> mval result" where
  "get_default data key dflt =
     (case data of
        MMap d \<Rightarrow> Inr (case map_of d (MStr (codes key)) of None \<Rightarrow> dflt | Some v \<Rightarrow> v)
      | _ \<Rightarrow> Inl (Py AttributeError))"

definition profile_of :: "mval \<Rightarrow> runtime_profile result" where
  "profile_of v =
     (case find (\<lambda>p. v = MStr (profile_value p)) [DEVELOPMENT, TESTING, PRODUCTION] of
        None \<Rightarrow> Inl (Py ValueError)
      | Some p \<Rightarrow> Inr p)"

definition storage_of :: "pystr \<Rightarrow> mval \<Rightarrow> storage_config result" where
  "storage_of cwd storage_data =
     rbind (get_default storage_data ''sync_directory'' (MStr cwd)) (\<lambda>sync.
     rbind (get_default storage_data ''database_path'' (MStr (codes ''metadata.db''))) (\<lambda>db.
     rbind (get_default storage_data ''chunk_repository_path'' (MStr (codes ''chunks''))) (\<lambda>chunks.
     rbind (get_default storage_data ''chunk_size'' (MInt (4 * 1024 * 1024))) (\<lambda>sz.
     Inr \<lparr>so_sync_directory = sync, so_database_path = db, so_chunk_repository_path = chunks, so_chunk_size = sz\<rparr>))))"

definition network_of :: "mval \<Rightarrow> network_config result" where
  "network_of network_data =
     rbind (get_default network_data ''port'' (MInt 8080)) (\<lambda>port.
     rbind (get_default network_data ''discovery_enabled'' (MBool True)) (\<lambda>discovery.
     rbind (get_default network_data ''mDNS_service_type'' (MStr (codes ''_securesync._tcp.local.''))) (\<lambda>service.
     rbind (get_default network_data ''transfer_port'' (MInt 8082)) (\<lambda>transfer.
     rbind (get_default network_data ''manifest_port'' (MInt 8083)) (\<lambda>manifest.
     Inr \<lparr>nc_port = port, nc_discovery_enabled = discovery, nc_mDNS_service_type = service, nc_transfer_port = transfer,
       nc_manifest_port = manifest\<rparr>)))))"

text \<open>\<^verbatim>\<open>yaml.safe_load(f) or {}\<close> and what follows; \<open>parsed\<close> is what the parser returns for the file.\<close>

definition load_config :: "pystr \<Rightarrow> mval result \<Rightarrow> configuration result" where
  "load_config cwd parsed =
     rbind parsed (\<lambda>v.
     let data = if truthy v then v else MMap [] in
     rbind (get_default data ''storage'' (MMap [])) (\<lambda>storage_data.
     rbind (get_default data ''network'' (MMap [])) (\<lambda>network_data.
     rbind (storage_of cwd storage_data) (\<lambda>storage.
     rbind (network_of network_data) (\<lambda>network.
     rbind (get_default data ''profile'' (MStr (codes ''production''))) (\<lambda>p.
     rbind (profile_of p) (\<lambda>profile.
     rbind (get_default data ''device_id'' MNil) (\<lambda>i.
     rbind (get_default data ''log_level'' (MStr (codes ''INFO''))) (\<lambda>level.
     Inr \<lparr>cf_profile = profile, cf_storage = storage, cf_network = network, cf_device_id = i, cf_log_level = level\<rparr>)))))))))"

definition yaml_config_load :: "(bytes \<Rightarrow> mval result) \<Rightarrow> pystr \<Rightarrow> bool \<Rightarrow> pure_path \<Rightarrow> fs \<Rightarrow> configuration result" where
  "yaml_config_load safe_load cwd refused path f =
     (case f path of
        None \<Rightarrow> Inl (Py OSError)
      | Some n \<Rightarrow> load_config cwd (rbind (read_bytes refused n) safe_load))"

text \<open>\<^verbatim>\<open>config.device_id or str(uuid.uuid4())\<close>\<close>

definition bootstrap_device_id :: "pystr \<Rightarrow> configuration \<Rightarrow> mval" where
  "bootstrap_device_id uuid c = (if truthy (cf_device_id c) then cf_device_id c else MStr uuid)"

section \<open>Lemmas\<close>

lemma get_default_record [simp]:
  "get_default (record_of kvs) key dflt = Inr (case map_of kvs key of None \<Rightarrow> dflt | Some v \<Rightarrow> v)"
  by (simp add: get_default_def record_of_def map_of_record)

lemma profile_round_trip: "profile_of (MStr (profile_value p)) = Inr p"
  by (cases p) (simp_all add: profile_of_def)

text \<open>An empty file gives the defaults.\<close>

lemma empty_config:
  "load_config cwd (Inr MNil) =
     Inr \<lparr>cf_profile = PRODUCTION,
       cf_storage = \<lparr>so_sync_directory = MStr cwd, so_database_path = MStr (codes ''metadata.db''),
         so_chunk_repository_path = MStr (codes ''chunks''), so_chunk_size = MInt 4194304\<rparr>,
       cf_network = \<lparr>nc_port = MInt 8080, nc_discovery_enabled = MBool True,
         nc_mDNS_service_type = MStr (codes ''_securesync._tcp.local.''), nc_transfer_port = MInt 8082, nc_manifest_port = MInt 8083\<rparr>,
       cf_device_id = MNil, cf_log_level = MStr (codes ''INFO'')\<rparr>"
  by (simp add: load_config_def truthy_def get_default_def storage_of_def network_of_def profile_of_def Let_def)

end
