(* ===== verification/Crypto_Adapters.thy ===== *)
theory Crypto_Adapters
  imports Secure_Channel Chunk_Repository Trusted_Peers Chunk_Reader
begin

text \<open>
  The adapters around the cryptographic libraries: \<^verbatim>\<open>crypto/pyca_crypto.py\<close>,
  \<^verbatim>\<open>crypto/ed25519_identity_provider.py\<close> and \<^verbatim>\<open>chunking/sha256_hash_provider.py\<close>. The libraries themselves,
  \<^verbatim>\<open>cryptography\<close> and \<^verbatim>\<open>hashlib\<close>, are the fields of a record; what the adapters do around them is modelled.
\<close>

section \<open>The libraries\<close>

text \<open>
  An AEAD takes key, nonce, data and associated data; its encryption returns ciphertext and tag in one piece.
  \<open>lib_exchange\<close> and \<open>lib_verify\<close> are called with keys of the right length only.
\<close>

record aead_library =
  lib_encrypt :: "bytes \<Rightarrow> bytes \<Rightarrow> bytes \<Rightarrow> bytes \<Rightarrow> bytes result"
  lib_decrypt :: "bytes \<Rightarrow> bytes \<Rightarrow> bytes \<Rightarrow> bytes \<Rightarrow> bytes result"

record crypto_library =
  lib_aesgcm :: aead_library
  lib_chacha :: aead_library
  lib_x25519_public :: "bytes \<Rightarrow> bytes" \<comment> \<open>of a private key\<close>
  lib_exchange :: "bytes \<Rightarrow> bytes \<Rightarrow> bytes result"
  lib_hkdf :: "nat \<Rightarrow> bytes \<Rightarrow> bytes \<Rightarrow> bytes \<Rightarrow> bytes" \<comment> \<open>length, salt, info, input\<close>
  lib_ed25519_public :: "bytes \<Rightarrow> bytes"
  lib_sign :: "bytes \<Rightarrow> bytes \<Rightarrow> bytes"
  lib_verify :: "bytes \<Rightarrow> bytes \<Rightarrow> bytes \<Rightarrow> bool" \<comment> \<open>public key, signature, message\<close>
  lib_sha256 :: "bytes \<Rightarrow> bytes"

section \<open>Ciphers\<close>

definition AEAD_TAG :: nat where "AEAD_TAG = 16"

definition aes_gcm_encrypt :: "crypto_library \<Rightarrow> bytes \<Rightarrow> bytes \<Rightarrow> bytes \<Rightarrow> bytes \<Rightarrow> encrypted_payload result" where
  "aes_gcm_encrypt lib plaintext key nonce associated_data =
     rbind (lib_encrypt (lib_aesgcm lib) key nonce plaintext associated_data) (\<lambda>data_with_tag.
     Inr \<lparr>ep_ciphertext = take (length data_with_tag - AEAD_TAG) data_with_tag, ep_nonce = nonce,
       ep_tag = drop (length data_with_tag - AEAD_TAG) data_with_tag\<rparr>)"

definition aes_gcm_decrypt :: "crypto_library \<Rightarrow> encrypted_payload \<Rightarrow> bytes \<Rightarrow> bytes \<Rightarrow> bytes result" where
  "aes_gcm_decrypt lib payload key associated_data =
     lib_decrypt (lib_aesgcm lib) key (ep_nonce payload) (ep_ciphertext payload @ ep_tag payload) associated_data"

definition chacha20_encrypt :: "crypto_library \<Rightarrow> bytes \<Rightarrow> bytes \<Rightarrow> bytes \<Rightarrow> bytes \<Rightarrow> encrypted_payload result" where
  "chacha20_encrypt lib plaintext key nonce associated_data =
     rbind (lib_encrypt (lib_chacha lib) key nonce plaintext associated_data) (\<lambda>data_with_tag.
     Inr \<lparr>ep_ciphertext = take (length data_with_tag - AEAD_TAG) data_with_tag, ep_nonce = nonce,
       ep_tag = drop (length data_with_tag - AEAD_TAG) data_with_tag\<rparr>)"

definition chacha20_decrypt :: "crypto_library \<Rightarrow> encrypted_payload \<Rightarrow> bytes \<Rightarrow> bytes \<Rightarrow> bytes result" where
  "chacha20_decrypt lib payload key associated_data =
     lib_decrypt (lib_chacha lib) key (ep_nonce payload) (ep_ciphertext payload @ ep_tag payload) associated_data"

section \<open>Keys\<close>

text \<open>The library draws the private key, which is an argument.\<close>

definition generate_key_pair :: "crypto_library \<Rightarrow> bytes \<Rightarrow> bytes \<times> bytes" where
  "generate_key_pair lib private_key = (private_key, lib_x25519_public lib private_key)"

definition derive_shared_secret :: "crypto_library \<Rightarrow> bytes \<Rightarrow> bytes \<Rightarrow> bytes result" where
  "derive_shared_secret lib private_key peer_public_key =
     raise_if (length private_key \<noteq> 32) (Py ValueError)
    (raise_if (length peer_public_key \<noteq> 32) (Py ValueError)
    (lib_exchange lib private_key peer_public_key))"

definition pyca_derive_session_keys :: "crypto_library \<Rightarrow> bytes \<Rightarrow> bytes \<Rightarrow> bytes \<times> bytes" where
  "pyca_derive_session_keys lib shared_secret salt =
     (let okm = lib_hkdf lib 64 salt (byte_lit ''securesync-session-keys'') shared_secret in (take 32 okm, drop 32 okm))"

section \<open>Hashes of chunks\<close>

definition HASH_SUBBLOCK_SIZE :: nat where "HASH_SUBBLOCK_SIZE = 1 * 1024 * 1024"

text \<open>\<^verbatim>\<open>hashlib\<close> hashes the concatenation of what it is fed; the view is fed in blocks.\<close>

definition hash_blocks :: "nat \<Rightarrow> bytes \<Rightarrow> bytes" where
  "hash_blocks block_size view =
     foldl (\<lambda>fed i. fed @ slice (i * block_size) (i * block_size + block_size) view) []
       [0 ..< (length view + block_size - 1) div block_size]"

definition sha256_hash :: "crypto_library \<Rightarrow> bytes \<Rightarrow> chunk_hash result" where
  "sha256_hash lib view = mk_ChunkHash SHA256 (bytes_hex (lib_sha256 lib (hash_blocks HASH_SUBBLOCK_SIZE view)))"

section \<open>The identity of the device\<close>

record identity_key_pair =
  ik_private :: bytes
  ik_public :: bytes

definition private_key_path :: "pure_path \<Rightarrow> pure_path" where
  "private_key_path storage_dir = path_join storage_dir (codes ''identity.private'')"

definition public_key_path :: "pure_path \<Rightarrow> pure_path" where
  "public_key_path storage_dir = path_join storage_dir (codes ''identity.public'')"

text \<open>\<^verbatim>\<open>path.write_bytes\<close>: the file is truncated first, and an interrupted write leaves what it has written.\<close>

definition write_bytes :: "write_fault \<Rightarrow> pure_path \<Rightarrow> bytes \<Rightarrow> fs \<Rightarrow> unit result \<times> fs" where
  "write_bytes fault p data f =
     (if fault = WriteRefused \<or> write_no_dir fault \<noteq> None \<or> f p = Some DirNode \<or> f (path_parent p) \<noteq> Some DirNode then (Inl (Py OSError), f)
      else
        case fault of
          WriteCut k \<Rightarrow> (Inl (Py OSError), f(p \<mapsto> FileNode (take k data)))
        | _ \<Rightarrow> (Inr (), f(p \<mapsto> FileNode data)))"

text \<open>\<open>chmod_fails\<close>: an \<^verbatim>\<open>OSError\<close> other than the suppressed \<^verbatim>\<open>PermissionError\<close>.\<close>

record persist_faults =
  pf_private :: write_fault
  pf_chmod_fails :: bool
  pf_public :: write_fault

definition persist_identity :: "persist_faults \<Rightarrow> pure_path \<Rightarrow> identity_key_pair \<Rightarrow> fs \<Rightarrow> unit result \<times> fs" where
  "persist_identity pf storage_dir keypair f =
     (case make_dirs (write_no_dir (pf_private pf)) (path_parent (private_key_path storage_dir)) f of
        (Inl e, f1) \<Rightarrow> (Inl e, f1)
      | (Inr _, f1) \<Rightarrow>
          (case write_bytes (pf_private pf) (private_key_path storage_dir) (ik_private keypair) f1 of
             (Inl e, f2) \<Rightarrow> (Inl e, f2)
           | (Inr _, f2) \<Rightarrow>
               if pf_chmod_fails pf then (Inl (Py OSError), f2)
               else write_bytes (pf_public pf) (public_key_path storage_dir) (ik_public keypair) f2))"

text \<open>\<open>refused\<close>: a read the operating system refuses; \<open>fresh\<close>: the private key the library draws.\<close>

definition load_or_create ::
  "crypto_library \<Rightarrow> bool \<Rightarrow> persist_faults \<Rightarrow> pure_path \<Rightarrow> bytes \<Rightarrow> fs \<Rightarrow> identity_key_pair result \<times> fs" where
  "load_or_create lib refused pf storage_dir fresh f =
     (case (f (private_key_path storage_dir), f (public_key_path storage_dir)) of
        (Some n, Some m) \<Rightarrow>
          (rbind (read_bytes refused n) (\<lambda>priv. rbind (read_bytes refused m) (\<lambda>pub.
             Inr \<lparr>ik_private = priv, ik_public = pub\<rparr>)), f)
      | _ \<Rightarrow>
          let keypair = \<lparr>ik_private = fresh, ik_public = lib_ed25519_public lib fresh\<rparr>
          in (case persist_identity pf storage_dir keypair f of
                (Inl e, f1) \<Rightarrow> (Inl e, f1)
              | (Inr _, f1) \<Rightarrow> (Inr keypair, f1)))"

definition identity_sign :: "crypto_library \<Rightarrow> bytes \<Rightarrow> bytes \<Rightarrow> bytes result" where
  "identity_sign lib private_key message =
     raise_if (length private_key \<noteq> 32) (Py ValueError) (Inr (lib_sign lib private_key message))"

text \<open>Only a wrong signature is caught; a public key of the wrong length raises.\<close>

definition identity_verify :: "crypto_library \<Rightarrow> bytes \<Rightarrow> bytes \<Rightarrow> bytes \<Rightarrow> bool result" where
  "identity_verify lib public_key message signature =
     raise_if (length public_key \<noteq> 32) (Py ValueError) (Inr (lib_verify lib public_key signature message))"

section \<open>The ciphers keep the laws of the secure channel\<close>

text \<open>What \<^verbatim>\<open>cryptography\<close> documents of an AEAD: the tag is the last 16 bytes, and decryption undoes encryption.\<close>

definition library_laws :: "aead_library \<Rightarrow> bool" where
  "library_laws al \<longleftrightarrow>
     (\<forall>m k n a. aead_input m k n a \<longrightarrow> (\<exists>d. lib_encrypt al k n m a = Inr d)) \<and>
     (\<forall>m k n a d. lib_encrypt al k n m a = Inr d \<longrightarrow> length d = length m + AEAD_TAG \<and> lib_decrypt al k n d a = Inr m)"

lemma aes_gcm_laws:
  assumes "library_laws (lib_aesgcm lib)" "sc_encrypt ch = aes_gcm_encrypt lib" "sc_decrypt ch' = aes_gcm_decrypt lib"
  shows "aead_laws ch ch'"
  using assms unfolding library_laws_def aead_laws_def
  by (fastforce simp: aes_gcm_encrypt_def aes_gcm_decrypt_def rbind_eq_Inr AEAD_TAG_def TAG_SIZE_def)

lemma chacha20_laws:
  assumes "library_laws (lib_chacha lib)" "sc_encrypt ch = chacha20_encrypt lib" "sc_decrypt ch' = chacha20_decrypt lib"
  shows "aead_laws ch ch'"
  using assms unfolding library_laws_def aead_laws_def
  by (fastforce simp: chacha20_encrypt_def chacha20_decrypt_def rbind_eq_Inr AEAD_TAG_def TAG_SIZE_def)

section \<open>Feeding the hash in blocks\<close>

lemma hash_blocks_take: "foldl (\<lambda>fed i. fed @ slice (i * b) (i * b + b) view) [] [0 ..< n] = take (n * b) view"
proof (induction n)
  case (Suc n)
  have "take (n * b) view @ slice (n * b) (n * b + b) view = take (n * b + b) view" by (rule append_slices) simp
  then show ?case using Suc by (simp add: add.commute)
qed simp

lemma hash_blocks_all: "0 < b \<Longrightarrow> hash_blocks b view = view"
proof -
  assume b: "0 < b"
  have "length view \<le> (length view + b - 1) div b * b"
    using b dividend_less_div_times [of b "length view + b - 1"] by linarith
  then show ?thesis by (simp add: hash_blocks_def hash_blocks_take)
qed

lemma sha256_hash_whole: "sha256_hash lib view = mk_ChunkHash SHA256 (bytes_hex (lib_sha256 lib view))"
  by (simp add: sha256_hash_def hash_blocks_all HASH_SUBBLOCK_SIZE_def)

section \<open>The identity is kept\<close>

lemma key_paths:
  "private_key_path d = PurePath (pp_root d) (pp_parts d @ [codes ''identity.private''])"
  "public_key_path d = PurePath (pp_root d) (pp_parts d @ [codes ''identity.public''])"
  by (simp_all add: private_key_path_def public_key_path_def path_join_def PurePosixPath_def posix_root_def is_absolute_def codes_def)

lemma key_paths_differ [simp]: "private_key_path d \<noteq> public_key_path d" "public_key_path d \<noteq> private_key_path d"
  by (simp_all add: key_paths codes_def)

lemma write_bytes_ok: "write_bytes fault p data f = (Inr (), f') \<Longrightarrow> f' = f(p \<mapsto> FileNode data)"
  by (auto simp: write_bytes_def split: if_splits write_fault.splits)

lemma persist_identity_ok:
  assumes "persist_identity pf d kp f = (Inr (), f')"
  shows "f' (private_key_path d) = Some (FileNode (ik_private kp))" "f' (public_key_path d) = Some (FileNode (ik_public kp))"
  using assms by (auto simp: persist_identity_def split: sum.splits prod.splits if_splits dest!: write_bytes_ok)

text \<open>
  A device keeps its identity. Once \<^verbatim>\<open>load_or_create\<close> has returned a key pair, whether it was read or created, every
  later call that can read the files returns the same pair, whatever key the library would draw, and changes no file.
\<close>

theorem identity_kept:
  assumes "load_or_create lib refused pf d fresh f = (Inr kp, f')"
  shows "load_or_create lib False pf' d fresh' f' = (Inr kp, f')"
proof (cases "f (private_key_path d) \<noteq> None \<and> f (public_key_path d) \<noteq> None")
  case True
  then obtain n m where nm: "f (private_key_path d) = Some n" "f (public_key_path d) = Some m" by auto
  then show ?thesis
    using assms by (auto simp: load_or_create_def read_bytes_def result_simps split: node.splits)
next
  case False
  then have "persist_identity pf d kp f = (Inr (), f')"
    using assms by (auto simp: load_or_create_def Let_def result_simps split: option.splits sum.splits prod.splits)
  from persist_identity_ok [OF this] show ?thesis by (simp add: load_or_create_def read_bytes_def)
qed

text \<open>When only the public key file is missing, the private key is replaced.\<close>

lemma missing_public_key_replaces_identity:
  assumes "f (private_key_path d) = Some (FileNode old)" "f (public_key_path d) = None"
    and "load_or_create lib refused pf d fresh f = (Inr kp, f')"
  shows "f' (private_key_path d) = Some (FileNode fresh)"
proof -
  have "persist_identity pf d kp f = (Inr (), f')" "ik_private kp = fresh"
    using assms by (auto simp: load_or_create_def Let_def split: sum.splits prod.splits)
  from persist_identity_ok(1) [OF this(1)] this(2) show ?thesis by simp
qed

text \<open>A public key file that was cut short is read back as the public key.\<close>

lemma truncated_public_key_accepted:
  assumes "persist_identity \<lparr>pf_private = WriteOk, pf_chmod_fails = False, pf_public = WriteCut k\<rparr> d kp f = (r, f')"
    and "f (public_key_path d) = None" "f' (public_key_path d) = Some (FileNode b)"
  shows "r = Inl (Py OSError) \<and>
    load_or_create lib False pf' d fresh f' = (Inr \<lparr>ik_private = ik_private kp, ik_public = take k (ik_public kp)\<rparr>, f')"
proof -
  obtain f1 where m: "make_dirs None (path_parent (private_key_path d)) f = (Inr (), f1)"
  proof (cases "mkdir_parents (path_parent (private_key_path d)) f")
    case (Inl e)
    then have "f' = f" using assms(1) by (auto simp: persist_identity_def make_dirs_def)
    then show thesis using assms(2,3) by simp
  qed (use that in \<open>simp add: make_dirs_Inr\<close>)
  then have f1: "mkdir_parents (path_parent (private_key_path d)) f = Inr f1" by (simp add: make_dirs_Inr)
  have none: "f1 (public_key_path d) \<noteq> Some (FileNode b)"
    using mkdir_parents_file [OF f1] assms(2) by simp
  then have "r = Inl (Py OSError)" "f' (private_key_path d) = Some (FileNode (ik_private kp))"
    "f' (public_key_path d) = Some (FileNode (take k (ik_public kp)))"
    using assms(1,3) m by (auto simp: persist_identity_def write_bytes_def split: if_splits)
  then show ?thesis by (simp add: load_or_create_def read_bytes_def)
qed

definition sample_library :: crypto_library where
  "sample_library = \<lparr>lib_aesgcm = \<lparr>lib_encrypt = (\<lambda>_ _ m _. Inr m), lib_decrypt = (\<lambda>_ _ m _. Inr m)\<rparr>,
     lib_chacha = \<lparr>lib_encrypt = (\<lambda>_ _ m _. Inr m), lib_decrypt = (\<lambda>_ _ m _. Inr m)\<rparr>,
     lib_x25519_public = id, lib_exchange = (\<lambda>_ _. Inr []), lib_hkdf = (\<lambda>n _ _ _. replicate n 0),
     lib_ed25519_public = rev, lib_sign = (\<lambda>_ _. []), lib_verify = (\<lambda>_ _ _. True), lib_sha256 = id\<rparr>"

theorem identity_kept_witness:
  "\<exists>f'. load_or_create sample_library False \<lparr>pf_private = WriteOk, pf_chmod_fails = False, pf_public = WriteOk\<rparr> (PurePath 1 [[115]])
      [1, 2] (\<lambda>p. None) = (Inr \<lparr>ik_private = [1, 2], ik_public = [2, 1]\<rparr>, f') \<and>
    load_or_create sample_library False \<lparr>pf_private = WriteOk, pf_chmod_fails = False, pf_public = WriteOk\<rparr> (PurePath 1 [[115]])
      [3, 4] f' = (Inr \<lparr>ik_private = [1, 2], ik_public = [2, 1]\<rparr>, f')"
proof -
  let ?pf = "\<lparr>pf_private = WriteOk, pf_chmod_fails = False, pf_public = WriteOk\<rparr>" and ?d = "PurePath 1 [[115]]"
  have "\<exists>f'. load_or_create sample_library False ?pf ?d [1, 2] (\<lambda>p. None) = (Inr \<lparr>ik_private = [1, 2], ik_public = [2, 1]\<rparr>, f')"
    by (simp add: load_or_create_def persist_identity_def write_bytes_def mkdir_parents_def make_dirs_def is_file_def list_ex_iff key_paths
        path_parent_def on_the_way_def sample_library_def codes_def Let_def)
  then obtain f' where f: "load_or_create sample_library False ?pf ?d [1, 2] (\<lambda>p. None) = (Inr \<lparr>ik_private = [1, 2], ik_public = [2, 1]\<rparr>, f')"
    by blast
  from identity_kept [OF f] f show ?thesis by blast
qed

end
