(* ===== verification/Cli.thy ===== *)
theory Cli
  imports Configuration Crypto_Adapters Trusted_Peers Mdns_Discovery
begin

text \<open>
  The commands of \<^verbatim>\<open>presentation/cli.py\<close> that read or change files: \<^verbatim>\<open>init\<close>, \<^verbatim>\<open>trust\<close> and \<^verbatim>\<open>config\<close>. A command ends
  with an exit code or an exception; what it prints is modelled where it is data. YAML and JSON are parameters.
\<close>

section \<open>config\<close>

text \<open>\<^verbatim>\<open>_load_config\<close>: the first of the two files that exists.\<close>

definition cli_load_config :: "(bytes \<Rightarrow> mval result) \<Rightarrow> bool \<Rightarrow> pure_path list \<Rightarrow> fs \<Rightarrow> mval result" where
  "cli_load_config safe_load refused config_paths f =
     (case find (\<lambda>p. f p \<noteq> None) config_paths of
        None \<Rightarrow> Inr (MMap [])
      | Some p \<Rightarrow>
          (case f p of
             None \<Rightarrow> Inl (Py OSError)
           | Some n \<Rightarrow> rbind (rbind (read_bytes refused n) safe_load) (\<lambda>v. Inr (if truthy v then v else MMap []))))"

text \<open>\<^verbatim>\<open>redacted["device_id"][:4] + "..."\<close>\<close>

definition redact_config :: "bool \<Rightarrow> (mval \<times> mval) list \<Rightarrow> (mval \<times> mval) list result" where
  "redact_config show_keys d =
     (case map_of d (MStr (codes ''device_id'')) of
        None \<Rightarrow> Inr d
      | Some v \<Rightarrow>
          if show_keys then Inr d
          else
            (case v of
               MStr s \<Rightarrow> Inr (dict_set (MStr (codes ''device_id'')) (MStr (take 4 s @ codes ''...'')) d)
             | _ \<Rightarrow> Inl (Py TypeError)))"

section \<open>init\<close>

definition init_config :: "pure_path \<Rightarrow> mval" where
  "init_config resolved =
     record_of
       [(''device_id'', MStr (codes ''auto'')), (''profile'', MStr (codes ''production'')),
        (''storage'', record_of
           [(''sync_directory'', MStr (path_str (path_join resolved (codes ''sync'')))),
            (''database_path'', MStr (path_str (path_join resolved (codes ''metadata.db'')))),
            (''chunk_repository_path'', MStr (path_str (path_join resolved (codes ''chunks'')))),
            (''chunk_size'', MInt 4194304)]),
        (''network'', record_of
           [(''port'', MInt 8080), (''transfer_port'', MInt 8082), (''manifest_port'', MInt 8083),
            (''discovery_enabled'', MBool True), (''mDNS_service_type'', MStr (codes ''_securesync._tcp.local.''))]),
        (''log_level'', MStr (codes ''INFO''))]"

definition cli_init ::
  "crypto_library \<Rightarrow> (mval \<Rightarrow> bytes result) \<Rightarrow> bool \<Rightarrow> persist_faults \<Rightarrow> write_fault \<Rightarrow> pure_path \<Rightarrow> bytes \<Rightarrow> fs \<Rightarrow>
   identity_key_pair result \<times> fs" where
  "cli_init lib dump refused pf fault resolved fresh f =
     (case make_dirs (write_no_dir fault) resolved f of
        (Inl e, f1) \<Rightarrow> (Inl e, f1)
      | (Inr _, f1) \<Rightarrow>
          (case load_or_create lib refused pf resolved fresh f1 of
             (Inl e, f2) \<Rightarrow> (Inl e, f2)
           | (Inr keypair, f2) \<Rightarrow>
               (case dump (init_config resolved) of
                  Inl e \<Rightarrow> (Inl e, f2)
                | Inr payload \<Rightarrow>
                    (case write_bytes fault (path_join resolved (codes ''config.yaml'')) payload f2 of
                       (Inl e, f3) \<Rightarrow> (Inl e, f3)
                     | (Inr _, f3) \<Rightarrow> (Inr keypair, f3)))))"

section \<open>trust\<close>

text \<open>
  \<^verbatim>\<open>device_id not in peers\<close>, for whatever JSON the file holds, then \<^verbatim>\<open>del peers[device_id]\<close>. \<open>None\<close> is the exit with
  code 1. The file is then written in place.
\<close>

definition without_peer :: "pystr \<Rightarrow> mval \<Rightarrow> mval option result" where
  "without_peer i peers =
     (case peers of
        MMap d \<Rightarrow> Inr (if map_of d (MStr i) = None then None else Some (MMap (dict_pop (MStr i) d)))
      | MList xs \<Rightarrow> if MStr i \<in> set xs then Inl (Py TypeError) else Inr None
      | MStr s \<Rightarrow> if sublist i s then Inl (Py TypeError) else Inr None
      | _ \<Rightarrow> Inl (Py TypeError))"

definition cli_trust :: "bool \<Rightarrow> write_fault \<Rightarrow> trust_file \<Rightarrow> pystr \<Rightarrow> fs \<Rightarrow> nat result \<times> fs" where
  "cli_trust refused fault tf i f =
     (case f (tf_path tf) of
        None \<Rightarrow> (Inr 1, f)
      | Some n \<Rightarrow>
          (case rbind (rbind (read_bytes refused n) (tf_loads tf)) (without_peer i) of
             Inl e \<Rightarrow> (Inl e, f)
           | Inr None \<Rightarrow> (Inr 1, f)
           | Inr (Some peers) \<Rightarrow>
               (case tf_dumps tf peers of
                  Inl e \<Rightarrow> (Inl e, f)
                | Inr payload \<Rightarrow>
                    (case write_bytes fault (tf_path tf) payload f of
                       (Inl e, f1) \<Rightarrow> (Inl e, f1)
                     | (Inr _, f1) \<Rightarrow> (Inr 0, f1)))))"

section \<open>Lemmas\<close>

lemma config_path: "path_join d (codes ''config.yaml'') = PurePath (pp_root d) (pp_parts d @ [codes ''config.yaml''])"
  by (simp add: path_join_def PurePosixPath_def posix_root_def is_absolute_def codes_def)

lemma write_bytes_other: "write_bytes fault p data f = (r, f') \<Longrightarrow> q \<noteq> p \<Longrightarrow> f' q = f q"
  by (auto simp: write_bytes_def split: if_splits write_fault.splits)

lemma cli_trust_writes:
  assumes "cli_trust refused fault tf i f = (Inr 0, f')"
  shows "\<exists>n b v peers payload. f (tf_path tf) = Some n \<and> read_bytes refused n = Inr b \<and> tf_loads tf b = Inr v \<and>
    without_peer i v = Inr (Some peers) \<and> tf_dumps tf peers = Inr payload \<and> f' = f(tf_path tf \<mapsto> FileNode payload)"
  using assms
  by (auto simp: cli_trust_def result_simps dest: write_bytes_ok split: option.splits sum.splits prod.splits)

text \<open>
  An interrupted write leaves the trust file cut short: the pins of every peer are gone, unlike with the repository, which
  replaces the file atomically.
\<close>

lemma interrupted_trust_reset:
  assumes "f (tf_path tf) = Some (FileNode b)" "tf_loads tf b = Inr (MMap d)" "map_of d (MStr i) \<noteq> None"
    and "tf_dumps tf (MMap (dict_pop (MStr i) d)) = Inr payload" "f (path_parent (tf_path tf)) = Some DirNode"
  shows "cli_trust False (WriteCut k) tf i f = (Inl (Py OSError), f(tf_path tf \<mapsto> FileNode (take k payload)))"
  using assms by (auto simp: cli_trust_def read_bytes_def without_peer_def write_bytes_def)

section \<open>Properties\<close>

text \<open>
  Resetting the trust of a device forgets that device and no other. When \<^verbatim>\<open>trust\<close> ends with code 0, the repository
  has no key for the device and, for every other device, answers what it answered before; with code 1 no file has
  changed; and no run changes a file other than the trust file.
\<close>

theorem trust_reset_exact:
  assumes "json_laws tf" "cli_trust refused fault tf i f = (r, f')"
  shows "(r = Inr 0 \<longrightarrow> file_get_trusted_key False tf f' i = Inr None \<and>
      (\<forall>j. j \<noteq> i \<longrightarrow> file_get_trusted_key False tf f' j = file_get_trusted_key False tf f j)) \<and>
    (r = Inr 1 \<longrightarrow> f' = f) \<and> (\<forall>q. q \<noteq> tf_path tf \<longrightarrow> f' q = f q)"
proof (intro conjI impI)
  assume "r = Inr 0"
  then obtain n b v peers payload where w: "f (tf_path tf) = Some n" "read_bytes refused n = Inr b" "tf_loads tf b = Inr v"
      "without_peer i v = Inr (Some peers)" "tf_dumps tf peers = Inr payload" "f' = f(tf_path tf \<mapsto> FileNode payload)"
    using cli_trust_writes assms(2) by blast
  obtain d where d: "v = MMap d" "peers = MMap (dict_pop (MStr i) d)"
    using w(4) by (auto simp: without_peer_def split: mval.splits if_splits)
  have "json_dict d" using assms(1) w(3) d(1) by (auto simp: json_laws_def)
  then have "json_dict (dict_pop (MStr i) d)" by (rule json_dict_pop)
  then obtain d' where d': "tf_loads tf payload = Inr (MMap d')"
      "\<And>k. rel_option same_entry (map_of (dict_pop (MStr i) d) k) (map_of d' k)"
    using assms(1) w(5) d(2) unfolding json_laws_def by blast
  have after: "file_get_trusted_key False tf f' j = key_of_entry (map_of (dict_pop (MStr i) d) (MStr j))" for j
    using w(6) d'(1) key_of_same_entry [OF d'(2)] by (simp add: file_get_trusted_key_def load_trusted_def read_bytes_def)
  have before: "file_get_trusted_key False tf f j = key_of_entry (map_of d (MStr j))" for j
    using w(1-3) d(1) by (auto simp: file_get_trusted_key_def load_trusted_def read_bytes_def result_simps split: node.splits)
  show "file_get_trusted_key False tf f' i = Inr None" using after by (simp add: key_of_entry_def)
  show "\<forall>j. j \<noteq> i \<longrightarrow> file_get_trusted_key False tf f' j = file_get_trusted_key False tf f j"
    using after before by simp
next
  show "f' = f" if "r = Inr 1"
    using assms(2) that by (auto simp: cli_trust_def split: option.splits sum.splits prod.splits)
  show "\<forall>q. q \<noteq> tf_path tf \<longrightarrow> f' q = f q"
    using assms(2) write_bytes_other [of fault "tf_path tf" _ f]
    by (auto simp: cli_trust_def split: option.splits sum.splits prod.splits)
qed

text \<open>A trust file with one peer, which JSON writes as the byte 1 and the empty store as no byte.\<close>

definition two_stores :: trust_file where
  "two_stores = \<lparr>tf_path = PurePath 1 [[116]],
     tf_dumps = (\<lambda>v. if v = MMap [(MStr [65], MStr [48, 55])] then Inr [1] else if v = MMap [] then Inr [] else Inl (Py ValueError)),
     tf_loads = (\<lambda>b. if b = [1] then Inr (MMap [(MStr [65], MStr [48, 55])]) else Inr (MMap []))\<rparr>"

theorem trust_reset_exact_witness:
  "\<exists>f'. cli_trust False WriteOk two_stores [65] (\<lambda>p. if p = PurePath 1 [[116]] then Some (FileNode [1]) else Some DirNode) = (Inr 0, f') \<and>
    file_get_trusted_key False two_stores f' [65] = Inr None"
proof -
  let ?f = "\<lambda>p. if p = PurePath 1 [[116]] then Some (FileNode [1]) else Some DirNode"
  have l: "json_laws two_stores" 
    by (auto simp: json_laws_def two_stores_def json_dict_def json_key_def json_entry_def same_entry_def split: if_splits)
  have r: "cli_trust False WriteOk two_stores [65] ?f = (Inr 0, ?f(PurePath 1 [[116]] \<mapsto> FileNode []))"
    by (simp add: cli_trust_def two_stores_def read_bytes_def without_peer_def write_bytes_def path_parent_def)
  from trust_reset_exact [OF l r] r show ?thesis by blast
qed

text \<open>
  Two devices that were set up with \<^verbatim>\<open>init\<close> ignore each other. The configuration \<^verbatim>\<open>init\<close> writes loads without an error,
  whatever the machine's working directory, and gives the device the literal id \<^verbatim>\<open>auto\<close> instead of a fresh one; so
  the advertisement of any such device is dropped by every other such device as its own.
\<close>

theorem initialised_devices_ignore_each_other:
  assumes "cli_init lib dump refused pf fault resolved fresh f = (Inr keypair, f')"
    and "\<And>b. dump (init_config resolved) = Inr b \<Longrightarrow> safe_load b = Inr (init_config resolved)"
  shows "\<exists>c. yaml_config_load safe_load cwd False (path_join resolved (codes ''config.yaml'')) f' = Inr c \<and>
    bootstrap_device_id uuid c = MStr (codes ''auto'') \<and>
    (\<forall>m other info addresses. md_device_id m = codes ''auto'' \<and> md_device_id other = codes ''auto'' \<and> own_service m = Inr info \<longrightarrow>
       parse_service now other (info\<lparr>sv_addresses := addresses\<rparr>) = Inr None)"
proof -
  obtain payload where p: "dump (init_config resolved) = Inr payload"
      "f' (path_join resolved (codes ''config.yaml'')) = Some (FileNode payload)"
    using assms(1) by (auto simp: cli_init_def dest!: write_bytes_ok split: sum.splits prod.splits)
  have t: "truthy (init_config resolved)" by (simp add: truthy_def init_config_def record_of_def)
  have "\<exists>c. load_config cwd (Inr (init_config resolved)) = Inr c \<and> bootstrap_device_id uuid c = MStr (codes ''auto'')"
    unfolding load_config_def rbind_Inr Let_def if_P [OF t]
    using profile_round_trip [of PRODUCTION]
    by (simp add: init_config_def storage_of_def network_of_def bootstrap_device_id_def truthy_def) (simp add: codes_def)
  moreover have "parse_service now other (info\<lparr>sv_addresses := addresses\<rparr>) = Inr None"
    if "md_device_id m = codes ''auto''" "md_device_id other = codes ''auto''" "own_service m = Inr info" for m other info addresses
    using that own_service_ignored by simp
  ultimately show ?thesis using p assms(2) [OF p(1)] by (simp add: yaml_config_load_def read_bytes_def) blast
qed

theorem initialised_devices_ignore_each_other_witness:
  "\<exists>f' c. cli_init sample_library (\<lambda>v. Inr [1]) False \<lparr>pf_private = WriteOk, pf_chmod_fails = False, pf_public = WriteOk\<rparr> WriteOk
      (PurePath 1 [[115]]) [1, 2] (\<lambda>p. None) = (Inr \<lparr>ik_private = [1, 2], ik_public = [2, 1]\<rparr>, f') \<and>
    yaml_config_load (\<lambda>b. Inr (init_config (PurePath 1 [[115]]))) [47] False (path_join (PurePath 1 [[115]]) (codes ''config.yaml'')) f' = Inr c \<and>
    bootstrap_device_id [117] c = MStr (codes ''auto'')"
proof -
  let ?pf = "\<lparr>pf_private = WriteOk, pf_chmod_fails = False, pf_public = WriteOk\<rparr>" and ?d = "PurePath 1 [[115]]"
  have "\<exists>f'. cli_init sample_library (\<lambda>v. Inr [1]) False ?pf WriteOk ?d [1, 2] (\<lambda>p. None) = (Inr \<lparr>ik_private = [1, 2], ik_public = [2, 1]\<rparr>, f')"
    unfolding cli_init_def config_path
    by (simp add: load_or_create_def persist_identity_def write_bytes_def mkdir_parents_def make_dirs_def is_file_def list_ex_iff key_paths
        path_parent_def on_the_way_def sample_library_def codes_def Let_def)
  then obtain f' where f: "cli_init sample_library (\<lambda>v. Inr [1]) False ?pf WriteOk ?d [1, 2] (\<lambda>p. None) = (Inr \<lparr>ik_private = [1, 2], ik_public = [2, 1]\<rparr>, f')"
    by blast
  from initialised_devices_ignore_each_other [OF f, of "\<lambda>b. Inr (init_config ?d)" "[47]" "[117]"] f show ?thesis by blast
qed

end
