(* ===== verification/Linked_Transports.thy ===== *)
theory Linked_Transports
  imports Tcp_Transport X25519_Handshake
begin

text \<open>
  Two devices and the network between them: \<^verbatim>\<open>networking/tcp_transport.py\<close> over the sessions that
  \<^verbatim>\<open>networking/x25519_handshake.py\<close>, \<^verbatim>\<open>networking/x25519_session_coordinator.py\<close> and \<^verbatim>\<open>main.py\<close> put into their stores, the secure
  channel, the frames and the message framing. The only new operation is the network, which delivers the bytes of each
  connection and then closes it. \<open>linked\<close> is the contract between the two sides: a handshake establishes it, and every push that
  is carried keeps it.
\<close>

section \<open>The network\<close>

text \<open>\<open>t\<close> are the clocks of the sender and of the receiver at one push.\<close>

definition carry_push ::
  "clock \<times> clock \<Rightarrow> peer \<Rightarrow> incoming_push \<Rightarrow> tcp_transport \<times> tcp_transport \<Rightarrow>
   raw_push option result \<times> tcp_transport \<times> tcp_transport" where
  "carry_push t p i ab =
     (case send_chunk (fst t) \<lparr>ti_connect = Inr (), ti_write = Inr ()\<rparr> p (in_chunk i) (in_path i) (in_total i) (in_version i) (fst ab) of
        (Inl e, a) \<Rightarrow> (Inl e, a, snd ab)
      | (Inr wire, a) \<Rightarrow>
          (case connection_open (snd ab) of
             (False, b) \<Rightarrow> (Inr None, a, b)
           | (True, b) \<Rightarrow>
               (case connection_read \<lparr>si_unread = wire, si_end = Closes\<rparr> b of
                  (Inl e, b) \<Rightarrow> (Inr None, a, b)
                | (Inr _, b) \<Rightarrow> (case receive_push (snd t) b of (r, b) \<Rightarrow> (r, a, b)))))"

fun carry_pushes ::
  "(clock \<times> clock) list \<Rightarrow> peer \<Rightarrow> incoming_push list \<Rightarrow> tcp_transport \<times> tcp_transport \<Rightarrow>
   raw_push option result list \<times> tcp_transport \<times> tcp_transport" where
  "carry_pushes (t # ts) p (i # is) ab =
     (case carry_push t p i ab of (r, ab1) \<Rightarrow> (case carry_pushes ts p is ab1 of (rs, ab2) \<Rightarrow> (r # rs, ab2)))"
| "carry_pushes _ p _ ab = ([], ab)"

section \<open>Linked transports\<close>

text \<open>
  What two transports have in common after a handshake: every confirmed session the sender holds for the peer has its
  counterpart at the receiver, whose window has not seen the next counter and is not too far behind it.
\<close>

definition window_ready :: "window \<Rightarrow> int \<Rightarrow> bool" where
  "window_ready w c \<longleftrightarrow> (\<exists>a. window_rel w a) \<and> w_highest w < c \<and> c \<le> w_highest w + w_window w"

text \<open>
  What the third-party code under the two channels promises, a hypothesis of every statement about pushes carried over
  them: the cipher decrypts what it encrypted and keeps lengths, MessagePack unpacks what it packed of plain values, and the
  device ids fit their fields.
\<close>

definition channels_meet :: "mval secure_channel \<Rightarrow> mval secure_channel \<Rightarrow> bool" where
  "channels_meet ch ch' \<longleftrightarrow> aead_laws ch ch' \<and> pack_laws ch ch' \<and>
     (\<forall>m k n a e. sc_encrypt ch m k n a = Inr e \<longrightarrow> length (ep_ciphertext e) = length m) \<and>
     (\<exists>own peer. utf8_encode (sc_own_device_id ch) = Inr own \<and> length own < 256 ^ 2 \<and>
        utf8_encode (sc_own_device_id ch') = Inr peer \<and> length peer < 256 ^ 2)"

definition session_linked :: "tcp_transport \<Rightarrow> tcp_transport \<Rightarrow> peer_session \<Rightarrow> bool" where
  "session_linked a b s \<longleftrightarrow>
     (\<exists>r. get_by_session_id (tt_sessions b) (ps_session_id s) = Some r \<and>
        matching_sessions (tt_channel a) s (tt_channel b) r \<and> window_ready (ps_receive_window r) (ps_next_send_counter s))"

definition linked :: "peer \<Rightarrow> tcp_transport \<Rightarrow> tcp_transport \<Rightarrow> bool" where
  "linked p a b \<longleftrightarrow>
     store_inv (tt_sessions a) \<and> store_inv (tt_sessions b) \<and>
     tt_inbox b = [] \<and> tt_active b < MAX_CONCURRENT_CONNECTIONS \<and>
     (\<forall>sid s. get_by_session_id (tt_sessions a) sid = Some s \<longrightarrow> ps_peer_id s = device_id p \<longrightarrow> ps_confirmed s \<longrightarrow> session_linked a b s)"

text \<open>One of these sessions lasts for all the pushes: its key is young enough at each and its counters reach.\<close>

definition can_carry :: "(clock \<times> clock) list \<Rightarrow> peer \<Rightarrow> tcp_transport \<Rightarrow> bool" where
  "can_carry ts p a \<longleftrightarrow>
     (\<exists>s. get_by_session_id (tt_sessions a) (ps_session_id s) = Some s \<and> ps_peer_id s = device_id p \<and> ps_confirmed s \<and>
        ps_sent_count s + int (length ts) \<le> MAX_MESSAGES_PER_KEY \<and> ps_next_send_counter s + int (length ts) \<le> MAX_COUNTER + 1 \<and>
        (\<forall>t \<in> set ts. ck_s (fst t) - ps_created_at s \<le> st_max_key_lifetime_s (tt_sessions a)))"

definition clocks_agree :: "int \<Rightarrow> clock \<times> clock \<Rightarrow> bool" where
  "clocks_agree skew t \<longleftrightarrow> 0 \<le> ck_ms (fst t) \<and> ck_ms (fst t) < 256 ^ 8 \<and> \<bar>ck_ms (snd t) - ck_ms (fst t)\<bar> \<le> skew"

text \<open>The push names each device of its version once, MessagePack packs it, and the frame stays below the limit of a message.\<close>

definition fits_message :: "mval secure_channel \<Rightarrow> incoming_push \<Rightarrow> bool" where
  "fits_message ch i \<longleftrightarrow> wire_chunk (in_chunk i) \<and> wire_version (in_version i) \<and>
     (\<exists>pb. sc_packb ch (push_payload (in_chunk i) (in_path i) (in_total i) (in_version i)) = Inr pb \<and>
        71 + int (length pb) \<le> MAX_MESSAGE_SIZE)"

abbreviation arrived_push :: "int \<Rightarrow> incoming_push \<Rightarrow> incoming_push" where
  "arrived_push now i \<equiv> i\<lparr>in_chunk := arrived now (in_chunk i)\<rparr>"

section \<open>One push\<close>

lemma window_ready_accepts: "window_ready w c \<Longrightarrow> would_accept w c \<and> 0 < c \<and> window_ready (snd (accept w c)) (c + 1)"
proof -
  assume ready: "window_ready w c"
  then obtain a where rel: "window_rel w a" and c: "w_highest w < c" "c \<le> w_highest w + w_window w"
    by (auto simp: window_ready_def)
  have a: "spec_would_accept a c" using rel c by (auto simp: window_rel_def spec_would_accept_def)
  then have w: "would_accept w c" using would_accept_refines [OF rel] by simp
  have rel': "window_rel (snd (accept w c)) (a\<lparr>s_highest := max c (s_highest a), s_seen := insert c (s_seen a)\<rparr>)"
    using accept_refines [OF rel, of c] a by (simp add: spec_accept_def)
  moreover have "s_highest a = w_highest w" using rel by (simp add: window_rel_def)
  ultimately have "w_highest (snd (accept w c)) = c" "0 < w_window (snd (accept w c))" using c by (auto simp: window_rel_def)
  then show ?thesis using w rel' a by (auto simp: window_ready_def spec_would_accept_def)
qed

lemma seal_session:
  "seal ch now_ms now s pt payload = (Inr f, s') \<Longrightarrow>
     s' = mark_active now (s\<lparr>ps_next_send_counter := ps_next_send_counter s + 1, ps_sent_count := ps_sent_count s + 1\<rparr>)"
  by (auto simp: seal_def allocate_counter_def split: if_splits sum.splits prod.splits)

lemma modify_const:
  "get_by_session_id st sid = Some s \<Longrightarrow> modify_session sid (\<lambda>_. f s) st = modify_session sid f st"
  by (simp add: modify_session_def)

lemma lifetime_modify [simp]: "st_max_key_lifetime_s (modify_session sid f st) = st_max_key_lifetime_s st"
  by (simp add: modify_session_def split: option.split)

definition used :: "real \<Rightarrow> peer_session \<Rightarrow> peer_session" where
  "used now s = mark_active now (s\<lparr>ps_next_send_counter := ps_next_send_counter s + 1, ps_sent_count := ps_sent_count s + 1\<rparr>)"

lemma used_sel [simp]:
  "ps_session_id (used now s) = ps_session_id s" "ps_peer_id (used now s) = ps_peer_id s" "ps_confirmed (used now s) = ps_confirmed s"
  "ps_created_at (used now s) = ps_created_at s" "ps_next_send_counter (used now s) = ps_next_send_counter s + 1"
  "ps_sent_count (used now s) = ps_sent_count s + 1" "matching_sessions ch (used now s) ch' r = matching_sessions ch s ch' r"
  by (simp_all add: used_def mark_active_def matching_sessions_def)

lemma receive_on_sel [simp]:
  "ps_session_id (receive_on c now r) = ps_session_id r" "ps_peer_id (receive_on c now r) = ps_peer_id r"
  "ps_receive_window (receive_on c now r) = snd (accept (ps_receive_window r) c)"
  "matching_sessions ch s ch' (receive_on c now r) = matching_sessions ch s ch' r"
  by (simp_all add: receive_on_def mark_active_def matching_sessions_def)

text \<open>The session a push takes, and its counterpart.\<close>

lemma takes_session:
  assumes link: "linked p a b" and can: "can_carry (t # ts) p a"
  shows "\<exists>s r. get_send_session (ck_s (fst t)) (tt_sessions a) (device_id p) = Some s \<and>
    get_by_session_id (tt_sessions a) (ps_session_id s) = Some s \<and>
    get_by_session_id (tt_sessions b) (ps_session_id r) = Some r \<and> ps_session_id r = ps_session_id s \<and>
    matching_sessions (tt_channel a) s (tt_channel b) r \<and> window_ready (ps_receive_window r) (ps_next_send_counter s) \<and>
    ps_sent_count s < MAX_MESSAGES_PER_KEY \<and> ps_next_send_counter s \<le> MAX_COUNTER"
proof -
  have inv: "index_inv (tt_sessions a)" using link by (simp add: linked_def store_inv_def)
  obtain s0 where "get_by_session_id (tt_sessions a) (ps_session_id s0) = Some s0" "ps_peer_id s0 = device_id p"
    "can_send s0 (ck_s (fst t)) (st_max_key_lifetime_s (tt_sessions a))"
    using can by (fastforce simp: can_carry_def can_send_def)
  then obtain s where s: "get_send_session (ck_s (fst t)) (tt_sessions a) (device_id p) = Some s"
    using get_send_session_correct [OF inv, where now = "ck_s (fst t)" and p = "device_id p"] by (cases "get_send_session (ck_s (fst t)) (tt_sessions a) (device_id p)") auto
  have f: "get_by_session_id (tt_sessions a) (ps_session_id s) = Some s" "ps_peer_id s = device_id p" "ps_confirmed s"
    "ps_sent_count s < MAX_MESSAGES_PER_KEY" "ps_next_send_counter s \<le> MAX_COUNTER"
    using get_send_session_correct [OF inv, where now = "ck_s (fst t)" and p = "device_id p"] s by simp_all
  then obtain r where r: "get_by_session_id (tt_sessions b) (ps_session_id s) = Some r"
    "matching_sessions (tt_channel a) s (tt_channel b) r" "window_ready (ps_receive_window r) (ps_next_send_counter s)"
    using link by (auto simp: linked_def session_linked_def)
  then have "ps_session_id r = ps_session_id s" by (simp add: matching_sessions_def)
  then show ?thesis using s f r by (auto intro!: exI [of _ r])
qed

text \<open>After the push the transports are linked as before.\<close>

lemma modified_inv:
  assumes "store_inv st" "get_by_session_id st sid = Some s"
  shows "store_inv (modify_session sid (used now) st)" "store_inv (modify_session sid (receive_on c now) st)"
  by (rule modify_session_inv [OF assms(1)]; simp add: receive_on_def mark_active_def)+

lemma still_linked:
  assumes link: "linked p a b"
    and s: "get_by_session_id (tt_sessions a) (ps_session_id s) = Some s" "window_ready (ps_receive_window r) (ps_next_send_counter s)"
    and r: "get_by_session_id (tt_sessions b) (ps_session_id r) = Some r" "ps_session_id r = ps_session_id s"
      "matching_sessions (tt_channel a) s (tt_channel b) r"
  shows "linked p (a\<lparr>tt_sessions := modify_session (ps_session_id s) (used now) (tt_sessions a)\<rparr>)
    (b\<lparr>tt_sessions := modify_session (ps_session_id r) (receive_on (ps_next_send_counter s) now') (tt_sessions b)\<rparr>)"
    (is "linked p ?a ?b")
proof -
  have a: "store_inv (tt_sessions ?a)" and b: "store_inv (tt_sessions ?b)"
    using modified_inv(1) [OF _ s(1)] modified_inv(2) [OF _ r(1)] link by (simp_all add: linked_def)
  have "session_linked ?a ?b x" if x: "get_by_session_id (tt_sessions ?a) sid = Some x" "ps_peer_id x = device_id p" "ps_confirmed x" for sid x
  proof (cases "sid = ps_session_id s")
    case True
    then have "x = used now s" using x(1) s(1) by (simp add: get_modify_session)
    then show ?thesis
      using r window_ready_accepts [OF s(2)] by (auto simp: session_linked_def get_modify_session)
  next
    case False
    then have g: "get_by_session_id (tt_sessions a) sid = Some x" using x(1) by (simp add: get_modify_session)
    then have "ps_session_id x = sid" using link index_invD(3) by (auto simp: linked_def store_inv_def)
    then show ?thesis using link g x(2,3) False r(2) by (auto simp: linked_def session_linked_def get_modify_session)
  qed
  then show ?thesis using link a b by (simp add: linked_def)
qed

lemma still_carries:
  assumes "can_carry (t # ts) p a" "get_by_session_id (tt_sessions a) (ps_session_id s) = Some s"
  shows "can_carry ts p (a\<lparr>tt_sessions := modify_session (ps_session_id s) (used now) (tt_sessions a)\<rparr>)"
proof -
  obtain s0 where s0: "get_by_session_id (tt_sessions a) (ps_session_id s0) = Some s0" "ps_peer_id s0 = device_id p" "ps_confirmed s0"
    "ps_sent_count s0 + int (length (t # ts)) \<le> MAX_MESSAGES_PER_KEY" "ps_next_send_counter s0 + int (length (t # ts)) \<le> MAX_COUNTER + 1"
    "\<forall>t' \<in> set (t # ts). ck_s (fst t') - ps_created_at s0 \<le> st_max_key_lifetime_s (tt_sessions a)"
    using assms(1) by (auto simp: can_carry_def)
  let ?x = "if ps_session_id s0 = ps_session_id s then used now s0 else s0"
  have "get_by_session_id (modify_session (ps_session_id s) (used now) (tt_sessions a)) (ps_session_id s0) = Some ?x"
    using s0(1) by (cases "ps_session_id s0 = ps_session_id s") (simp_all add: get_modify_session)
  then have "get_by_session_id (modify_session (ps_session_id s) (used now) (tt_sessions a)) (ps_session_id ?x) = Some ?x"
    by (cases "ps_session_id s0 = ps_session_id s") simp_all
  moreover have "ps_peer_id ?x = device_id p" "ps_confirmed ?x" using s0(2,3) by simp_all
  moreover have "ps_sent_count ?x + int (length ts) \<le> MAX_MESSAGES_PER_KEY" "ps_next_send_counter ?x + int (length ts) \<le> MAX_COUNTER + 1"
    using s0(4,5) by simp_all
  moreover have "\<forall>t' \<in> set ts. ck_s (fst t') - ps_created_at ?x \<le> st_max_key_lifetime_s (tt_sessions a)" using s0(6) by simp
  ultimately show ?thesis unfolding can_carry_def by (intro exI [of _ ?x]) simp
qed

lemma carry_one:
  assumes meets: "channels_meet (tt_channel a) (tt_channel b)" and link: "linked p a b" and can: "can_carry (t # ts) p a"
    and clock: "clocks_agree (sc_timestamp_skew_ms (tt_channel b)) t" and fits: "fits_message (tt_channel a) i"
  shows "\<exists>a' b'. carry_push t p i (a, b) = (Inr (Some (raw_of (arrived_push (ck_us (snd t)) i))), a', b') \<and>
    linked p a' b' \<and> can_carry ts p a' \<and> tt_channel a' = tt_channel a \<and> tt_channel b' = tt_channel b"
proof -
  obtain s r where s: "get_send_session (ck_s (fst t)) (tt_sessions a) (device_id p) = Some s"
      "get_by_session_id (tt_sessions a) (ps_session_id s) = Some s"
    and r: "get_by_session_id (tt_sessions b) (ps_session_id r) = Some r" "ps_session_id r = ps_session_id s"
      "matching_sessions (tt_channel a) s (tt_channel b) r"
    and w: "window_ready (ps_receive_window r) (ps_next_send_counter s)"
    and n: "ps_sent_count s < MAX_MESSAGES_PER_KEY" "ps_next_send_counter s \<le> MAX_COUNTER"
    using takes_session [OF link can] by blast
  note acc = window_ready_accepts [OF w]
  have meet: "aead_laws (tt_channel a) (tt_channel b)" "pack_laws (tt_channel a) (tt_channel b)"
    "\<And>m k n a' e. sc_encrypt (tt_channel a) m k n a' = Inr e \<Longrightarrow> length (ep_ciphertext e) = length m"
    using meets by (auto simp: channels_meet_def)
  obtain own peer where ids: "utf8_encode (sc_own_device_id (tt_channel a)) = Inr own" "length own < 256 ^ 2"
      "utf8_encode (sc_own_device_id (tt_channel b)) = Inr peer" "length peer < 256 ^ 2"
    using meets unfolding channels_meet_def by blast
  let ?pl = "push_payload (in_chunk i) (in_path i) (in_total i) (in_version i)"
  obtain pb where pb: "sc_packb (tt_channel a) ?pl = Inr pb" "71 + int (length pb) \<le> MAX_MESSAGE_SIZE" and wire: "wire_chunk (in_chunk i)"
      and version: "wire_version (in_version i)"
    using fits by (auto simp: fits_message_def)
  have small: "HEADER_SIZE + length pb < 2 ^ 31" using pb(2) by (simp add: HEADER_SIZE_def MAX_MESSAGE_SIZE_def)
  obtain f s' where f: "seal (tt_channel a) (ck_ms (fst t)) (ck_s (fst t)) s CHUNK_DATA ?pl = (Inr f, s')"
    using seal_total [OF r(3) meet(1) pack_lawsD [OF meet(2) plain_push_payload [OF version]] ids pb(1) small, of "ck_ms (fst t)" "ck_s (fst t)" CHUNK_DATA] clock acc n
    by (auto simp: clocks_agree_def)
  have s': "s' = used (ck_s (fst t)) s" using seal_session [OF f] by (simp add: used_def)
  have len: "length f = 71 + length pb" by (rule seal_length [OF f pb(1) meet(3)])
  let ?wire = "be_bytes 4 (length f) @ f"
  let ?a = "a\<lparr>tt_sessions := modify_session (ps_session_id s) (used (ck_s (fst t))) (tt_sessions a)\<rparr>"
  let ?b = "b\<lparr>tt_sessions := modify_session (ps_session_id r) (receive_on (ps_next_send_counter s) (ck_s (snd t))) (tt_sessions b)\<rparr>"
  have "length f < 256 ^ 4" using len pb(2) by (simp add: MAX_MESSAGE_SIZE_def)
  then have w4: "write_length_prefixed f = Inr ?wire"
    by (simp add: write_length_prefixed_def LENGTH_PREFIX_SIZE_def pack_uint_def del: be_bytes.simps)
  have send: "send_chunk (fst t) \<lparr>ti_connect = Inr (), ti_write = Inr ()\<rparr> p (in_chunk i) (in_path i) (in_total i) (in_version i) a = (Inr ?wire, ?a)"
    using modify_const [OF s(2), of "used (ck_s (fst t))"]
    by (simp add: send_chunk_def send_frame_def s(1) f s' w4 del: be_bytes.simps)
  have room: "tt_inbox b = []" "tt_active b < MAX_CONCURRENT_CONNECTIONS" "int (length ?wire) \<le> 4 + MAX_MESSAGE_SIZE"
    using link len pb(2) by (simp_all add: linked_def del: be_bytes.simps) 
  have inv: "index_inv (tt_sessions b)" using link by (simp add: linked_def store_inv_def)
  obtain b1 b2 where "connection_open b = (True, b1)" "connection_read \<lparr>si_unread = ?wire, si_end = Closes\<rparr> b1 = (Inr (), b2)"
    "receive_push (snd t) b2 = (Inr (Some (raw_of \<lparr>in_path = in_path i, in_total = in_total i, in_chunk = arrived (ck_us (snd t)) (in_chunk i), in_version = in_version i\<rparr>)), ?b)"
    using sent_chunk_is_received [OF send s(1) inv r(3) meet(1,2) wire version _ _ _ _ _ _ r(1) _ room, of "snd t"] clock acc n
    by (auto simp: clocks_agree_def)
  moreover have "\<lparr>in_path = in_path i, in_total = in_total i, in_chunk = arrived (ck_us (snd t)) (in_chunk i), in_version = in_version i\<rparr> =
      arrived_push (ck_us (snd t)) i" by simp
  ultimately have "carry_push t p i (a, b) = (Inr (Some (raw_of (arrived_push (ck_us (snd t)) i))), ?a, ?b)"
    by (simp only: carry_push_def send fst_conv snd_conv prod.case sum.case bool.case)
  then show ?thesis
    using still_linked [OF link s(2) w r, of "ck_s (fst t)" "ck_s (snd t)"] still_carries [OF can s(2), of "ck_s (fst t)"] by auto
qed

section \<open>All the pushes of a file\<close>

definition arrivals :: "(clock \<times> clock) list \<Rightarrow> incoming_push list \<Rightarrow> incoming_push list" where
  "arrivals ts is = map2 (\<lambda>t i. arrived_push (ck_us (snd t)) i) ts is"

lemma length_arrivals [simp]: "length (arrivals ts is) = min (length ts) (length is)"
  by (simp add: arrivals_def)

lemma carry_all:
  assumes "channels_meet (tt_channel a) (tt_channel b)" "linked p a b" "can_carry ts p a" "list_all (clocks_agree (sc_timestamp_skew_ms (tt_channel b))) ts"
    and "list_all (fits_message (tt_channel a)) is" "length ts = length is"
  shows "\<exists>a' b'. carry_pushes ts p is (a, b) = (map (\<lambda>i. Inr (Some (raw_of i))) (arrivals ts is), a', b') \<and> linked p a' b'"
  using assms
proof (induction ts arbitrary: "is" a b)
  case Nil
  then show ?case by (simp add: arrivals_def)
next
  case (Cons t ts)
  obtain i js where "is": "is = i # js" using Cons.prems(6) by (cases "is") auto
  have one: "clocks_agree (sc_timestamp_skew_ms (tt_channel b)) t" "fits_message (tt_channel a) i" using Cons.prems(4,5) "is" by simp_all
  obtain a1 b1 where c: "carry_push t p i (a, b) = (Inr (Some (raw_of (arrived_push (ck_us (snd t)) i))), a1, b1)"
      "linked p a1 b1" "can_carry ts p a1" "tt_channel a1 = tt_channel a" "tt_channel b1 = tt_channel b"
    using carry_one [OF Cons.prems(1-3) one] by blast
  from Cons.IH [OF _ c(2,3), of js] obtain a' b' where
    "carry_pushes ts p js (a1, b1) = (map (\<lambda>i. Inr (Some (raw_of i))) (arrivals ts js), a', b')" "linked p a' b'"
    using Cons.prems(1,4-6) "is" c(4,5) by auto
  then show ?case using "is" c(1) by (simp add: arrivals_def)
qed

section \<open>A handshake links the transports\<close>

lemma lifetime_add: "st_max_key_lifetime_s (add_session s st) = st_max_key_lifetime_s st"
  by (simp add: add_session_def index_peer_def Let_def)

lemma put_result_adds:
  assumes "store_inv st" "length (hr_session_id r) = SESSION_ID_SIZE" "get_by_session_id st (hr_session_id r) = None"
  shows "\<exists>w st'. window_ready w 1 \<and> put_result now c r st = (Inr (), add_session (session_of now c w r) st') \<and>
    store_inv (add_session (session_of now c w r) st') \<and> st_max_key_lifetime_s st' = st_max_key_lifetime_s st \<and>
    (\<forall>k s. get_by_session_id st' k = Some s \<longrightarrow> get_by_session_id st k = Some s)"
proof -
  obtain w where w: "mk_AntiReplayWindow DEFAULT_REPLAY_WINDOW_SIZE = Inr w" "w_highest w = 0" "w_window w = 128"
    by (simp add: mk_AntiReplayWindow_def DEFAULT_REPLAY_WINDOW_SIZE_def)
  have ready: "window_ready w 1" using window_rel_new [OF w(1)] w(2,3) by (auto simp: window_ready_def)
  let ?s = "session_of now c w r"
  have "length (ps_session_id ?s) = SESSION_ID_SIZE" "get_by_session_id st (ps_session_id ?s) = None"
    using assms(2,3) by (simp_all add: session_of_def)
  then obtain st' where st': "put now ?s st = (Inr (), add_session ?s st')" "removed_from (evictable now (ps_peer_id ?s) st) st st'"
    using put_spec [OF assms(1)] by blast
  have "index_inv st" using assms(1) by (simp add: store_inv_def)
  note f = removed_facts [OF this st'(2)]
  have "store_inv (add_session ?s st')" using put_inv [OF assms(1), of now ?s] st'(1) by simp
  moreover have "put_result now c r st = (Inr (), add_session ?s st')" using w(1) st'(1) by (simp add: put_result_def)
  ultimately show ?thesis using ready f(2,4) by blast
qed

definition results_match :: "mval secure_channel \<Rightarrow> handshake_result \<Rightarrow> mval secure_channel \<Rightarrow> handshake_result \<Rightarrow> bool" where
  "results_match ch ra ch' rb \<longleftrightarrow>
     hr_session_id ra = hr_session_id rb \<and> length (hr_session_id ra) = SESSION_ID_SIZE \<and>
     hr_send_key ra = hr_receive_key rb \<and> length (hr_send_key ra) = KEY_SIZE \<and>
     hr_role ra = ROLE_INITIATOR \<and> hr_role rb = ROLE_RESPONDER \<and>
     hr_peer_device_id ra = sc_own_device_id ch' \<and> hr_peer_device_id rb = sc_own_device_id ch"

lemma results_match_sessions:
  "results_match ch ra ch' rb \<Longrightarrow> matching_sessions ch (session_of now c w ra) ch' (session_of now' c' w' rb)"
  by (auto simp: results_match_def matching_sessions_def session_of_def)

lemma results_link:
  assumes match: "results_match (tt_channel u) ra (tt_channel v) rb" and p: "hr_peer_device_id ra = device_id p"
    and fresh: "get_by_session_id (tt_sessions u) (hr_session_id ra) = None" "get_by_session_id (tt_sessions v) (hr_session_id ra) = None"
    and new: "\<not> has_confirmed_session (tt_sessions u) (device_id p)"
    and inv: "store_inv (tt_sessions u)" "store_inv (tt_sessions v)"
    and meet: "tt_inbox v = []" "tt_active v < MAX_CONCURRENT_CONNECTIONS"
    and times: "list_all (\<lambda>t. ck_s (fst t) - now \<le> st_max_key_lifetime_s (tt_sessions u)) ts" "int (length ts) \<le> MAX_MESSAGES_PER_KEY"
  shows "\<exists>su sv. ensure_session now (device_id p) (Inr ra) (tt_sessions u) = (Inr (), su) \<and>
    drain_inbound [(now', rb)] (tt_sessions v) = (Inr (), sv) \<and>
    linked p (u\<lparr>tt_sessions := su\<rparr>) (v\<lparr>tt_sessions := sv\<rparr>) \<and> can_carry ts p (u\<lparr>tt_sessions := su\<rparr>)"
proof -
  have ids: "length (hr_session_id ra) = SESSION_ID_SIZE" "hr_session_id rb = hr_session_id ra" using match by (auto simp: results_match_def)
  obtain w su where u: "window_ready w 1" "put_result now True ra (tt_sessions u) = (Inr (), add_session (session_of now True w ra) su)"
      "store_inv (add_session (session_of now True w ra) su)" "st_max_key_lifetime_s su = st_max_key_lifetime_s (tt_sessions u)"
      "\<And>k s. get_by_session_id su k = Some s \<Longrightarrow> get_by_session_id (tt_sessions u) k = Some s"
    using put_result_adds [OF inv(1) ids(1) fresh(1)] by blast
  obtain w' sv where v: "window_ready w' 1" "put_result now' False rb (tt_sessions v) = (Inr (), add_session (session_of now' False w' rb) sv)"
      "store_inv (add_session (session_of now' False w' rb) sv)"
    using put_result_adds [OF inv(2), of rb now' False] ids fresh(2) by auto
  let ?s = "session_of now True w ra" and ?r = "session_of now' False w' rb"
  let ?u = "u\<lparr>tt_sessions := add_session ?s su\<rparr>" and ?v = "v\<lparr>tt_sessions := add_session ?r sv\<rparr>"
  have sel: "ps_session_id ?s = hr_session_id ra" "ps_session_id ?r = hr_session_id ra" "ps_next_send_counter ?s = 1" "ps_sent_count ?s = 0"
    "ps_receive_window ?r = w'" "ps_peer_id ?s = device_id p" "ps_confirmed ?s" "ps_created_at ?s = now"
    using ids p by (simp_all add: session_of_def)
  have "session_linked ?u ?v x" if x: "get_by_session_id (tt_sessions ?u) sid = Some x" "ps_peer_id x = device_id p" "ps_confirmed x" for sid x
  proof (cases "sid = hr_session_id ra")
    case True
    then have "x = ?s" using x(1) by (simp add: get_add_session sel)
    then show ?thesis using v(1) results_match_sessions [OF match]
      by (auto simp: session_linked_def get_add_session sel)
  next
    case False
    then have "get_by_session_id (tt_sessions u) sid = Some x" using x(1) u(5) by (simp add: get_add_session sel)
    moreover from this have "ps_session_id x = sid" using inv(1) index_invD(3) by (auto simp: store_inv_def)
    ultimately have "x \<in> set (sessions_for_peer (tt_sessions u) (device_id p))"
      using set_sessions_for_peer [of "tt_sessions u" x "device_id p"] inv(1) x(2) by (simp add: store_inv_def)
    then show ?thesis using new x(3) by (auto simp: has_confirmed_session_def list_ex_iff)
  qed
  then have "linked p ?u ?v" using meet u(3) v(3) by (simp add: linked_def)
  moreover have "can_carry ts p ?u"
    unfolding can_carry_def
    by (intro exI [of _ ?s]) (use times u(4) in \<open>auto simp: get_add_session sel list_all_iff lifetime_add
      MAX_COUNTER_def MAX_MESSAGES_PER_KEY_def\<close>)
  moreover have "ensure_session now (device_id p) (Inr ra) (tt_sessions u) = (Inr (), add_session ?s su)"
    using new u(2) by (simp add: ensure_session_def)
  moreover have "drain_inbound [(now', rb)] (tt_sessions v) = (Inr (), add_session ?r sv)" using v(2) by simp
  ultimately show ?thesis by blast
qed

section \<open>Property\<close>

text \<open>
  C24: A handshake ends with linked transports. Suppose the parameters keep their documented laws at these values (each
  device's signatures verify under its own public key, both halves of the key exchange give the same secret, HKDF gives
  output of the asked length, the two messages survive MessagePack), the messages and ids fit their length fields and arrive,
  neither side has another key pinned for the other, the initiator has no confirmed session with the peer yet and both stores are
  well formed, the derived session id is in neither of them, and the responder's inbox is empty and it has room for a
  connection. Then both sides finish, each pins the other's identity key, the coordinator and the inbound loop store the two
  sessions, and the initiator's transport is linked to the responder's: whatever confirmed session it may send on, the responder
  holds the other half with the same key, direction and ids, and a window ready for its next counter. One of them can carry up to
  \<open>2 ^ 32\<close> messages within the lifetime of its key.
\<close>

theorem handshake_links_transports:
  assumes sig: "\<And>p msg. p = a \<or> p = b \<Longrightarrow>
      xc_verify xc (MBin (xo_public_key p)) (MBin msg) (MBin (xc_sign xc (xo_private_key p) msg)) = Inr True"
    and dh: "xc_dh xc (fst ea) (snd eb) = Inr z" "xc_dh xc (fst eb) (snd ea) = Inr z"
    and hkdf: "hkdf_length (xc_hkdf xc)"
    and wire: "xc_packb xc (request_message xc a salt (snd ea)) = Inr m1" "xc_unpackb xc m1 = Inr (request_message xc a salt (snd ea))"
      "xc_packb xc (response_message xc b salt (snd eb)) = Inr m2" "xc_unpackb xc m2 = Inr (response_message xc b salt (snd eb))"
    and sizes: "length m1 < 256 ^ 4" "length m2 < 256 ^ 4" "length (snd ea) < 65536" "length (snd eb) < 65536"
      "utf8_encode (xo_device_id a) = Inr ia" "length ia < 65536" "utf8_encode (xo_device_id b) = Inr ib" "length ib < 65536"
    and pins: "get_trusted_key ta (xo_device_id b) \<in> {None, Some (xo_public_key b)}"
      "get_trusted_key tb (xo_device_id a) \<in> {None, Some (xo_public_key a)}"
    and io: "xi_connect ioa = Inr ()" "xi_write ioa = Inr ()" "xi_read ioa = Inr m2" "xi_write iob = Inr ()" "xi_read iob = Inr m1"
    and own: "sc_own_device_id (tt_channel u) = xo_device_id a" "sc_own_device_id (tt_channel v) = xo_device_id b" "device_id p = xo_device_id b"
    and stores: "store_inv (tt_sessions u)" "store_inv (tt_sessions v)" "\<not> has_confirmed_session (tt_sessions u) (device_id p)"
      "\<And>r ts'. initiate xc a ea salt ioa ta = (Inr r, ts') \<Longrightarrow>
         get_by_session_id (tt_sessions u) (hr_session_id r) = None \<and> get_by_session_id (tt_sessions v) (hr_session_id r) = None"
    and meet: "tt_inbox v = []" "tt_active v < MAX_CONCURRENT_CONNECTIONS"
    and times: "list_all (\<lambda>t. ck_s (fst t) - now \<le> st_max_key_lifetime_s (tt_sessions u)) ts" "int (length ts) \<le> MAX_MESSAGES_PER_KEY"
  shows "\<exists>ra rb su sv. initiate xc a ea salt ioa ta = (Inr ra, trust (xo_device_id b) (xo_public_key b) ta) \<and>
    accept_request xc b eb iob tb = (Inr rb, trust (xo_device_id a) (xo_public_key a) tb) \<and>
    ensure_session now (device_id p) (Inr ra) (tt_sessions u) = (Inr (), su) \<and>
    drain_inbound [(now', rb)] (tt_sessions v) = (Inr (), sv) \<and>
    linked p (u\<lparr>tt_sessions := su\<rparr>) (v\<lparr>tt_sessions := sv\<rparr>) \<and> can_carry ts p (u\<lparr>tt_sessions := su\<rparr>)"
proof -
  obtain ra rb where r: "initiate xc a ea salt ioa ta = (Inr ra, trust (xo_device_id b) (xo_public_key b) ta)"
      "accept_request xc b eb iob tb = (Inr rb, trust (xo_device_id a) (xo_public_key a) tb)"
      "results_match (tt_channel u) ra (tt_channel v) rb" "hr_peer_device_id ra = device_id p"
    using x25519_handshake_agrees [OF sig dh hkdf wire sizes pins io] own by (auto simp: results_match_def)
  have fresh: "get_by_session_id (tt_sessions u) (hr_session_id ra) = None" "get_by_session_id (tt_sessions v) (hr_session_id ra) = None"
    using stores(4) [OF r(1)] by simp_all
  obtain su sv where "ensure_session now (device_id p) (Inr ra) (tt_sessions u) = (Inr (), su)"
      "drain_inbound [(now', rb)] (tt_sessions v) = (Inr (), sv)"
      "linked p (u\<lparr>tt_sessions := su\<rparr>) (v\<lparr>tt_sessions := sv\<rparr>)" "can_carry ts p (u\<lparr>tt_sessions := su\<rparr>)"
    using results_link [OF r(3,4) fresh stores(3,1,2) meet times, of now'] by blast
  then show ?thesis using r(1,2) by blast
qed

section \<open>Witness\<close>

definition other_peer :: peer where
  "other_peer = sample_peer\<lparr>pr_identity := \<lparr>pi_device_id = [66], pi_hostname = [], pi_fingerprint = []\<rparr>\<rparr>"

theorem handshake_links_transports_witness:
  "\<exists>ra rb su sv. initiate sample_x (sample_device 65) ([], [1]) [5] (sample_x_io [2]) [] = (Inr ra, [([66], [66])]) \<and>
     accept_request sample_x (sample_device 66) ([], [3]) (sample_x_io [1]) [] = (Inr rb, [([65], [65])]) \<and>
     ensure_session 0 [66] (Inr ra) mk_SessionStore = (Inr (), su) \<and> drain_inbound [(1, rb)] mk_SessionStore = (Inr (), sv) \<and>
     linked other_peer (sample_transport [65] su) (sample_transport [66] sv) \<and>
     can_carry [(sample_clock, sample_clock)] other_peer (sample_transport [65] su)"
proof -
  let ?u = "sample_transport [65] mk_SessionStore" and ?v = "sample_transport [66] mk_SessionStore"
  have own: "sc_own_device_id (tt_channel ?u) = xo_device_id (sample_device 65)"
    "sc_own_device_id (tt_channel ?v) = xo_device_id (sample_device 66)" "device_id other_peer = xo_device_id (sample_device 66)"
    by (simp_all add: sample_fields sample_device_def other_peer_def device_id_def)
  have stores: "store_inv (tt_sessions ?u)" "store_inv (tt_sessions ?v)" "\<not> has_confirmed_session (tt_sessions ?u) (device_id other_peer)"
    using mk_SessionStore_inv
    by (simp_all add: sample_fields has_confirmed_session_def sessions_for_peer_def ids_of_def mk_SessionStore_def List.map_filter_def)
  have fresh: "get_by_session_id (tt_sessions ?u) sid = None \<and> get_by_session_id (tt_sessions ?v) sid = None" for sid
    by (simp add: sample_fields get_by_session_id_def mk_SessionStore_def)
  have meet: "tt_inbox ?v = []" "tt_active ?v < MAX_CONCURRENT_CONNECTIONS"
    by (simp_all add: sample_fields MAX_CONCURRENT_CONNECTIONS_def)
  have times: "list_all (\<lambda>t. ck_s (fst t) - 0 \<le> st_max_key_lifetime_s (tt_sessions ?u)) [(sample_clock, sample_clock)]"
    "int (length [(sample_clock, sample_clock)]) \<le> MAX_MESSAGES_PER_KEY"
    by (simp_all add: sample_fields mk_SessionStore_def MAX_KEY_LIFETIME_S_def MAX_MESSAGES_PER_KEY_def)
  have put: "(sample_transport o1 st)\<lparr>tt_sessions := st'\<rparr> = sample_transport o1 st'" for o1 st st'
    by (simp add: sample_transport_def)
  have id: "device_id other_peer = [66]" by (simp add: other_peer_def device_id_def)
  show ?thesis
    using handshake_links_transports [OF sample_x_laws sample_x_wire sample_x_sizes sample_x_pins sample_x_connected own stores fresh meet times, of 1]
    unfolding sample_x_trusted put id sample_fields of_nat_numeral by blast
qed

end
