(* ===== verification/Push_Over_Tcp.thy ===== *)
theory Push_Over_Tcp
  imports Sync_File Linked_Transports
begin

text \<open>
  The composition of \<^verbatim>\<open>application/use_cases/sync_file.py\<close>, the linked transports and
  \<^verbatim>\<open>application/use_cases/receive_pushed_files.py\<close>: what one device pushes is what the other one writes.
\<close>

section \<open>What arrives rebuilds the file\<close>

lemma arrivals_keep:
  assumes "length ts = length is"
  shows "map index_of (arrivals ts is) = map index_of is"
    and "map (\<lambda>i. (cm_offset (ck_metadata (in_chunk i)), ck_data (in_chunk i))) (arrivals ts is) =
      map (\<lambda>i. (cm_offset (ck_metadata (in_chunk i)), ck_data (in_chunk i))) is"
  using assms by (auto simp: arrivals_def arrived_def intro!: nth_equalityI)

lemma covers_map: "covers (map in_chunk is) n \<longleftrightarrow>
    (\<forall>k<n. list_ex (\<lambda>(off, b). nat off \<le> k \<and> k < nat off + length b) (map (\<lambda>i. (cm_offset (ck_metadata (in_chunk i)), ck_data (in_chunk i))) is))"
  by (simp add: covers_def list_ex_iff)

lemma validate_arrived: "validate_push rc (arrived_push now i) = validate_push rc i"
  by (cases "cm_hash (ck_metadata (in_chunk i))") (simp_all add: validate_push_def arrived_def Let_def)

lemma good_arrived: "good_push rc path data n (ev, i) \<Longrightarrow> good_push rc path data n (ev, arrived_push now i)"
  by (simp add: good_push_def validate_arrived) (simp add: chunk_of_def wf_chunk_def wf_metadata_def arrived_def)

lemma map_zip_snd: "length xs = length ys \<Longrightarrow> map (\<lambda>p. f (snd p)) (zip xs ys) = map f ys"
  by (auto intro!: nth_equalityI)

lemma arrivals_rebuild:
  assumes "is": "list_all (good_push rc path data n) (zip evs is)"
      "list_all (\<lambda>p. cm_offset (ck_metadata (in_chunk (snd p))) < 2 ^ 63) (zip evs is)"
      "distinct (map (\<lambda>p. index_of (snd p)) (zip evs is))" "covers (map (\<lambda>p. in_chunk (snd p)) (zip evs is)) m"
    and len: "length ts = length is" "length evs = length is"
  shows "list_all (good_push rc path data n) (zip evs (arrivals ts is))"
    and "list_all (\<lambda>p. cm_offset (ck_metadata (in_chunk (snd p))) < 2 ^ 63) (zip evs (arrivals ts is))"
    and "distinct (map (\<lambda>p. index_of (snd p)) (zip evs (arrivals ts is)))"
    and "covers (map (\<lambda>p. in_chunk (snd p)) (zip evs (arrivals ts is))) m"
proof -
  show "list_all (good_push rc path data n) (zip evs (arrivals ts is))"
    using "is"(1) len good_arrived by (simp add: list_all_length arrivals_def)
  show "list_all (\<lambda>p. cm_offset (ck_metadata (in_chunk (snd p))) < 2 ^ 63) (zip evs (arrivals ts is))"
    using "is"(2) len by (simp add: list_all_length arrivals_def arrived_def)
  show "distinct (map (\<lambda>p. index_of (snd p)) (zip evs (arrivals ts is)))"
    using "is"(3) len arrivals_keep(1) [OF len(1)] by (simp add: map_zip_snd [where f = index_of])
  show "covers (map (\<lambda>p. in_chunk (snd p)) (zip evs (arrivals ts is))) m"
    using "is"(4) len arrivals_keep(2) [OF len(1)] by (simp add: map_zip_snd [where f = in_chunk] covers_map)
qed

section \<open>Property\<close>

text \<open>
  C8: A pushed file arrives over the network. Let the sender push a non-empty file whose chunks have different digests to a
  peer without a manifest for it, where the chunking strategy keeps its contract and every send and the saving of the manifest succeed. Let the transports be linked (C24), with a
  session that lasts for all the chunks, an empty inbox and room for a connection, clocks that agree within the skew, the laws of the cipher
  and of MessagePack on text-keyed values, and pushes that MessagePack packs below the limit of a message and whose version
  names each device once. Let the receiver use the same hash function and limits the file respects, and be quiet: neither the
  operating system nor the metadata repository fails while it handles these pushes, the path is safe, does not resolve to the root of the file system and is not pending before,
  fewer files than the limit are pending, no file stands where a directory must be made, the destination is not a directory, the
  temporary name drawn is not in use, and nothing else happens in between. Then every chunk is sealed, sent, received, opened
  and yielded as the push it was, stamped with the time of its arrival, the receiver commits, its file at that path is the
  sender's (followed by what an older, longer file had beyond it), nothing stays pending, the sender reports the number of
  chunks, and the transports are linked for the next file.
\<close>

theorem file_pushed_over_tcp:
  assumes ok: "reader_ok sf" and src: "ss_fs st (path_join (sf_root sf) path) = Some (FileNode data)" "data \<noteq> []"
    and io: "io_manifest io = Inr None" "io_version io = Inr v" "\<forall>n. io_send io n = Inr ()" "io_save io = Inr ()"
    and cs: "cs = fst (read_source sf (ss_fs st) (path_join (sf_root sf) path))"
      "distinct (map (\<lambda>c. digest (sf_hash sf (ck_data c))) cs)" "within_limits rc cs" "rc_hash rc = sf_hash sf"
    and pushed: "is = drop (length (ss_sent st)) (ss_sent (snd (push sf io path st)))"
    and meets: "channels_meet (tt_channel a) (tt_channel b)"
    and link: "linked p a b" "can_carry ts p a" "list_all (clocks_agree (sc_timestamp_skew_ms (tt_channel b))) ts"
      "list_all (fits_message (tt_channel a)) is" "length ts = length is"
    and d: "resolve_within (rc_resolve rc) (rc_sync_root rc) path = Inr d" "pp_parts d \<noteq> []"
    and idle: "dict_get (rp_pending rst) path = None" "int (length (rp_pending rst)) < pl_max_pending_files (rc_limits rc)"
    and disk: "mkdir_parents (path_parent d) (rp_fs rst) = Inr f0" "rp_fs rst d \<noteq> Some DirNode"
      "f0 (temp_path d (ev_rnd (hd evs))) = None"
    and calm: "list_all calm evs" "length evs = length is"
  shows "\<exists>arrived a' b' rst'. carry_pushes ts p is (a, b) = (map (\<lambda>i. Inr (Some (raw_of i))) arrived, a', b') \<and>
    run_events rc refused (map2 Push evs arrived) rst = (Inr (), rst') \<and>
    rp_fs rst' = f0(d \<mapsto> FileNode (data @ drop (length data) (file_bytes (rp_fs rst d)))) \<and>
    dict_get (rp_pending rst') path = None \<and>
    fst (push sf io path st) = Inr \<lparr>sr_transferred_count = int (length cs), sr_direction = None\<rparr> \<and> linked p a' b'"
proof -
  have r: "cs \<noteq> []" "concat (map ck_data cs) = data" "laid_out (sf_cid sf (path_join (sf_root sf) path)) 0 0 cs"
    and pu: "fst (push sf io path st) = Inr \<lparr>sr_transferred_count = int (length cs), sr_direction = None\<rparr>"
    and "is = map (\<lambda>c. push_message path (int (card ((\<lambda>c. digest (sf_hash sf (ck_data c))) ` set cs))) v (hashed sf c)) cs"
    using first_push [OF ok src io] by (auto simp: cs(1) pushed)
  then have "is": "is = map (\<lambda>c. push_message path (int (length cs)) v (hashed sf c)) cs"
    using distinct_card [OF cs(2)] by simp
  then have len: "length is = length cs" by simp
  have n: "1 \<le> int (length cs)" using r(1) by (cases cs) simp_all
  have "map snd (zip evs is) = is" using calm(2) by simp
  then have zip: "map snd (zip evs is) = map (\<lambda>c. push_message path (int (length cs)) v (hashed sf c)) cs" using "is" by (rule trans)
  have calm': "list_all (\<lambda>p. calm (fst p)) (zip evs is)" using calm(1) by (auto simp: list_all_iff dest!: set_zip_leftD)
  note sent = sent_in_order [OF r(3) cs(3,4) n order_refl zip calm', unfolded r(2)]
  note got = arrivals_rebuild [OF sent link(5) calm(2)]
  let ?ps = "zip evs (arrivals ts is)"
  have ps: "?ps \<noteq> []" "length ?ps = length cs" "fst (hd ?ps) = hd evs"
  proof -
    have l: "length evs = length cs" "length (arrivals ts is) = length cs" using calm(2) link(5) len by simp_all
    moreover have "0 < length cs" using r(1) by simp
    ultimately have "evs \<noteq> []" "arrivals ts is \<noteq> []" by (metis list.size(3) less_irrefl)+
    then show "?ps \<noteq> []" "length ?ps = length cs" "fst (hd ?ps) = hd evs" using l by (simp_all add: hd_zip zip_eq_Nil_iff)
  qed
  obtain rst' where "run_events rc refused (map2 Push evs (arrivals ts is)) rst = (Inr (), rst')"
    "rp_fs rst' = f0(d \<mapsto> FileNode (data @ drop (length data) (file_bytes (rp_fs rst d))))" "dict_get (rp_pending rst') path = None"
    using pushes_rebuild [OF d idle disk(1,2) _ ps(1) _ got(3,2,4), where refused = refused] disk(3) got(1) ps(2,3) by auto
  then show ?thesis using carry_all [OF meets link] pu by blast
qed

section \<open>Witness\<close>

text \<open>The two bytes \<open>7, 8\<close> pushed as the file \<^verbatim>\<open>f\<close> from device \<open>[66]\<close> to device \<open>[65]\<close>, in one chunk.\<close>

abbreviation sample_chunk :: chunk where
  "sample_chunk \<equiv> chunk_at (\<lambda>_. codes ''c'') (\<lambda>_. 0) 0 0 [7, 8]"

definition sample_pushed :: incoming_push where
  "sample_pushed = push_message (codes ''f'') 1 None (hashed (sample_sync 4) sample_chunk)"

definition sample_payload :: mval where
  "sample_payload = push_payload (in_chunk sample_pushed) (in_path sample_pushed) (in_total sample_pushed) (in_version sample_pushed)"

definition file_channel :: "pystr \<Rightarrow> mval secure_channel" where
  "file_channel own = (mval_channel own)\<lparr>sc_packb := (\<lambda>m. if m = sample_payload then Inr [1] else Inl (Py TypeError)),
     sc_unpackb := (\<lambda>b. Inr sample_payload)\<rparr>"

definition file_transport :: "pystr \<Rightarrow> session_store \<Rightarrow> tcp_transport" where
  "file_transport own st = (sample_transport own st)\<lparr>tt_channel := file_channel own\<rparr>"

lemma file_channels_meet: "channels_meet (file_channel [66]) (file_channel [65])"
  by (simp add: channels_meet_def aead_laws_def pack_laws_def pack_law_def file_channel_def mval_channel_def TAG_SIZE_def
      utf8_encode_def scalar_def utf8_char_def)

lemma file_transport_sel [simp]:
  "tt_channel (file_transport own st) = file_channel own" "tt_sessions (file_transport own st) = st"
  "tt_inbox (file_transport own st) = []" "tt_active (file_transport own st) = 0"
  "sc_timestamp_skew_ms (file_channel own) = 300000"
  by (simp_all add: file_transport_def sample_transport_def file_channel_def mval_channel_def)

lemma file_own: "sc_own_device_id (file_channel own) = sc_own_device_id (mval_channel own)"
  by (simp add: file_channel_def)

lemma file_transports_linked:
  "linked sample_peer (file_transport [66] one_session_store) (file_transport [65] receiver_store)"
  "can_carry [(sample_clock, sample_clock)] sample_peer (file_transport [66] one_session_store)"
proof -
  let ?s = "sample_session 1 True"
  have one: "get_by_session_id one_session_store k = (if k = ps_session_id ?s then Some ?s else None)" for k
    by (simp add: one_session_store_def get_add_session) (simp add: get_by_session_id_def mk_SessionStore_def)
  have "matching_sessions (file_channel [66]) ?s (file_channel [65]) Secure_Channel.sample_receiver"
    using sample_facts(1) unfolding matching_sessions_def file_own .
  moreover have "window_rel (ps_receive_window Secure_Channel.sample_receiver) \<lparr>s_window = 1, s_highest = 0, s_seen = {}\<rparr>"
    using bits_is_set_replicate [of _ 1] by (auto simp: window_rel_def Secure_Channel.sample_receiver_def sample_session_def)
  then have "window_ready (ps_receive_window Secure_Channel.sample_receiver) 1"
    by (auto simp: window_ready_def Secure_Channel.sample_receiver_def sample_session_def)
  moreover have "ps_session_id ?s = ps_session_id Secure_Channel.sample_receiver" by (simp add: Secure_Channel.sample_receiver_def)
  ultimately have "session_linked (file_transport [66] one_session_store) (file_transport [65] receiver_store) ?s"
    using sample_facts(5) by (auto simp: session_linked_def sample_fields)
  then show "linked sample_peer (file_transport [66] one_session_store) (file_transport [65] receiver_store)"
    using file_channels_meet one_session_store_inv receiver_store_ok
    by (auto simp: linked_def one MAX_CONCURRENT_CONNECTIONS_def split: if_splits)
  show "can_carry [(sample_clock, sample_clock)] sample_peer (file_transport [66] one_session_store)"
    unfolding can_carry_def
    by (intro exI [of _ ?s]) (simp add: one sample_fields sample_session_def one_session_store_def get_add_session lifetime_add mk_SessionStore_def
        MAX_KEY_LIFETIME_S_def MAX_MESSAGES_PER_KEY_def MAX_COUNTER_def)
qed

lemma sample_wire: "wire_chunk (in_chunk sample_pushed)"
proof -
  have "int16_ok (replicate 64 48)" by code_simp
  then show ?thesis
    by (simp add: wire_chunk_def sample_pushed_def push_message_def chunk_at_def wf_chunk_def wf_metadata_def wf_hash_def
        metadata_with_hash_def sample_sync_def Receive_Push.sample_receiver_def codes_def)
qed

theorem file_pushed_over_tcp_witness:
  "\<exists>arrived a' b' rst'. carry_pushes [(sample_clock, sample_clock)] sample_peer [sample_pushed]
       (file_transport [66] one_session_store, file_transport [65] receiver_store) = (map (\<lambda>i. Inr (Some (raw_of i))) arrived, a', b') \<and>
     run_events Receive_Push.sample_receiver (\<lambda>_. False) (map2 Push [sample_env] arrived) sample_state = (Inr (), rst') \<and>
     rp_fs rst' sample_dest = Some (FileNode [7, 8])"
proof -
  let ?sf = "sample_sync 4" and ?st = "sample_source [7, 8]" and ?rc = Receive_Push.sample_receiver
  have root: "path_join (sf_root ?sf) (codes ''f'') = sample_dest" using sample_join by (simp add: sample_sync_def)
  have ok: "reader_ok ?sf" by (rule sample_reader_ok) simp
  have src: "ss_fs ?st (path_join (sf_root ?sf) (codes ''f'')) = Some (FileNode [7, 8])" "[7 :: byte, 8] \<noteq> []"
    unfolding root by (simp_all add: sample_source_def)
  have io: "io_manifest sample_io = Inr None" "io_version sample_io = Inr None" "\<forall>n. io_send sample_io n = Inr ()" "io_save sample_io = Inr ()"
    by (simp_all add: sample_io_def)
  have cs: "[sample_chunk] = fst (read_source ?sf (ss_fs ?st) (path_join (sf_root ?sf) (codes ''f'')))"
    unfolding root using sample_read by simp
  have diff: "distinct (map (\<lambda>c. digest (sf_hash ?sf (ck_data c))) [sample_chunk])" by simp
  have lim: "within_limits ?rc [sample_chunk]" "rc_hash ?rc = sf_hash ?sf"
    by (simp_all add: within_limits_def Receive_Push.sample_receiver_def default_limits_def sample_sync_def)
  have pushed: "[sample_pushed] = drop (length (ss_sent ?st)) (ss_sent (snd (push ?sf sample_io (codes ''f'') ?st)))"
  proof -
    obtain xs st' where x: "read_source ?sf (ss_fs ?st) (path_join (sf_root ?sf) (codes ''f'')) = (xs, None)"
        "snd (push ?sf sample_io (codes ''f'') ?st) = st'" "ss_sent st' = ss_sent ?st @ map (\<lambda>c. push_message (codes ''f'')
           (int (card ((\<lambda>c. digest (sf_hash ?sf (ck_data c))) ` set xs))) None (hashed ?sf c)) xs"
      using first_push [OF ok src io] by fastforce
    then have "xs = [sample_chunk]" using cs by simp
    then show ?thesis using x(2,3) by (simp add: sample_pushed_def)
  qed
  have agree: "list_all (clocks_agree (sc_timestamp_skew_ms (tt_channel (file_transport [65] receiver_store)))) [(sample_clock, sample_clock)]"
    by (simp add: clocks_agree_def sample_fields)
  have fits: "list_all (fits_message (tt_channel (file_transport [66] one_session_store))) [sample_pushed]"
    using sample_wire
    by (simp add: fits_message_def file_channel_def sample_payload_def MAX_MESSAGE_SIZE_def) (simp add: wire_version_def sample_pushed_def push_message_def)
  have free: "rp_fs sample_state sample_dest \<noteq> Some DirNode" "pp_parts sample_dest \<noteq> []"
    "sample_disk (temp_path sample_dest (ev_rnd (hd [sample_env]))) = None" using sample_free by simp_all
  have env: "list_all calm [sample_env]" "length [sample_env] = length [sample_pushed]" "length [(sample_clock, sample_clock)] = length [sample_pushed]"
    by (simp_all add: calm_def sample_env_def)
  obtain arrived a' b' rst' where "carry_pushes [(sample_clock, sample_clock)] sample_peer [sample_pushed]
       (file_transport [66] one_session_store, file_transport [65] receiver_store) = (map (\<lambda>i. Inr (Some (raw_of i))) arrived, a', b')"
    "run_events ?rc (\<lambda>_. False) (map2 Push [sample_env] arrived) sample_state = (Inr (), rst')"
    "rp_fs rst' = sample_disk(sample_dest \<mapsto> FileNode ([7, 8] @ drop (length [7 :: byte, 8]) (file_bytes (rp_fs sample_state sample_dest))))"
    using file_pushed_over_tcp [OF ok src io cs diff lim pushed _ file_transports_linked agree fits env(3) sample_resolve free(2) sample_idle
        sample_mkdir free(1,3) env(1,2), where refused = "\<lambda>_. False"] file_channels_meet
    unfolding file_transport_sel by blast
  then show ?thesis using sample_free(1) by (intro exI [of _ arrived] exI [of _ a'] exI [of _ b'] exI [of _ rst']) (simp add: file_bytes_def)
qed

end
