(* ===== verification/Spec2Isabelle.thy ===== *)
theory Spec2Isabelle
  imports Secure_Channel Session_Keys Sync_Direction Delta Chunk_Reader Safe_Path Version_Vectors
    Handshake_Run Rate_Limit Sync_File X25519_Handshake
    Manifest_Exchange Orchestration Metadata_Store Trusted_Peers Sas
    In_Process_Transport Mdns_Discovery Watcher Cli Linked_Transports Push_Over_Tcp
begin

text \<open>
  Verification library for SecureSync, a peer-to-peer file synchronisation engine. Devices find each other on the local
  network, establish encrypted sessions, exchange manifests of their files and push or pull the chunks that differ. All
  paths below are relative to \<^verbatim>\<open>src/securesync\<close>; \<^verbatim>\<open>networking\<close>, \<^verbatim>\<open>chunking\<close>, \<^verbatim>\<open>metadata\<close>, \<^verbatim>\<open>filesystem\<close>, \<^verbatim>\<open>crypto\<close>
  and \<^verbatim>\<open>config\<close> are the directories of that name under \<^verbatim>\<open>infrastructure\<close>.

  How the parts interact. \<^verbatim>\<open>main.py\<close> constructs the adapters and starts a handshake server, a transfer transport and a
  manifest exchange. Discovery (\<^verbatim>\<open>networking/mdns_discovery.py\<close>) reports peers to the orchestrator
  (\<^verbatim>\<open>application/orchestration.py\<close>), which asks the session coordinator for a session (a handshake, whose result enters the
  session store) and then synchronises files with \<^verbatim>\<open>application/use_cases/sync_file.py\<close>: the manifest of the peer is
  requested, a direction is chosen from version vectors and content hashes, and chunks are sent or requested through
  \<^verbatim>\<open>networking/tcp_transport.py\<close>. Every message is a packet, sealed by the secure channel into a frame under the keys
  and counters of a session and opened only once, behind the replay window. The receiver of pushes
  (\<^verbatim>\<open>application/use_cases/receive_pushed_files.py\<close>) checks each chunk, collects it in a partial file and commits the file
  with a rename. A watcher reports changes of local files to its observers.
\<close>

section \<open>How the model reads\<close>

text \<open>
  Bytes are words of 8 bits, a Python \<open>str\<close> is the list of its code points, a \<open>dict\<close> an association list in insertion
  order, \<open>int\<close> is unbounded and becomes bytes only where the code packs it. Floating point times are reals. A fallible
  operation returns \<open>Inl\<close> of an exception or \<open>Inr\<close> of its value (\<open>result\<close>); \<open>raise_if\<close> and \<open>rbind\<close> follow the early returns of the
  code. An object is a record, and an operation takes it and returns it updated, also when it fails, so that what a failed
  call leaves behind can be stated. Clocks, random numbers and what the environment does at an await or a system call
  are arguments of the operation that meets them.

  The shared theories. \<open>Prelude\<close>: values, results, dictionaries, packing of integers, and the locales \<open>codec\<close>
  (an encoder and its decoder: Utf8, Wire_Protocol, Frames, Handshake_Messages), \<open>kv_store\<close> (the trust store) and
  \<open>machine_inv\<close> (a step function with an invariant: session store, conflict repository, peers, transport, metadata
  store, handshake server). \<open>Transitions\<close>: \<open>transition_inv\<close> for step relations (orchestrator, watcher) and
  components that settle. \<open>Utf8\<close>: \<^verbatim>\<open>str.encode\<close> and \<^verbatim>\<open>bytes.decode\<close>. \<open>Decimal\<close>: \<^verbatim>\<open>str(n)\<close>. \<open>Messages\<close>: the values of
  MessagePack and JSON as Python sees them, and the reading of length-prefixed messages (\<^verbatim>\<open>networking/message_io.py\<close>).

  Termination and fuel. No definition uses fuel: loops over data are structural recursions, and the others
  (the reads of \<open>Chunk_Reader\<close>, the evictions of \<open>Session_Store\<close>, the decoder of \<open>Utf8\<close>) are functions with a measure.
  Loops that run as long as the program does (the orchestrator, the receive loop, the servers, the watcher) are step
  relations or functions of the list of their events; their properties hold for every such history, and that they
  end when told to is proved as such.
\<close>

section \<open>Sessions and messages\<close>

text \<open>
  \<open>Replay_Window\<close> (\<^verbatim>\<open>AntiReplayWindow\<close> in \<^verbatim>\<open>networking/replay_protection.py\<close>): the bitmask that slides, refined to the set of
  all accepted counters. \<open>Frames\<close> (the rest of that file, \<^verbatim>\<open>domain/crypto.py\<close>): header, frame, direction, nonce, associated data.
  \<open>Wire_Protocol\<close> (\<^verbatim>\<open>core/protocol.py\<close>): packet header and payload with CRC-32, which is computed, not assumed.
  \<open>Session_Keys\<close> (\<^verbatim>\<open>networking/session_keys.py\<close>): the key schedule, agreement of the two roles and separation of its inputs.
  \<open>Session_Store\<close> (\<^verbatim>\<open>networking/session_store.py\<close>): the two indexes, the caps, eviction, expiry; every history keeps
  the invariant, the loops of the caps end, and a flood of unconfirmed sessions does not displace confirmed ones below the cap.
  \<open>Secure_Channel\<close> (\<^verbatim>\<open>networking/secure_channel.py\<close>): \<open>seal\<close> and \<open>open_frame\<close>. What is sealed opens at the other end; no
  frame is accepted twice; a frame that is refused changes nothing; nonces of one session differ. The round trip asks of
  MessagePack only what it does with the payload at hand (\<open>pack_law\<close>).
\<close>

section \<open>Handshakes\<close>

text \<open>
  \<open>Handshake_Messages\<close>, \<open>Handshake_Keys\<close>, \<open>Handshake_V3\<close>, \<open>Handshake_Run\<close> (\<^verbatim>\<open>networking/handshake_messages.py\<close>,
  \<^verbatim>\<open>x25519_safety.py\<close>, \<^verbatim>\<open>handshake_keys.py\<close>, \<^verbatim>\<open>handshake_v3.py\<close>, \<^verbatim>\<open>domain/identity.py\<close>): the four messages with their checks, the
  transcript chain, the secrets and confirmation codes, both roles as functions of what each read and write yields, the
  guard of half-open exchanges. The responder keeps the order of its effects (bytes handed to the socket, pin, callback), so that
  what happens before what is part of the statements. Honest ends agree; a key is pinned or committed only after signature and
  confirmation under the secrets of this very key exchange verified, and message 4 follows the callback; the transcript
  determines the exchange. \<open>Rate_Limit\<close> (\<^verbatim>\<open>networking/handshake_rate_limit.py\<close>): the sliding window per
  address and the token bucket. \<open>X25519_Handshake\<close> (\<^verbatim>\<open>networking/x25519_handshake.py\<close>,
  \<^verbatim>\<open>x25519_session_coordinator.py\<close>, and \<^verbatim>\<open>_drain_inbound_handshakes\<close> of \<^verbatim>\<open>main.py\<close>): the two-message handshake that \<^verbatim>\<open>main.py\<close>
  wires up, its server, and how results become sessions. The id of a message is pinned by the trust file before anything needs it
  to be a text; \<open>pin_name\<close> says what the file makes of other ids. A port that is not a number is refused where it is read, though the
  code would keep it until it connects. \<open>Sas\<close> and \<open>Sas_Wordlist\<close> (\<^verbatim>\<open>networking/handshake_sas.py\<close>,
  \<^verbatim>\<open>sas_wordlist.py\<close>): the string two users compare, equivalent to the leading bits of a digest, and the table of 2048 words,
  proved sorted and free of repetition. \<open>Trusted_Peers\<close> (\<^verbatim>\<open>networking/file_trusted_peer_repository.py\<close>): the pinned keys on disk.

  What is not interleaved. One exchange reads and writes the pins without another exchange of the same process pinning a key
  at an await between its check and its write; the half-open counter, the rate limits and the connections of the handshake
  server are interleaved. An exchange of \<^verbatim>\<open>x25519_handshake.py\<close> takes effect on the pins at its end.
\<close>

section \<open>Files\<close>

text \<open>
  \<open>Chunks\<close> (\<^verbatim>\<open>domain/chunk.py\<close>): the value objects and what their constructors refuse. \<open>Chunk_Reader\<close>
  (\<^verbatim>\<open>chunking/streaming_chunk_reader.py\<close>): the port \<^verbatim>\<open>ChunkingStrategy\<close> is the locale \<open>chunking_strategy\<close>, in which the reader
  is proved to lose and repeat nothing; the fixed-size strategy is its interpretation. \<open>Safe_Path\<close> (\<^verbatim>\<open>shared/safe_path.py\<close>):
  the one place where a path of a peer becomes a local one. \<open>File_Store\<close> (\<^verbatim>\<open>chunking/local_file_reconstructor.py\<close>,
  \<^verbatim>\<open>_atomic_write.py\<close>, \<^verbatim>\<open>chunk_file_writer.py\<close>): the file system as a map, every system call with the failures it may
  have; making directories fails where a file is in the way, or is refused after some of them are there (\<open>make_dirs\<close>). \<open>Chunk_Repository\<close> (\<^verbatim>\<open>chunking/file_chunk_repository.py\<close>) and \<open>Metadata_Store\<close>
  (\<^verbatim>\<open>metadata/sqlite_metadata_repository.py\<close>): refinements of a map from source paths to manifests, up to collisions of SHA-256,
  and of tables with transactions; what is loaded carries the algorithm of a hash as the text of the column.
  \<open>Version_Vectors\<close>, \<open>Conflicts\<close>, \<open>Delta\<close>, \<open>Sync_Direction\<close> (\<^verbatim>\<open>domain/conflict.py\<close>, \<^verbatim>\<open>delta.py\<close>, \<^verbatim>\<open>sync_direction.py\<close>,
  \<^verbatim>\<open>networking/in_memory_conflict_repository.py\<close>, \<^verbatim>\<open>application/use_cases/conflict_resolution.py\<close>): the order and merge of version
  vectors against their pointwise meaning, what has to be transferred, which way, and the records of conflicts.
  \<open>Receive_Push\<close> and \<open>Sync_File\<close> (the use cases of these names, with \<^verbatim>\<open>calculate_chunk_hashes\<close>, \<^verbatim>\<open>chunk_file\<close>,
  \<^verbatim>\<open>verify_chunk\<close>, \<^verbatim>\<open>compute_delta\<close> and \<^verbatim>\<open>transfer_chunks\<close>): what pushing, pulling and receiving does to the files of both sides.
  The metadata repository may raise when a file is finished (\<open>metadata_fault\<close>), after the rename; the receiver survives everything
  but such an error. The use cases take pushes and manifests of the declared types, in which data are bytes and counters go from
  texts to numbers; what comes off the wire is described below.
\<close>

section \<open>Network and life cycle\<close>

text \<open>
  \<open>Peers\<close> (\<^verbatim>\<open>domain/networking.py\<close>, \<^verbatim>\<open>networking/in_memory_peer_repository.py\<close>, \<^verbatim>\<open>application/use_cases/discover_peers.py\<close>) and
  \<open>Mdns_Discovery\<close> (\<^verbatim>\<open>networking/mdns_discovery.py\<close>): the peers and how advertisements become peers. \<open>Tcp_Transport\<close>
  (\<^verbatim>\<open>networking/tcp_transport.py\<close>), \<open>Manifest_Exchange\<close> (\<^verbatim>\<open>networking/tcp_manifest_exchange.py\<close>) and \<open>In_Process_Transport\<close>
  (\<^verbatim>\<open>networking/in_process_transport.py\<close>): chunks, manifests and requests as sealed messages, with the bounds on inbox and
  connections. Nothing checks the type of received data and counters, so what is received is a \<open>raw_push\<close>, \<open>raw_chunk\<close> or
  \<open>raw_manifest\<close> with the values of the wire; \<open>raw_of\<close> embeds the typed ones, \<open>typed_push\<close> recovers them, and \<open>validate_raw\<close> shows
  that other data raises in the receiver. \<open>Orchestration\<close> (\<^verbatim>\<open>application/orchestration.py\<close>): the state machine with one position per await of each sync loop and
  of each call of \<open>start\<close> and \<open>stop\<close>. \<open>Filesystem_Events\<close> and \<open>Watcher\<close> (\<^verbatim>\<open>domain/events.py\<close>, \<^verbatim>\<open>filesystem/event_translator.py\<close>,
  \<^verbatim>\<open>debounce.py\<close>, \<^verbatim>\<open>watchdog_watcher.py\<close>, \<^verbatim>\<open>application/use_cases/monitor_directories.py\<close>): events, the debouncer and the delivery to
  observers. \<open>Crypto_Adapters\<close> (\<^verbatim>\<open>crypto/pyca_crypto.py\<close>, \<^verbatim>\<open>ed25519_identity_provider.py\<close>, \<^verbatim>\<open>chunking/sha256_hash_provider.py\<close>): the
  adapters, shown to satisfy the laws the channel asks of its cipher, and the identity files. \<open>Configuration\<close>
  (\<^verbatim>\<open>domain/config.py\<close>, \<^verbatim>\<open>config/yaml_config_loader.py\<close>) and \<open>Cli\<close> (\<^verbatim>\<open>presentation/cli.py\<close>: \<open>init\<close>, \<open>trust\<close> and the lookup
  of the configuration).

  \<open>Linked_Transports\<close> and \<open>Push_Over_Tcp\<close> compose them. \<open>linked\<close> says that every session the sender may use has its
  counterpart at the receiver; a handshake whose results enter the two stores establishes it, each carried message keeps it,
  and over linked transports a pushed file is the file the receiver has at the end. The laws of the cipher and of MessagePack
  (\<open>channels_meet\<close>) are a hypothesis of both, not part of the contract.

  What is taken as one step. \<open>ensure_session\<close> checks and stores in one step, although the handshake lies between. A file that
  is read twice by one push is assumed not to change in between. The handler of the manifest exchange runs to its end before the
  next one. Calls of the metadata store come one at a time on an open connection. The watcher has one dispatching thread, a call
  of the debouncer and the hand-over to the event loop are one step, and the event loop starts tasks in the order of their
  hand-over. What another task does at an await of the orchestrator is a step of its own there.
\<close>

section \<open>Parameters\<close>

text \<open>
  Code outside the repository is a parameter, and what the code relies on is a named hypothesis: the cipher (\<open>aead_laws\<close>:
  encryption of well-sized input succeeds and decryption under the same key, nonce and associated data returns the
  plaintext), HKDF (\<open>hkdf_length\<close>), HMAC and SHA-256, signatures and key exchange (fields of \<open>hs_crypto\<close> and \<open>x_crypto\<close>), MessagePack
  (\<open>pack_laws\<close>: a value with text keys, each once, and without floats, once packed, unpacks to itself; nothing is said of other values,
  which \<^verbatim>\<open>unpackb\<close> may refuse), \<^verbatim>\<open>orjson\<close> (\<open>orjson_law\<close>, for the same values) and \<^verbatim>\<open>json\<close> (\<open>json_laws\<close>: dictionaries with text keys keep
  their texts; a loaded dictionary has text keys only), YAML, \<^verbatim>\<open>Path.resolve\<close>, the ISO format of datetimes, \<^verbatim>\<open>uuid4\<close> and
  \<^verbatim>\<open>uuid5\<close>, the sockets, \<^verbatim>\<open>zeroconf\<close> and \<^verbatim>\<open>watchdog\<close>. Each property that uses such a hypothesis has a witness with a
  concrete instance. The length of a ciphertext is that of its plaintext where a bound on a message needs it.
\<close>

section \<open>Not modelled\<close>

text \<open>
  \<^verbatim>\<open>bootstrap\<close> in \<^verbatim>\<open>main.py\<close>: it constructs objects, starts servers and tasks and stops them; the composition it makes is the one of
  the theories above. Argument parsing by \<^verbatim>\<open>typer\<close> and the commands of \<^verbatim>\<open>presentation/cli.py\<close> that only print. The abstract ports
  in \<^verbatim>\<open>domain\<close> (among them the unused ones for the progress of transfers): they have no code, and their implementations
  are modelled. The texts of exceptions and log messages: an exception is its class. \<^verbatim>\<open>utils/async_iter.py\<close>, which runs each
  step of an iterator in a thread and changes neither its values nor their order. \<^verbatim>\<open>application/observers/logging_observer.py\<close>,
  which logs. Scheduling below the level of an await, and opening and closing the connection of the metadata store. The text of the
  reasons a sync direction carries is a constructor per message.
\<close>

end
